(* ===== verification/Prelude.thy ===== *)
theory Prelude
  imports Main "HOL-Library.Word"
begin

text \<open>
  Shared vocabulary of the development: the machine integer types of the module
  (x86_64, little endian), the page constants, the theorem collections that carry the
  component proofs, and the generic lemmas on words and lists.
  \<^item> \<open>vmcs_simps\<close>: reads of the VMCS after a write, and frames of VMCS writes;
  \<^item> \<open>mask_bits\<close>: which bits a mask constant has, for bitwise proofs;
  \<^item> \<open>mem_simps\<close>: loads after stores in host memory.
\<close>

unbundle bit_operations_syntax

named_theorems vmcs_simps "reads after VMCS writes and frames of VMCS writes"
named_theorems mask_bits "bits of the mask constants of the headers"
named_theorems mem_simps "loads after stores"

type_synonym u8 = "8 word"
type_synonym u16 = "16 word"
type_synonym u32 = "32 word"
type_synonym u64 = "64 word"

section \<open>Tests of single bits\<close>

text \<open>The C test \<open>x & (1 << n)\<close> and the updates that set or clear one bit.\<close>

lemma and_shift_neq_0 [simp]: "x AND push_bit n 1 \<noteq> 0 \<longleftrightarrow> bit x n"
  for x :: "'a::len word"
  by (simp add: and_exp_eq_0_iff_not_bit push_bit_eq_mult)

lemma and_shift_eq_0 [simp]: "x AND push_bit n 1 = 0 \<longleftrightarrow> \<not> bit x n"
  for x :: "'a::len word"
  by (simp add: and_exp_eq_0_iff_not_bit push_bit_eq_mult)

lemma bit_shift_1: "bit (push_bit k 1 :: 'a::len word) n \<longleftrightarrow> n = k \<and> k < LENGTH('a)"
  by (auto simp: bit_simps)

lemma and_1_eq_0 [simp]: "x AND 1 = 0 \<longleftrightarrow> \<not> bit x 0" for x :: "'a::len word"
  using and_shift_eq_0 [of x 0] by simp

lemma word_and_NOT_self [simp]: "x AND NOT x = 0" for x :: "'a::len word"
  by simp

lemma word_bit_high [simp]: "LENGTH('a) \<le> n \<Longrightarrow> \<not> bit (x :: 'a::len word) n"
  using bit_imp_le_length [of x n] by auto

lemma ucast_u32_u64_u32 [simp]: "ucast (ucast (x :: u32) :: u64) = x"
  by (rule bit_word_eqI) (simp add: bit_simps)

lemma ucast_u16_u64_u16 [simp]: "ucast (ucast (x :: u16) :: u64) = x"
  by (rule bit_word_eqI) (simp add: bit_simps)

lemma ucast_u8_u64_u8 [simp]: "ucast (ucast (x :: u8) :: u64) = x"
  by (rule bit_word_eqI) (simp add: bit_simps)

section \<open>Pages\<close>

definition PAGE_SHIFT :: nat where
  "PAGE_SHIFT = 12"

definition PAGE_SIZE :: u64 where
  "PAGE_SIZE = push_bit PAGE_SHIFT 1"

definition PAGE_MASK :: u64 where
  "PAGE_MASK = NOT (PAGE_SIZE - 1)"

lemma PAGE_SIZE_val: "PAGE_SIZE = 4096"
  by (simp add: PAGE_SIZE_def PAGE_SHIFT_def)

lemma PAGE_SIZE_minus_1: "PAGE_SIZE - 1 = mask 12"
  by (simp add: PAGE_SIZE_val mask_numeral)

lemma PAGE_MASK_mask: "PAGE_MASK = NOT (mask 12)"
  by (simp add: PAGE_MASK_def PAGE_SIZE_minus_1)

lemma bit_PAGE_MASK [mask_bits]: "bit PAGE_MASK n \<longleftrightarrow> 12 \<le> n \<and> n < 64"
  by (auto simp: PAGE_MASK_mask bit_simps)

lemma bit_page_offset_mask [mask_bits]: "bit (PAGE_SIZE - 1) n \<longleftrightarrow> n < 12"
  by (auto simp: PAGE_SIZE_minus_1 bit_simps)

text \<open>The frame number and the offset of an address.\<close>

lemma page_split: "(a AND PAGE_MASK) OR (a AND NOT PAGE_MASK) = a" for a :: u64
  by (rule bit_word_eqI) (auto simp: bit_simps)

lemma frame_of_page: "drop_bit PAGE_SHIFT (push_bit PAGE_SHIFT p OR (a AND (PAGE_SIZE - 1)))
    = take_bit 52 p" for p :: u64
  by (rule bit_word_eqI) (auto simp: bit_simps mask_bits PAGE_SHIFT_def)

section \<open>Lists\<close>

lemma nth_list_update_if:
  "i < length xs \<Longrightarrow> xs[i := x] ! j = (if i = j then x else xs ! j)"
  by (auto simp: nth_list_update)

lemma distinct_remove1_notin: "distinct xs \<Longrightarrow> x \<notin> set (remove1 x xs)"
  by simp

end
