(* ===== verification/Vmx_Defs.thy ===== *)
theory Vmx_Defs
  imports Prelude
begin

text \<open>
  The VMX encodings of \<open>vmx.h\<close>: the VMCS field numbers (\<open>enum vmcs_field\<close>), the exit
  reasons, the interruption-information format, the execution controls and the segment
  access-rights layout. Field numbers are natural numbers (the index given to VMREAD and
  VMWRITE); the values that are combined with \<open>u32\<close> fields are 32 bit words. The lemmas
  of the collection \<open>mask_bits\<close> say which bits a mask has.
\<close>

section \<open>VMCS fields\<close>

abbreviation (input) GUEST_ES_SELECTOR :: nat where
  "GUEST_ES_SELECTOR \<equiv> 0x800"

abbreviation (input) GUEST_CS_SELECTOR :: nat where
  "GUEST_CS_SELECTOR \<equiv> 0x802"

abbreviation (input) GUEST_SS_SELECTOR :: nat where
  "GUEST_SS_SELECTOR \<equiv> 0x804"

abbreviation (input) GUEST_DS_SELECTOR :: nat where
  "GUEST_DS_SELECTOR \<equiv> 0x806"

abbreviation (input) GUEST_FS_SELECTOR :: nat where
  "GUEST_FS_SELECTOR \<equiv> 0x808"

abbreviation (input) GUEST_GS_SELECTOR :: nat where
  "GUEST_GS_SELECTOR \<equiv> 0x80a"

abbreviation (input) GUEST_LDTR_SELECTOR :: nat where
  "GUEST_LDTR_SELECTOR \<equiv> 0x80c"

abbreviation (input) GUEST_TR_SELECTOR :: nat where
  "GUEST_TR_SELECTOR \<equiv> 0x80e"

abbreviation (input) HOST_ES_SELECTOR :: nat where
  "HOST_ES_SELECTOR \<equiv> 0xc00"

abbreviation (input) HOST_CS_SELECTOR :: nat where
  "HOST_CS_SELECTOR \<equiv> 0xc02"

abbreviation (input) HOST_SS_SELECTOR :: nat where
  "HOST_SS_SELECTOR \<equiv> 0xc04"

abbreviation (input) HOST_DS_SELECTOR :: nat where
  "HOST_DS_SELECTOR \<equiv> 0xc06"

abbreviation (input) HOST_FS_SELECTOR :: nat where
  "HOST_FS_SELECTOR \<equiv> 0xc08"

abbreviation (input) HOST_GS_SELECTOR :: nat where
  "HOST_GS_SELECTOR \<equiv> 0xc0a"

abbreviation (input) HOST_TR_SELECTOR :: nat where
  "HOST_TR_SELECTOR \<equiv> 0xc0c"

abbreviation (input) IO_BITMAP_A :: nat where
  "IO_BITMAP_A \<equiv> 0x2000"

abbreviation (input) IO_BITMAP_A_HIGH :: nat where
  "IO_BITMAP_A_HIGH \<equiv> 0x2001"

abbreviation (input) IO_BITMAP_B :: nat where
  "IO_BITMAP_B \<equiv> 0x2002"

abbreviation (input) IO_BITMAP_B_HIGH :: nat where
  "IO_BITMAP_B_HIGH \<equiv> 0x2003"

abbreviation (input) MSR_BITMAP :: nat where
  "MSR_BITMAP \<equiv> 0x2004"

abbreviation (input) MSR_BITMAP_HIGH :: nat where
  "MSR_BITMAP_HIGH \<equiv> 0x2005"

abbreviation (input) VM_EXIT_MSR_STORE_ADDR :: nat where
  "VM_EXIT_MSR_STORE_ADDR \<equiv> 0x2006"

abbreviation (input) VM_EXIT_MSR_STORE_ADDR_HIGH :: nat where
  "VM_EXIT_MSR_STORE_ADDR_HIGH \<equiv> 0x2007"

abbreviation (input) VM_EXIT_MSR_LOAD_ADDR :: nat where
  "VM_EXIT_MSR_LOAD_ADDR \<equiv> 0x2008"

abbreviation (input) VM_EXIT_MSR_LOAD_ADDR_HIGH :: nat where
  "VM_EXIT_MSR_LOAD_ADDR_HIGH \<equiv> 0x2009"

abbreviation (input) VM_ENTRY_MSR_LOAD_ADDR :: nat where
  "VM_ENTRY_MSR_LOAD_ADDR \<equiv> 0x200a"

abbreviation (input) VM_ENTRY_MSR_LOAD_ADDR_HIGH :: nat where
  "VM_ENTRY_MSR_LOAD_ADDR_HIGH \<equiv> 0x200b"

abbreviation (input) TSC_OFFSET :: nat where
  "TSC_OFFSET \<equiv> 0x2010"

abbreviation (input) TSC_OFFSET_HIGH :: nat where
  "TSC_OFFSET_HIGH \<equiv> 0x2011"

abbreviation (input) VIRTUAL_APIC_PAGE_ADDR :: nat where
  "VIRTUAL_APIC_PAGE_ADDR \<equiv> 0x2012"

abbreviation (input) VIRTUAL_APIC_PAGE_ADDR_HIGH :: nat where
  "VIRTUAL_APIC_PAGE_ADDR_HIGH \<equiv> 0x2013"

abbreviation (input) VMCS_LINK_POINTER :: nat where
  "VMCS_LINK_POINTER \<equiv> 0x2800"

abbreviation (input) VMCS_LINK_POINTER_HIGH :: nat where
  "VMCS_LINK_POINTER_HIGH \<equiv> 0x2801"

abbreviation (input) GUEST_IA32_DEBUGCTL :: nat where
  "GUEST_IA32_DEBUGCTL \<equiv> 0x2802"

abbreviation (input) GUEST_IA32_DEBUGCTL_HIGH :: nat where
  "GUEST_IA32_DEBUGCTL_HIGH \<equiv> 0x2803"

abbreviation (input) PIN_BASED_VM_EXEC_CONTROL :: nat where
  "PIN_BASED_VM_EXEC_CONTROL \<equiv> 0x4000"

abbreviation (input) CPU_BASED_VM_EXEC_CONTROL :: nat where
  "CPU_BASED_VM_EXEC_CONTROL \<equiv> 0x4002"

abbreviation (input) EXCEPTION_BITMAP :: nat where
  "EXCEPTION_BITMAP \<equiv> 0x4004"

abbreviation (input) PAGE_FAULT_ERROR_CODE_MASK :: nat where
  "PAGE_FAULT_ERROR_CODE_MASK \<equiv> 0x4006"

abbreviation (input) PAGE_FAULT_ERROR_CODE_MATCH :: nat where
  "PAGE_FAULT_ERROR_CODE_MATCH \<equiv> 0x4008"

abbreviation (input) CR3_TARGET_COUNT :: nat where
  "CR3_TARGET_COUNT \<equiv> 0x400a"

abbreviation (input) VM_EXIT_CONTROLS :: nat where
  "VM_EXIT_CONTROLS \<equiv> 0x400c"

abbreviation (input) VM_EXIT_MSR_STORE_COUNT :: nat where
  "VM_EXIT_MSR_STORE_COUNT \<equiv> 0x400e"

abbreviation (input) VM_EXIT_MSR_LOAD_COUNT :: nat where
  "VM_EXIT_MSR_LOAD_COUNT \<equiv> 0x4010"

abbreviation (input) VM_ENTRY_CONTROLS :: nat where
  "VM_ENTRY_CONTROLS \<equiv> 0x4012"

abbreviation (input) VM_ENTRY_MSR_LOAD_COUNT :: nat where
  "VM_ENTRY_MSR_LOAD_COUNT \<equiv> 0x4014"

abbreviation (input) VM_ENTRY_INTR_INFO_FIELD :: nat where
  "VM_ENTRY_INTR_INFO_FIELD \<equiv> 0x4016"

abbreviation (input) VM_ENTRY_EXCEPTION_ERROR_CODE :: nat where
  "VM_ENTRY_EXCEPTION_ERROR_CODE \<equiv> 0x4018"

abbreviation (input) VM_ENTRY_INSTRUCTION_LEN :: nat where
  "VM_ENTRY_INSTRUCTION_LEN \<equiv> 0x401a"

abbreviation (input) TPR_THRESHOLD :: nat where
  "TPR_THRESHOLD \<equiv> 0x401c"

abbreviation (input) SECONDARY_VM_EXEC_CONTROL :: nat where
  "SECONDARY_VM_EXEC_CONTROL \<equiv> 0x401e"

abbreviation (input) VM_INSTRUCTION_ERROR :: nat where
  "VM_INSTRUCTION_ERROR \<equiv> 0x4400"

abbreviation (input) VM_EXIT_REASON :: nat where
  "VM_EXIT_REASON \<equiv> 0x4402"

abbreviation (input) VM_EXIT_INTR_INFO :: nat where
  "VM_EXIT_INTR_INFO \<equiv> 0x4404"

abbreviation (input) VM_EXIT_INTR_ERROR_CODE :: nat where
  "VM_EXIT_INTR_ERROR_CODE \<equiv> 0x4406"

abbreviation (input) IDT_VECTORING_INFO_FIELD :: nat where
  "IDT_VECTORING_INFO_FIELD \<equiv> 0x4408"

abbreviation (input) IDT_VECTORING_ERROR_CODE :: nat where
  "IDT_VECTORING_ERROR_CODE \<equiv> 0x440a"

abbreviation (input) VM_EXIT_INSTRUCTION_LEN :: nat where
  "VM_EXIT_INSTRUCTION_LEN \<equiv> 0x440c"

abbreviation (input) VMX_INSTRUCTION_INFO :: nat where
  "VMX_INSTRUCTION_INFO \<equiv> 0x440e"

abbreviation (input) GUEST_ES_LIMIT :: nat where
  "GUEST_ES_LIMIT \<equiv> 0x4800"

abbreviation (input) GUEST_CS_LIMIT :: nat where
  "GUEST_CS_LIMIT \<equiv> 0x4802"

abbreviation (input) GUEST_SS_LIMIT :: nat where
  "GUEST_SS_LIMIT \<equiv> 0x4804"

abbreviation (input) GUEST_DS_LIMIT :: nat where
  "GUEST_DS_LIMIT \<equiv> 0x4806"

abbreviation (input) GUEST_FS_LIMIT :: nat where
  "GUEST_FS_LIMIT \<equiv> 0x4808"

abbreviation (input) GUEST_GS_LIMIT :: nat where
  "GUEST_GS_LIMIT \<equiv> 0x480a"

abbreviation (input) GUEST_LDTR_LIMIT :: nat where
  "GUEST_LDTR_LIMIT \<equiv> 0x480c"

abbreviation (input) GUEST_TR_LIMIT :: nat where
  "GUEST_TR_LIMIT \<equiv> 0x480e"

abbreviation (input) GUEST_GDTR_LIMIT :: nat where
  "GUEST_GDTR_LIMIT \<equiv> 0x4810"

abbreviation (input) GUEST_IDTR_LIMIT :: nat where
  "GUEST_IDTR_LIMIT \<equiv> 0x4812"

abbreviation (input) GUEST_ES_AR_BYTES :: nat where
  "GUEST_ES_AR_BYTES \<equiv> 0x4814"

abbreviation (input) GUEST_CS_AR_BYTES :: nat where
  "GUEST_CS_AR_BYTES \<equiv> 0x4816"

abbreviation (input) GUEST_SS_AR_BYTES :: nat where
  "GUEST_SS_AR_BYTES \<equiv> 0x4818"

abbreviation (input) GUEST_DS_AR_BYTES :: nat where
  "GUEST_DS_AR_BYTES \<equiv> 0x481a"

abbreviation (input) GUEST_FS_AR_BYTES :: nat where
  "GUEST_FS_AR_BYTES \<equiv> 0x481c"

abbreviation (input) GUEST_GS_AR_BYTES :: nat where
  "GUEST_GS_AR_BYTES \<equiv> 0x481e"

abbreviation (input) GUEST_LDTR_AR_BYTES :: nat where
  "GUEST_LDTR_AR_BYTES \<equiv> 0x4820"

abbreviation (input) GUEST_TR_AR_BYTES :: nat where
  "GUEST_TR_AR_BYTES \<equiv> 0x4822"

abbreviation (input) GUEST_INTERRUPTIBILITY_INFO :: nat where
  "GUEST_INTERRUPTIBILITY_INFO \<equiv> 0x4824"

abbreviation (input) GUEST_ACTIVITY_STATE :: nat where
  "GUEST_ACTIVITY_STATE \<equiv> 0x4826"

abbreviation (input) GUEST_SYSENTER_CS :: nat where
  "GUEST_SYSENTER_CS \<equiv> 0x482a"

abbreviation (input) HOST_IA32_SYSENTER_CS :: nat where
  "HOST_IA32_SYSENTER_CS \<equiv> 0x4c00"

abbreviation (input) CR0_GUEST_HOST_MASK :: nat where
  "CR0_GUEST_HOST_MASK \<equiv> 0x6000"

abbreviation (input) CR4_GUEST_HOST_MASK :: nat where
  "CR4_GUEST_HOST_MASK \<equiv> 0x6002"

abbreviation (input) CR0_READ_SHADOW :: nat where
  "CR0_READ_SHADOW \<equiv> 0x6004"

abbreviation (input) CR4_READ_SHADOW :: nat where
  "CR4_READ_SHADOW \<equiv> 0x6006"

abbreviation (input) CR3_TARGET_VALUE0 :: nat where
  "CR3_TARGET_VALUE0 \<equiv> 0x6008"

abbreviation (input) CR3_TARGET_VALUE1 :: nat where
  "CR3_TARGET_VALUE1 \<equiv> 0x600a"

abbreviation (input) CR3_TARGET_VALUE2 :: nat where
  "CR3_TARGET_VALUE2 \<equiv> 0x600c"

abbreviation (input) CR3_TARGET_VALUE3 :: nat where
  "CR3_TARGET_VALUE3 \<equiv> 0x600e"

abbreviation (input) EXIT_QUALIFICATION :: nat where
  "EXIT_QUALIFICATION \<equiv> 0x6400"

abbreviation (input) GUEST_LINEAR_ADDRESS :: nat where
  "GUEST_LINEAR_ADDRESS \<equiv> 0x640a"

abbreviation (input) GUEST_CR0 :: nat where
  "GUEST_CR0 \<equiv> 0x6800"

abbreviation (input) GUEST_CR3 :: nat where
  "GUEST_CR3 \<equiv> 0x6802"

abbreviation (input) GUEST_CR4 :: nat where
  "GUEST_CR4 \<equiv> 0x6804"

abbreviation (input) GUEST_ES_BASE :: nat where
  "GUEST_ES_BASE \<equiv> 0x6806"

abbreviation (input) GUEST_CS_BASE :: nat where
  "GUEST_CS_BASE \<equiv> 0x6808"

abbreviation (input) GUEST_SS_BASE :: nat where
  "GUEST_SS_BASE \<equiv> 0x680a"

abbreviation (input) GUEST_DS_BASE :: nat where
  "GUEST_DS_BASE \<equiv> 0x680c"

abbreviation (input) GUEST_FS_BASE :: nat where
  "GUEST_FS_BASE \<equiv> 0x680e"

abbreviation (input) GUEST_GS_BASE :: nat where
  "GUEST_GS_BASE \<equiv> 0x6810"

abbreviation (input) GUEST_LDTR_BASE :: nat where
  "GUEST_LDTR_BASE \<equiv> 0x6812"

abbreviation (input) GUEST_TR_BASE :: nat where
  "GUEST_TR_BASE \<equiv> 0x6814"

abbreviation (input) GUEST_GDTR_BASE :: nat where
  "GUEST_GDTR_BASE \<equiv> 0x6816"

abbreviation (input) GUEST_IDTR_BASE :: nat where
  "GUEST_IDTR_BASE \<equiv> 0x6818"

abbreviation (input) GUEST_DR7 :: nat where
  "GUEST_DR7 \<equiv> 0x681a"

abbreviation (input) GUEST_RSP :: nat where
  "GUEST_RSP \<equiv> 0x681c"

abbreviation (input) GUEST_RIP :: nat where
  "GUEST_RIP \<equiv> 0x681e"

abbreviation (input) GUEST_RFLAGS :: nat where
  "GUEST_RFLAGS \<equiv> 0x6820"

abbreviation (input) GUEST_PENDING_DBG_EXCEPTIONS :: nat where
  "GUEST_PENDING_DBG_EXCEPTIONS \<equiv> 0x6822"

abbreviation (input) GUEST_SYSENTER_ESP :: nat where
  "GUEST_SYSENTER_ESP \<equiv> 0x6824"

abbreviation (input) GUEST_SYSENTER_EIP :: nat where
  "GUEST_SYSENTER_EIP \<equiv> 0x6826"

abbreviation (input) HOST_CR0 :: nat where
  "HOST_CR0 \<equiv> 0x6c00"

abbreviation (input) HOST_CR3 :: nat where
  "HOST_CR3 \<equiv> 0x6c02"

abbreviation (input) HOST_CR4 :: nat where
  "HOST_CR4 \<equiv> 0x6c04"

abbreviation (input) HOST_FS_BASE :: nat where
  "HOST_FS_BASE \<equiv> 0x6c06"

abbreviation (input) HOST_GS_BASE :: nat where
  "HOST_GS_BASE \<equiv> 0x6c08"

abbreviation (input) HOST_TR_BASE :: nat where
  "HOST_TR_BASE \<equiv> 0x6c0a"

abbreviation (input) HOST_GDTR_BASE :: nat where
  "HOST_GDTR_BASE \<equiv> 0x6c0c"

abbreviation (input) HOST_IDTR_BASE :: nat where
  "HOST_IDTR_BASE \<equiv> 0x6c0e"

abbreviation (input) HOST_IA32_SYSENTER_ESP :: nat where
  "HOST_IA32_SYSENTER_ESP \<equiv> 0x6c10"

abbreviation (input) HOST_IA32_SYSENTER_EIP :: nat where
  "HOST_IA32_SYSENTER_EIP \<equiv> 0x6c12"

abbreviation (input) HOST_RSP :: nat where
  "HOST_RSP \<equiv> 0x6c14"

abbreviation (input) HOST_RIP :: nat where
  "HOST_RIP \<equiv> 0x6c16"

section \<open>Exit reasons\<close>

abbreviation (input) EXIT_REASON_EXCEPTION_NMI :: u32 where
  "EXIT_REASON_EXCEPTION_NMI \<equiv> 0"

abbreviation (input) EXIT_REASON_EXTERNAL_INTERRUPT :: u32 where
  "EXIT_REASON_EXTERNAL_INTERRUPT \<equiv> 1"

abbreviation (input) EXIT_REASON_PENDING_INTERRUPT :: u32 where
  "EXIT_REASON_PENDING_INTERRUPT \<equiv> 7"

abbreviation (input) EXIT_REASON_CPUID :: u32 where
  "EXIT_REASON_CPUID \<equiv> 10"

abbreviation (input) EXIT_REASON_HLT :: u32 where
  "EXIT_REASON_HLT \<equiv> 12"

abbreviation (input) EXIT_REASON_INVLPG :: u32 where
  "EXIT_REASON_INVLPG \<equiv> 14"

abbreviation (input) EXIT_REASON_CR_ACCESS :: u32 where
  "EXIT_REASON_CR_ACCESS \<equiv> 28"

abbreviation (input) EXIT_REASON_DR_ACCESS :: u32 where
  "EXIT_REASON_DR_ACCESS \<equiv> 29"

abbreviation (input) EXIT_REASON_IO_INSTRUCTION :: u32 where
  "EXIT_REASON_IO_INSTRUCTION \<equiv> 30"

abbreviation (input) EXIT_REASON_MSR_READ :: u32 where
  "EXIT_REASON_MSR_READ \<equiv> 31"

abbreviation (input) EXIT_REASON_MSR_WRITE :: u32 where
  "EXIT_REASON_MSR_WRITE \<equiv> 32"

section \<open>Masks\<close>

definition CPU_BASED_VIRTUAL_INTR_PENDING :: u32 where
  "CPU_BASED_VIRTUAL_INTR_PENDING = 0x00000004"

definition CPU_BASED_USE_TSC_OFFSETING :: u32 where
  "CPU_BASED_USE_TSC_OFFSETING = 0x00000008"

definition CPU_BASED_HLT_EXITING :: u32 where
  "CPU_BASED_HLT_EXITING = 0x00000080"

definition CPU_BASED_INVDPG_EXITING :: u32 where
  "CPU_BASED_INVDPG_EXITING = 0x00000200"

definition CPU_BASED_CR8_LOAD_EXITING :: u32 where
  "CPU_BASED_CR8_LOAD_EXITING = 0x00080000"

definition CPU_BASED_CR8_STORE_EXITING :: u32 where
  "CPU_BASED_CR8_STORE_EXITING = 0x00100000"

definition CPU_BASED_MOV_DR_EXITING :: u32 where
  "CPU_BASED_MOV_DR_EXITING = 0x00800000"

definition CPU_BASED_UNCOND_IO_EXITING :: u32 where
  "CPU_BASED_UNCOND_IO_EXITING = 0x01000000"

definition PIN_BASED_EXT_INTR_MASK :: u32 where
  "PIN_BASED_EXT_INTR_MASK = 0x1"

definition PIN_BASED_NMI_EXITING :: u32 where
  "PIN_BASED_NMI_EXITING = 0x8"

definition VM_EXIT_HOST_ADD_SPACE_SIZE :: u32 where
  "VM_EXIT_HOST_ADD_SPACE_SIZE = 0x00000200"

definition INTR_INFO_VECTOR_MASK :: u32 where
  "INTR_INFO_VECTOR_MASK = 0xff"

definition INTR_INFO_INTR_TYPE_MASK :: u32 where
  "INTR_INFO_INTR_TYPE_MASK = 0x700"

definition INTR_INFO_DELIEVER_CODE_MASK :: u32 where
  "INTR_INFO_DELIEVER_CODE_MASK = 0x800"

definition INTR_INFO_VALID_MASK :: u32 where
  "INTR_INFO_VALID_MASK = 0x80000000"

definition VECTORING_INFO_VECTOR_MASK :: u32 where
  "VECTORING_INFO_VECTOR_MASK = INTR_INFO_VECTOR_MASK"

definition VECTORING_INFO_VALID_MASK :: u32 where
  "VECTORING_INFO_VALID_MASK = INTR_INFO_VALID_MASK"

definition INTR_TYPE_EXT_INTR :: u32 where
  "INTR_TYPE_EXT_INTR = push_bit 8 0"

definition INTR_TYPE_EXCEPTION :: u32 where
  "INTR_TYPE_EXCEPTION = push_bit 8 3"

definition SEGMENT_AR_L_MASK :: u32 where
  "SEGMENT_AR_L_MASK = push_bit 13 1"

definition VM_ENTRY_CONTROLS_IA32E_MASK :: u32 where
  "VM_ENTRY_CONTROLS_IA32E_MASK = push_bit 9 1"

definition AR_TYPE_ACCESSES_MASK :: u32 where
  "AR_TYPE_ACCESSES_MASK = 1"

definition AR_TYPE_READABLE_MASK :: u32 where
  "AR_TYPE_READABLE_MASK = push_bit 1 1"

definition AR_TYPE_WRITEABLE_MASK :: u32 where
  "AR_TYPE_WRITEABLE_MASK = push_bit 2 1"

definition AR_TYPE_CODE_MASK :: u32 where
  "AR_TYPE_CODE_MASK = push_bit 3 1"

definition AR_TYPE_MASK :: u32 where
  "AR_TYPE_MASK = 0x0f"

definition AR_TYPE_BUSY_64_TSS :: u32 where
  "AR_TYPE_BUSY_64_TSS = 11"

definition AR_TYPE_BUSY_32_TSS :: u32 where
  "AR_TYPE_BUSY_32_TSS = 11"

definition AR_TYPE_BUSY_16_TSS :: u32 where
  "AR_TYPE_BUSY_16_TSS = 3"

definition AR_TYPE_LDT :: u32 where
  "AR_TYPE_LDT = 2"

definition AR_UNUSABLE_MASK :: u32 where
  "AR_UNUSABLE_MASK = push_bit 16 1"

definition AR_S_MASK :: u32 where
  "AR_S_MASK = push_bit 4 1"

definition AR_P_MASK :: u32 where
  "AR_P_MASK = push_bit 7 1"

definition AR_L_MASK :: u32 where
  "AR_L_MASK = push_bit 13 1"

definition AR_DB_MASK :: u32 where
  "AR_DB_MASK = push_bit 14 1"

definition AR_G_MASK :: u32 where
  "AR_G_MASK = push_bit 15 1"

definition AR_RESERVD_MASK :: u32 where
  "AR_RESERVD_MASK = 0xfffe0f00"

definition AR_DPL :: "u32 \<Rightarrow> u32" where
  "AR_DPL ar = drop_bit 5 ar AND 3"

lemmas vector_masks [simp] = VECTORING_INFO_VECTOR_MASK_def VECTORING_INFO_VALID_MASK_def

text \<open>The masks of one bit.\<close>

lemma mask_shift:
  "CPU_BASED_VIRTUAL_INTR_PENDING = push_bit 2 1"
  "CPU_BASED_USE_TSC_OFFSETING = push_bit 3 1"
  "CPU_BASED_HLT_EXITING = push_bit 7 1"
  "CPU_BASED_INVDPG_EXITING = push_bit 9 1"
  "CPU_BASED_CR8_LOAD_EXITING = push_bit 19 1"
  "CPU_BASED_CR8_STORE_EXITING = push_bit 20 1"
  "CPU_BASED_MOV_DR_EXITING = push_bit 23 1"
  "CPU_BASED_UNCOND_IO_EXITING = push_bit 24 1"
  "PIN_BASED_NMI_EXITING = push_bit 3 1"
  "VM_EXIT_HOST_ADD_SPACE_SIZE = push_bit 9 1"
  "INTR_INFO_DELIEVER_CODE_MASK = push_bit 11 1"
  "INTR_INFO_VALID_MASK = push_bit 31 1"
  "SEGMENT_AR_L_MASK = push_bit 13 1"
  "VM_ENTRY_CONTROLS_IA32E_MASK = push_bit 9 1"
  "AR_TYPE_READABLE_MASK = push_bit 1 1"
  "AR_TYPE_WRITEABLE_MASK = push_bit 2 1"
  "AR_TYPE_CODE_MASK = push_bit 3 1"
  "AR_UNUSABLE_MASK = push_bit 16 1"
  "AR_S_MASK = push_bit 4 1"
  "AR_P_MASK = push_bit 7 1"
  "AR_L_MASK = push_bit 13 1"
  "AR_DB_MASK = push_bit 14 1"
  "AR_G_MASK = push_bit 15 1"
  by (simp_all add: CPU_BASED_VIRTUAL_INTR_PENDING_def CPU_BASED_USE_TSC_OFFSETING_def CPU_BASED_HLT_EXITING_def CPU_BASED_INVDPG_EXITING_def CPU_BASED_CR8_LOAD_EXITING_def CPU_BASED_CR8_STORE_EXITING_def CPU_BASED_MOV_DR_EXITING_def CPU_BASED_UNCOND_IO_EXITING_def PIN_BASED_NMI_EXITING_def VM_EXIT_HOST_ADD_SPACE_SIZE_def INTR_INFO_DELIEVER_CODE_MASK_def INTR_INFO_VALID_MASK_def SEGMENT_AR_L_MASK_def VM_ENTRY_CONTROLS_IA32E_MASK_def AR_TYPE_READABLE_MASK_def AR_TYPE_WRITEABLE_MASK_def AR_TYPE_CODE_MASK_def AR_UNUSABLE_MASK_def AR_S_MASK_def AR_P_MASK_def AR_L_MASK_def AR_DB_MASK_def AR_G_MASK_def)

lemma bit_vmx_masks [mask_bits]:
  "bit CPU_BASED_VIRTUAL_INTR_PENDING n \<longleftrightarrow> n = 2"
  "bit CPU_BASED_USE_TSC_OFFSETING n \<longleftrightarrow> n = 3"
  "bit CPU_BASED_HLT_EXITING n \<longleftrightarrow> n = 7"
  "bit CPU_BASED_INVDPG_EXITING n \<longleftrightarrow> n = 9"
  "bit CPU_BASED_CR8_LOAD_EXITING n \<longleftrightarrow> n = 19"
  "bit CPU_BASED_CR8_STORE_EXITING n \<longleftrightarrow> n = 20"
  "bit CPU_BASED_MOV_DR_EXITING n \<longleftrightarrow> n = 23"
  "bit CPU_BASED_UNCOND_IO_EXITING n \<longleftrightarrow> n = 24"
  "bit PIN_BASED_NMI_EXITING n \<longleftrightarrow> n = 3"
  "bit VM_EXIT_HOST_ADD_SPACE_SIZE n \<longleftrightarrow> n = 9"
  "bit INTR_INFO_DELIEVER_CODE_MASK n \<longleftrightarrow> n = 11"
  "bit INTR_INFO_VALID_MASK n \<longleftrightarrow> n = 31"
  "bit SEGMENT_AR_L_MASK n \<longleftrightarrow> n = 13"
  "bit VM_ENTRY_CONTROLS_IA32E_MASK n \<longleftrightarrow> n = 9"
  "bit AR_TYPE_READABLE_MASK n \<longleftrightarrow> n = 1"
  "bit AR_TYPE_WRITEABLE_MASK n \<longleftrightarrow> n = 2"
  "bit AR_TYPE_CODE_MASK n \<longleftrightarrow> n = 3"
  "bit AR_UNUSABLE_MASK n \<longleftrightarrow> n = 16"
  "bit AR_S_MASK n \<longleftrightarrow> n = 4"
  "bit AR_P_MASK n \<longleftrightarrow> n = 7"
  "bit AR_L_MASK n \<longleftrightarrow> n = 13"
  "bit AR_DB_MASK n \<longleftrightarrow> n = 14"
  "bit AR_G_MASK n \<longleftrightarrow> n = 15"
  unfolding mask_shift bit_shift_1 by simp_all

lemma and_vmx_masks [simp]:
  "x AND CPU_BASED_VIRTUAL_INTR_PENDING = 0 \<longleftrightarrow> \<not> bit x 2"
  "x AND CPU_BASED_USE_TSC_OFFSETING = 0 \<longleftrightarrow> \<not> bit x 3"
  "x AND CPU_BASED_HLT_EXITING = 0 \<longleftrightarrow> \<not> bit x 7"
  "x AND CPU_BASED_INVDPG_EXITING = 0 \<longleftrightarrow> \<not> bit x 9"
  "x AND CPU_BASED_CR8_LOAD_EXITING = 0 \<longleftrightarrow> \<not> bit x 19"
  "x AND CPU_BASED_CR8_STORE_EXITING = 0 \<longleftrightarrow> \<not> bit x 20"
  "x AND CPU_BASED_MOV_DR_EXITING = 0 \<longleftrightarrow> \<not> bit x 23"
  "x AND CPU_BASED_UNCOND_IO_EXITING = 0 \<longleftrightarrow> \<not> bit x 24"
  "x AND PIN_BASED_NMI_EXITING = 0 \<longleftrightarrow> \<not> bit x 3"
  "x AND VM_EXIT_HOST_ADD_SPACE_SIZE = 0 \<longleftrightarrow> \<not> bit x 9"
  "x AND INTR_INFO_DELIEVER_CODE_MASK = 0 \<longleftrightarrow> \<not> bit x 11"
  "x AND INTR_INFO_VALID_MASK = 0 \<longleftrightarrow> \<not> bit x 31"
  "x AND SEGMENT_AR_L_MASK = 0 \<longleftrightarrow> \<not> bit x 13"
  "x AND VM_ENTRY_CONTROLS_IA32E_MASK = 0 \<longleftrightarrow> \<not> bit x 9"
  "x AND AR_TYPE_READABLE_MASK = 0 \<longleftrightarrow> \<not> bit x 1"
  "x AND AR_TYPE_WRITEABLE_MASK = 0 \<longleftrightarrow> \<not> bit x 2"
  "x AND AR_TYPE_CODE_MASK = 0 \<longleftrightarrow> \<not> bit x 3"
  "x AND AR_UNUSABLE_MASK = 0 \<longleftrightarrow> \<not> bit x 16"
  "x AND AR_S_MASK = 0 \<longleftrightarrow> \<not> bit x 4"
  "x AND AR_P_MASK = 0 \<longleftrightarrow> \<not> bit x 7"
  "x AND AR_L_MASK = 0 \<longleftrightarrow> \<not> bit x 13"
  "x AND AR_DB_MASK = 0 \<longleftrightarrow> \<not> bit x 14"
  "x AND AR_G_MASK = 0 \<longleftrightarrow> \<not> bit x 15"
  unfolding mask_shift by (rule and_shift_eq_0)+

end
