(* ===== verification/Host_Memory.thy ===== *)
theory Host_Memory
  imports Prelude
begin

text \<open>
  Host physical memory as the module sees it through the direct mapping (\<open>__va\<close>) and
  \<open>kmap_atomic\<close>: one byte per host physical address. Page tables of 64 bit entries, page
  tables of 32 bit entries and byte buffers share it, so words are little-endian byte
  sequences. The locale \<open>cells\<close> states the interface that the page table code relies on
  (a store is seen by the load of the same cell and by no load of another one); it is
  interpreted here on the 64 bit and the 32 bit accesses at aligned addresses.
\<close>

type_synonym memory = "u64 \<Rightarrow> u8"

section \<open>Little-endian accesses\<close>

fun load_le :: "nat \<Rightarrow> memory \<Rightarrow> u64 \<Rightarrow> u64" where
  "load_le 0 m a = 0"
| "load_le (Suc n) m a = ucast (m a) OR push_bit 8 (load_le n m (a + 1))"

fun store_le :: "nat \<Rightarrow> u64 \<Rightarrow> u64 \<Rightarrow> memory \<Rightarrow> memory" where
  "store_le 0 a v m = m"
| "store_le (Suc n) a v m = store_le n (a + 1) (drop_bit 8 v) (m(a := ucast v))"

definition load64 :: "memory \<Rightarrow> u64 \<Rightarrow> u64" where
  "load64 m a = load_le 8 m a"

definition store64 :: "u64 \<Rightarrow> u64 \<Rightarrow> memory \<Rightarrow> memory" where
  "store64 a v m = store_le 8 a v m"

definition load32 :: "memory \<Rightarrow> u64 \<Rightarrow> u64" where
  "load32 m a = load_le 4 m a"

definition store32 :: "u64 \<Rightarrow> u64 \<Rightarrow> memory \<Rightarrow> memory" where
  "store32 a v m = store_le 4 a v m"

text \<open>\<open>memset(__va(p), 0, PAGE_SIZE)\<close> for the page that starts at \<open>p\<close>.\<close>

definition zero_page :: "u64 \<Rightarrow> memory \<Rightarrow> memory" where
  "zero_page p m = (\<lambda>b. if b AND PAGE_MASK = p AND PAGE_MASK then 0 else m b)"

subsection \<open>Which bytes a store writes and a load reads\<close>

lemma word_diff_Suc: "b \<noteq> a \<Longrightarrow> unat (b - (a + 1)) = unat (b - a) - 1"
  for a b :: u64
proof -
  assume "b \<noteq> a"
  then have "b - a \<noteq> 0" by simp
  then have "unat (b - a - 1) = unat (b - a) - 1" by (rule unat_minus_one)
  then show ?thesis by (simp add: algebra_simps)
qed

lemma store_le_apply:
  "n \<le> 8 \<Longrightarrow> store_le n a v m b =
    (if unat (b - a) < n then ucast (drop_bit (8 * unat (b - a)) v) else m b)"
proof (induction n arbitrary: a v m)
  case 0
  then show ?case by simp
next
  case (Suc n)
  show ?case
  proof (cases "b = a")
    case True
    have "\<not> unat (a - (a + 1)) < n"
      using Suc.prems by (simp add: unsigned_minus_1_eq_mask mask_eq_exp_minus_1)
    with Suc True show ?thesis by simp
  next
    case False
    then have pos: "0 < unat (b - a)" by (simp add: unat_gt_0)
    have "8 * (unat (b - a) - 1) + 8 = 8 * unat (b - a)" using pos by simp
    then have "drop_bit (8 * (unat (b - a) - 1)) (drop_bit 8 v) = drop_bit (8 * unat (b - a)) v"
      by (simp add: drop_bit_drop_bit)
    moreover have "unat (b - a) - 1 < n \<longleftrightarrow> unat (b - a) < Suc n" using pos by arith
    ultimately show ?thesis using Suc False pos by (simp add: word_diff_Suc)
  qed
qed

lemma load_le_cong:
  assumes "\<And>k. k < n \<Longrightarrow> m (a + of_nat k) = m' (a + of_nat k)"
  shows "load_le n m a = load_le n m' a"
  using assms
proof (induction n arbitrary: a)
  case 0
  then show ?case by simp
next
  case (Suc n)
  have "load_le n m (a + 1) = load_le n m' (a + 1)"
  proof (rule Suc.IH)
    fix k assume "k < n"
    with Suc.prems [of "Suc k"] show "m (a + 1 + of_nat k) = m' (a + 1 + of_nat k)"
      by (simp add: algebra_simps)
  qed
  moreover have "m a = m' a" using Suc.prems [of 0] by simp
  ultimately show ?case by simp
qed

lemma bit_load_le:
  "n \<le> 8 \<Longrightarrow> bit (load_le n m a) i \<longleftrightarrow> i < 8 * n \<and> bit (m (a + of_nat (i div 8))) (i mod 8)"
proof (induction n arbitrary: a i)
  case 0
  then show ?case by simp
next
  case (Suc n)
  show ?case
  proof (cases "i < 8")
    case True
    with Suc.prems show ?thesis by (simp add: bit_simps)
  next
    case False
    then have "i div 8 = Suc ((i - 8) div 8)" and "i mod 8 = (i - 8) mod 8"
      by (simp_all add: div_if mod_if)
    moreover have "\<not> bit (m a) i" using False by simp
    ultimately show ?thesis
      using Suc False by (auto simp: bit_simps algebra_simps)
  qed
qed

lemma store_le_outside: "n \<le> 8 \<Longrightarrow> \<not> unat (b - a) < n \<Longrightarrow> store_le n a v m b = m b"
  by (simp add: store_le_apply)

lemma load_store_le_same: "n \<le> 8 \<Longrightarrow> load_le n (store_le n a v m) a = take_bit (8 * n) v"
proof (rule bit_word_eqI)
  fix i assume n: "n \<le> 8" and i: "i < LENGTH(64)"
  have k: "unat (word_of_nat (i div 8) :: u64) = i div 8"
    using i by (simp add: unat_of_nat)
  have lt: "i < 8 * n \<longleftrightarrow> i div 8 < n" by auto
  have idx: "8 * (i div 8) + i mod 8 = i" by simp
  show "bit (load_le n (store_le n a v m) a) i \<longleftrightarrow> bit (take_bit (8 * n) v) i"
    using n i by (auto simp: bit_load_le store_le_apply k lt bit_simps idx)
qed

lemma load_store_le_disjoint:
  assumes "n \<le> 8" "l \<le> 8" and "\<And>k. k < l \<Longrightarrow> \<not> unat (b + of_nat k - a) < n"
  shows "load_le l (store_le n a v m) b = load_le l m b"
  using assms by (intro load_le_cong store_le_outside) auto

section \<open>Cells: aligned words of memory\<close>

definition aligned :: "nat \<Rightarrow> u64 \<Rightarrow> bool" where
  "aligned n a \<longleftrightarrow> n dvd unat a"

lemma aligned_uint: "aligned n a \<longleftrightarrow> int n dvd uint a"
  unfolding aligned_def uint_nat by (simp only: int_dvd_int_iff)

lemma aligned_diff:
  assumes "aligned n a" "aligned n b" "n dvd 2 ^ 64"
  shows "n dvd unat (b - a)"
proof -
  have d: "int n dvd uint b - uint a"
    using assms(1,2) unfolding aligned_uint by (rule dvd_diff [rotated])
  have "int n dvd int (2 ^ 64)"
    using assms(3) by (simp only: int_dvd_int_iff)
  then have "int n dvd 2 ^ 64" by simp
  with d have "int n dvd (uint b - uint a) mod 2 ^ 64" by (rule dvd_mod)
  then have "aligned n (b - a)"
    unfolding aligned_uint by (simp add: uint_word_ariths)
  then show ?thesis by (simp add: aligned_def)
qed

lemma aligned_disjoint:
  assumes "aligned n a" "aligned n b" "n dvd 2 ^ 64" "a \<noteq> b" "k < n"
  shows "\<not> unat (b + of_nat k - a) < n"
proof -
  let ?d = "b - a"
  have dvd: "n dvd unat ?d" using aligned_diff assms by blast
  have pos: "0 < unat ?d" using assms(4) by (simp add: unat_gt_0)
  then have ge: "n \<le> unat ?d" using dvd by (simp add: dvd_imp_le)
  have "n dvd 2 ^ 64 - unat ?d" using dvd assms(3) by (simp add: dvd_diff_nat)
  moreover have lt: "unat ?d < 2 ^ 64" using unsigned_less [of ?d] by simp
  ultimately have "n \<le> 2 ^ 64 - unat ?d" by (simp add: dvd_imp_le)
  then have fits: "unat ?d + k < 2 ^ 64" using lt assms(5) by linarith
  have "n \<le> 2 ^ 64" using assms(3) by (simp add: dvd_imp_le)
  then have "unat (word_of_nat k :: u64) = k" using assms(5) by (simp add: unat_of_nat)
  then have "unat (?d + of_nat k) = unat ?d + k"
    using fits by (simp add: unat_word_ariths)
  moreover have "b + of_nat k - a = ?d + of_nat k" by (simp add: algebra_simps)
  ultimately show ?thesis using ge by (simp only:)
qed

text \<open>
  The interface of an array of cells. \<open>ok\<close> says which addresses are cells, \<open>norm\<close> what
  a cell keeps of a stored value.
\<close>

locale cells =
  fixes rd :: "'m \<Rightarrow> 'a \<Rightarrow> 'v"
    and wr :: "'a \<Rightarrow> 'v \<Rightarrow> 'm \<Rightarrow> 'm"
    and ok :: "'a \<Rightarrow> bool"
    and norm :: "'v \<Rightarrow> 'v"
  assumes rd_wr_same: "ok a \<Longrightarrow> rd (wr a v m) a = norm v"
    and rd_wr_other: "ok a \<Longrightarrow> ok b \<Longrightarrow> a \<noteq> b \<Longrightarrow> rd (wr a v m) b = rd m b"
begin

lemma rd_wr: "ok a \<Longrightarrow> ok b \<Longrightarrow> rd (wr a v m) b = (if b = a then norm v else rd m b)"
  by (simp add: rd_wr_same rd_wr_other)

text \<open>A loop that visits distinct cells and rewrites each one from its own old value.\<close>

lemma rd_fold_wr_notin:
  "\<forall>a \<in> set as. ok a \<Longrightarrow> ok b \<Longrightarrow> b \<notin> set as
    \<Longrightarrow> rd (fold (\<lambda>a m. wr a (f a (rd m a)) m) as m) b = rd m b"
  by (induction as arbitrary: m) (auto simp: rd_wr_other)

lemma rd_fold_wr:
  "\<forall>a \<in> set as. ok a \<Longrightarrow> ok b \<Longrightarrow> distinct as
    \<Longrightarrow> rd (fold (\<lambda>a m. wr a (f a (rd m a)) m) as m) b =
        (if b \<in> set as then norm (f b (rd m b)) else rd m b)"
proof (induction as arbitrary: m)
  case Nil
  then show ?case by simp
next
  case (Cons a as)
  then show ?case
    by (cases "b = a") (auto simp: rd_fold_wr_notin rd_wr)
qed

text \<open>The same loop that skips the cells for which there is nothing to do.\<close>

lemma rd_fold_wr_if_notin:
  "\<forall>a \<in> set as. ok a \<Longrightarrow> ok b \<Longrightarrow> b \<notin> set as
    \<Longrightarrow> rd (fold (\<lambda>a m. if P (rd m a) then wr a (f (rd m a)) m else m) as m) b = rd m b"
  by (induction as arbitrary: m) (auto simp: rd_wr_other)

lemma rd_fold_wr_if:
  "\<forall>a \<in> set as. ok a \<Longrightarrow> ok b \<Longrightarrow> distinct as
    \<Longrightarrow> rd (fold (\<lambda>a m. if P (rd m a) then wr a (f (rd m a)) m else m) as m) b =
        (if b \<in> set as \<and> P (rd m b) then norm (f (rd m b)) else rd m b)"
proof (induction as arbitrary: m)
  case Nil
  then show ?case by simp
next
  case (Cons a as)
  then show ?case
    by (cases "b = a") (auto simp: rd_fold_wr_if_notin rd_wr)
qed

end

interpretation mem64: cells load64 store64 "aligned 8" "\<lambda>v. v"
proof unfold_locales
  fix a :: u64 and v m
  show "load64 (store64 a v m) a = v"
    by (simp add: load64_def store64_def load_store_le_same take_bit_word_eq_self)
next
  fix a b :: u64 and v m
  assume "aligned 8 a" "aligned 8 b" "a \<noteq> b"
  then show "load64 (store64 a v m) b = load64 m b"
    unfolding load64_def store64_def
    by (intro load_store_le_disjoint) (auto simp: aligned_disjoint)
qed

interpretation mem32: cells load32 store32 "aligned 4" "take_bit 32"
proof unfold_locales
  fix a :: u64 and v m
  show "load32 (store32 a v m) a = take_bit 32 v"
    by (simp add: load32_def store32_def load_store_le_same)
next
  fix a b :: u64 and v m
  assume "aligned 4 a" "aligned 4 b" "a \<noteq> b"
  then show "load32 (store32 a v m) b = load32 m b"
    unfolding load32_def store32_def
    by (intro load_store_le_disjoint) (auto simp: aligned_disjoint)
qed

section \<open>Pages and their elements\<close>

text \<open>
  \<open>elt k p i\<close> is the address of element \<open>i\<close> of the page at \<open>p\<close>, seen as an array of
  elements of \<open>2 ^ k\<close> bytes: \<open>&((u64 *)p)[i]\<close> for \<open>k = 3\<close>, \<open>&((u32 *)p)[i]\<close> for \<open>k = 2\<close>.
\<close>

definition is_page :: "u64 \<Rightarrow> bool" where
  "is_page p \<longleftrightarrow> take_bit 12 p = 0"

definition elt :: "nat \<Rightarrow> u64 \<Rightarrow> nat \<Rightarrow> u64" where
  "elt k p i = p + push_bit k (of_nat i)"

lemma is_page_bit: "is_page p \<Longrightarrow> n < 12 \<Longrightarrow> \<not> bit p n"
proof
  assume "is_page p" "n < 12" "bit p n"
  then have "bit (take_bit 12 p) n" by (simp add: bit_take_bit_iff)
  with \<open>is_page p\<close> show False by (simp add: is_page_def)
qed

lemma is_page_and_mask: "is_page p \<longleftrightarrow> p AND PAGE_MASK = p"
proof
  assume "is_page p"
  then show "p AND PAGE_MASK = p"
    by (intro bit_word_eqI) (auto simp: bit_simps mask_bits dest: is_page_bit intro: leI)
next
  have "take_bit 12 (p AND PAGE_MASK) = 0"
    by (rule bit_word_eqI) (simp add: bit_take_bit_iff bit_and_iff mask_bits)
  moreover assume "p AND PAGE_MASK = p"
  ultimately show "is_page p" by (simp add: is_page_def)
qed

lemma is_page_mask [simp]: "is_page (a AND PAGE_MASK)"
  by (simp add: is_page_and_mask)

lemma is_page_push_bit [simp]: "is_page (push_bit PAGE_SHIFT f)"
  unfolding is_page_def PAGE_SHIFT_def by (intro bit_word_eqI) (simp add: bit_simps)

lemma nat_bit_bound: "i < 2 ^ m \<Longrightarrow> bit i n \<Longrightarrow> n < m" for i :: nat
  by (metis bit_take_bit_iff take_bit_nat_eq_self)

lemma bit_index:
  "i < 2 ^ (12 - k) \<Longrightarrow> k \<le> 12 \<Longrightarrow> bit (push_bit k (of_nat i) :: u64) n \<Longrightarrow> k \<le> n \<and> n < 12"
  using nat_bit_bound [of i "12 - k" "n - k"] by (auto simp: bit_simps)

lemma elt_or:
  assumes "is_page p" "i < 2 ^ (12 - k)" "k \<le> 12"
  shows "elt k p i = p OR push_bit k (of_nat i)"
  unfolding elt_def
proof (rule disjunctive_add_eq_or, rule bit_word_eqI)
  fix n
  show "bit (p AND push_bit k (word_of_nat i)) n = bit (0 :: u64) n"
    using assms bit_index [OF assms(2,3)] is_page_bit [OF assms(1)]
    by (auto simp: bit_and_iff)
qed

lemma bit_elt:
  assumes "is_page p" "i < 2 ^ (12 - k)" "k \<le> 12"
  shows "bit (elt k p i) n \<longleftrightarrow> (if n < 12 then k \<le> n \<and> bit i (n - k) else bit p n)"
  using assms is_page_bit [OF assms(1), of n] bit_index [OF assms(2,3), of n]
  by (auto simp: elt_or [OF assms] bit_simps)

lemma elt_page [simp]:
  assumes "is_page p" "i < 2 ^ (12 - k)" "k \<le> 12"
  shows "elt k p i AND PAGE_MASK = p"
  by (rule bit_word_eqI)
    (use assms is_page_bit [OF assms(1)] in \<open>auto simp: bit_elt bit_and_iff mask_bits not_less\<close>)

lemma elt_inj:
  assumes "is_page p" "i < 2 ^ (12 - k)" "is_page q" "j < 2 ^ (12 - k)" "k \<le> 12"
  shows "elt k p i = elt k q j \<longleftrightarrow> p = q \<and> i = j"
proof
  assume eq: "elt k p i = elt k q j"
  then have "p = q" using elt_page assms by metis
  have "i = j"
  proof (rule bit_eqI)
    fix n
    show "bit i n = bit j n"
    proof (cases "n + k < 12")
      case True
      then have "bit (elt k p i) (n + k) = bit i n" "bit (elt k q j) (n + k) = bit j n"
        by (simp_all add: bit_elt assms)
      then show ?thesis using eq by simp
    next
      case False
      then have "\<not> n < 12 - k" using assms(5) by arith
      then show ?thesis using nat_bit_bound assms(2,4) by blast
    qed
  qed
  with \<open>p = q\<close> show "p = q \<and> i = j" by simp
qed simp

lemma elt_aligned:
  assumes "is_page p" "i < 2 ^ (12 - k)" "k \<le> 12"
  shows "aligned (2 ^ k) (elt k p i)"
proof -
  have "take_bit k (elt k p i) = 0"
    by (rule bit_word_eqI) (use assms in \<open>auto simp: bit_take_bit_iff bit_elt\<close>)
  then have "take_bit k (unat (elt k p i)) = 0"
    by (metis unsigned_0 unsigned_take_bit_eq)
  then show ?thesis by (simp add: aligned_def take_bit_eq_0_iff)
qed

lemma elt_bytes:
  assumes "is_page p" "i < 2 ^ (12 - k)" "k \<le> 12" "b < 2 ^ k"
  shows "(elt k p i + of_nat b) AND PAGE_MASK = p"
proof -
  have "2 ^ k * i + b < 2 ^ 12"
  proof -
    have "2 ^ k * i + b < 2 ^ k * (i + 1)" using assms(4) by simp
    also have "\<dots> \<le> 2 ^ k * 2 ^ (12 - k)" using assms(2) by (intro mult_le_mono2) simp
    finally show ?thesis using assms(3) by (simp flip: power_add)
  qed
  moreover have "elt k p i + of_nat b = elt 0 p (2 ^ k * i + b)"
    by (simp add: elt_def push_bit_eq_mult algebra_simps)
  ultimately show ?thesis using elt_page [of p "2 ^ k * i + b" 0] assms(1) by simp
qed

text \<open>A page of 64 bit entries, the shape of every shadow page table.\<close>

lemma load64_zero_page [mem_simps]:
  assumes "is_page p" "is_page q" "i < 512"
  shows "load64 (zero_page q m) (elt 3 p i) = (if p = q then 0 else load64 m (elt 3 p i))"
proof -
  have page: "(elt 3 p i + of_nat b) AND PAGE_MASK = p" if "b < 8" for b
    using elt_bytes [of p i 3 b] assms that by simp
  have q: "q AND PAGE_MASK = q" using assms(2) by (simp add: is_page_and_mask)
  show ?thesis
  proof (cases "p = q")
    case True
    have "load64 (zero_page q m) (elt 3 p i) = load64 (\<lambda>_. 0) (elt 3 p i)"
      unfolding load64_def by (rule load_le_cong) (simp add: zero_page_def page [unfolded True] q True)
    also have "\<dots> = 0"
      unfolding load64_def by (rule bit_word_eqI) (simp add: bit_load_le)
    finally show ?thesis using True by simp
  next
    case False
    have "load64 (zero_page q m) (elt 3 p i) = load64 m (elt 3 p i)"
      unfolding load64_def by (rule load_le_cong) (simp add: zero_page_def page q False)
    then show ?thesis using False by simp
  qed
qed

lemma load64_store64_elt [mem_simps]:
  assumes "is_page p" "i < 512" "is_page q" "j < 512"
  shows "load64 (store64 (elt 3 p i) v m) (elt 3 q j) =
    (if p = q \<and> i = j then v else load64 m (elt 3 q j))"
  using mem64.rd_wr [of "elt 3 p i" "elt 3 q j" v m] elt_aligned [of p i 3]
    elt_aligned [of q j 3] elt_inj [of p i 3 q j] assms
  by auto

end
