(* ===== verification/Kvm_Defs.thy ===== *)
theory Kvm_Defs
  imports Vmx_Defs Host_Memory
begin

text \<open>
  The constants of \<open>kvm.h\<close>: control register masks, the registers' reserved bits, the
  limits of the module, exception vectors, and the architectural bits (EFLAGS, EFER) that
  the kernel's own headers provide. The lemmas in \<open>mask_bits\<close> give the bits of each mask,
  the simplification rules turn the C test \<open>x & MASK\<close> of a single-bit mask into \<open>bit x n\<close>.
\<close>

section \<open>Constants\<close>

definition CR0_PE_MASK :: u64 where
  "CR0_PE_MASK = push_bit 0 1"

definition CR0_TS_MASK :: u64 where
  "CR0_TS_MASK = push_bit 3 1"

definition CR0_NE_MASK :: u64 where
  "CR0_NE_MASK = push_bit 5 1"

definition CR0_WP_MASK :: u64 where
  "CR0_WP_MASK = push_bit 16 1"

definition CR0_NW_MASK :: u64 where
  "CR0_NW_MASK = push_bit 29 1"

definition CR0_CD_MASK :: u64 where
  "CR0_CD_MASK = push_bit 30 1"

definition CR0_PG_MASK :: u64 where
  "CR0_PG_MASK = push_bit 31 1"

definition CR3_WPT_MASK :: u64 where
  "CR3_WPT_MASK = push_bit 3 1"

definition CR3_PCD_MASK :: u64 where
  "CR3_PCD_MASK = push_bit 4 1"

definition CR3_RESEVED_BITS :: u64 where
  "CR3_RESEVED_BITS = 0x07"

definition CR3_L_MODE_RESEVED_BITS :: u64 where
  "CR3_L_MODE_RESEVED_BITS = NOT (push_bit 40 1 - 1) OR 0x0fe7"

definition CR3_FLAGS_MASK :: u64 where
  "CR3_FLAGS_MASK = push_bit 5 1 - 1"

definition CR4_VME_MASK :: u64 where
  "CR4_VME_MASK = push_bit 0 1"

definition CR4_PSE_MASK :: u64 where
  "CR4_PSE_MASK = push_bit 4 1"

definition CR4_PAE_MASK :: u64 where
  "CR4_PAE_MASK = push_bit 5 1"

definition CR4_PGE_MASK :: u64 where
  "CR4_PGE_MASK = push_bit 7 1"

definition CR4_VMXE_MASK :: u64 where
  "CR4_VMXE_MASK = push_bit 13 1"

definition KVM_GUEST_CR0_MASK :: u64 where
  "KVM_GUEST_CR0_MASK = CR0_PG_MASK OR CR0_PE_MASK OR CR0_WP_MASK OR CR0_NE_MASK"

definition KVM_VM_CR0_ALWAYS_ON :: u64 where
  "KVM_VM_CR0_ALWAYS_ON = KVM_GUEST_CR0_MASK"

definition KVM_GUEST_CR4_MASK :: u64 where
  "KVM_GUEST_CR4_MASK =
     CR4_PSE_MASK OR CR4_PAE_MASK OR CR4_PGE_MASK OR CR4_VMXE_MASK OR CR4_VME_MASK"

definition KVM_PMODE_VM_CR4_ALWAYS_ON :: u64 where
  "KVM_PMODE_VM_CR4_ALWAYS_ON = CR4_VMXE_MASK OR CR4_PAE_MASK"

definition KVM_RMODE_VM_CR4_ALWAYS_ON :: u64 where
  "KVM_RMODE_VM_CR4_ALWAYS_ON = CR4_VMXE_MASK OR CR4_PAE_MASK OR CR4_VME_MASK"

definition INVALID_PAGE :: u64 where
  "INVALID_PAGE = NOT 0"

definition UNMAPPED_GVA :: u64 where
  "UNMAPPED_GVA = NOT 0"

definition KVM_MAX_VCPUS :: nat where
  "KVM_MAX_VCPUS = 1"

definition KVM_MEMORY_SLOTS :: nat where
  "KVM_MEMORY_SLOTS = 4"

definition KVM_NUM_MMU_PAGES :: nat where
  "KVM_NUM_MMU_PAGES = 256"

definition DF_VECTOR :: u32 where
  "DF_VECTOR = 8"

definition GP_VECTOR :: u32 where
  "GP_VECTOR = 13"

definition PF_VECTOR :: u32 where
  "PF_VECTOR = 14"

definition SELECTOR_TI_MASK :: u16 where
  "SELECTOR_TI_MASK = push_bit 2 1"

definition SELECTOR_RPL_MASK :: u16 where
  "SELECTOR_RPL_MASK = 0x03"

definition IOPL_SHIFT :: nat where
  "IOPL_SHIFT = 12"

text \<open>Architectural constants of the kernel's own headers (not under \<open>src/\<close>).\<close>

definition X86_EFLAGS_TF :: u64 where
  "X86_EFLAGS_TF = push_bit 8 1"

definition X86_EFLAGS_IF :: u64 where
  "X86_EFLAGS_IF = push_bit 9 1"

definition X86_EFLAGS_DF :: u64 where
  "X86_EFLAGS_DF = push_bit 10 1"

definition IOPL_MASK :: u64 where
  "IOPL_MASK = 0x3000"

definition X86_EFLAGS_RF :: u64 where
  "X86_EFLAGS_RF = push_bit 16 1"

definition X86_EFLAGS_VM :: u64 where
  "X86_EFLAGS_VM = push_bit 17 1"

definition X86_EFLAGS_AC :: u64 where
  "X86_EFLAGS_AC = push_bit 18 1"

definition EFER_LME :: u64 where
  "EFER_LME = push_bit 8 1"

definition EFER_LMA :: u64 where
  "EFER_LMA = push_bit 10 1"

subsection \<open>Bits of the masks\<close>

lemmas u64_mask_defs =
  CR0_PE_MASK_def CR0_TS_MASK_def CR0_NE_MASK_def CR0_WP_MASK_def CR0_NW_MASK_def
  CR0_CD_MASK_def CR0_PG_MASK_def CR3_WPT_MASK_def CR3_PCD_MASK_def CR4_VME_MASK_def
  CR4_PSE_MASK_def CR4_PAE_MASK_def CR4_PGE_MASK_def CR4_VMXE_MASK_def X86_EFLAGS_TF_def
  X86_EFLAGS_IF_def X86_EFLAGS_DF_def X86_EFLAGS_RF_def X86_EFLAGS_VM_def X86_EFLAGS_AC_def
  EFER_LME_def EFER_LMA_def

lemma bit_u64_masks [mask_bits]:
  "bit CR0_PE_MASK n \<longleftrightarrow> n = 0"
  "bit CR0_TS_MASK n \<longleftrightarrow> n = 3"
  "bit CR0_NE_MASK n \<longleftrightarrow> n = 5"
  "bit CR0_WP_MASK n \<longleftrightarrow> n = 16"
  "bit CR0_NW_MASK n \<longleftrightarrow> n = 29"
  "bit CR0_CD_MASK n \<longleftrightarrow> n = 30"
  "bit CR0_PG_MASK n \<longleftrightarrow> n = 31"
  "bit CR3_WPT_MASK n \<longleftrightarrow> n = 3"
  "bit CR3_PCD_MASK n \<longleftrightarrow> n = 4"
  "bit CR4_VME_MASK n \<longleftrightarrow> n = 0"
  "bit CR4_PSE_MASK n \<longleftrightarrow> n = 4"
  "bit CR4_PAE_MASK n \<longleftrightarrow> n = 5"
  "bit CR4_PGE_MASK n \<longleftrightarrow> n = 7"
  "bit CR4_VMXE_MASK n \<longleftrightarrow> n = 13"
  "bit X86_EFLAGS_TF n \<longleftrightarrow> n = 8"
  "bit X86_EFLAGS_IF n \<longleftrightarrow> n = 9"
  "bit X86_EFLAGS_DF n \<longleftrightarrow> n = 10"
  "bit X86_EFLAGS_RF n \<longleftrightarrow> n = 16"
  "bit X86_EFLAGS_VM n \<longleftrightarrow> n = 17"
  "bit X86_EFLAGS_AC n \<longleftrightarrow> n = 18"
  "bit EFER_LME n \<longleftrightarrow> n = 8"
  "bit EFER_LMA n \<longleftrightarrow> n = 10"
  unfolding u64_mask_defs bit_shift_1 by simp_all

lemma and_u64_masks [simp]:
  "x AND CR0_PE_MASK = 0 \<longleftrightarrow> \<not> bit x 0"
  "x AND CR0_TS_MASK = 0 \<longleftrightarrow> \<not> bit x 3"
  "x AND CR0_NE_MASK = 0 \<longleftrightarrow> \<not> bit x 5"
  "x AND CR0_WP_MASK = 0 \<longleftrightarrow> \<not> bit x 16"
  "x AND CR0_NW_MASK = 0 \<longleftrightarrow> \<not> bit x 29"
  "x AND CR0_CD_MASK = 0 \<longleftrightarrow> \<not> bit x 30"
  "x AND CR0_PG_MASK = 0 \<longleftrightarrow> \<not> bit x 31"
  "x AND CR4_VME_MASK = 0 \<longleftrightarrow> \<not> bit x 0"
  "x AND CR4_PSE_MASK = 0 \<longleftrightarrow> \<not> bit x 4"
  "x AND CR4_PAE_MASK = 0 \<longleftrightarrow> \<not> bit x 5"
  "x AND CR4_PGE_MASK = 0 \<longleftrightarrow> \<not> bit x 7"
  "x AND CR4_VMXE_MASK = 0 \<longleftrightarrow> \<not> bit x 13"
  "x AND X86_EFLAGS_TF = 0 \<longleftrightarrow> \<not> bit x 8"
  "x AND X86_EFLAGS_IF = 0 \<longleftrightarrow> \<not> bit x 9"
  "x AND X86_EFLAGS_DF = 0 \<longleftrightarrow> \<not> bit x 10"
  "x AND X86_EFLAGS_VM = 0 \<longleftrightarrow> \<not> bit x 17"
  "x AND EFER_LME = 0 \<longleftrightarrow> \<not> bit x 8"
  "x AND EFER_LMA = 0 \<longleftrightarrow> \<not> bit x 10"
  unfolding u64_mask_defs by (rule and_shift_eq_0)+

lemma IOPL_MASK_alt: "IOPL_MASK = push_bit 12 1 OR push_bit 13 1"
  by (simp add: IOPL_MASK_def)

lemma bit_IOPL_MASK [mask_bits]: "bit IOPL_MASK n \<longleftrightarrow> n = 12 \<or> n = 13"
  unfolding IOPL_MASK_alt bit_or_iff bit_shift_1 by simp

lemma bit_guest_cr0_mask [mask_bits]:
  "bit KVM_GUEST_CR0_MASK n \<longleftrightarrow> n = 31 \<or> n = 0 \<or> n = 16 \<or> n = 5"
  by (simp add: KVM_GUEST_CR0_MASK_def bit_or_iff mask_bits)

lemma bit_cr0_always_on [mask_bits]:
  "bit KVM_VM_CR0_ALWAYS_ON n \<longleftrightarrow> n = 31 \<or> n = 0 \<or> n = 16 \<or> n = 5"
  by (simp add: KVM_VM_CR0_ALWAYS_ON_def mask_bits)

lemma bit_guest_cr4_mask [mask_bits]:
  "bit KVM_GUEST_CR4_MASK n \<longleftrightarrow> n = 4 \<or> n = 5 \<or> n = 7 \<or> n = 13 \<or> n = 0"
  by (simp add: KVM_GUEST_CR4_MASK_def bit_or_iff mask_bits)

lemma bit_cr4_always_on [mask_bits]:
  "bit KVM_PMODE_VM_CR4_ALWAYS_ON n \<longleftrightarrow> n = 13 \<or> n = 5"
  "bit KVM_RMODE_VM_CR4_ALWAYS_ON n \<longleftrightarrow> n = 13 \<or> n = 5 \<or> n = 0"
  by (simp_all add: KVM_PMODE_VM_CR4_ALWAYS_ON_def KVM_RMODE_VM_CR4_ALWAYS_ON_def bit_or_iff
      mask_bits)

end
