(* ===== verification/Kvm_State.thy ===== *)
theory Kvm_State
  imports Kvm_Defs
begin

text \<open>
  The data of the module: the structures of \<open>kvm.h\<close> as records, the VMCS accessors and
  the inline predicates of \<open>kvm.h\<close>. The record \<open>vm\<close> is \<open>struct kvm\<close> together with the
  world its code reads and writes: the VMCS of the virtual cpu, host memory, the page
  allocator, the statistics and the physical cpu. \<open>KVM_MAX_VCPUS\<close> is 1, so \<open>vcpus[0]\<close> is the
  field \<open>vcpu\<close>. Arrays of fixed size that the code indexes with a masked or checked index
  are functions from the index. The function pointers of \<open>struct kvm_mmu\<close> are one value of
  \<open>mmu_context\<close> (the four \<open>init_context\<close> functions install them together). \<open>ASSERT\<close> and
  \<open>printk\<close> only print, so they have no counterpart; neither have mutexes and spinlocks in
  the sequential handlers (the interleavings of the memory-region ioctl are modelled in
  \<open>Memslot_Race\<close>).
\<close>

section \<open>Structures\<close>

record vmx_msr_entry =
  msr_index :: u32
  msr_reserved :: u32
  msr_data :: u64

text \<open>The header of a shadow page; list membership is in the vm's lists of headers.\<close>

record kvm_mmu_page =
  page_hpa :: u64
  slot_bitmap :: u64
  page_global :: bool
  parent_pte :: "u64 option"

datatype mmu_context = Nonpaging | Paging64 | Paging32

record kvm_mmu =
  mmu_ctx :: "mmu_context option"
  root_hpa :: u64
  root_level :: nat
  shadow_root_level :: nat

record kvm_guest_debug =
  dbg_enabled :: bool
  dbg_bp :: "nat \<Rightarrow> u64"
  dbg_singlestep :: bool

abbreviation (input) VCPU_REGS_RAX :: nat where "VCPU_REGS_RAX \<equiv> 0"
abbreviation (input) VCPU_REGS_RCX :: nat where "VCPU_REGS_RCX \<equiv> 1"
abbreviation (input) VCPU_REGS_RDX :: nat where "VCPU_REGS_RDX \<equiv> 2"
abbreviation (input) VCPU_REGS_RBX :: nat where "VCPU_REGS_RBX \<equiv> 3"
abbreviation (input) VCPU_REGS_RSP :: nat where "VCPU_REGS_RSP \<equiv> 4"
abbreviation (input) VCPU_REGS_RBP :: nat where "VCPU_REGS_RBP \<equiv> 5"
abbreviation (input) VCPU_REGS_RSI :: nat where "VCPU_REGS_RSI \<equiv> 6"
abbreviation (input) VCPU_REGS_RDI :: nat where "VCPU_REGS_RDI \<equiv> 7"

record rmode_save =
  rmode_active :: bool
  save_iopl :: u8
  rm_tr_base :: u64
  rm_tr_limit :: u32
  rm_tr_ar :: u32

record kvm_vcpu =
  vcpu_vmcs :: "u64 option"
  vcpu_cpu :: int
  launched :: bool
  irq_summary :: u64
  irq_pending :: "nat \<Rightarrow> u64"
  regs :: "nat \<Rightarrow> u64"
  rip :: u64
  cr2 :: u64
  cr3 :: u64
  cr8 :: u64
  shadow_efer :: u64
  apic_base :: u64
  nmsrs :: nat
  guest_msrs :: "vmx_msr_entry list"
  host_msrs :: "vmx_msr_entry list"
  free_pages :: "nat list"
  page_header_buf :: "nat \<Rightarrow> kvm_mmu_page"
  mmu :: kvm_mmu
  guest_debug :: kvm_guest_debug
  host_fx_image :: "u8 list"
  guest_fx_image :: "u8 list"
  mmio_needed :: bool
  mmio_read_completed :: bool
  mmio_is_write :: bool
  mmio_size :: nat
  mmio_data :: "u8 list"
  mmio_phys_addr :: u64
  rmode :: rmode_save

text \<open>
  A memory slot. \<open>phys_mem\<close> and \<open>dirty_bitmap\<close> are pointers to \<open>vmalloc\<close> arrays, with 0 for
  \<open>NULL\<close>; the arrays are in the vm's \<open>vheap\<close>, because slots are copied and compared by
  pointer. An element of \<open>phys_mem\<close> is a \<open>struct page *\<close>, given by its frame number, with 0
  for \<open>NULL\<close>.
\<close>

record kvm_memory_slot =
  base_gfn :: u64
  npages :: u64
  slot_flags :: u64
  phys_mem :: nat
  dirty_bitmap :: nat

record kvm_stats =
  pf_fixed :: u32
  pf_guest :: u32
  tlb_flush :: u32
  invlpg :: u32
  exits :: u32
  io_exits :: u32
  mmio_exits :: u32
  signal_exits :: u32
  irq_exits :: u32

text \<open>
  What the code reads and writes of the physical cpu it runs on; \<open>h_current_vmcs\<close> is the per-cpu
  variable \<open>current_vmcs\<close>.
\<close>

record host_cpu =
  h_msr :: "u32 \<Rightarrow> u64"
  h_msr_valid :: "u32 \<Rightarrow> bool"
  h_fs :: u16
  h_gs :: u16
  h_ldt :: u16
  h_tr :: u16
  h_cpu :: int
  h_current_vmcs :: "u64 option"
  h_gdt_base :: u64
  h_idt_base :: u64
  h_cr0 :: u64
  h_cr3 :: u64
  h_cr4 :: u64
  h_tsc :: u64
  h_fpu :: "u8 list"
  h_dr :: "nat \<Rightarrow> u64"

record vm =
  nmemslots :: nat
  memslots :: "nat \<Rightarrow> kvm_memory_slot"
  active_mmu_pages :: "nat list"
  vcpu :: kvm_vcpu
  memory_config_version :: u32
  busy :: int
  vmcs :: "nat \<Rightarrow> u64"
  hmem :: memory
  page_private :: "u64 \<Rightarrow> nat"
  free_frames :: "u64 list"
  vheap :: "nat \<Rightarrow> u64 list option"
  vnext :: nat
  vmalloc_results :: "bool list"
  kvm_stat :: kvm_stats
  host :: host_cpu
  bad_page_address :: u64
  kernel_bug :: bool

text \<open>
  The last fields of \<open>vm\<close> are the world: \<open>free_frames\<close> is what the page allocator still has,
  \<open>vmalloc_results\<close> decides which of the next \<open>vmalloc\<close> calls succeed, \<open>vnext\<close> is the next
  pointer \<open>vmalloc\<close> returns, and \<open>kernel_bug\<close> is set when the code passes a \<open>NULL\<close> page to
  \<open>__free_page\<close> or reads past an array, which the kernel does not survive.
\<close>

section \<open>The zeroed structures\<close>

text \<open>What \<open>kzalloc\<close> makes of \<open>struct kvm\<close>, in a world whose allocators have nothing left.\<close>

definition zero_slot :: kvm_memory_slot where
  "zero_slot = \<lparr>base_gfn = 0, npages = 0, slot_flags = 0, phys_mem = 0, dirty_bitmap = 0\<rparr>"

definition zero_page_header :: kvm_mmu_page where
  "zero_page_header = \<lparr>page_hpa = 0, slot_bitmap = 0, page_global = False, parent_pte = None\<rparr>"

definition zero_mmu :: kvm_mmu where
  "zero_mmu = \<lparr>mmu_ctx = None, root_hpa = 0, root_level = 0, shadow_root_level = 0\<rparr>"

definition zero_debug :: kvm_guest_debug where
  "zero_debug = \<lparr>dbg_enabled = False, dbg_bp = (\<lambda>_. 0), dbg_singlestep = False\<rparr>"

definition zero_rmode :: rmode_save where
  "zero_rmode = \<lparr>rmode_active = False, save_iopl = 0, rm_tr_base = 0, rm_tr_limit = 0, rm_tr_ar = 0\<rparr>"

definition zero_vcpu :: kvm_vcpu where
  "zero_vcpu = \<lparr>vcpu_vmcs = None, vcpu_cpu = 0, launched = False, irq_summary = 0,
     irq_pending = (\<lambda>_. 0), regs = (\<lambda>_. 0), rip = 0, cr2 = 0, cr3 = 0, cr8 = 0,
     shadow_efer = 0, apic_base = 0, nmsrs = 0, guest_msrs = [], host_msrs = [],
     free_pages = [], page_header_buf = (\<lambda>_. zero_page_header), mmu = zero_mmu,
     guest_debug = zero_debug, host_fx_image = [], guest_fx_image = [], mmio_needed = False,
     mmio_read_completed = False, mmio_is_write = False, mmio_size = 0, mmio_data = [],
     mmio_phys_addr = 0, rmode = zero_rmode\<rparr>"

definition zero_stats :: kvm_stats where
  "zero_stats = \<lparr>pf_fixed = 0, pf_guest = 0, tlb_flush = 0, invlpg = 0, exits = 0,
     io_exits = 0, mmio_exits = 0, signal_exits = 0, irq_exits = 0\<rparr>"

definition zero_host :: host_cpu where
  "zero_host = \<lparr>h_msr = (\<lambda>_. 0), h_msr_valid = (\<lambda>_. False), h_fs = 0, h_gs = 0, h_ldt = 0,
     h_tr = 0, h_cpu = 0, h_current_vmcs = None, h_gdt_base = 0, h_idt_base = 0, h_cr0 = 0, h_cr3 = 0, h_cr4 = 0, h_tsc = 0,
     h_fpu = [], h_dr = (\<lambda>_. 0)\<rparr>"

definition zero_vm :: vm where
  "zero_vm = \<lparr>nmemslots = 0, memslots = (\<lambda>_. zero_slot), active_mmu_pages = [],
     vcpu = zero_vcpu, memory_config_version = 0, busy = 0, vmcs = (\<lambda>_. 0), hmem = (\<lambda>_. 0),
     page_private = (\<lambda>_. 0), free_frames = [], vheap = (\<lambda>_. None), vnext = 1,
     vmalloc_results = [], kvm_stat = zero_stats, host = zero_host, bad_page_address = 0,
     kernel_bug = False\<rparr>"

lemmas zero_defs = zero_slot_def zero_page_header_def zero_mmu_def zero_debug_def zero_rmode_def
  zero_vcpu_def zero_stats_def zero_host_def zero_vm_def

section \<open>VMCS accessors\<close>

definition vmcs_readl :: "vm \<Rightarrow> nat \<Rightarrow> u64" where
  "vmcs_readl s field = vmcs s field"

definition vmcs_writel :: "nat \<Rightarrow> u64 \<Rightarrow> vm \<Rightarrow> vm" where
  "vmcs_writel field value s = s\<lparr>vmcs := (vmcs s)(field := value)\<rparr>"

definition vmcs_read16 :: "vm \<Rightarrow> nat \<Rightarrow> u16" where
  "vmcs_read16 s field = ucast (vmcs_readl s field)"

definition vmcs_read32 :: "vm \<Rightarrow> nat \<Rightarrow> u32" where
  "vmcs_read32 s field = ucast (vmcs_readl s field)"

definition vmcs_read64 :: "vm \<Rightarrow> nat \<Rightarrow> u64" where
  "vmcs_read64 s field = vmcs_readl s field"

definition vmcs_write16 :: "nat \<Rightarrow> u16 \<Rightarrow> vm \<Rightarrow> vm" where
  "vmcs_write16 field value s = vmcs_writel field (ucast value) s"

definition vmcs_write32 :: "nat \<Rightarrow> u32 \<Rightarrow> vm \<Rightarrow> vm" where
  "vmcs_write32 field value s = vmcs_writel field (ucast value) s"

definition vmcs_write64 :: "nat \<Rightarrow> u64 \<Rightarrow> vm \<Rightarrow> vm" where
  "vmcs_write64 field value s = vmcs_writel field value s"

text \<open>The VMCS is an array of cells: the same interface as the page tables' memory.\<close>

interpretation vmcs_cells: cells vmcs_readl vmcs_writel "\<lambda>_. True" "\<lambda>v. v"
  by unfold_locales (auto simp: vmcs_readl_def vmcs_writel_def)

lemma vmcs_readl_writes [vmcs_simps]:
  "vmcs_readl (vmcs_writel f v s) g = (if g = f then v else vmcs_readl s g)"
  "vmcs_readl (vmcs_write16 f v16 s) g = (if g = f then ucast v16 else vmcs_readl s g)"
  "vmcs_readl (vmcs_write32 f v32 s) g = (if g = f then ucast v32 else vmcs_readl s g)"
  "vmcs_readl (vmcs_write64 f v s) g = (if g = f then v else vmcs_readl s g)"
  by (simp_all add: vmcs_cells.rd_wr vmcs_write16_def vmcs_write32_def vmcs_write64_def)

lemma vmcs_read16_writes [vmcs_simps]:
  "vmcs_read16 (vmcs_writel f v s) g = (if g = f then ucast v else vmcs_read16 s g)"
  "vmcs_read16 (vmcs_write16 f v16 s) g = (if g = f then v16 else vmcs_read16 s g)"
  "vmcs_read16 (vmcs_write32 f v32 s) g = (if g = f then ucast (ucast v32 :: u64) else vmcs_read16 s g)"
  "vmcs_read16 (vmcs_write64 f v s) g = (if g = f then ucast v else vmcs_read16 s g)"
  by (simp_all add: vmcs_read16_def vmcs_readl_writes)

lemma vmcs_read32_writes [vmcs_simps]:
  "vmcs_read32 (vmcs_writel f v s) g = (if g = f then ucast v else vmcs_read32 s g)"
  "vmcs_read32 (vmcs_write16 f v16 s) g = (if g = f then ucast (ucast v16 :: u64) else vmcs_read32 s g)"
  "vmcs_read32 (vmcs_write32 f v32 s) g = (if g = f then v32 else vmcs_read32 s g)"
  "vmcs_read32 (vmcs_write64 f v s) g = (if g = f then ucast v else vmcs_read32 s g)"
  by (simp_all add: vmcs_read32_def vmcs_readl_writes)

lemma vmcs_read64_writes [vmcs_simps]:
  "vmcs_read64 (vmcs_writel f v s) g = (if g = f then v else vmcs_read64 s g)"
  "vmcs_read64 (vmcs_write16 f v16 s) g = (if g = f then ucast v16 else vmcs_read64 s g)"
  "vmcs_read64 (vmcs_write32 f v32 s) g = (if g = f then ucast v32 else vmcs_read64 s g)"
  "vmcs_read64 (vmcs_write64 f v s) g = (if g = f then v else vmcs_read64 s g)"
  by (simp_all add: vmcs_read64_def vmcs_readl_writes)

lemmas vmcs_access_defs =
  vmcs_writel_def vmcs_write16_def vmcs_write32_def vmcs_write64_def

text \<open>A VMCS write changes nothing else, and updates elsewhere do not change the VMCS.\<close>

lemma vmcs_writel_frame [vmcs_simps]:
  "nmemslots (vmcs_writel f v s) = nmemslots s"
  "memslots (vmcs_writel f v s) = memslots s"
  "active_mmu_pages (vmcs_writel f v s) = active_mmu_pages s"
  "vcpu (vmcs_writel f v s) = vcpu s"
  "memory_config_version (vmcs_writel f v s) = memory_config_version s"
  "busy (vmcs_writel f v s) = busy s"
  "hmem (vmcs_writel f v s) = hmem s"
  "page_private (vmcs_writel f v s) = page_private s"
  "free_frames (vmcs_writel f v s) = free_frames s"
  "vheap (vmcs_writel f v s) = vheap s"
  "vnext (vmcs_writel f v s) = vnext s"
  "kernel_bug (vmcs_writel f v s) = kernel_bug s"
  "vmalloc_results (vmcs_writel f v s) = vmalloc_results s"
  "kvm_stat (vmcs_writel f v s) = kvm_stat s"
  "host (vmcs_writel f v s) = host s"
  "bad_page_address (vmcs_writel f v s) = bad_page_address s"
  by (simp_all add: vmcs_writel_def)

lemma vmcs_write_frame [vmcs_simps]:
  "nmemslots (vmcs_write16 f w s) = nmemslots s"
  "memslots (vmcs_write16 f w s) = memslots s"
  "active_mmu_pages (vmcs_write16 f w s) = active_mmu_pages s"
  "vcpu (vmcs_write16 f w s) = vcpu s"
  "hmem (vmcs_write16 f w s) = hmem s"
  "page_private (vmcs_write16 f w s) = page_private s"
  "vheap (vmcs_write16 f w s) = vheap s"
  "kernel_bug (vmcs_write16 f w s) = kernel_bug s"
  "kvm_stat (vmcs_write16 f w s) = kvm_stat s"
  "host (vmcs_write16 f w s) = host s"
  "bad_page_address (vmcs_write16 f w s) = bad_page_address s"
  "nmemslots (vmcs_write32 f d s) = nmemslots s"
  "memslots (vmcs_write32 f d s) = memslots s"
  "active_mmu_pages (vmcs_write32 f d s) = active_mmu_pages s"
  "vcpu (vmcs_write32 f d s) = vcpu s"
  "hmem (vmcs_write32 f d s) = hmem s"
  "page_private (vmcs_write32 f d s) = page_private s"
  "vheap (vmcs_write32 f d s) = vheap s"
  "free_frames (vmcs_write32 f d s) = free_frames s"
  "kernel_bug (vmcs_write32 f d s) = kernel_bug s"
  "kvm_stat (vmcs_write32 f d s) = kvm_stat s"
  "host (vmcs_write32 f d s) = host s"
  "bad_page_address (vmcs_write32 f d s) = bad_page_address s"
  "memslots (vmcs_write64 f v s) = memslots s"
  "nmemslots (vmcs_write64 f v s) = nmemslots s"
  "vcpu (vmcs_write64 f v s) = vcpu s"
  "hmem (vmcs_write64 f v s) = hmem s"
  "host (vmcs_write64 f v s) = host s"
  by (simp_all add: vmcs_access_defs)

lemma vmcs_read_frame [vmcs_simps]:
  "vmcs_readl (vcpu_update g s) f = vmcs_readl s f"
  "vmcs_readl (hmem_update m s) f = vmcs_readl s f"
  "vmcs_readl (kvm_stat_update st s) f = vmcs_readl s f"
  "vmcs_readl (host_update h s) f = vmcs_readl s f"
  "vmcs_readl (active_mmu_pages_update l s) f = vmcs_readl s f"
  "vmcs_readl (memslots_update ms s) f = vmcs_readl s f"
  "vmcs_read16 (vcpu_update g s) f = vmcs_read16 s f"
  "vmcs_read32 (vcpu_update g s) f = vmcs_read32 s f"
  "vmcs_read64 (vcpu_update g s) f = vmcs_read64 s f"
  "vmcs_read32 (hmem_update m s) f = vmcs_read32 s f"
  "vmcs_read32 (kvm_stat_update st s) f = vmcs_read32 s f"
  "vmcs_read32 (host_update h s) f = vmcs_read32 s f"
  "vmcs_read32 (active_mmu_pages_update l s) f = vmcs_read32 s f"
  by (simp_all add: vmcs_readl_def vmcs_read16_def vmcs_read32_def vmcs_read64_def)

section \<open>Inline predicates of kvm.h\<close>

definition HPA_MSB :: nat where
  "HPA_MSB = 63"

definition HPA_ERR_MASK :: u64 where
  "HPA_ERR_MASK = push_bit HPA_MSB 1"

definition is_error_hpa :: "u64 \<Rightarrow> bool" where
  "is_error_hpa hpa \<longleftrightarrow> drop_bit HPA_MSB hpa \<noteq> 0"

lemma is_error_hpa_bit: "is_error_hpa hpa \<longleftrightarrow> bit hpa 63"
proof -
  have "drop_bit 63 hpa = 0 \<longleftrightarrow> \<not> bit hpa 63"
  proof
    assume "drop_bit 63 hpa = 0"
    then have "\<not> bit (drop_bit 63 hpa) 0" by simp
    then show "\<not> bit hpa 63" by (simp add: bit_drop_bit_eq)
  next
    assume "\<not> bit hpa 63"
    show "drop_bit 63 hpa = 0"
    proof (rule bit_word_eqI)
      fix n
      show "bit (drop_bit 63 hpa) n = bit (0 :: u64) n"
        using \<open>\<not> bit hpa 63\<close> by (cases n) (simp_all add: bit_drop_bit_eq)
    qed
  qed
  then show ?thesis by (simp add: is_error_hpa_def HPA_MSB_def)
qed

lemma bit_HPA_ERR_MASK [mask_bits]: "bit HPA_ERR_MASK n \<longleftrightarrow> n = 63"
  unfolding HPA_ERR_MASK_def HPA_MSB_def bit_shift_1 by simp

definition is_long_mode :: "vm \<Rightarrow> bool" where
  "is_long_mode s \<longleftrightarrow> vmcs_read32 s VM_ENTRY_CONTROLS AND VM_ENTRY_CONTROLS_IA32E_MASK \<noteq> 0"

definition guest_cr4 :: "vm \<Rightarrow> u64" where
  "guest_cr4 s = (vmcs_readl s CR4_READ_SHADOW AND KVM_GUEST_CR4_MASK) OR
     (vmcs_readl s GUEST_CR4 AND NOT KVM_GUEST_CR4_MASK)"

definition is_pae :: "vm \<Rightarrow> bool" where
  "is_pae s \<longleftrightarrow> guest_cr4 s AND CR4_PAE_MASK \<noteq> 0"

definition is_pse :: "vm \<Rightarrow> bool" where
  "is_pse s \<longleftrightarrow> guest_cr4 s AND CR4_PSE_MASK \<noteq> 0"

definition guest_cr0 :: "vm \<Rightarrow> u64" where
  "guest_cr0 s = (vmcs_readl s CR0_READ_SHADOW AND KVM_GUEST_CR0_MASK) OR
     (vmcs_readl s GUEST_CR0 AND NOT KVM_GUEST_CR0_MASK)"

definition guest_cpl :: "vm \<Rightarrow> u16" where
  "guest_cpl s = vmcs_read16 s GUEST_CS_SELECTOR AND SELECTOR_RPL_MASK"

text \<open>
  \<open>is_paging\<close> returns an \<open>int\<close>: \<open>guest_cr0() & CR0_PG_MASK\<close> is bit 31, which survives the
  conversion, so it is used as a truth value.
\<close>

definition is_paging :: "vm \<Rightarrow> bool" where
  "is_paging s \<longleftrightarrow> guest_cr0 s AND CR0_PG_MASK \<noteq> 0"

definition is_page_fault :: "u32 \<Rightarrow> bool" where
  "is_page_fault intr_info \<longleftrightarrow>
     intr_info AND (INTR_INFO_INTR_TYPE_MASK OR INTR_INFO_VECTOR_MASK OR INTR_INFO_VALID_MASK) =
     (INTR_TYPE_EXCEPTION OR PF_VECTOR OR INTR_INFO_VALID_MASK)"

definition is_external_interrupt :: "u32 \<Rightarrow> bool" where
  "is_external_interrupt intr_info \<longleftrightarrow>
     intr_info AND (INTR_INFO_INTR_TYPE_MASK OR INTR_INFO_VALID_MASK) =
     (INTR_TYPE_EXT_INTR OR INTR_INFO_VALID_MASK)"

definition flush_guest_tlb :: "vm \<Rightarrow> vm" where
  "flush_guest_tlb s = vmcs_writel GUEST_CR3 (vmcs_readl s GUEST_CR3) s"

definition page_header :: "vm \<Rightarrow> u64 \<Rightarrow> nat" where
  "page_header s shadow_page = page_private s (drop_bit PAGE_SHIFT shadow_page)"

lemma bit_guest_cr0:
  "bit (guest_cr0 s) n \<longleftrightarrow>
    (if n = 31 \<or> n = 0 \<or> n = 16 \<or> n = 5 then bit (vmcs_readl s CR0_READ_SHADOW) n
     else bit (vmcs_readl s GUEST_CR0) n)"
  by (auto simp: guest_cr0_def bit_simps mask_bits dest: bit_imp_le_length)

lemma bit_guest_cr4:
  "bit (guest_cr4 s) n \<longleftrightarrow>
    (if n = 4 \<or> n = 5 \<or> n = 7 \<or> n = 13 \<or> n = 0 then bit (vmcs_readl s CR4_READ_SHADOW) n
     else bit (vmcs_readl s GUEST_CR4) n)"
  by (auto simp: guest_cr4_def bit_simps mask_bits dest: bit_imp_le_length)

lemma is_paging_bit: "is_paging s \<longleftrightarrow> bit (vmcs_readl s CR0_READ_SHADOW) 31"
  by (simp add: is_paging_def bit_guest_cr0)

lemma is_pae_bit: "is_pae s \<longleftrightarrow> bit (vmcs_readl s CR4_READ_SHADOW) 5"
  by (simp add: is_pae_def bit_guest_cr4)

end
