(* ===== verification/Memslots.thy ===== *)
theory Memslots
  imports Kvm_State
begin

text \<open>
  Guest physical memory: the memory slots of \<open>kvm_main.c\<close>, their lookup, the dirty log
  bitmap, and the three phases of \<open>kvm_dev_ioctl_set_memory_region\<close> that touch them (the
  check under the lock, the allocation outside it, the commit under the lock again). The
  whole ioctl, which also resets the shadow page tables, is in \<open>Memory_Ioctls\<close>. The
  invariant \<open>slots_ok\<close> says that the slots are disjoint intervals of guest frames; the
  abstraction \<open>logged_dirty\<close> is the set of guest frames a slot's bitmap records.
\<close>

datatype errno = EINVAL | EEXIST | ENOMEM | ENOENT | EFAULT | EAGAIN | EINTR | EOPNOTSUPP

section \<open>The allocators\<close>

text \<open>\<open>vmalloc\<close> followed by the \<open>memset\<close> to zero that every caller does.\<close>

definition vmalloc_zeroed :: "nat \<Rightarrow> vm \<Rightarrow> nat \<times> vm" where
  "vmalloc_zeroed n s = (case vmalloc_results s of
     [] \<Rightarrow> (0, s)
   | ok # rest \<Rightarrow>
       if ok then (vnext s, s\<lparr>vheap := (vheap s)(vnext s \<mapsto> replicate n 0),
                              vnext := Suc (vnext s), vmalloc_results := rest\<rparr>)
       else (0, s\<lparr>vmalloc_results := rest\<rparr>))"

definition vfree :: "nat \<Rightarrow> vm \<Rightarrow> vm" where
  "vfree p s = s\<lparr>vheap := (vheap s)(p := None)\<rparr>"

definition alloc_page :: "vm \<Rightarrow> u64 \<times> vm" where
  "alloc_page s = (case free_frames s of
     [] \<Rightarrow> (0, s)
   | f # fs \<Rightarrow> (f, s\<lparr>free_frames := fs\<rparr>))"

definition free_page :: "u64 \<Rightarrow> vm \<Rightarrow> vm" where
  "free_page f s =
     (if f = 0 then s\<lparr>kernel_bug := True\<rparr> else s\<lparr>free_frames := f # free_frames s\<rparr>)"

text \<open>An array read; past the end it is 0, which no caller accepts as a page.\<close>

definition arr_get :: "u64 list \<Rightarrow> nat \<Rightarrow> u64" where
  "arr_get ws i = (if i < length ws then ws ! i else 0)"

definition varray :: "vm \<Rightarrow> nat \<Rightarrow> u64 list" where
  "varray s p = (case vheap s p of None \<Rightarrow> [] | Some ws \<Rightarrow> ws)"

definition varray_set :: "nat \<Rightarrow> nat \<Rightarrow> u64 \<Rightarrow> vm \<Rightarrow> vm" where
  "varray_set p i w s = s\<lparr>vheap := (vheap s)(p \<mapsto> (varray s p)[i := w])\<rparr>"

section \<open>Lookup\<close>

definition gfn_in_slot :: "kvm_memory_slot \<Rightarrow> u64 \<Rightarrow> bool" where
  "gfn_in_slot slot gfn \<longleftrightarrow> base_gfn slot \<le> gfn \<and> gfn < base_gfn slot + npages slot"

definition gfn_to_memslot :: "vm \<Rightarrow> u64 \<Rightarrow> nat option" where
  "gfn_to_memslot s gfn = List.find (\<lambda>i. gfn_in_slot (memslots s i) gfn) [0..<nmemslots s]"

definition gfn_to_page :: "vm \<Rightarrow> kvm_memory_slot \<Rightarrow> u64 \<Rightarrow> u64" where
  "gfn_to_page s slot gfn = arr_get (varray s (phys_mem slot)) (unat (gfn - base_gfn slot))"

definition gfn_to_page_opt :: "vm \<Rightarrow> u64 \<Rightarrow> u64" where
  "gfn_to_page_opt s gfn = (case gfn_to_memslot s gfn of
     None \<Rightarrow> 0
   | Some i \<Rightarrow> gfn_to_page s (memslots s i) gfn)"

text \<open>The \<open>nopage\<close> handler of the user mapping: the page behind an offset of the device file.\<close>

definition kvm_dev_nopage :: "vm \<Rightarrow> u64 \<Rightarrow> u64 \<Rightarrow> u64 \<Rightarrow> u64 option" where
  "kvm_dev_nopage s vm_start vm_pgoff address =
     (let pgoff = drop_bit PAGE_SHIFT (address - vm_start) + vm_pgoff
      in case gfn_to_memslot s pgoff of
           None \<Rightarrow> None
         | Some i \<Rightarrow>
             (let page = gfn_to_page s (memslots s i) pgoff
              in if page = 0 then None else Some page))"

section \<open>The dirty bitmap\<close>

definition test_bit_arr :: "u64 list \<Rightarrow> nat \<Rightarrow> bool" where
  "test_bit_arr ws n = bit (arr_get ws (n div 64)) (n mod 64)"

definition set_bit_arr :: "u64 list \<Rightarrow> nat \<Rightarrow> u64 list" where
  "set_bit_arr ws n = ws[n div 64 := arr_get ws (n div 64) OR push_bit (n mod 64) 1]"

definition mark_page_dirty :: "u64 \<Rightarrow> vm \<Rightarrow> vm" where
  "mark_page_dirty gfn s = (case gfn_to_memslot s gfn of
     None \<Rightarrow> s
   | Some i \<Rightarrow>
       let memslot = memslots s i in
       if dirty_bitmap memslot = 0 then s
       else
         let rel_gfn = unat (gfn - base_gfn memslot);
             bits = varray s (dirty_bitmap memslot)
         in if test_bit_arr bits rel_gfn then s
            else s\<lparr>vheap := (vheap s)(dirty_bitmap memslot \<mapsto> set_bit_arr bits rel_gfn)\<rparr>)"

section \<open>Releasing a slot's memory\<close>

text \<open>
  \<open>kvm_free_physmem_slot\<close> frees what \<open>free\<close> has and \<open>dont\<close> has not, and clears \<open>free\<close>. The
  loop hands every element of the page array to \<open>__free_page\<close>.
\<close>

definition free_slot_pages :: "kvm_memory_slot \<Rightarrow> vm \<Rightarrow> vm" where
  "free_slot_pages free s =
     fold (\<lambda>i. free_page (arr_get (varray s (phys_mem free)) i)) [0..<unat (npages free)] s"

definition kvm_free_physmem_slot ::
  "kvm_memory_slot \<Rightarrow> kvm_memory_slot option \<Rightarrow> vm \<Rightarrow> kvm_memory_slot \<times> vm" where
  "kvm_free_physmem_slot free dont s =
     (let s = (if (case dont of None \<Rightarrow> True | Some d \<Rightarrow> phys_mem free \<noteq> phys_mem d)
               then if phys_mem free \<noteq> 0
                    then vfree (phys_mem free) (free_slot_pages free s)
                    else s
               else s);
          s = (if (case dont of None \<Rightarrow> True | Some d \<Rightarrow> dirty_bitmap free \<noteq> dirty_bitmap d)
               then vfree (dirty_bitmap free) s
               else s)
      in (free\<lparr>phys_mem := 0, npages := 0, dirty_bitmap := 0\<rparr>, s))"

definition kvm_free_physmem :: "vm \<Rightarrow> vm" where
  "kvm_free_physmem s = fold (\<lambda>i s.
     let (slot, s) = kvm_free_physmem_slot (memslots s i) None s
     in s\<lparr>memslots := (memslots s)(i := slot)\<rparr>) [0..<nmemslots s] s"

section \<open>The phases of KVM_SET_MEMORY_REGION\<close>

record kvm_memory_region =
  mr_slot :: u32
  mr_flags :: u32
  mr_gpa :: u64
  mr_size :: u64

definition KVM_MEM_LOG_DIRTY_PAGES :: u64 where
  "KVM_MEM_LOG_DIRTY_PAGES = 1"

definition region_gfn :: "kvm_memory_region \<Rightarrow> u64" where
  "region_gfn mem = drop_bit PAGE_SHIFT (mr_gpa mem)"

definition region_npages :: "kvm_memory_region \<Rightarrow> u64" where
  "region_npages mem = drop_bit PAGE_SHIFT (mr_size mem)"

text \<open>\<open>mem->flags\<close> after the dirty logging of an empty region is dropped.\<close>

definition region_flags :: "kvm_memory_region \<Rightarrow> u64" where
  "region_flags mem =
     (if region_npages mem = 0 then ucast (mr_flags mem) AND NOT KVM_MEM_LOG_DIRTY_PAGES
      else ucast (mr_flags mem))"

definition region_checks :: "kvm_memory_region \<Rightarrow> errno option" where
  "region_checks mem =
     (if mr_size mem AND (PAGE_SIZE - 1) \<noteq> 0 then Some EINVAL
      else if mr_gpa mem AND (PAGE_SIZE - 1) \<noteq> 0 then Some EINVAL
      else if KVM_MEMORY_SLOTS \<le> unat (mr_slot mem) then Some EINVAL
      else if mr_gpa mem + mr_size mem < mr_gpa mem then Some EINVAL
      else None)"

definition region_index :: "kvm_memory_region \<Rightarrow> nat" where
  "region_index mem = unat (mr_slot mem)"

definition overlaps_slot :: "kvm_memory_region \<Rightarrow> kvm_memory_slot \<Rightarrow> bool" where
  "overlaps_slot mem sl \<longleftrightarrow>
     \<not> (region_gfn mem + region_npages mem \<le> base_gfn sl \<or>
        base_gfn sl + npages sl \<le> region_gfn mem)"

text \<open>
  Under the lock: remember the version, copy the slot, refuse a change of size and an
  overlap. The result carries \<open>(old, new, memory_config_version)\<close>.
\<close>

definition region_prepare ::
  "kvm_memory_region \<Rightarrow> vm \<Rightarrow> errno + (kvm_memory_slot \<times> kvm_memory_slot \<times> u32)" where
  "region_prepare mem s =
     (let old = memslots s (region_index mem);
          new = old\<lparr>base_gfn := region_gfn mem, npages := region_npages mem,
                    slot_flags := region_flags mem\<rparr>
      in if region_npages mem \<noteq> 0 \<and> npages old \<noteq> 0 \<and> region_npages mem \<noteq> npages old
         then Inl EINVAL
         else if \<exists>i \<in> set [0..<KVM_MEMORY_SLOTS].
                   i \<noteq> region_index mem \<and> overlaps_slot mem (memslots s i)
         then Inl EEXIST
         else Inr (old, new, memory_config_version s))"

text \<open>The allocation loop: fills the page array from index \<open>i\<close>, stops at the first failure.\<close>

fun alloc_slot_pages :: "nat \<Rightarrow> nat \<Rightarrow> nat \<Rightarrow> vm \<Rightarrow> bool \<times> vm" where
  "alloc_slot_pages 0 i p s = (True, s)"
| "alloc_slot_pages (Suc n) i p s =
     (let (page, s) = alloc_page s;
          s = varray_set p i page s
      in if page = 0 then (False, s) else alloc_slot_pages n (Suc i) p s)"

definition dirty_bytes :: "u64 \<Rightarrow> u32" where
  "dirty_bytes n = ucast (((n + 63) AND NOT 63) div 8)"

text \<open>Outside the lock: drop or allocate the page array and the bitmap. \<open>False\<close>: \<open>-ENOMEM\<close>.\<close>

definition region_alloc_pages :: "kvm_memory_slot \<Rightarrow> vm \<Rightarrow> bool \<times> kvm_memory_slot \<times> vm" where
  "region_alloc_pages new s =
     (if npages new \<noteq> 0 \<and> phys_mem new = 0 then
        let (p, s) = vmalloc_zeroed (unat (npages new)) s;
            new = new\<lparr>phys_mem := p\<rparr>
        in if p = 0 then (False, new, s)
           else let (ok, s) = alloc_slot_pages (unat (npages new)) 0 p s in (ok, new, s)
      else (True, new, s))"

definition region_alloc_bitmap :: "kvm_memory_slot \<Rightarrow> vm \<Rightarrow> bool \<times> kvm_memory_slot \<times> vm" where
  "region_alloc_bitmap new s =
     (if slot_flags new AND KVM_MEM_LOG_DIRTY_PAGES \<noteq> 0 \<and> dirty_bitmap new = 0 then
        let (p, s) = vmalloc_zeroed (unat (dirty_bytes (npages new)) div 8) s
        in (p \<noteq> 0, new\<lparr>dirty_bitmap := p\<rparr>, s)
      else (True, new, s))"

definition region_alloc :: "kvm_memory_slot \<Rightarrow> vm \<Rightarrow> bool \<times> kvm_memory_slot \<times> vm" where
  "region_alloc new s =
     (let new = (if npages new = 0 then new\<lparr>phys_mem := 0\<rparr> else new);
          new = (if slot_flags new AND KVM_MEM_LOG_DIRTY_PAGES = 0
                 then new\<lparr>dirty_bitmap := 0\<rparr> else new);
          (ok, new, s) = region_alloc_pages new s
      in if ok then region_alloc_bitmap new s else (False, new, s))"

text \<open>Under the lock again: detect a race, refuse while the dirty log is read, or commit.\<close>

datatype commit_result = Raced | Busy | Committed

definition region_commit ::
  "kvm_memory_region \<Rightarrow> kvm_memory_slot \<Rightarrow> u32 \<Rightarrow> vm \<Rightarrow> commit_result \<times> vm" where
  "region_commit mem new version s =
     (if version \<noteq> memory_config_version s then (Raced, s)
      else if busy s \<noteq> 0 then (Busy, s)
      else (Committed,
            s\<lparr>nmemslots := (if nmemslots s \<le> region_index mem then region_index mem + 1
                            else nmemslots s),
              memslots := (memslots s)(region_index mem := new),
              memory_config_version := memory_config_version s + 1\<rparr>))"

section \<open>The invariant of the slots\<close>

definition slot_frames :: "kvm_memory_slot \<Rightarrow> nat set" where
  "slot_frames sl = {unat (base_gfn sl) ..< unat (base_gfn sl) + unat (npages sl)}"

definition slot_in_range :: "kvm_memory_slot \<Rightarrow> bool" where
  "slot_in_range sl \<longleftrightarrow> unat (base_gfn sl) + unat (npages sl) < 2 ^ 52"

definition slots_ok :: "vm \<Rightarrow> bool" where
  "slots_ok s \<longleftrightarrow>
     nmemslots s \<le> KVM_MEMORY_SLOTS \<and>
     (\<forall>i < KVM_MEMORY_SLOTS. slot_in_range (memslots s i)) \<and>
     (\<forall>i < KVM_MEMORY_SLOTS. nmemslots s \<le> i \<longrightarrow> npages (memslots s i) = 0) \<and>
     (\<forall>i < KVM_MEMORY_SLOTS. \<forall>j < KVM_MEMORY_SLOTS. i \<noteq> j \<longrightarrow>
        slot_frames (memslots s i) \<inter> slot_frames (memslots s j) = {})"

lemma slots_okD:
  assumes "slots_ok s"
  shows "nmemslots s \<le> KVM_MEMORY_SLOTS"
    and "i < KVM_MEMORY_SLOTS \<Longrightarrow> slot_in_range (memslots s i)"
    and "i < KVM_MEMORY_SLOTS \<Longrightarrow> nmemslots s \<le> i \<Longrightarrow> npages (memslots s i) = 0"
    and "i < KVM_MEMORY_SLOTS \<Longrightarrow> j < KVM_MEMORY_SLOTS \<Longrightarrow> i \<noteq> j \<Longrightarrow>
         slot_frames (memslots s i) \<inter> slot_frames (memslots s j) = {}"
  using assms by (auto simp: slots_ok_def)

lemma slots_ok_cong:
  "nmemslots s' = nmemslots s \<Longrightarrow> memslots s' = memslots s \<Longrightarrow> slots_ok s' = slots_ok s"
  by (simp add: slots_ok_def)

lemma slot_end_unat:
  "slot_in_range sl \<Longrightarrow> unat (base_gfn sl + npages sl) = unat (base_gfn sl) + unat (npages sl)"
  by (subst unat_add_lem [THEN iffD1]) (simp_all add: slot_in_range_def)

text \<open>The word comparisons of the lookup decide membership in the interval of frames.\<close>

lemma gfn_in_slot_frames:
  assumes "slot_in_range sl"
  shows "gfn_in_slot sl gfn \<longleftrightarrow> unat gfn \<in> slot_frames sl"
  using slot_end_unat [OF assms]
  by (simp add: gfn_in_slot_def slot_frames_def word_le_nat_alt word_less_nat_alt)

lemma find_upt_Some:
  assumes "List.find P [0..<n] = Some i"
  shows "i < n \<and> P i \<and> (\<forall>j<i. \<not> P j)"
  using assms by (auto simp: find_Some_iff)

lemma gfn_to_memslotD:
  assumes "gfn_to_memslot s gfn = Some i"
  shows "i < nmemslots s" and "gfn_in_slot (memslots s i) gfn"
  using find_upt_Some [OF assms [unfolded gfn_to_memslot_def]] by auto

lemma gfn_to_memslot_SomeI:
  assumes ok: "slots_ok s" and i: "i < KVM_MEMORY_SLOTS"
    and f: "unat gfn \<in> slot_frames (memslots s i)"
  shows "gfn_to_memslot s gfn = Some i"
proof -
  note d = slots_okD [OF ok]
  have ne: "npages (memslots s i) \<noteq> 0"
    using f by (auto simp: slot_frames_def)
  have lt: "i < nmemslots s"
    using d(3) [OF i] ne by (meson not_le)
  have "gfn_in_slot (memslots s i) gfn"
    using f gfn_in_slot_frames [OF d(2) [OF i]] by simp
  moreover have "\<not> gfn_in_slot (memslots s j) gfn" if "j < i" for j
  proof -
    have "unat gfn \<notin> slot_frames (memslots s j)"
      using d(4) [of j i] that i f by auto
    then show ?thesis using gfn_in_slot_frames [OF d(2), of j] that i by simp
  qed
  ultimately show ?thesis
    using lt by (auto simp: gfn_to_memslot_def find_Some_iff intro!: exI [of _ i])
qed

text \<open>The lookup returns the one slot that holds the frame, whatever the order of the slots.\<close>

lemma gfn_to_memslot_iff:
  assumes ok: "slots_ok s"
  shows "gfn_to_memslot s gfn = Some i \<longleftrightarrow>
    i < KVM_MEMORY_SLOTS \<and> unat gfn \<in> slot_frames (memslots s i)"
proof
  assume r: "gfn_to_memslot s gfn = Some i"
  have i: "i < KVM_MEMORY_SLOTS"
    using gfn_to_memslotD(1) [OF r] slots_okD(1) [OF ok] by simp
  then show "i < KVM_MEMORY_SLOTS \<and> unat gfn \<in> slot_frames (memslots s i)"
    using gfn_to_memslotD(2) [OF r] gfn_in_slot_frames [OF slots_okD(2) [OF ok i]] by simp
qed (auto intro: gfn_to_memslot_SomeI [OF ok])

lemma gfn_to_memslot_None:
  assumes ok: "slots_ok s"
  shows "gfn_to_memslot s gfn = None \<longleftrightarrow>
    (\<forall>i < KVM_MEMORY_SLOTS. unat gfn \<notin> slot_frames (memslots s i))"
  using gfn_to_memslot_iff [OF ok, of gfn] by (metis not_Some_eq)

section \<open>The checks of the region ioctl\<close>

lemma word_mod_page: "m AND (PAGE_SIZE - 1) = 0 \<longleftrightarrow> 4096 dvd unat m" for m :: u64
proof -
  have "m AND (PAGE_SIZE - 1) = take_bit 12 m"
    by (simp add: PAGE_SIZE_minus_1 take_bit_eq_mask)
  then have "m AND (PAGE_SIZE - 1) = 0 \<longleftrightarrow> unat (take_bit 12 m) = 0"
    by (simp add: unat_eq_0)
  then show ?thesis
    by (simp add: take_bit_eq_mod unat_mod_distrib dvd_eq_mod_eq_0)
qed

lemma page_aligned_unat:
  "m AND (PAGE_SIZE - 1) = 0 \<Longrightarrow> unat m = unat (drop_bit PAGE_SHIFT m) * 4096" for m :: u64
  by (simp add: word_mod_page PAGE_SHIFT_def unat_drop_bit_eq drop_bit_eq_div unat_div)

definition region_frames :: "kvm_memory_region \<Rightarrow> nat set" where
  "region_frames mem = {unat (region_gfn mem) ..< unat (region_gfn mem) + unat (region_npages mem)}"

lemma region_checks_range:
  assumes "region_checks mem = None"
  shows "unat (region_gfn mem) + unat (region_npages mem) < 2 ^ 52"
    and "region_index mem < KVM_MEMORY_SLOTS"
proof -
  from assms have al: "mr_size mem AND (PAGE_SIZE - 1) = 0" "mr_gpa mem AND (PAGE_SIZE - 1) = 0"
    and nw: "mr_gpa mem \<le> mr_gpa mem + mr_size mem"
    and ix: "unat (mr_slot mem) < KVM_MEMORY_SLOTS"
    by (auto simp: region_checks_def split: if_splits)
  show "region_index mem < KVM_MEMORY_SLOTS"
    using ix by (simp add: region_index_def)
  have "unat (mr_gpa mem) + unat (mr_size mem) < 2 ^ 64"
    using nw no_plus_overflow_unat_size [of "mr_gpa mem" "mr_size mem"]
    by (simp add: word_size)
  then show "unat (region_gfn mem) + unat (region_npages mem) < 2 ^ 52"
    using al [THEN page_aligned_unat] by (simp add: region_gfn_def region_npages_def)
qed

text \<open>The disjunction of word comparisons is the overlap of intervals, for regions that do not wrap.\<close>

lemma overlaps_slot_frames:
  assumes "region_checks mem = None" "slot_in_range sl"
    and "\<not> overlaps_slot mem sl"
  shows "region_frames mem \<inter> slot_frames sl = {}"
proof -
  have e: "unat (region_gfn mem + region_npages mem) =
      unat (region_gfn mem) + unat (region_npages mem)"
    using region_checks_range(1) [OF assms(1)] by (subst unat_add_lem [THEN iffD1]) simp_all
  show ?thesis
    using assms(3) e slot_end_unat [OF assms(2)]
    by (auto simp: overlaps_slot_def region_frames_def slot_frames_def word_le_nat_alt)
qed

lemma region_prepareD:
  assumes "region_prepare mem s = Inr (old, new, v)"
  shows "old = memslots s (region_index mem)"
    and "new = old\<lparr>base_gfn := region_gfn mem, npages := region_npages mem,
                   slot_flags := region_flags mem\<rparr>"
    and "v = memory_config_version s"
    and "i < KVM_MEMORY_SLOTS \<Longrightarrow> i \<noteq> region_index mem \<Longrightarrow> \<not> overlaps_slot mem (memslots s i)"
    and "npages new \<noteq> 0 \<Longrightarrow> npages old \<noteq> 0 \<Longrightarrow> npages new = npages old"
  using assms by (auto simp: region_prepare_def Let_def split: if_splits)

text \<open>
  The commit keeps the slots disjoint when the new slot is the region the caller checked and no
  other slot has changed since its overlap check.
\<close>

lemma region_commit_slots_ok:
  assumes ok: "slots_ok s" and ck: "region_checks mem = None"
    and new: "base_gfn new = region_gfn mem" "npages new = region_npages mem"
    and no: "\<And>i. i < KVM_MEMORY_SLOTS \<Longrightarrow> i \<noteq> region_index mem \<Longrightarrow>
      \<not> overlaps_slot mem (memslots s i)"
  shows "slots_ok (snd (region_commit mem new v s))"
proof -
  note d = slots_okD [OF ok] and r = region_checks_range [OF ck]
  have fr: "slot_frames new = region_frames mem"
    by (simp add: slot_frames_def region_frames_def new)
  have dj: "region_frames mem \<inter> slot_frames (memslots s i) = {}"
    if "i < KVM_MEMORY_SLOTS" "i \<noteq> region_index mem" for i
    using overlaps_slot_frames [OF ck d(2) no] that by blast
  have rg: "slot_in_range new"
    using r(1) by (simp add: slot_in_range_def new)
  show ?thesis
    unfolding region_commit_def slots_ok_def using ok d(1-3) r(2) rg d(4) dj
    by (auto simp: fr slots_ok_def Int_commute)
qed

section \<open>The dirty log as a set of frames\<close>

definition logged_dirty :: "vm \<Rightarrow> kvm_memory_slot \<Rightarrow> u64 set" where
  "logged_dirty s sl = {gfn. unat gfn \<in> slot_frames sl \<and>
     test_bit_arr (varray s (dirty_bitmap sl)) (unat (gfn - base_gfn sl))}"

text \<open>The bitmap of a logging slot holds a bit for each of its frames.\<close>

definition bitmap_ok :: "vm \<Rightarrow> kvm_memory_slot \<Rightarrow> bool" where
  "bitmap_ok s sl \<longleftrightarrow> dirty_bitmap sl \<noteq> 0 \<longrightarrow>
     unat (npages sl) \<le> 64 * length (varray s (dirty_bitmap sl))"

definition bitmaps_ok :: "vm \<Rightarrow> bool" where
  "bitmaps_ok s \<longleftrightarrow>
     (\<forall>i < KVM_MEMORY_SLOTS. bitmap_ok s (memslots s i)) \<and>
     (\<forall>i < KVM_MEMORY_SLOTS. \<forall>j < KVM_MEMORY_SLOTS. i \<noteq> j \<longrightarrow> dirty_bitmap (memslots s i) \<noteq> 0 \<longrightarrow>
        dirty_bitmap (memslots s i) \<noteq> dirty_bitmap (memslots s j))"

lemma test_bit_set_bit_arr:
  assumes "n < 64 * length ws"
  shows "test_bit_arr (set_bit_arr ws n) m \<longleftrightarrow> m = n \<or> test_bit_arr ws m"
proof -
  have l: "n div 64 < length ws" using assms by simp
  show ?thesis
  proof (cases "m div 64 = n div 64")
    case True
    then have "m = n \<longleftrightarrow> m mod 64 = n mod 64"
      by (metis div_mult_mod_eq)
    with True l show ?thesis
      by (auto simp: test_bit_arr_def set_bit_arr_def arr_get_def bit_or_iff bit_simps)
  next
    case False
    then have "m \<noteq> n" by auto
    with False l show ?thesis
      by (simp add: test_bit_arr_def set_bit_arr_def arr_get_def)
  qed
qed

lemma length_set_bit_arr [simp]: "length (set_bit_arr ws n) = length ws"
  by (simp add: set_bit_arr_def)

lemma rel_gfn_unat:
  assumes "unat gfn \<in> slot_frames sl"
  shows "unat (gfn - base_gfn sl) = unat gfn - unat (base_gfn sl)"
    and "unat (gfn - base_gfn sl) < unat (npages sl)"
proof -
  have "base_gfn sl \<le> gfn" using assms by (simp add: slot_frames_def word_le_nat_alt)
  then show "unat (gfn - base_gfn sl) = unat gfn - unat (base_gfn sl)"
    by (rule unat_sub)
  then show "unat (gfn - base_gfn sl) < unat (npages sl)"
    using assms by (auto simp: slot_frames_def)
qed

lemma mark_page_dirty_frame [simp]:
  "nmemslots (mark_page_dirty gfn s) = nmemslots s"
  "memslots (mark_page_dirty gfn s) = memslots s"
  "vcpu (mark_page_dirty gfn s) = vcpu s"
  "vmcs (mark_page_dirty gfn s) = vmcs s"
  "hmem (mark_page_dirty gfn s) = hmem s"
  "page_private (mark_page_dirty gfn s) = page_private s"
  "active_mmu_pages (mark_page_dirty gfn s) = active_mmu_pages s"
  "kernel_bug (mark_page_dirty gfn s) = kernel_bug s"
  "kvm_stat (mark_page_dirty gfn s) = kvm_stat s"
  "bad_page_address (mark_page_dirty gfn s) = bad_page_address s"
  "host (mark_page_dirty gfn s) = host s"
  by (simp_all add: mark_page_dirty_def Let_def split: option.splits)

lemma varray_mark_page_dirty:
  "varray (mark_page_dirty gfn s) p =
    (case gfn_to_memslot s gfn of
       None \<Rightarrow> varray s p
     | Some i \<Rightarrow>
         if dirty_bitmap (memslots s i) = 0 \<or> p \<noteq> dirty_bitmap (memslots s i) \<or>
            test_bit_arr (varray s p) (unat (gfn - base_gfn (memslots s i))) then varray s p
         else set_bit_arr (varray s p) (unat (gfn - base_gfn (memslots s i))))"
  by (auto simp: mark_page_dirty_def varray_def Let_def split: option.splits)

lemma varray_mark_page_dirty_length [simp]:
  "length (varray (mark_page_dirty gfn s) p) = length (varray s p)"
  by (auto simp: varray_mark_page_dirty split: option.splits)

text \<open>
  \<open>mark_page_dirty\<close> refines the insertion of the frame in the log of the slot that holds it, and
  leaves the logs of the other slots.
\<close>

lemma mark_page_dirty_logged:
  assumes ok: "slots_ok s" and bm: "bitmaps_ok s" and i: "i < KVM_MEMORY_SLOTS"
    and log: "dirty_bitmap (memslots s i) \<noteq> 0"
  shows "logged_dirty (mark_page_dirty gfn s) (memslots s i) =
    logged_dirty s (memslots s i) \<union>
    (if unat gfn \<in> slot_frames (memslots s i) then {gfn} else {})"
proof (cases "unat gfn \<in> slot_frames (memslots s i)")
  case True
  let ?sl = "memslots s i"
  note lk = gfn_to_memslot_SomeI [OF ok i True]
  have b: "bitmap_ok s ?sl"
    using bm i by (auto simp: bitmaps_ok_def)
  have lt: "unat (gfn - base_gfn ?sl) < 64 * length (varray s (dirty_bitmap ?sl))"
    using b log rel_gfn_unat(2) [OF True] by (simp add: bitmap_ok_def)
  have "varray (mark_page_dirty gfn s) (dirty_bitmap ?sl) =
      (if test_bit_arr (varray s (dirty_bitmap ?sl)) (unat (gfn - base_gfn ?sl))
       then varray s (dirty_bitmap ?sl)
       else set_bit_arr (varray s (dirty_bitmap ?sl)) (unat (gfn - base_gfn ?sl)))"
    using lk log by (simp add: varray_mark_page_dirty)
  moreover have "unat (x - base_gfn ?sl) = unat (gfn - base_gfn ?sl) \<longleftrightarrow> x = gfn" for x
    by (metis diff_add_cancel word_unat_eq_iff)
  ultimately show ?thesis
    using True lt by (auto simp: logged_dirty_def test_bit_set_bit_arr)
next
  case False
  have "varray (mark_page_dirty gfn s) (dirty_bitmap (memslots s i)) =
      varray s (dirty_bitmap (memslots s i))"
  proof (cases "gfn_to_memslot s gfn")
    case (Some j)
    then have "j < KVM_MEMORY_SLOTS" "j \<noteq> i"
      using False gfn_to_memslot_iff [OF ok, of gfn j] by auto
    then have "dirty_bitmap (memslots s i) \<noteq> dirty_bitmap (memslots s j)"
      using bm i log by (auto simp: bitmaps_ok_def)
    with Some show ?thesis by (simp add: varray_mark_page_dirty)
  qed (simp add: varray_mark_page_dirty)
  with False show ?thesis by (simp add: logged_dirty_def)
qed

section \<open>Frames of the allocators\<close>

text \<open>What the allocators leave alone: the slots, their version and the busy count.\<close>

definition same_slots :: "vm \<Rightarrow> vm \<Rightarrow> bool" where
  "same_slots s t \<longleftrightarrow> nmemslots t = nmemslots s \<and> memslots t = memslots s \<and>
     memory_config_version t = memory_config_version s \<and> busy t = busy s"

lemma same_slots_refl [simp, intro]: "same_slots s s"
  by (simp add: same_slots_def)

lemma same_slots_trans [trans]: "same_slots s t \<Longrightarrow> same_slots t u \<Longrightarrow> same_slots s u"
  by (simp add: same_slots_def)

lemma same_slotsD:
  assumes "same_slots s t"
  shows "nmemslots t = nmemslots s" "memslots t = memslots s"
    "memory_config_version t = memory_config_version s" "busy t = busy s"
  using assms by (simp_all add: same_slots_def)

lemma same_slots_prims [simp, intro]:
  "same_slots s (snd (vmalloc_zeroed n s))"
  "same_slots s (vfree p s)"
  "same_slots s (snd (alloc_page s))"
  "same_slots s (free_page f s)"
  "same_slots s (varray_set p i w s)"
  by (simp_all add: same_slots_def vmalloc_zeroed_def vfree_def alloc_page_def free_page_def
      varray_set_def split: list.splits)

lemma same_slots_alloc_slot_pages: "same_slots s (snd (alloc_slot_pages n i p s))"
proof (induction n i p s rule: alloc_slot_pages.induct)
  case (2 n i p s)
  show ?case
  proof (cases "alloc_page s")
    case (Pair page t)
    have "same_slots s (varray_set p i page t)"
      using same_slots_trans [OF same_slots_prims(3) [of s] same_slots_prims(5) [of _ p i page]]
      by (simp add: Pair)
    then show ?thesis
      using 2 [OF Pair [symmetric] refl] by (auto simp: Pair Let_def intro: same_slots_trans)
  qed
qed simp

lemma same_slots_fold:
  "(\<And>x s. same_slots s (f x s)) \<Longrightarrow> same_slots s (fold f xs s)"
  by (induction xs arbitrary: s) (auto intro: same_slots_trans)

lemma same_slots_free_slot_pages: "same_slots s (free_slot_pages sl s)"
  unfolding free_slot_pages_def by (rule same_slots_fold) simp

lemma same_slots_free_physmem_slot [simp, intro]:
  "same_slots s (snd (kvm_free_physmem_slot sl d s))"
proof -
  note t = same_slots_trans [OF same_slots_free_slot_pages same_slots_prims(2)]
  show ?thesis
    by (auto simp: kvm_free_physmem_slot_def Let_def intro: t same_slots_trans [OF t])
qed

lemma same_slots_region_alloc: "same_slots s (snd (snd (region_alloc sl s)))"
proof -
  have v: "same_slots s t" if "vmalloc_zeroed n s = (p, t)" for n p s t
    using same_slots_prims(1) [of s n] that by simp
  have a: "same_slots s u" if "alloc_slot_pages n i p t = (b, u)" "same_slots s t" for n i p b s t u
    using same_slots_alloc_slot_pages [of t n i p] that by (auto intro: same_slots_trans)
  have p: "same_slots s u" if "region_alloc_pages sl s = (b, n, u)" for sl s b n u
    using that by (auto simp: region_alloc_pages_def Let_def split: if_splits prod.splits dest: v intro: a v)
  have b: "same_slots s u" if "region_alloc_bitmap sl s = (b, n, u)" for sl s b n u
    using that by (auto simp: region_alloc_bitmap_def Let_def split: if_splits prod.splits dest: v)
  have p': "same_slots s (snd (snd (region_alloc_pages sl s)))" for sl s
    using p [of sl s] by (metis prod.collapse)
  have b': "same_slots s (snd (snd (region_alloc_bitmap sl s)))" for sl s
    using b [of sl s] by (metis prod.collapse)
  show ?thesis
    using same_slots_trans [OF p' b'] p' by (simp add: region_alloc_def Let_def split_beta)
qed

text \<open>The allocation changes neither the place nor the size of the new slot.\<close>

lemma region_alloc_shape:
  assumes "region_alloc new s = (ok, new', t)"
  shows "base_gfn new' = base_gfn new" "npages new' = npages new" "slot_flags new' = slot_flags new"
  using assms
  by (auto simp: region_alloc_def region_alloc_pages_def region_alloc_bitmap_def Let_def
      split: prod.splits if_splits)

end
