(* ===== verification/Module_Init.thy ===== *)
theory Module_Init
  imports Memslots "HOL-Library.Multiset"
begin

text \<open>
  Loading and unloading the module: \<open>kvm_init\<close> allocates a VMXON region for every cpu, switches
  every cpu to VMX operation and registers the device; \<open>kvm_exit\<close> undoes it. The kernel's
  registrations are one Boolean each, and their results are inputs of the state, like those of the
  page allocator.
\<close>

section \<open>The host\<close>

record vmcs_descriptor =
  vd_size :: nat
  vd_order :: nat
  vd_revision_id :: u32

text \<open>
  \<open>k_online\<close> lists the online cpus, \<open>k_this_cpu\<close> is the one that loads the module. \<open>k_vmx\<close> is the
  VMXON region of a cpu in VMX operation; \<open>k_oops\<close> says that an instruction has faulted in the
  kernel. \<open>k_page_results\<close> are the answers of the allocator, 0 for failure, and \<open>k_pages\<close> the pages
  the module owns. \<open>k_get_order\<close> is the kernel's \<open>get_order\<close>.
\<close>

record host =
  k_online :: "nat list"
  k_this_cpu :: nat
  k_cpuid_ecx :: u64
  k_vmx_basic :: u64
  k_feature_control :: "nat \<Rightarrow> u64"
  k_cr4 :: "nat \<Rightarrow> u64"
  k_vmx :: "nat \<Rightarrow> u64 option"
  k_oops :: bool
  k_get_order :: "nat \<Rightarrow> nat"
  k_page_results :: "u64 list"
  k_pages :: "u64 list"
  k_memory :: memory
  k_misc_register :: "errno option"
  vmcs_descriptor :: vmcs_descriptor
  vmxarea :: "nat \<Rightarrow> u64"
  k_debugfs :: bool
  k_reboot_notifier :: bool
  k_misc_device :: bool
  k_bad_page_address :: u64

definition CR4_VMXE :: u64 where
  "CR4_VMXE = 0x2000"

definition alloc_pages :: "host \<Rightarrow> u64 \<times> host" where
  "alloc_pages k = (case k_page_results k of
     [] \<Rightarrow> (0, k)
   | p # rest \<Rightarrow> (p, k\<lparr>k_page_results := rest, k_pages := (if p = 0 then k_pages k else p # k_pages k)\<rparr>))"

text \<open>\<open>free_pages\<close> does nothing for the address 0.\<close>

definition release_pages :: "u64 \<Rightarrow> host \<Rightarrow> host" where
  "release_pages p k = (if p = 0 then k else k\<lparr>k_pages := remove1 p (k_pages k)\<rparr>)"

text \<open>
  \<open>vmxon\<close> needs \<open>CR4.VMXE\<close> and a feature control register that is locked with VMX enabled;
  \<open>vmxoff\<close> needs VMX operation.
\<close>

definition vmxon :: "nat \<Rightarrow> u64 \<Rightarrow> host \<Rightarrow> host" where
  "vmxon cpu region k =
     (if k_cr4 k cpu AND CR4_VMXE \<noteq> 0 \<and> k_feature_control k cpu AND 5 = 5
      then k\<lparr>k_vmx := (k_vmx k)(cpu := Some region)\<rparr> else k\<lparr>k_oops := True\<rparr>)"

definition vmxoff :: "nat \<Rightarrow> host \<Rightarrow> host" where
  "vmxoff cpu k =
     (if k_vmx k cpu = None then k\<lparr>k_oops := True\<rparr> else k\<lparr>k_vmx := (k_vmx k)(cpu := None)\<rparr>)"

definition on_each_cpu :: "(nat \<Rightarrow> host \<Rightarrow> host) \<Rightarrow> host \<Rightarrow> host" where
  "on_each_cpu f k = fold f (k_online k) k"

section \<open>VMXON regions\<close>

definition setup_vmcs_descriptor :: "host \<Rightarrow> host" where
  "setup_vmcs_descriptor k =
     (let vmx_msr_low = ucast (k_vmx_basic k) :: u32;
          vmx_msr_high = ucast (drop_bit 32 (k_vmx_basic k)) :: u32;
          size = unat (vmx_msr_high AND 0x1fff)
      in k\<lparr>vmcs_descriptor := \<lparr>vd_size = size, vd_order = k_get_order k size, vd_revision_id = vmx_msr_low\<rparr>\<rparr>)"

text \<open>The node of the cpu is a hint to the allocator.\<close>

definition alloc_vmcs_cpu :: "nat \<Rightarrow> host \<Rightarrow> u64 \<times> host" where
  "alloc_vmcs_cpu cpu k =
     (let (page, k) = alloc_pages k
      in if page = 0 then (0, k)
         else let zeroed = (\<lambda>a. if unat (a - page) < vd_size (vmcs_descriptor k) then 0 else k_memory k a)
              in (page, k\<lparr>k_memory := store32 page (ucast (vd_revision_id (vmcs_descriptor k))) zeroed\<rparr>))"

definition alloc_vmcs :: "host \<Rightarrow> u64 \<times> host" where
  "alloc_vmcs k = alloc_vmcs_cpu (k_this_cpu k) k"

definition free_vmcs :: "u64 \<Rightarrow> host \<Rightarrow> host" where
  "free_vmcs page k = release_pages page k"

definition cpu_has_kvm_support :: "host \<Rightarrow> bool" where
  "cpu_has_kvm_support k \<longleftrightarrow> bit (k_cpuid_ecx k) 5"

definition free_kvm_area :: "host \<Rightarrow> host" where
  "free_kvm_area k = on_each_cpu (\<lambda>cpu k. free_vmcs (vmxarea k cpu) k) k"

fun alloc_area_cpus :: "nat list \<Rightarrow> host \<Rightarrow> errno option \<times> host" where
  "alloc_area_cpus [] k = (None, k)"
| "alloc_area_cpus (cpu # cpus) k =
     (let (page, k) = alloc_vmcs_cpu cpu k
      in if page = 0 then (Some ENOMEM, free_kvm_area k)
         else alloc_area_cpus cpus (k\<lparr>vmxarea := (vmxarea k)(cpu := page)\<rparr>))"

definition alloc_kvm_area :: "host \<Rightarrow> errno option \<times> host" where
  "alloc_kvm_area k = alloc_area_cpus (k_online k) k"

definition vmx_disabled_by_bios :: "host \<Rightarrow> bool" where
  "vmx_disabled_by_bios k \<longleftrightarrow> k_feature_control k (k_this_cpu k) AND 5 = 1"

definition kvm_enable :: "nat \<Rightarrow> host \<Rightarrow> host" where
  "kvm_enable cpu k =
     (let old = k_feature_control k cpu;
          k = (if old AND 5 = 0 then k\<lparr>k_feature_control := (k_feature_control k)(cpu := old OR 5)\<rparr> else k);
          k = k\<lparr>k_cr4 := (k_cr4 k)(cpu := k_cr4 k cpu OR CR4_VMXE)\<rparr>
      in vmxon cpu (vmxarea k cpu) k)"

definition kvm_disable :: "nat \<Rightarrow> host \<Rightarrow> host" where
  "kvm_disable cpu k = vmxoff cpu k"

text \<open>The notifier at reboot; \<open>restart\<close> says that the event is \<open>SYS_RESTART\<close>.\<close>

definition kvm_reboot :: "bool \<Rightarrow> host \<Rightarrow> host" where
  "kvm_reboot restart k = (if restart then on_each_cpu kvm_disable k else k)"

section \<open>Loading and unloading\<close>

definition kvm_init_debug :: "host \<Rightarrow> host" where
  "kvm_init_debug k = k\<lparr>k_debugfs := True\<rparr>"

definition kvm_exit_debug :: "host \<Rightarrow> host" where
  "kvm_exit_debug k = k\<lparr>k_debugfs := False\<rparr>"

definition kvm_init_out_free :: "host \<Rightarrow> host" where
  "kvm_init_out_free k = kvm_exit_debug (free_kvm_area k)"

definition kvm_init :: "host \<Rightarrow> errno option \<times> host" where
  "kvm_init k =
     (if \<not> cpu_has_kvm_support k then (Some EOPNOTSUPP, k)
      else if vmx_disabled_by_bios k then (Some EOPNOTSUPP, k)
      else
        let k = setup_vmcs_descriptor (kvm_init_debug k);
            (r, k) = alloc_kvm_area k
        in if r \<noteq> None then (r, kvm_exit_debug k)
           else
             let k = on_each_cpu kvm_enable k;
                 k = k\<lparr>k_reboot_notifier := True\<rparr>;
                 r = k_misc_register k
             in if r \<noteq> None then (r, kvm_init_out_free k)
                else
                  let k = k\<lparr>k_misc_device := True\<rparr>;
                      (bad_page, k) = alloc_pages k
                  in if bad_page = 0 then (Some ENOMEM, kvm_init_out_free k)
                     else (None, k\<lparr>k_bad_page_address := bad_page, k_memory := zero_page bad_page (k_memory k)\<rparr>))"

definition kvm_exit :: "host \<Rightarrow> host" where
  "kvm_exit k =
     (let k = kvm_exit_debug k;
          k = k\<lparr>k_misc_device := False\<rparr>;
          k = k\<lparr>k_reboot_notifier := False\<rparr>;
          k = on_each_cpu kvm_disable k;
          k = free_kvm_area k
      in release_pages (k_bad_page_address k) k)"

section \<open>Allocation and release\<close>

text \<open>A host on which the module is not loaded.\<close>

definition unloaded :: "host \<Rightarrow> bool" where
  "unloaded k \<longleftrightarrow> distinct (k_online k) \<and> (\<forall>c. vmxarea k c = 0) \<and> (\<forall>c. k_vmx k c = None) \<and>
     \<not> k_debugfs k \<and> \<not> k_reboot_notifier k \<and> \<not> k_misc_device k \<and> \<not> k_oops k"

lemma free_areas:
  assumes "mset (k_pages k) = M + mset (filter (\<lambda>p. p \<noteq> 0) (map (vmxarea k) cpus))"
  shows "\<exists>ps. fold (\<lambda>cpu k. free_vmcs (vmxarea k cpu) k) cpus k = k\<lparr>k_pages := ps\<rparr> \<and> mset ps = M"
  using assms
proof (induction cpus arbitrary: k)
  case Nil
  then show ?case by (intro exI [of _ "k_pages k"]) simp
next
  case (Cons cpu cpus)
  let ?t = "free_vmcs (vmxarea k cpu) k"
  have t: "\<exists>ps. ?t = k\<lparr>k_pages := ps\<rparr> \<and> mset ps = M + mset (filter (\<lambda>p. p \<noteq> 0) (map (vmxarea k) cpus))"
    using Cons.prems
    by (cases "vmxarea k cpu = 0")
      (auto simp: free_vmcs_def release_pages_def intro: exI [of _ "k_pages k"])
  then obtain ps where ps: "?t = k\<lparr>k_pages := ps\<rparr>"
    "mset (k_pages ?t) = M + mset (filter (\<lambda>p. p \<noteq> 0) (map (vmxarea ?t) cpus))" by auto
  from Cons.IH [OF ps(2)] show ?case by (auto simp: ps(1))
qed

text \<open>Everything but what allocation and release touch.\<close>

definition forget_pages :: "host \<Rightarrow> host" where
  "forget_pages k = k\<lparr>k_page_results := [], k_pages := [], k_memory := (\<lambda>_. 0), vmxarea := (\<lambda>_. 0)\<rparr>"

lemma forget_pagesD:
  assumes "forget_pages t = forget_pages k"
  shows "k_online t = k_online k" "k_vmx t = k_vmx k" "k_oops t = k_oops k" "k_misc_register t = k_misc_register k"
    "k_feature_control t = k_feature_control k" "k_cr4 t = k_cr4 k" "k_debugfs t = k_debugfs k"
    "k_reboot_notifier t = k_reboot_notifier k" "k_misc_device t = k_misc_device k"
  using arg_cong [OF assms, of k_online] arg_cong [OF assms, of k_vmx] arg_cong [OF assms, of k_oops]
    arg_cong [OF assms, of k_misc_register] arg_cong [OF assms, of k_feature_control]
    arg_cong [OF assms, of k_cr4] arg_cong [OF assms, of k_debugfs]
    arg_cong [OF assms, of k_reboot_notifier] arg_cong [OF assms, of k_misc_device]
  by (simp_all add: forget_pages_def)

lemma alloc_pages_effect:
  assumes "alloc_pages k = (p, t)"
  shows "forget_pages t = forget_pages k \<and> vmxarea t = vmxarea k \<and>
    k_pages t = (if p = 0 then k_pages k else p # k_pages k)"
  using assms by (auto simp: alloc_pages_def forget_pages_def split: list.splits)

lemma alloc_vmcs_cpu_effect:
  assumes "alloc_vmcs_cpu cpu k = (p, t)"
  shows "forget_pages t = forget_pages k \<and> vmxarea t = vmxarea k \<and>
    k_pages t = (if p = 0 then k_pages k else p # k_pages k)"
proof -
  obtain q u where u: "alloc_pages k = (q, u)" by fastforce
  show ?thesis
    using assms alloc_pages_effect [OF u]
    by (auto simp: alloc_vmcs_cpu_def u Let_def forget_pages_def split: if_splits)
qed

text \<open>The regions of the cpus that \<open>free_kvm_area\<close> goes through.\<close>

definition areas :: "host \<Rightarrow> u64 list" where
  "areas k = filter (\<lambda>p. p \<noteq> 0) (map (vmxarea k) (k_online k))"

lemma areas_cong: "k_online u = k_online t \<Longrightarrow> vmxarea u = vmxarea t \<Longrightarrow> areas u = areas t"
  by (simp add: areas_def)

lemma free_kvm_area_effect:
  assumes "mset (k_pages k) = M + mset (areas k)"
  shows "\<exists>ps. free_kvm_area k = k\<lparr>k_pages := ps\<rparr> \<and> mset ps = M"
  using free_areas [of k M "k_online k"] assms by (simp add: free_kvm_area_def on_each_cpu_def areas_def)

lemma areas_update:
  assumes "distinct (k_online k)" "cpu \<in> set (k_online k)" "vmxarea k cpu = 0" "p \<noteq> 0"
  shows "mset (areas (k\<lparr>vmxarea := (vmxarea k)(cpu := p)\<rparr>)) = add_mset p (mset (areas k))"
proof -
  have "mset (filter (\<lambda>p. p \<noteq> 0) (map ((vmxarea k)(cpu := p)) cpus)) =
      (if cpu \<in> set cpus then add_mset p else id) (mset (filter (\<lambda>p. p \<noteq> 0) (map (vmxarea k) cpus)))"
    if "distinct cpus" for cpus
    using that assms(3,4) by (induction cpus) auto
  from this [OF assms(1)] show ?thesis using assms(2) by (simp add: areas_def)
qed

lemma alloc_area_cpus_effect:
  assumes "alloc_area_cpus cpus k = (r, t)" "distinct (k_online k)" "distinct cpus"
    and "set cpus \<subseteq> set (k_online k)" "\<forall>c \<in> set cpus. vmxarea k c = 0"
    and "mset (k_pages k) = M + mset (areas k)"
  shows "forget_pages t = forget_pages k \<and>
    (if r = None then mset (k_pages t) = M + mset (areas t) \<and> (\<forall>c \<in> set cpus. vmxarea t c \<noteq> 0) \<and>
       (\<forall>c. c \<notin> set cpus \<longrightarrow> vmxarea t c = vmxarea k c)
     else mset (k_pages t) = M)"
  using assms
proof (induction cpus arbitrary: k)
  case (Cons cpu cpus)
  obtain p u where u: "alloc_vmcs_cpu cpu k = (p, u)" by fastforce
  note e = alloc_vmcs_cpu_effect [OF u]
  have a: "areas u = areas k" "k_online u = k_online k" using e forget_pagesD(1) [of u k] by (simp_all add: areas_def)
  show ?case
  proof (cases "p = 0")
    case True
    then have "mset (k_pages u) = M + mset (areas u)" using e a Cons.prems(6) by simp
    from free_kvm_area_effect [OF this] show ?thesis
      using Cons.prems(1) True e by (auto simp: u forget_pages_def)
  next
    case False
    let ?v = "u\<lparr>vmxarea := (vmxarea u)(cpu := p)\<rparr>"
    have v: "forget_pages ?v = forget_pages k" using e by (simp add: forget_pages_def)
    have m: "mset (k_pages ?v) = M + mset (areas ?v)"
      using areas_update [of u cpu p] e a Cons.prems(2,4,5,6) False by simp
    have "forget_pages t = forget_pages ?v \<and>
      (if r = None then mset (k_pages t) = M + mset (areas t) \<and> (\<forall>c \<in> set cpus. vmxarea t c \<noteq> 0) \<and>
         (\<forall>c. c \<notin> set cpus \<longrightarrow> vmxarea t c = vmxarea ?v c)
       else mset (k_pages t) = M)"
      by (rule Cons.IH) (use Cons.prems e a m u False in auto)
    then show ?thesis using v e Cons.prems(3) False by auto
  qed
qed auto

section \<open>VMX operation\<close>

definition lockable :: "host \<Rightarrow> nat \<Rightarrow> bool" where
  "lockable k c \<longleftrightarrow> k_feature_control k c AND 5 = 0 \<or> k_feature_control k c AND 5 = 5"

lemma kvm_enable_effect:
  assumes "lockable k c"
  shows "\<exists>fc cr. kvm_enable c k =
    k\<lparr>k_feature_control := fc, k_cr4 := cr, k_vmx := (k_vmx k)(c := Some (vmxarea k c))\<rparr> \<and>
    (\<forall>d. d \<noteq> c \<longrightarrow> fc d = k_feature_control k d)"
proof -
  have cr: "(k_cr4 k c OR CR4_VMXE) AND CR4_VMXE \<noteq> 0"
  proof
    assume "(k_cr4 k c OR CR4_VMXE) AND CR4_VMXE = 0"
    then have "CR4_VMXE = 0" by (simp add: bit.conj_disj_distrib2)
    then show False by (simp add: CR4_VMXE_def)
  qed
  have fc: "(k_feature_control k c OR 5) AND 5 = 5" by (simp add: bit.conj_disj_distrib2)
  let ?cr = "(k_cr4 k)(c := k_cr4 k c OR CR4_VMXE)" and ?fc = "(k_feature_control k)(c := k_feature_control k c OR 5)"
  show ?thesis
  proof (cases "k_feature_control k c AND 5 = 0")
    case True
    then show ?thesis
      using cr fc by (intro exI [of _ ?fc] exI [of _ ?cr]) (simp add: kvm_enable_def vmxon_def Let_def)
  next
    case False
    then show ?thesis
      using assms cr by (intro exI [of _ "k_feature_control k"] exI [of _ ?cr])
        (simp add: kvm_enable_def vmxon_def Let_def lockable_def)
  qed
qed

lemma enable_cpus:
  assumes "distinct cpus" "\<forall>c \<in> set cpus. lockable k c"
  shows "\<exists>fc cr. fold kvm_enable cpus k = k\<lparr>k_feature_control := fc, k_cr4 := cr,
    k_vmx := (\<lambda>c. if c \<in> set cpus then Some (vmxarea k c) else k_vmx k c)\<rparr>"
  using assms
proof (induction cpus arbitrary: k)
  case Nil
  then show ?case by (intro exI [of _ "k_feature_control k"] exI [of _ "k_cr4 k"]) simp
next
  case (Cons c cpus)
  obtain fc cr where e: "kvm_enable c k =
      k\<lparr>k_feature_control := fc, k_cr4 := cr, k_vmx := (k_vmx k)(c := Some (vmxarea k c))\<rparr>"
    "\<forall>d. d \<noteq> c \<longrightarrow> fc d = k_feature_control k d"
    using kvm_enable_effect [of k c] Cons.prems(2) by auto
  have "\<forall>d \<in> set cpus. lockable (kvm_enable c k) d"
    using Cons.prems(1) Cons.prems(2) e(2) unfolding lockable_def by (simp add: e(1)) metis
  from Cons.IH [OF _ this] Cons.prems(1) obtain fc' cr' where
    "fold kvm_enable cpus (kvm_enable c k) = (kvm_enable c k)\<lparr>k_feature_control := fc', k_cr4 := cr',
      k_vmx := (\<lambda>d. if d \<in> set cpus then Some (vmxarea (kvm_enable c k) d) else k_vmx (kvm_enable c k) d)\<rparr>"
    by auto
  moreover have "(\<lambda>d. if d \<in> set cpus then Some (vmxarea k d) else ((k_vmx k)(c := Some (vmxarea k c))) d) =
      (\<lambda>d. if d \<in> set (c # cpus) then Some (vmxarea k d) else k_vmx k d)"
    by auto
  ultimately have "fold kvm_enable (c # cpus) k = k\<lparr>k_feature_control := fc', k_cr4 := cr',
      k_vmx := (\<lambda>d. if d \<in> set (c # cpus) then Some (vmxarea k d) else k_vmx k d)\<rparr>"
    by (simp add: e(1) cong: if_cong)
  then show ?case by blast
qed

lemma disable_cpus:
  assumes "distinct cpus" "\<forall>c \<in> set cpus. k_vmx k c \<noteq> None"
  shows "fold kvm_disable cpus k = k\<lparr>k_vmx := (\<lambda>c. if c \<in> set cpus then None else k_vmx k c)\<rparr>"
  using assms
proof (induction cpus arbitrary: k)
  case (Cons c cpus)
  have e: "kvm_disable c k = k\<lparr>k_vmx := (k_vmx k)(c := None)\<rparr>"
    using Cons.prems(2) by (auto simp: kvm_disable_def vmxoff_def)
  have o: "(\<lambda>d. if d \<in> set cpus then None else ((k_vmx k)(c := None)) d) =
      (\<lambda>d. if d \<in> set (c # cpus) then None else k_vmx k d)"
    by auto
  have "\<forall>d \<in> set cpus. k_vmx (kvm_disable c k) d \<noteq> None" using Cons.prems by (auto simp: e)
  from Cons.IH [OF _ this] Cons.prems(1) o show ?case by (simp add: e cong: if_cong)
qed simp

section \<open>Loading and unloading\<close>

lemma setup_vmcs_descriptor_fields:
  "k_online (setup_vmcs_descriptor k) = k_online k" "vmxarea (setup_vmcs_descriptor k) = vmxarea k"
  "k_pages (setup_vmcs_descriptor k) = k_pages k" "k_vmx (setup_vmcs_descriptor k) = k_vmx k"
  "k_oops (setup_vmcs_descriptor k) = k_oops k" "k_feature_control (setup_vmcs_descriptor k) = k_feature_control k"
  "k_reboot_notifier (setup_vmcs_descriptor k) = k_reboot_notifier k"
  "k_misc_device (setup_vmcs_descriptor k) = k_misc_device k" "areas (setup_vmcs_descriptor k) = areas k"
  "k_misc_register (setup_vmcs_descriptor k) = k_misc_register k"
  by (simp_all add: setup_vmcs_descriptor_def Let_def areas_def)

text \<open>The host after \<open>alloc_kvm_area\<close> and \<open>kvm_enable\<close> on every cpu.\<close>

definition running :: "u64 multiset \<Rightarrow> host \<Rightarrow> host \<Rightarrow> bool" where
  "running M k t \<longleftrightarrow> k_online t = k_online k \<and> k_oops t = k_oops k \<and> mset (k_pages t) = M + mset (areas t) \<and>
     (\<forall>c \<in> set (k_online k). vmxarea t c \<noteq> 0 \<and> k_vmx t c = Some (vmxarea t c)) \<and>
     (\<forall>c. c \<notin> set (k_online k) \<longrightarrow> k_vmx t c = None)"

lemma start_cpus:
  assumes "unloaded k" "\<forall>c \<in> set (k_online k). lockable k c"
    and a: "alloc_kvm_area (setup_vmcs_descriptor (kvm_init_debug k)) = (r, t)"
  shows "if r = None then running (mset (k_pages k)) k (on_each_cpu kvm_enable t) \<and>
      k_misc_register (on_each_cpu kvm_enable t) = k_misc_register k \<and> \<not> k_misc_device (on_each_cpu kvm_enable t)
    else mset (k_pages t) = mset (k_pages k) \<and> \<not> k_oops t \<and> \<not> k_reboot_notifier t \<and> \<not> k_misc_device t \<and>
      (\<forall>c. k_vmx t c = None)"
proof -
  let ?s = "setup_vmcs_descriptor (kvm_init_debug k)"
  note f = setup_vmcs_descriptor_fields [of "kvm_init_debug k"]
  have d: "k_online (kvm_init_debug k) = k_online k" "vmxarea (kvm_init_debug k) = vmxarea k"
    "k_pages (kvm_init_debug k) = k_pages k" "k_vmx (kvm_init_debug k) = k_vmx k" "k_oops (kvm_init_debug k) = k_oops k"
    "k_feature_control (kvm_init_debug k) = k_feature_control k"
    "k_reboot_notifier (kvm_init_debug k) = k_reboot_notifier k" "k_misc_device (kvm_init_debug k) = k_misc_device k"
    "areas (kvm_init_debug k) = areas k" "k_misc_register (kvm_init_debug k) = k_misc_register k"
    by (simp_all add: kvm_init_debug_def areas_def)
  have "filter (\<lambda>p. p \<noteq> 0) (map (vmxarea k) cpus) = []" for cpus
    using assms(1) by (induction cpus) (simp_all add: unloaded_def)
  then have z: "areas k = []" by (simp add: areas_def)
  have e: "forget_pages t = forget_pages ?s \<and>
    (if r = None then mset (k_pages t) = mset (k_pages k) + mset (areas t) \<and> (\<forall>c \<in> set (k_online k). vmxarea t c \<noteq> 0) \<and>
       (\<forall>c. c \<notin> set (k_online k) \<longrightarrow> vmxarea t c = vmxarea ?s c)
     else mset (k_pages t) = mset (k_pages k))"
    by (rule alloc_area_cpus_effect)
      (use assms a z f d in \<open>simp_all add: alloc_kvm_area_def unloaded_def\<close>)
  note g = forget_pagesD [OF conjunct1 [OF e]]
  show ?thesis
  proof (cases "r = None")
    case True
    obtain fc cr where "on_each_cpu kvm_enable t = t\<lparr>k_feature_control := fc, k_cr4 := cr,
        k_vmx := (\<lambda>c. if c \<in> set (k_online t) then Some (vmxarea t c) else k_vmx t c)\<rparr>"
      using enable_cpus [of "k_online t" t] assms(1,2) g f d by (auto simp: on_each_cpu_def unloaded_def lockable_def)
    moreover have "areas (t\<lparr>k_feature_control := fc, k_cr4 := cr, k_vmx := v\<rparr>) = areas t" for v
      by (rule areas_cong) simp_all
    ultimately show ?thesis using True e g f d assms(1) by (simp add: running_def unloaded_def)
  next
    case False
    then have n: "r \<noteq> None" by simp
    show ?thesis using e g f d assms(1) unfolding if_not_P [OF n] by (simp add: unloaded_def)
  qed
qed

lemma running_fields:
  assumes "running M k t" "k_online u = k_online t" "k_oops u = k_oops t" "k_pages u = k_pages t"
    "vmxarea u = vmxarea t" "k_vmx u = k_vmx t"
  shows "running M k u"
  using assms areas_cong [of u t] by (simp add: running_def)

lemma running_out_free:
  assumes "running M k t"
  shows "mset (k_pages (kvm_init_out_free t)) = M \<and> k_oops (kvm_init_out_free t) = k_oops k \<and>
    k_reboot_notifier (kvm_init_out_free t) = k_reboot_notifier t \<and>
    k_misc_device (kvm_init_out_free t) = k_misc_device t \<and>
    (\<forall>c \<in> set (k_online k). \<exists>p. p \<noteq> 0 \<and> k_vmx (kvm_init_out_free t) c = Some p)"
proof -
  obtain ps where "free_kvm_area t = t\<lparr>k_pages := ps\<rparr>" "mset ps = M"
    using free_kvm_area_effect [of t M] assms by (auto simp: running_def)
  then show ?thesis using assms by (simp add: kvm_init_out_free_def kvm_exit_debug_def running_def)
qed

lemma running_exit:
  assumes r: "running M k t" and d: "distinct (k_online k)" and b: "k_bad_page_address t = p" "M = add_mset p N" "p \<noteq> 0"
  shows "mset (k_pages (kvm_exit t)) = N \<and> k_oops (kvm_exit t) = k_oops k \<and> \<not> k_reboot_notifier (kvm_exit t) \<and>
    \<not> k_misc_device (kvm_exit t) \<and> \<not> k_debugfs (kvm_exit t) \<and> (\<forall>c. k_vmx (kvm_exit t) c = None)"
proof -
  let ?s = "(kvm_exit_debug t)\<lparr>k_misc_device := False, k_reboot_notifier := False\<rparr>"
  let ?u = "?s\<lparr>k_vmx := (\<lambda>c. if c \<in> set (k_online t) then None else k_vmx t c)\<rparr>"
  have e: "on_each_cpu kvm_disable ?s = ?u"
    using disable_cpus [of "k_online t" ?s] r d
    by (simp add: on_each_cpu_def running_def kvm_exit_debug_def cong: if_cong)
  have "areas ?u = areas t" by (rule areas_cong) (simp_all add: kvm_exit_debug_def)
  then have "mset (k_pages ?u) = M + mset (areas ?u)" using r by (simp add: running_def kvm_exit_debug_def)
  then obtain ps where ps: "free_kvm_area ?u = ?u\<lparr>k_pages := ps\<rparr>" "mset ps = M"
    using free_kvm_area_effect [of ?u M] by auto
  have "kvm_exit t = release_pages p (?u\<lparr>k_pages := ps\<rparr>)"
    using e ps(1) b(1) by (simp add: kvm_exit_def Let_def kvm_exit_debug_def)
  then show ?thesis using ps(2) b r by (auto simp: release_pages_def running_def kvm_exit_debug_def)
qed


text \<open>A host with two cpus on which everything succeeds.\<close>

definition example_host :: host where
  "example_host = \<lparr>k_online = [0, 1], k_this_cpu = 0, k_cpuid_ecx = 32, k_vmx_basic = 0x40000000001,
     k_feature_control = (\<lambda>_. 0), k_cr4 = (\<lambda>_. 0), k_vmx = (\<lambda>_. None), k_oops = False, k_get_order = (\<lambda>_. 0),
     k_page_results = [0x1000, 0x2000, 0x3000], k_pages = [], k_memory = (\<lambda>_. 0), k_misc_register = None,
     vmcs_descriptor = \<lparr>vd_size = 0, vd_order = 0, vd_revision_id = 0\<rparr>, vmxarea = (\<lambda>_. 0), k_debugfs = False,
     k_reboot_notifier = False, k_misc_device = False, k_bad_page_address = 0\<rparr>"

lemma example_host_init: "fst (kvm_init example_host) = None"
  "fst (kvm_init (example_host\<lparr>k_misc_register := Some EINVAL\<rparr>)) = Some EINVAL"
  "k_vmx (snd (kvm_init (example_host\<lparr>k_misc_register := Some EINVAL\<rparr>))) 1 = Some 0x2000"
  "k_pages (snd (kvm_init (example_host\<lparr>k_misc_register := Some EINVAL\<rparr>))) = []"
  by code_simp+


end
