(* ===== verification/Mmu_Pool.thy ===== *)
theory Mmu_Pool
  imports Memslots
begin

text \<open>
  The constants of \<open>mmu.c\<close>, the accesses to page table entries, and the pool of shadow pages:
  256 pages per virtual cpu, each on the free list or on the vm's list of active pages, each
  described by a header that \<open>page->private\<close> finds. The invariant \<open>pool_ok\<close> says that the two
  lists split the headers and that a free page is all zero, which is what lets
  \<open>kvm_mmu_alloc_page\<close> hand it out as an empty table.
\<close>

section \<open>Bits of the entries\<close>

definition PT64_ENT_PER_PAGE :: nat where
  "PT64_ENT_PER_PAGE = 512"

definition PT_WRITABLE_SHIFT :: nat where
  "PT_WRITABLE_SHIFT = 1"

definition PT_PRESENT_MASK :: u64 where
  "PT_PRESENT_MASK = push_bit 0 1"

definition PT_WRITABLE_MASK :: u64 where
  "PT_WRITABLE_MASK = push_bit 1 1"

definition PT_USER_MASK :: u64 where
  "PT_USER_MASK = push_bit 2 1"

definition PT_PWT_MASK :: u64 where
  "PT_PWT_MASK = push_bit 3 1"

definition PT_PCD_MASK :: u64 where
  "PT_PCD_MASK = push_bit 4 1"

definition PT_ACCESSED_MASK :: u64 where
  "PT_ACCESSED_MASK = push_bit 5 1"

definition PT_DIRTY_MASK :: u64 where
  "PT_DIRTY_MASK = push_bit 6 1"

definition PT_PAGE_SIZE_MASK :: u64 where
  "PT_PAGE_SIZE_MASK = push_bit 7 1"

definition PT_PAT_MASK :: u64 where
  "PT_PAT_MASK = push_bit 7 1"

definition PT_GLOBAL_MASK :: u64 where
  "PT_GLOBAL_MASK = push_bit 8 1"

definition PT64_NX_MASK :: u64 where
  "PT64_NX_MASK = push_bit 63 1"

definition PT_PAT_SHIFT :: nat where
  "PT_PAT_SHIFT = 7"

definition PT_DIR_PAT_SHIFT :: nat where
  "PT_DIR_PAT_SHIFT = 12"

definition PT_DIR_PAT_MASK :: u64 where
  "PT_DIR_PAT_MASK = push_bit 12 1"

definition PT32_DIR_PSE36_SHIFT :: nat where
  "PT32_DIR_PSE36_SHIFT = 13"

definition PT32_DIR_PSE36_MASK :: u64 where
  "PT32_DIR_PSE36_MASK = push_bit PT32_DIR_PSE36_SHIFT (mask 4)"

definition PT32_PTE_COPY_MASK :: u64 where
  "PT32_PTE_COPY_MASK = PT_PRESENT_MASK OR PT_PWT_MASK OR PT_PCD_MASK OR PT_ACCESSED_MASK OR
     PT_DIRTY_MASK OR PT_PAT_MASK OR PT_GLOBAL_MASK"

definition PT32_NON_PTE_COPY_MASK :: u64 where
  "PT32_NON_PTE_COPY_MASK =
     PT_PRESENT_MASK OR PT_PWT_MASK OR PT_PCD_MASK OR PT_ACCESSED_MASK OR PT_DIRTY_MASK"

definition PT64_PTE_COPY_MASK :: u64 where
  "PT64_PTE_COPY_MASK = PT64_NX_MASK OR PT32_PTE_COPY_MASK"

definition PT64_NON_PTE_COPY_MASK :: u64 where
  "PT64_NON_PTE_COPY_MASK = PT64_NX_MASK OR PT32_NON_PTE_COPY_MASK"

definition PT_SHADOW_PS_MARK :: u64 where
  "PT_SHADOW_PS_MARK = push_bit 9 1"

definition PT_SHADOW_IO_MARK :: u64 where
  "PT_SHADOW_IO_MARK = push_bit 9 1"

definition PT_SHADOW_WRITABLE_MASK :: u64 where
  "PT_SHADOW_WRITABLE_MASK = push_bit 10 1"

definition PT_SHADOW_USER_MASK :: u64 where
  "PT_SHADOW_USER_MASK = push_bit 11 1"

definition PT_SHADOW_BITS_OFFSET :: nat where
  "PT_SHADOW_BITS_OFFSET = 9"

definition VALID_PAGE :: "u64 \<Rightarrow> bool" where
  "VALID_PAGE x \<longleftrightarrow> x \<noteq> INVALID_PAGE"

definition PT64_LEVEL_BITS :: nat where
  "PT64_LEVEL_BITS = 9"

definition PT64_LEVEL_SHIFT :: "nat \<Rightarrow> nat" where
  "PT64_LEVEL_SHIFT level = PAGE_SHIFT + (level - 1) * PT64_LEVEL_BITS"

definition PT64_LEVEL_MASK :: "nat \<Rightarrow> u64" where
  "PT64_LEVEL_MASK level = push_bit (PT64_LEVEL_SHIFT level) (mask PT64_LEVEL_BITS)"

definition PT64_INDEX :: "u64 \<Rightarrow> nat \<Rightarrow> nat" where
  "PT64_INDEX address level =
     unat (drop_bit (PT64_LEVEL_SHIFT level) address AND mask PT64_LEVEL_BITS)"

definition PT32_LEVEL_BITS :: nat where
  "PT32_LEVEL_BITS = 10"

definition PT32_LEVEL_SHIFT :: "nat \<Rightarrow> nat" where
  "PT32_LEVEL_SHIFT level = PAGE_SHIFT + (level - 1) * PT32_LEVEL_BITS"

definition PT32_LEVEL_MASK :: "nat \<Rightarrow> u64" where
  "PT32_LEVEL_MASK level = push_bit (PT32_LEVEL_SHIFT level) (mask PT32_LEVEL_BITS)"

definition PT32_INDEX :: "u64 \<Rightarrow> nat \<Rightarrow> nat" where
  "PT32_INDEX address level =
     unat (drop_bit (PT32_LEVEL_SHIFT level) address AND mask PT32_LEVEL_BITS)"

definition PT64_BASE_ADDR_MASK :: u64 where
  "PT64_BASE_ADDR_MASK = mask 52 AND PAGE_MASK"

definition PT64_DIR_BASE_ADDR_MASK :: u64 where
  "PT64_DIR_BASE_ADDR_MASK = PT64_BASE_ADDR_MASK AND NOT (mask (PAGE_SHIFT + PT64_LEVEL_BITS))"

definition PT32_BASE_ADDR_MASK :: u64 where
  "PT32_BASE_ADDR_MASK = PAGE_MASK"

definition PT32_DIR_BASE_ADDR_MASK :: u64 where
  "PT32_DIR_BASE_ADDR_MASK = PAGE_MASK AND NOT (mask (PAGE_SHIFT + PT32_LEVEL_BITS))"

definition PFERR_PRESENT_MASK :: u32 where
  "PFERR_PRESENT_MASK = push_bit 0 1"

definition PFERR_WRITE_MASK :: u32 where
  "PFERR_WRITE_MASK = push_bit 1 1"

definition PFERR_USER_MASK :: u32 where
  "PFERR_USER_MASK = push_bit 2 1"

definition PT64_ROOT_LEVEL :: nat where
  "PT64_ROOT_LEVEL = 4"

definition PT32_ROOT_LEVEL :: nat where
  "PT32_ROOT_LEVEL = 2"

definition PT32E_ROOT_LEVEL :: nat where
  "PT32E_ROOT_LEVEL = 3"

definition PT_DIRECTORY_LEVEL :: nat where
  "PT_DIRECTORY_LEVEL = 2"

definition PT_PAGE_TABLE_LEVEL :: nat where
  "PT_PAGE_TABLE_LEVEL = 1"

lemmas pt_mask_defs =
  PT_PRESENT_MASK_def PT_WRITABLE_MASK_def PT_USER_MASK_def PT_PWT_MASK_def PT_PCD_MASK_def
  PT_ACCESSED_MASK_def PT_DIRTY_MASK_def PT_PAGE_SIZE_MASK_def PT_PAT_MASK_def
  PT_GLOBAL_MASK_def PT64_NX_MASK_def PT_DIR_PAT_MASK_def PT_SHADOW_PS_MARK_def
  PT_SHADOW_IO_MARK_def PT_SHADOW_WRITABLE_MASK_def PT_SHADOW_USER_MASK_def

lemma bit_pt_masks [mask_bits]:
  "bit PT_PRESENT_MASK n \<longleftrightarrow> n = 0"
  "bit PT_WRITABLE_MASK n \<longleftrightarrow> n = 1"
  "bit PT_USER_MASK n \<longleftrightarrow> n = 2"
  "bit PT_PWT_MASK n \<longleftrightarrow> n = 3"
  "bit PT_PCD_MASK n \<longleftrightarrow> n = 4"
  "bit PT_ACCESSED_MASK n \<longleftrightarrow> n = 5"
  "bit PT_DIRTY_MASK n \<longleftrightarrow> n = 6"
  "bit PT_PAGE_SIZE_MASK n \<longleftrightarrow> n = 7"
  "bit PT_PAT_MASK n \<longleftrightarrow> n = 7"
  "bit PT_GLOBAL_MASK n \<longleftrightarrow> n = 8"
  "bit PT64_NX_MASK n \<longleftrightarrow> n = 63"
  "bit PT_DIR_PAT_MASK n \<longleftrightarrow> n = 12"
  "bit PT_SHADOW_PS_MARK n \<longleftrightarrow> n = 9"
  "bit PT_SHADOW_IO_MARK n \<longleftrightarrow> n = 9"
  "bit PT_SHADOW_WRITABLE_MASK n \<longleftrightarrow> n = 10"
  "bit PT_SHADOW_USER_MASK n \<longleftrightarrow> n = 11"
  unfolding pt_mask_defs bit_shift_1 by simp_all

lemma and_pt_masks [simp]:
  "x AND PT_PRESENT_MASK = 0 \<longleftrightarrow> \<not> bit x 0"
  "x AND PT_WRITABLE_MASK = 0 \<longleftrightarrow> \<not> bit x 1"
  "x AND PT_USER_MASK = 0 \<longleftrightarrow> \<not> bit x 2"
  "x AND PT_ACCESSED_MASK = 0 \<longleftrightarrow> \<not> bit x 5"
  "x AND PT_DIRTY_MASK = 0 \<longleftrightarrow> \<not> bit x 6"
  "x AND PT_PAGE_SIZE_MASK = 0 \<longleftrightarrow> \<not> bit x 7"
  "x AND PT_GLOBAL_MASK = 0 \<longleftrightarrow> \<not> bit x 8"
  "x AND PT_SHADOW_PS_MARK = 0 \<longleftrightarrow> \<not> bit x 9"
  "x AND PT_SHADOW_IO_MARK = 0 \<longleftrightarrow> \<not> bit x 9"
  "x AND PT_SHADOW_WRITABLE_MASK = 0 \<longleftrightarrow> \<not> bit x 10"
  "x AND PT_SHADOW_USER_MASK = 0 \<longleftrightarrow> \<not> bit x 11"
  unfolding pt_mask_defs by (rule and_shift_eq_0)+

lemma and_pferr_masks [simp]:
  "e AND PFERR_PRESENT_MASK = 0 \<longleftrightarrow> \<not> bit e 0"
  "e AND PFERR_WRITE_MASK = 0 \<longleftrightarrow> \<not> bit e 1"
  "e AND PFERR_USER_MASK = 0 \<longleftrightarrow> \<not> bit e 2"
  unfolding PFERR_PRESENT_MASK_def PFERR_WRITE_MASK_def PFERR_USER_MASK_def
  by (rule and_shift_eq_0)+

lemma bit_pt_copy_masks [mask_bits]:
  "bit PT32_PTE_COPY_MASK n \<longleftrightarrow> n = 0 \<or> n = 3 \<or> n = 4 \<or> n = 5 \<or> n = 6 \<or> n = 7 \<or> n = 8"
  "bit PT64_PTE_COPY_MASK n \<longleftrightarrow>
    n = 63 \<or> n = 0 \<or> n = 3 \<or> n = 4 \<or> n = 5 \<or> n = 6 \<or> n = 7 \<or> n = 8"
  "bit PT32_NON_PTE_COPY_MASK n \<longleftrightarrow> n = 0 \<or> n = 3 \<or> n = 4 \<or> n = 5 \<or> n = 6"
  "bit PT64_NON_PTE_COPY_MASK n \<longleftrightarrow> n = 63 \<or> n = 0 \<or> n = 3 \<or> n = 4 \<or> n = 5 \<or> n = 6"
  by (auto simp: PT32_PTE_COPY_MASK_def PT64_PTE_COPY_MASK_def PT32_NON_PTE_COPY_MASK_def
      PT64_NON_PTE_COPY_MASK_def bit_or_iff mask_bits)

lemma bit_base_addr_masks [mask_bits]:
  "bit PT64_BASE_ADDR_MASK n \<longleftrightarrow> 12 \<le> n \<and> n < 52"
  "bit PT32_BASE_ADDR_MASK n \<longleftrightarrow> 12 \<le> n \<and> n < 64"
  "bit PT64_DIR_BASE_ADDR_MASK n \<longleftrightarrow> 21 \<le> n \<and> n < 52"
  "bit PT32_DIR_BASE_ADDR_MASK n \<longleftrightarrow> 22 \<le> n \<and> n < 64"
  by (auto simp: PT64_BASE_ADDR_MASK_def PT32_BASE_ADDR_MASK_def PT64_DIR_BASE_ADDR_MASK_def
      PT32_DIR_BASE_ADDR_MASK_def PAGE_SHIFT_def PT64_LEVEL_BITS_def PT32_LEVEL_BITS_def
      bit_and_iff bit_not_iff bit_mask_iff mask_bits)

definition is_write_protection :: "vm \<Rightarrow> bool" where
  "is_write_protection s \<longleftrightarrow> guest_cr0 s AND CR0_WP_MASK \<noteq> 0"

definition is_cpuid_PSE36 :: bool where
  "is_cpuid_PSE36 = True"

definition is_present_pte :: "u64 \<Rightarrow> bool" where
  "is_present_pte pte \<longleftrightarrow> pte AND PT_PRESENT_MASK \<noteq> 0"

definition is_writeble_pte :: "u64 \<Rightarrow> bool" where
  "is_writeble_pte pte \<longleftrightarrow> pte AND PT_WRITABLE_MASK \<noteq> 0"

definition is_io_pte :: "u64 \<Rightarrow> bool" where
  "is_io_pte pte \<longleftrightarrow> pte AND PT_SHADOW_IO_MARK \<noteq> 0"

lemma pte_predicates_bit:
  "is_present_pte pte \<longleftrightarrow> bit pte 0"
  "is_writeble_pte pte \<longleftrightarrow> bit pte 1"
  "is_io_pte pte \<longleftrightarrow> bit pte 9"
  by (simp_all add: is_present_pte_def is_writeble_pte_def is_io_pte_def)

lemma PT64_INDEX_lt [simp]: "PT64_INDEX a l < 512"
proof -
  have "unat (x AND mask 9) < 512" for x :: u64
    using take_bit_nat_less_exp [of 9 "unat x"]
    by (simp add: take_bit_eq_mask [symmetric] unsigned_take_bit_eq)
  then show ?thesis by (simp add: PT64_INDEX_def PT64_LEVEL_BITS_def)
qed

section \<open>Accesses to entries\<close>

definition pte_read :: "vm \<Rightarrow> u64 \<Rightarrow> u64" where
  "pte_read s p = load64 (hmem s) p"

definition pte_write :: "u64 \<Rightarrow> u64 \<Rightarrow> vm \<Rightarrow> vm" where
  "pte_write p v s = s\<lparr>hmem := store64 p v (hmem s)\<rparr>"

abbreviation pt_entry :: "u64 \<Rightarrow> nat \<Rightarrow> u64" where
  "pt_entry table i \<equiv> elt 3 table i"

definition zero_table :: "u64 \<Rightarrow> vm \<Rightarrow> vm" where
  "zero_table p s = s\<lparr>hmem := zero_page p (hmem s)\<rparr>"

section \<open>The pool\<close>

definition header :: "vm \<Rightarrow> nat \<Rightarrow> kvm_mmu_page" where
  "header s h = page_header_buf (vcpu s) h"

definition set_header :: "nat \<Rightarrow> kvm_mmu_page \<Rightarrow> vm \<Rightarrow> vm" where
  "set_header h page s =
     s\<lparr>vcpu := (vcpu s)\<lparr>page_header_buf := (page_header_buf (vcpu s))(h := page)\<rparr>\<rparr>"

definition set_free_pages :: "nat list \<Rightarrow> vm \<Rightarrow> vm" where
  "set_free_pages hs s = s\<lparr>vcpu := (vcpu s)\<lparr>free_pages := hs\<rparr>\<rparr>"

text \<open>\<open>list_del\<close> of a header: it is on at most one of the two lists.\<close>

definition list_del :: "nat \<Rightarrow> vm \<Rightarrow> vm" where
  "list_del h s = set_free_pages (remove1 h (free_pages (vcpu s)))
     (s\<lparr>active_mmu_pages := remove1 h (active_mmu_pages s)\<rparr>)"

definition kvm_mmu_free_page :: "u64 \<Rightarrow> vm \<Rightarrow> vm" where
  "kvm_mmu_free_page hpa s =
     (let page_head = page_header s hpa;
          s = list_del page_head s;
          s = set_header page_head ((header s page_head)\<lparr>page_hpa := hpa\<rparr>) s
      in set_free_pages (page_head # free_pages (vcpu s)) s)"

definition is_empty_shadow_page :: "vm \<Rightarrow> u64 \<Rightarrow> bool" where
  "is_empty_shadow_page s hpa \<longleftrightarrow> (\<forall>i \<in> set [0..<1024]. load32 (hmem s) (elt 2 hpa i) = 0)"

definition kvm_mmu_alloc_page :: "u64 option \<Rightarrow> vm \<Rightarrow> u64 \<times> vm" where
  "kvm_mmu_alloc_page parent s = (case free_pages (vcpu s) of
     [] \<Rightarrow> (INVALID_PAGE, s)
   | page # rest \<Rightarrow>
       let s = list_del page s;
           s = s\<lparr>active_mmu_pages := page # active_mmu_pages s\<rparr>;
           s = set_header page ((header s page)\<lparr>slot_bitmap := 0, page_global := True,
                                               parent_pte := parent\<rparr>) s
       in (page_hpa (header s page), s))"

text \<open>
  A frame without a slot gives \<open>__set_bit\<close> an index outside the bitmap; the callers have looked
  the frame up before.
\<close>

definition page_header_update_slot :: "u64 \<Rightarrow> u64 \<Rightarrow> vm \<Rightarrow> vm" where
  "page_header_update_slot pte gpa s =
     (case gfn_to_memslot s (drop_bit PAGE_SHIFT gpa) of
        None \<Rightarrow> s\<lparr>kernel_bug := True\<rparr>
      | Some slot \<Rightarrow>
          let page_head = page_header s pte
          in set_header page_head
               ((header s page_head)\<lparr>slot_bitmap :=
                  slot_bitmap (header s page_head) OR push_bit slot 1\<rparr>) s)"

text \<open>
  \<open>level\<close> counts down to the leaf tables; the entry is cleared before its table is released.
  Level 0 is excluded by the assertion of the code.
\<close>

fun release_pt_page_64 :: "nat \<Rightarrow> u64 \<Rightarrow> vm \<Rightarrow> vm" where
  "release_pt_page_64 0 hpa s = s"
| "release_pt_page_64 (Suc 0) hpa s = kvm_mmu_free_page hpa (zero_table hpa s)"
| "release_pt_page_64 (Suc (Suc l)) hpa s =
     kvm_mmu_free_page hpa (fold (\<lambda>i s.
       let current_ent = pte_read s (pt_entry hpa i);
           s = pte_write (pt_entry hpa i) 0 s
       in if is_present_pte current_ent
          then release_pt_page_64 (Suc l) (current_ent AND PT64_BASE_ADDR_MASK) s
          else s) [0..<PT64_ENT_PER_PAGE] s)"

section \<open>What pool operations leave alone\<close>

text \<open>They change host memory, the two lists and the headers, and nothing else.\<close>

definition pool_frame :: "vm \<Rightarrow> vm \<Rightarrow> bool" where
  "pool_frame s s' \<longleftrightarrow>
     s'\<lparr>hmem := hmem s, active_mmu_pages := active_mmu_pages s,
        vcpu := (vcpu s')\<lparr>free_pages := free_pages (vcpu s),
                           page_header_buf := page_header_buf (vcpu s)\<rparr>\<rparr> = s"

lemma pool_frame_refl [simp, intro]: "pool_frame s s"
  by (simp add: pool_frame_def)

lemma pool_frameI:
  "s' = s\<lparr>hmem := m, active_mmu_pages := ac,
     vcpu := (vcpu s)\<lparr>free_pages := fr, page_header_buf := hb\<rparr>\<rparr> \<Longrightarrow> pool_frame s s'"
  by (simp add: pool_frame_def)

lemma pool_frameE:
  assumes "pool_frame s s'"
  obtains m ac fr hb where
    "s' = s\<lparr>hmem := m, active_mmu_pages := ac,
       vcpu := (vcpu s)\<lparr>free_pages := fr, page_header_buf := hb\<rparr>\<rparr>"
proof
  show "s' = s\<lparr>hmem := hmem s', active_mmu_pages := active_mmu_pages s',
      vcpu := (vcpu s)\<lparr>free_pages := free_pages (vcpu s'),
        page_header_buf := page_header_buf (vcpu s')\<rparr>\<rparr>"
    using assms by (cases s; cases s'; cases "vcpu s"; cases "vcpu s'") (auto simp: pool_frame_def)
qed

lemma pool_frame_trans [trans]: "pool_frame s t \<Longrightarrow> pool_frame t u \<Longrightarrow> pool_frame s u"
  by (elim pool_frameE) (rule pool_frameI, simp)

lemma pool_frame_simps:
  assumes "pool_frame s s'"
  shows "nmemslots s' = nmemslots s" "memslots s' = memslots s"
    "memory_config_version s' = memory_config_version s" "busy s' = busy s" "vmcs s' = vmcs s"
    "page_private s' = page_private s" "free_frames s' = free_frames s" "vheap s' = vheap s"
    "kvm_stat s' = kvm_stat s" "host s' = host s" "bad_page_address s' = bad_page_address s"
    "kernel_bug s' = kernel_bug s" "mmu (vcpu s') = mmu (vcpu s)" "cr3 (vcpu s') = cr3 (vcpu s)"
    "regs (vcpu s') = regs (vcpu s)" "rip (vcpu s') = rip (vcpu s)"
  using assms by (auto elim!: pool_frameE)

lemma pool_frame_fold:
  "(\<And>x s. x \<in> set xs \<Longrightarrow> pool_frame s (f x s)) \<Longrightarrow> pool_frame s (fold f xs s)"
  by (induction xs arbitrary: s) (auto intro: pool_frame_trans)

lemma pool_frame_ops [simp, intro]:
  "pool_frame s (pte_write p v s)"
  "pool_frame s (zero_table p s)"
  "pool_frame s (set_header h pg s)"
  "pool_frame s (set_free_pages hs s)"
  "pool_frame s (s\<lparr>active_mmu_pages := ac\<rparr>)"
  by (simp_all add: pool_frame_def pte_write_def zero_table_def set_header_def set_free_pages_def)

lemma pool_frame_list_del [simp, intro]: "pool_frame s (list_del h s)"
  unfolding list_del_def by (rule pool_frame_trans [OF pool_frame_ops(5) pool_frame_ops(4)])

lemma pool_frame_free_page [simp, intro]: "pool_frame s (kvm_mmu_free_page p s)"
  unfolding kvm_mmu_free_page_def Let_def
  by (intro pool_frame_trans [OF _ pool_frame_ops(4)] pool_frame_trans [OF _ pool_frame_ops(3)]
      pool_frame_list_del)

lemma pool_frame_alloc_page [simp, intro]: "pool_frame s (snd (kvm_mmu_alloc_page parent s))"
  unfolding kvm_mmu_alloc_page_def Let_def
  by (auto split: list.split intro!: pool_frame_trans [OF _ pool_frame_ops(3)]
      pool_frame_trans [OF pool_frame_list_del pool_frame_ops(5)])

lemma pool_frame_release [simp, intro]: "pool_frame s (release_pt_page_64 l p s)"
proof (induction l p s rule: release_pt_page_64.induct)
  case (2 p s)
  show ?case by (auto intro: pool_frame_trans)
next
  case (3 l p s)
  have "pool_frame t (if is_present_pte e
      then release_pt_page_64 (Suc l) (e AND PT64_BASE_ADDR_MASK) (pte_write q 0 t)
      else pte_write q 0 t)" if "i \<in> set [0..<PT64_ENT_PER_PAGE]" "q = pt_entry p i"
      "e = pte_read t q" for i q e t
    using 3 [OF that(1)] that by (auto intro: pool_frame_trans [OF pool_frame_ops(1)])
  then show ?case
    unfolding release_pt_page_64.simps Let_def
    by (intro pool_frame_trans [OF pool_frame_fold pool_frame_free_page]) auto
qed simp

section \<open>The pool invariant\<close>

definition pool_pages :: "vm \<Rightarrow> nat list" where
  "pool_pages s = free_pages (vcpu s) @ active_mmu_pages s"

definition table_empty :: "vm \<Rightarrow> u64 \<Rightarrow> bool" where
  "table_empty s p \<longleftrightarrow> (\<forall>i < 512. pte_read s (pt_entry p i) = 0)"

text \<open>The header of a pool page is found from the page's address.\<close>

definition header_ok :: "vm \<Rightarrow> nat \<Rightarrow> bool" where
  "header_ok s h \<longleftrightarrow> h < KVM_NUM_MMU_PAGES \<and>
     page_hpa (header s h) AND PT64_BASE_ADDR_MASK = page_hpa (header s h) \<and>
     page_header s (page_hpa (header s h)) = h"

definition pool_ok :: "vm \<Rightarrow> bool" where
  "pool_ok s \<longleftrightarrow> distinct (pool_pages s) \<and> (\<forall>h \<in> set (pool_pages s). header_ok s h) \<and>
     (\<forall>h \<in> set (free_pages (vcpu s)). table_empty s (page_hpa (header s h)))"

definition active_tables :: "vm \<Rightarrow> u64 set" where
  "active_tables s = (\<lambda>h. page_hpa (header s h)) ` set (active_mmu_pages s)"

lemma base_addr_is_page: "p AND PT64_BASE_ADDR_MASK = p \<Longrightarrow> is_page p"
proof -
  assume "p AND PT64_BASE_ADDR_MASK = p"
  moreover have "(p AND PT64_BASE_ADDR_MASK) AND PAGE_MASK = p AND PT64_BASE_ADDR_MASK"
    by (rule bit_word_eqI) (auto simp: bit_and_iff mask_bits)
  ultimately show ?thesis by (simp add: is_page_and_mask)
qed

lemma active_tableE:
  assumes "p \<in> active_tables s" "pool_ok s"
  obtains h where "h \<in> set (active_mmu_pages s)" "p = page_hpa (header s h)" "page_header s p = h"
    "is_page p" "p AND PT64_BASE_ADDR_MASK = p" "h < KVM_NUM_MMU_PAGES"
  using assms by (auto simp: active_tables_def pool_ok_def pool_pages_def header_ok_def
      intro: base_addr_is_page)

lemma active_tables_inj:
  "p \<in> active_tables s \<Longrightarrow> q \<in> active_tables s \<Longrightarrow> pool_ok s \<Longrightarrow>
    page_header s p = page_header s q \<Longrightarrow> p = q"
  by (metis active_tableE)

section \<open>Releasing a tree of tables\<close>

text \<open>
  \<open>released F Z s s'\<close>: the tables \<open>F\<close> went to the free list as empty tables, the entries \<open>Z\<close> were
  cleared, and nothing else changed.
\<close>

definition released :: "u64 set \<Rightarrow> (u64 \<times> nat) set \<Rightarrow> vm \<Rightarrow> vm \<Rightarrow> bool" where
  "released F Z s s' \<longleftrightarrow> pool_frame s s' \<and> header s' = header s \<and>
     (\<forall>p i. is_page p \<longrightarrow> i < 512 \<longrightarrow> pte_read s' (pt_entry p i) =
        (if p \<in> F \<or> (p, i) \<in> Z then 0 else pte_read s (pt_entry p i))) \<and>
     set (free_pages (vcpu s')) = set (free_pages (vcpu s)) \<union> page_header s ` F \<and>
     set (active_mmu_pages s') = set (active_mmu_pages s) - page_header s ` F \<and>
     (distinct (pool_pages s) \<longrightarrow> distinct (pool_pages s'))"

lemma releasedD:
  assumes "released F Z s s'"
  shows "pool_frame s s'" "header s' = header s" "page_header s' = page_header s"
    "is_page p \<Longrightarrow> i < 512 \<Longrightarrow> pte_read s' (pt_entry p i) =
       (if p \<in> F \<or> (p, i) \<in> Z then 0 else pte_read s (pt_entry p i))"
    "set (free_pages (vcpu s')) = set (free_pages (vcpu s)) \<union> page_header s ` F"
    "set (active_mmu_pages s') = set (active_mmu_pages s) - page_header s ` F"
    "distinct (pool_pages s) \<Longrightarrow> distinct (pool_pages s')"
  using assms by (auto simp: released_def page_header_def fun_eq_iff pool_frame_simps)

lemma released_refl [simp]: "released {} {} s s"
  by (simp add: released_def)

lemma released_trans:
  assumes "released F Z s t" "released G Y t u"
  shows "released (F \<union> G) (Z \<union> Y) s u"
proof -
  note a = releasedD [OF assms(1)] and b = releasedD [OF assms(2)]
  show ?thesis
    unfolding released_def
    using pool_frame_trans [OF a(1) b(1)] a(2-7) b(2-7) by (auto simp: image_Un)
qed

lemma released_pte_write:
  assumes "is_page p" "i < 512"
  shows "released {} {(p, i)} s (pte_write (pt_entry p i) 0 s)"
proof -
  have "pte_read (pte_write (pt_entry p i) 0 s) (pt_entry q j) =
      (if q = p \<and> j = i then 0 else pte_read s (pt_entry q j))" if "is_page q" "j < 512" for q j
    using that assms by (auto simp: pte_read_def pte_write_def mem_simps)
  moreover have "header (pte_write a v s) = header s" "free_pages (vcpu (pte_write a v s)) = free_pages (vcpu s)"
    "active_mmu_pages (pte_write a v s) = active_mmu_pages s" for a v
    by (simp_all add: header_def fun_eq_iff pte_write_def)
  ultimately show ?thesis
    by (auto simp: released_def pool_pages_def)
qed

lemma released_zero_table:
  assumes "is_page p"
  shows "released {} ({p} \<times> {..<512}) s (zero_table p s)"
proof -
  have "pte_read (zero_table p s) (pt_entry q j) =
      (if q = p then 0 else pte_read s (pt_entry q j))" if "is_page q" "j < 512" for q j
    using that assms by (simp add: pte_read_def zero_table_def mem_simps)
  moreover have "header (zero_table p s) = header s" "free_pages (vcpu (zero_table p s)) = free_pages (vcpu s)"
    "active_mmu_pages (zero_table p s) = active_mmu_pages s"
    by (simp_all add: header_def fun_eq_iff zero_table_def)
  ultimately show ?thesis
    by (auto simp: released_def pool_pages_def)
qed

text \<open>\<open>kvm_mmu_free_page\<close> on an active page moves its header to the free list.\<close>

lemma kvm_mmu_free_page_effect:
  assumes "page_header s p = h" "p = page_hpa (header s h)" "h \<in> set (active_mmu_pages s)"
    "distinct (pool_pages s)"
  shows "hmem (kvm_mmu_free_page p s) = hmem s" "header (kvm_mmu_free_page p s) = header s"
    "free_pages (vcpu (kvm_mmu_free_page p s)) = h # free_pages (vcpu s)"
    "active_mmu_pages (kvm_mmu_free_page p s) = remove1 h (active_mmu_pages s)"
proof -
  have h: "h \<notin> set (free_pages (vcpu s))"
    using assms(3,4) by (auto simp: pool_pages_def)
  show "hmem (kvm_mmu_free_page p s) = hmem s"
    "active_mmu_pages (kvm_mmu_free_page p s) = remove1 h (active_mmu_pages s)"
    using assms(1) by (simp_all add: kvm_mmu_free_page_def list_del_def set_free_pages_def
        set_header_def Let_def)
  show "free_pages (vcpu (kvm_mmu_free_page p s)) = h # free_pages (vcpu s)"
    using assms(1) h by (simp add: kvm_mmu_free_page_def list_del_def set_free_pages_def
        set_header_def Let_def remove1_idem)
  show "header (kvm_mmu_free_page p s) = header s"
    using assms(1,2) by (auto simp: kvm_mmu_free_page_def list_del_def set_free_pages_def
        set_header_def Let_def header_def fun_eq_iff)
qed

lemma released_free_page:
  assumes "released F Z s t" "pool_ok s" "p \<in> active_tables s" "p \<notin> F" "F \<subseteq> active_tables s"
    "{p} \<times> {..<512} \<subseteq> Z" "Z \<subseteq> insert p F \<times> UNIV"
  shows "released (insert p F) {} s (kvm_mmu_free_page p t)"
proof -
  note r = releasedD [OF assms(1)]
  obtain h where h: "h \<in> set (active_mmu_pages s)" "p = page_hpa (header s h)" "page_header s p = h"
    using active_tableE [OF assms(3,2)] by metis
  have "h \<notin> page_header s ` F"
    using active_tables_inj [OF assms(3) _ assms(2)] assms(4,5) h(3) by blast
  then have ht: "h \<in> set (active_mmu_pages t)" using r(6) h(1) by simp
  have dt: "distinct (pool_pages t)" using r(7) assms(2) by (simp add: pool_ok_def)
  have pt: "page_header t p = h" "p = page_hpa (header t h)" using r(2,3) h by simp_all
  note e = kvm_mmu_free_page_effect [OF pt ht dt]
  have pte: "pte_read (kvm_mmu_free_page p t) a = pte_read t a" for a
    by (simp add: pte_read_def e)
  have "distinct (pool_pages (kvm_mmu_free_page p t))"
    using dt ht by (auto simp: pool_pages_def e)
  moreover have "set (active_mmu_pages (kvm_mmu_free_page p t)) =
      set (active_mmu_pages s) - page_header s ` insert p F"
    using dt r(6) by (auto simp: e pool_pages_def h(3))
  moreover have "set (free_pages (vcpu (kvm_mmu_free_page p t))) =
      set (free_pages (vcpu s)) \<union> page_header s ` insert p F"
    using r(5) by (auto simp: e h(3))
  moreover have "pte_read (kvm_mmu_free_page p t) (pt_entry q i) =
      (if q \<in> insert p F \<or> (q, i) \<in> {} then 0 else pte_read s (pt_entry q i))"
    if "is_page q" "i < 512" for q i
    using r(4) [OF that] assms(6,7) that by (auto simp: pte)
  ultimately show ?thesis
    unfolding released_def using pool_frame_trans [OF r(1) pool_frame_free_page] e(2) r(2) by simp
qed

lemma released_pool_ok:
  assumes ok: "pool_ok s" and F: "F \<subseteq> active_tables s" and r: "released F Z s t"
  shows "pool_ok t" and "active_tables t = active_tables s - F"
    and "set (pool_pages t) = set (pool_pages s)"
proof -
  note d = releasedD [OF r]
  have H: "page_header s ` F \<subseteq> set (active_mmu_pages s)"
    using F active_tableE [OF _ ok] by (metis image_subsetI subset_iff)
  then show pp: "set (pool_pages t) = set (pool_pages s)"
    using d(5,6) by (auto simp: pool_pages_def)
  have ho: "header_ok t h" if "h \<in> set (pool_pages t)" for h
    using that ok pp d(2,3) by (simp add: pool_ok_def header_ok_def)
  have "table_empty t (page_hpa (header t h))" if h: "h \<in> set (free_pages (vcpu t))" for h
  proof -
    have pg: "is_page (page_hpa (header s h))"
      using ho [of h] h d(2) by (auto simp: pool_pages_def header_ok_def intro: base_addr_is_page)
    show ?thesis
    proof (cases "h \<in> set (free_pages (vcpu s))")
      case True
      then have "table_empty s (page_hpa (header s h))" using ok by (simp add: pool_ok_def)
      then show ?thesis using d(4) [OF pg] d(2) by (simp add: table_empty_def)
    next
      case False
      then obtain p where "p \<in> F" "page_header s p = h" using h d(5) by auto
      then have "page_hpa (header s h) \<in> F"
        using F active_tableE [OF _ ok] by (metis subset_iff)
      then show ?thesis using d(4) [OF pg] d(2) by (simp add: table_empty_def)
    qed
  qed
  then show "pool_ok t"
    using ok d(7) ho by (simp add: pool_ok_def)
  have "page_hpa (header s h) \<in> F \<longleftrightarrow> h \<in> page_header s ` F" if "h \<in> set (active_mmu_pages s)" for h
  proof
    assume "page_hpa (header s h) \<in> F"
    moreover have "page_header s (page_hpa (header s h)) = h"
      using that ok by (simp add: pool_ok_def pool_pages_def header_ok_def)
    ultimately show "h \<in> page_header s ` F" by (metis imageI)
  next
    assume "h \<in> page_header s ` F"
    then obtain p where p: "p \<in> F" "h = page_header s p" by auto
    then have "p \<in> active_tables s" using F by blast
    then show "page_hpa (header s h) \<in> F"
      using p active_tableE [OF _ ok] by metis
  qed
  then show "active_tables t = active_tables s - F"
    using d(2,6) by (auto simp: active_tables_def)
qed

text \<open>The tables below a table, itself first.\<close>

fun table_tree :: "nat \<Rightarrow> vm \<Rightarrow> u64 \<Rightarrow> u64 list" where
  "table_tree 0 s p = []"
| "table_tree (Suc 0) s p = [p]"
| "table_tree (Suc (Suc l)) s p =
     p # concat (map (\<lambda>i. if is_present_pte (pte_read s (pt_entry p i))
       then table_tree (Suc l) s (pte_read s (pt_entry p i) AND PT64_BASE_ADDR_MASK)
       else []) [0..<512])"

definition tree_ok :: "nat \<Rightarrow> vm \<Rightarrow> u64 \<Rightarrow> bool" where
  "tree_ok l s p \<longleftrightarrow> distinct (table_tree l s p) \<and> set (table_tree l s p) \<subseteq> active_tables s"

lemma table_tree_root: "0 < l \<Longrightarrow> p \<in> set (table_tree l s p)"
  by (cases l rule: nat.exhaust; cases "l - 1") auto

text \<open>The tree depends only on the entries of its own tables.\<close>

lemma table_tree_cong:
  "(\<And>q i. q \<in> set (table_tree l s p) \<Longrightarrow> i < 512 \<Longrightarrow>
      pte_read t (pt_entry q i) = pte_read s (pt_entry q i)) \<Longrightarrow>
    table_tree l t p = table_tree l s p"
proof (induction l s p rule: table_tree.induct)
  case (3 l s p)
  have eq: "pte_read t (pt_entry p i) = pte_read s (pt_entry p i)" if "i < 512" for i
    using 3(2) [of p i] that by simp
  have "table_tree (Suc l) t (pte_read s (pt_entry p i) AND PT64_BASE_ADDR_MASK) =
      table_tree (Suc l) s (pte_read s (pt_entry p i) AND PT64_BASE_ADDR_MASK)"
    if "i < 512" "is_present_pte (pte_read s (pt_entry p i))" for i
  proof (rule 3(1))
    fix q j
    assume q: "q \<in> set (table_tree (Suc l) s (pte_read s (pt_entry p i) AND PT64_BASE_ADDR_MASK))"
      and j: "j < (512 :: nat)"
    from q that have "q \<in> set (table_tree (Suc (Suc l)) s p)" by force
    then show "pte_read t (pt_entry q j) = pte_read s (pt_entry q j)" using j by (rule 3(2))
  qed (use that in auto)
  then show ?case
    unfolding table_tree.simps by (intro arg_cong2 [of _ _ _ _ "(#)"] refl arg_cong [of _ _ concat] map_cong)
      (auto simp: eq)
qed simp_all

definition sub_tree :: "nat \<Rightarrow> vm \<Rightarrow> u64 \<Rightarrow> nat \<Rightarrow> u64 list" where
  "sub_tree l s p i = (if is_present_pte (pte_read s (pt_entry p i))
     then table_tree l s (pte_read s (pt_entry p i) AND PT64_BASE_ADDR_MASK) else [])"

lemma table_tree_sub: "table_tree (Suc (Suc l)) s p = p # concat (map (sub_tree (Suc l) s p) [0..<512])"
  by (simp add: sub_tree_def cong: map_cong)

lemma distinct_concat_nth:
  "distinct (concat (map f [0..<n])) \<Longrightarrow> i < n \<Longrightarrow> j < n \<Longrightarrow> i \<noteq> j \<Longrightarrow> set (f i) \<inter> set (f j) = {}"
proof (induction n)
  case (Suc n)
  have last: "set (f k) \<inter> set (f n) = {}" if "k < n" for k
    using Suc.prems(1) that by (fastforce simp: disjoint_iff)
  show ?case
  proof (cases "i < n \<and> j < n")
    case True
    then show ?thesis using Suc by simp
  next
    case False
    then show ?thesis using Suc.prems last [of i] last [of j] by (auto simp: less_Suc_eq Int_commute)
  qed
qed simp

lemma distinct_concat_member: "distinct (concat (map f xs)) \<Longrightarrow> x \<in> set xs \<Longrightarrow> distinct (f x)"
  by (induction xs) auto

lemma tree_okD:
  assumes "tree_ok (Suc (Suc l)) s p"
  shows "p \<in> active_tables s"
    and "i < 512 \<Longrightarrow> set (sub_tree (Suc l) s p i) \<subseteq> active_tables s"
    and "i < 512 \<Longrightarrow> distinct (sub_tree (Suc l) s p i)"
    and "i < 512 \<Longrightarrow> p \<notin> set (sub_tree (Suc l) s p i)"
    and "i < 512 \<Longrightarrow> j < 512 \<Longrightarrow> i \<noteq> j \<Longrightarrow>
      set (sub_tree (Suc l) s p i) \<inter> set (sub_tree (Suc l) s p j) = {}"
proof -
  let ?f = "sub_tree (Suc l) s p"
  have d: "distinct (concat (map ?f [0..<512]))" "p \<notin> set (concat (map ?f [0..<512]))"
    and a: "p \<in> active_tables s" "set (concat (map ?f [0..<512])) \<subseteq> active_tables s"
    using assms unfolding tree_ok_def table_tree_sub by auto
  show "p \<in> active_tables s" by (rule a)
  have m: "set (?f i) \<subseteq> set (concat (map ?f [0..<512]))" if "i < 512" for i
    using that by (force simp: set_concat)
  show "i < 512 \<Longrightarrow> set (?f i) \<subseteq> active_tables s" "i < 512 \<Longrightarrow> p \<notin> set (?f i)"
    using m [of i] a(2) d(2) by auto
  show "i < 512 \<Longrightarrow> distinct (?f i)"
    using distinct_concat_member [OF d(1), of i] by simp
  show "i < 512 \<Longrightarrow> j < 512 \<Longrightarrow> i \<noteq> j \<Longrightarrow> set (?f i) \<inter> set (?f j) = {}"
    using distinct_concat_nth [OF d(1)] by blast
qed

text \<open>One iteration of the loop over the entries.\<close>

definition release_entry :: "nat \<Rightarrow> u64 \<Rightarrow> nat \<Rightarrow> vm \<Rightarrow> vm" where
  "release_entry l p i s =
     (if is_present_pte (pte_read s (pt_entry p i))
      then release_pt_page_64 l (pte_read s (pt_entry p i) AND PT64_BASE_ADDR_MASK)
        (pte_write (pt_entry p i) 0 s)
      else pte_write (pt_entry p i) 0 s)"

lemma release_pt_page_64_loop:
  "release_pt_page_64 (Suc (Suc l)) p s =
    kvm_mmu_free_page p (fold (release_entry (Suc l) p) [0..<512] s)"
  unfolding release_pt_page_64.simps Let_def PT64_ENT_PER_PAGE_def
  by (rule arg_cong [of _ _ "kvm_mmu_free_page p"], rule fold_cong)
    (simp_all add: release_entry_def fun_eq_iff)

lemma release_entry_released:
  assumes ok: "pool_ok s" and r: "released F Z s t" and F: "F \<subseteq> active_tables s"
    and p: "is_page p" "k < 512" "p \<notin> F" "(p, k) \<notin> Z"
    and sub: "set (sub_tree (Suc l) s p k) \<subseteq> active_tables s" "distinct (sub_tree (Suc l) s p k)"
      "set (sub_tree (Suc l) s p k) \<inter> F = {}"
      "\<And>q i. (q, i) \<in> Z \<Longrightarrow> q \<notin> set (sub_tree (Suc l) s p k)" "p \<notin> set (sub_tree (Suc l) s p k)"
    and IH: "\<And>q u. pool_ok u \<Longrightarrow> tree_ok (Suc l) u q \<Longrightarrow>
      released (set (table_tree (Suc l) u q)) {} u (release_pt_page_64 (Suc l) q u)"
  shows "released (F \<union> set (sub_tree (Suc l) s p k)) (insert (p, k) Z) s (release_entry (Suc l) p k t)"
proof -
  let ?e = "pte_read s (pt_entry p k)"
  have e: "pte_read t (pt_entry p k) = ?e"
    using releasedD(4) [OF r p(1,2)] p(3,4) by simp
  let ?u = "pte_write (pt_entry p k) 0 t"
  have u: "released F (insert (p, k) Z) s ?u"
    using released_trans [OF r released_pte_write [OF p(1,2)]] by simp
  note uok = released_pool_ok [OF ok F u]
  show ?thesis
  proof (cases "is_present_pte ?e")
    case False
    then show ?thesis using u by (simp add: release_entry_def e sub_tree_def)
  next
    case True
    let ?q = "?e AND PT64_BASE_ADDR_MASK"
    have st: "sub_tree (Suc l) s p k = table_tree (Suc l) s ?q"
      using True by (simp add: sub_tree_def)
    have "table_tree (Suc l) ?u ?q = table_tree (Suc l) s ?q"
    proof (rule table_tree_cong)
      fix x and i :: nat assume x: "x \<in> set (table_tree (Suc l) s ?q)" and i: "i < 512"
      have "is_page x"
        using sub(1) x active_tableE [OF _ ok] unfolding st by (metis subsetD)
      then show "pte_read ?u (pt_entry x i) = pte_read s (pt_entry x i)"
        using releasedD(4) [OF u _ i, of x] x sub(3,4,5) unfolding st by auto
    qed
    then have tt: "table_tree (Suc l) ?u ?q = sub_tree (Suc l) s p k" by (simp add: st)
    have "tree_ok (Suc l) ?u ?q"
      unfolding tree_ok_def tt uok(2) using sub(1-3) by blast
    from IH [OF uok(1) this] show ?thesis
      using released_trans [OF u, of "set (sub_tree (Suc l) s p k)" "{}"] True
      unfolding tt by (simp add: release_entry_def e)
  qed
qed

lemma release_loop_released:
  assumes ok: "pool_ok s" and tree: "tree_ok (Suc (Suc l)) s p"
    and IH: "\<And>q u. pool_ok u \<Longrightarrow> tree_ok (Suc l) u q \<Longrightarrow>
      released (set (table_tree (Suc l) u q)) {} u (release_pt_page_64 (Suc l) q u)"
    and k: "k \<le> 512"
  shows "released (\<Union>i<k. set (sub_tree (Suc l) s p i)) ({p} \<times> {..<k}) s
    (fold (release_entry (Suc l) p) [0..<k] s)"
  using k
proof (induction k)
  case (Suc k)
  let ?f = "sub_tree (Suc l) s p"
  note tr = tree_okD [OF tree]
  have p: "is_page p"
    using active_tableE [OF tr(1) ok] by metis
  have "released ((\<Union>i<k. set (?f i)) \<union> set (?f k)) (insert (p, k) ({p} \<times> {..<k})) s
      (release_entry (Suc l) p k (fold (release_entry (Suc l) p) [0..<k] s))"
  proof (rule release_entry_released [OF ok Suc.IH])
    have lt: "i < 512" if "i < k" for i using that Suc.prems by simp
    show "(\<Union>i<k. set (?f i)) \<subseteq> active_tables s"
      using tr(2) [OF lt] by blast
    show "set (?f k) \<inter> (\<Union>i<k. set (?f i)) = {}"
    proof -
      have "set (?f i) \<inter> set (?f k) = {}" if "i < k" for i
        using tr(5) [OF lt [OF that], of k] that Suc.prems by simp
      then show ?thesis by blast
    qed
    show "p \<notin> (\<Union>i<k. set (?f i))"
      using tr(4) [OF lt] by blast
  qed (use p tr(2,3,4) [of k] Suc.prems IH in auto)
  moreover have "insert (p, k) ({p} \<times> {..<k}) = {p} \<times> {..<Suc k}" by auto
  moreover have "(\<Union>i<k. set (?f i)) \<union> set (?f k) = (\<Union>i<Suc k. set (?f i))"
    by (auto simp: lessThan_Suc)
  ultimately show ?case by simp
qed simp

lemma release_pt_page_64_released:
  "0 < l \<Longrightarrow> pool_ok s \<Longrightarrow> tree_ok l s p \<Longrightarrow>
    released (set (table_tree l s p)) {} s (release_pt_page_64 l p s)"
proof (induction l arbitrary: s p)
  case (Suc l)
  note ok = Suc.prems(2)
  have act: "p \<in> active_tables s"
    using Suc.prems(3) table_tree_root [of "Suc l" p s] by (auto simp: tree_ok_def)
  have pg: "is_page p" using active_tableE [OF act ok] by metis
  show ?case
  proof (cases l)
    case 0
    have "released (insert p {}) {} s (kvm_mmu_free_page p (zero_table p s))"
      by (rule released_free_page [OF released_zero_table [OF pg] ok act]) auto
    then show ?thesis by (simp add: 0)
  next
    case (Suc m)
    let ?F = "\<Union>i<512. set (sub_tree (Suc m) s p i)"
    have loop: "released ?F ({p} \<times> {..<512}) s (fold (release_entry (Suc m) p) [0..<512] s)"
      by (rule release_loop_released [OF ok]) (use Suc Suc.IH Suc.prems(3) in auto)
    note tr = tree_okD [OF Suc.prems(3) [unfolded Suc]]
    have "?F \<subseteq> active_tables s" "p \<notin> ?F" using tr(2,4) by (auto dest: subsetD)
    then have "released (insert p ?F) {} s
        (kvm_mmu_free_page p (fold (release_entry (Suc m) p) [0..<512] s))"
      by (intro released_free_page [OF loop ok act]) auto
    moreover have "insert p ?F = set (table_tree (Suc l) s p)"
      unfolding Suc table_tree_sub by auto
    ultimately show ?thesis
      unfolding Suc release_pt_page_64_loop by simp
  qed
qed simp

section \<open>Taking a page\<close>

lemma kvm_mmu_alloc_page_effect:
  assumes "pool_ok s" "free_pages (vcpu s) = h # rest"
  shows "fst (kvm_mmu_alloc_page parent s) = page_hpa (header s h)"
    "hmem (snd (kvm_mmu_alloc_page parent s)) = hmem s"
    "header (snd (kvm_mmu_alloc_page parent s)) =
       (header s)(h := (header s h)\<lparr>slot_bitmap := 0, page_global := True, parent_pte := parent\<rparr>)"
    "free_pages (vcpu (snd (kvm_mmu_alloc_page parent s))) = rest"
    "active_mmu_pages (snd (kvm_mmu_alloc_page parent s)) = h # active_mmu_pages s"
proof -
  have h: "h \<notin> set (active_mmu_pages s)"
    using assms by (auto simp: pool_ok_def pool_pages_def)
  show "fst (kvm_mmu_alloc_page parent s) = page_hpa (header s h)"
    "hmem (snd (kvm_mmu_alloc_page parent s)) = hmem s"
    "free_pages (vcpu (snd (kvm_mmu_alloc_page parent s))) = rest"
    "header (snd (kvm_mmu_alloc_page parent s)) =
       (header s)(h := (header s h)\<lparr>slot_bitmap := 0, page_global := True, parent_pte := parent\<rparr>)"
    "active_mmu_pages (snd (kvm_mmu_alloc_page parent s)) = h # active_mmu_pages s"
    using assms(2) h by (simp_all add: kvm_mmu_alloc_page_def list_del_def set_free_pages_def
        set_header_def header_def fun_eq_iff Let_def remove1_idem)
qed

text \<open>What the caller of \<open>kvm_mmu_alloc_page\<close> may rely on.\<close>

lemma kvm_mmu_alloc_page_ok:
  assumes ok: "pool_ok s" and alloc: "kvm_mmu_alloc_page parent s = (hpa, t)"
  shows "pool_ok t" and "set (pool_pages t) = set (pool_pages s)"
    and "free_pages (vcpu s) = [] \<Longrightarrow> hpa = INVALID_PAGE \<and> t = s"
    and "free_pages (vcpu s) \<noteq> [] \<Longrightarrow> VALID_PAGE hpa \<and> is_page hpa \<and>
      hpa AND PT64_BASE_ADDR_MASK = hpa \<and> table_empty t hpa \<and> hpa \<notin> active_tables s \<and>
      active_tables t = insert hpa (active_tables s) \<and>
      length (free_pages (vcpu t)) = length (free_pages (vcpu s)) - 1"
proof -
  have t: "t = snd (kvm_mmu_alloc_page parent s)" and hpa: "hpa = fst (kvm_mmu_alloc_page parent s)"
    using alloc by simp_all
  show nil: "free_pages (vcpu s) = [] \<Longrightarrow> hpa = INVALID_PAGE \<and> t = s"
    using alloc by (simp add: kvm_mmu_alloc_page_def)
  have cons: "pool_ok t \<and> set (pool_pages t) = set (pool_pages s) \<and> VALID_PAGE hpa \<and> is_page hpa \<and>
      hpa AND PT64_BASE_ADDR_MASK = hpa \<and> table_empty t hpa \<and> hpa \<notin> active_tables s \<and>
      active_tables t = insert hpa (active_tables s) \<and>
      length (free_pages (vcpu t)) = length (free_pages (vcpu s)) - 1"
    if fp: "free_pages (vcpu s) = h # rest" for h rest
  proof -
    note e = kvm_mmu_alloc_page_effect [OF ok fp, of parent, folded t hpa]
    have fr: "page_header t p = page_header s p" "pte_read t p = pte_read s p" for p
      using pool_frame_alloc_page [of s parent] e(2)
      by (simp_all add: page_header_def pool_frame_simps pte_read_def flip: t)
    have hp: "page_hpa (header t k) = page_hpa (header s k)" for k
      by (simp add: e(3))
    have ho: "header_ok s h" "h \<notin> set (active_mmu_pages s)" "table_empty s hpa"
      using ok fp e(1) by (auto simp: pool_ok_def pool_pages_def)
    have base: "hpa AND PT64_BASE_ADDR_MASK = hpa" "page_header s hpa = h"
      using ho(1) e(1) by (simp_all add: header_ok_def)
    have "INVALID_PAGE AND PT64_BASE_ADDR_MASK \<noteq> INVALID_PAGE"
    proof
      assume "INVALID_PAGE AND PT64_BASE_ADDR_MASK = INVALID_PAGE"
      then have "bit (INVALID_PAGE AND PT64_BASE_ADDR_MASK) 0 = bit INVALID_PAGE 0" by simp
      then show False by (simp add: bit_and_iff mask_bits INVALID_PAGE_def)
    qed
    then have v: "VALID_PAGE hpa" using base(1) by (auto simp: VALID_PAGE_def)
    have pp: "set (pool_pages t) = set (pool_pages s)" "distinct (pool_pages t)"
      using fp ok e(4,5) by (auto simp: pool_pages_def pool_ok_def)
    have "pool_ok t"
      using ok pp fp e(4) fr hp
      by (auto simp: pool_ok_def header_ok_def table_empty_def pool_pages_def)
    moreover have "table_empty t hpa" using ho(3) fr by (simp add: table_empty_def)
    moreover have "hpa \<notin> active_tables s"
      using ho(2) base(2) active_tableE [OF _ ok] by metis
    moreover have "active_tables t = insert hpa (active_tables s)"
      using hp e(1,5) by (auto simp: active_tables_def)
    ultimately show ?thesis
      using pp v base base_addr_is_page [OF base(1)] e(4) fp by simp
  qed
  show "pool_ok t" "set (pool_pages t) = set (pool_pages s)"
    using nil cons ok by (cases "free_pages (vcpu s)"; simp)+
  show "free_pages (vcpu s) \<noteq> [] \<Longrightarrow> VALID_PAGE hpa \<and> is_page hpa \<and>
      hpa AND PT64_BASE_ADDR_MASK = hpa \<and> table_empty t hpa \<and> hpa \<notin> active_tables s \<and>
      active_tables t = insert hpa (active_tables s) \<and>
      length (free_pages (vcpu t)) = length (free_pages (vcpu s)) - 1"
    using cons by (cases "free_pages (vcpu s)") simp_all
qed

section \<open>A small pool\<close>

text \<open>One active table at \<open>0x5000\<close> and two free pages; the rest of memory is zero.\<close>

definition example_pool :: vm where
  "example_pool = zero_vm\<lparr>active_mmu_pages := [0],
     page_private := (\<lambda>f. if f = 5 then 0 else if f = 6 then 1 else 2),
     vcpu := zero_vcpu\<lparr>free_pages := [1, 2],
       page_header_buf := (\<lambda>h. zero_page_header\<lparr>page_hpa := 0x5000 + 0x1000 * of_nat h\<rparr>)\<rparr>\<rparr>"

lemma load64_zero_mem: "load64 (\<lambda>_. 0) a = 0"
  unfolding load64_def by (rule bit_word_eqI) (simp add: bit_load_le)

lemma example_pool_ok: "pool_ok example_pool"
  by (simp add: pool_ok_def pool_pages_def example_pool_def header_ok_def header_def page_header_def
      zero_defs PAGE_SHIFT_def PT64_BASE_ADDR_MASK_def PAGE_MASK_mask mask_numeral table_empty_def
      pte_read_def load64_zero_mem KVM_NUM_MMU_PAGES_def)

lemma example_pool_tree: "table_tree 3 example_pool 0x5000 = [0x5000]" "tree_ok 3 example_pool 0x5000"
proof -
  have "pte_read example_pool a = 0" for a
    by (simp add: pte_read_def example_pool_def zero_defs load64_zero_mem)
  then have "sub_tree (Suc (Suc 0)) example_pool 0x5000 i = []" for i
    by (simp add: sub_tree_def is_present_pte_def)
  then have "concat (map (sub_tree (Suc (Suc 0)) example_pool 0x5000) xs) = []" for xs
    by (induction xs) simp_all
  then have "table_tree (Suc (Suc (Suc 0))) example_pool 0x5000 = [0x5000]"
    by (simp only: table_tree_sub)
  then show "table_tree 3 example_pool 0x5000 = [0x5000]"
    by (simp only: numeral_3_eq_3)
  then show "tree_ok 3 example_pool 0x5000"
    by (simp add: tree_ok_def active_tables_def example_pool_def header_def zero_defs)
qed

section \<open>Properties\<close>

text \<open>
  C20: \<open>kvm_mmu_alloc_page\<close> keeps the pool invariant, fails only when the free list is empty, and
  otherwise returns an all-zero page-aligned table that was not in use and now is.
\<close>

theorem alloc_page_fresh:
  assumes "pool_ok s" "kvm_mmu_alloc_page parent s = (hpa, t)"
  shows "pool_ok t \<and>
    (if free_pages (vcpu s) = [] then hpa = INVALID_PAGE \<and> t = s
     else table_empty t hpa \<and> hpa \<notin> active_tables s \<and>
          active_tables t = insert hpa (active_tables s) \<and> is_page hpa \<and> VALID_PAGE hpa)"
  using kvm_mmu_alloc_page_ok [OF assms] by simp

lemma alloc_page_fresh_witness:
  "table_empty (snd (kvm_mmu_alloc_page None example_pool)) 0x6000 \<and>
   fst (kvm_mmu_alloc_page None example_pool) = 0x6000"
proof -
  have a: "kvm_mmu_alloc_page None example_pool =
      (0x6000, snd (kvm_mmu_alloc_page None example_pool))"
    by (simp add: kvm_mmu_alloc_page_def example_pool_def zero_defs list_del_def set_free_pages_def
        set_header_def header_def Let_def)
  have "free_pages (vcpu example_pool) \<noteq> []" by (simp add: example_pool_def zero_defs)
  then show ?thesis using alloc_page_fresh [OF example_pool_ok a] arg_cong [OF a, of fst] by (simp split: if_splits)
qed

text \<open>
  C15: releasing a table tree of any depth gives back exactly the tables of the tree, each of them
  all zero again, keeps the pool invariant, and changes no entry of any other page.
\<close>

theorem release_tree:
  assumes "pool_ok s" "tree_ok l s p" "0 < l" and t: "t = release_pt_page_64 l p s"
  shows "pool_ok t \<and> active_tables t = active_tables s - set (table_tree l s p) \<and>
    set (pool_pages t) = set (pool_pages s) \<and>
    (\<forall>q i. is_page q \<longrightarrow> i < 512 \<longrightarrow> pte_read t (pt_entry q i) =
       (if q \<in> set (table_tree l s p) then 0 else pte_read s (pt_entry q i)))"
proof -
  have r: "released (set (table_tree l s p)) {} s t"
    unfolding t using assms by (intro release_pt_page_64_released)
  have "set (table_tree l s p) \<subseteq> active_tables s"
    using assms(2) by (simp add: tree_ok_def)
  from released_pool_ok [OF assms(1) this r] releasedD(4) [OF r] show ?thesis by simp
qed

lemma release_tree_witness:
  "active_tables (release_pt_page_64 3 0x5000 example_pool) = {}"
proof -
  have "active_tables example_pool = {0x5000}"
    by (simp add: active_tables_def example_pool_def header_def zero_defs)
  then show ?thesis
    using release_tree [OF example_pool_ok example_pool_tree(2) _ refl] example_pool_tree(1) by simp
qed

end
