(* ===== verification/Mmu.thy ===== *)
theory Mmu
  imports Mmu_Pool
begin

text \<open>
  The shadow MMU of \<open>mmu.c\<close>: translation of guest frames to host frames, the non-paging
  context, the shared part of the paging contexts, and the life of the pool. The page tables
  of a guest with paging are in \<open>Guest_Paging\<close>, where the fault handlers are; the functions
  here that depend on the context take it from \<open>mmu_ctx\<close>.
\<close>

section \<open>Updates of the state\<close>

definition set_mmu :: "kvm_mmu \<Rightarrow> vm \<Rightarrow> vm" where
  "set_mmu m s = s\<lparr>vcpu := (vcpu s)\<lparr>mmu := m\<rparr>\<rparr>"

definition set_root_hpa :: "u64 \<Rightarrow> vm \<Rightarrow> vm" where
  "set_root_hpa root s = set_mmu ((mmu (vcpu s))\<lparr>root_hpa := root\<rparr>) s"

definition count_tlb_flush :: "vm \<Rightarrow> vm" where
  "count_tlb_flush s = s\<lparr>kvm_stat := (kvm_stat s)\<lparr>tlb_flush := tlb_flush (kvm_stat s) + 1\<rparr>\<rparr>"

definition count_invlpg :: "vm \<Rightarrow> vm" where
  "count_invlpg s = s\<lparr>kvm_stat := (kvm_stat s)\<lparr>invlpg := invlpg (kvm_stat s) + 1\<rparr>\<rparr>"

definition count_pf_guest :: "vm \<Rightarrow> vm" where
  "count_pf_guest s = s\<lparr>kvm_stat := (kvm_stat s)\<lparr>pf_guest := pf_guest (kvm_stat s) + 1\<rparr>\<rparr>"

definition count_pf_fixed :: "vm \<Rightarrow> vm" where
  "count_pf_fixed s = s\<lparr>kvm_stat := (kvm_stat s)\<lparr>pf_fixed := pf_fixed (kvm_stat s) + 1\<rparr>\<rparr>"

definition pte_or :: "u64 \<Rightarrow> u64 \<Rightarrow> vm \<Rightarrow> vm" where
  "pte_or p v s = pte_write p (pte_read s p OR v) s"

definition pte_and :: "u64 \<Rightarrow> u64 \<Rightarrow> vm \<Rightarrow> vm" where
  "pte_and p v s = pte_write p (pte_read s p AND v) s"

section \<open>Guest frames to host frames\<close>

definition gpa_to_hpa :: "vm \<Rightarrow> u64 \<Rightarrow> u64" where
  "gpa_to_hpa s gpa = (case gfn_to_memslot s (drop_bit PAGE_SHIFT gpa) of
     None \<Rightarrow> gpa OR HPA_ERR_MASK
   | Some slot \<Rightarrow>
       push_bit PAGE_SHIFT (gfn_to_page s (memslots s slot) (drop_bit PAGE_SHIFT gpa)) OR
       (gpa AND (PAGE_SIZE - 1)))"

definition safe_gpa_to_hpa :: "vm \<Rightarrow> u64 \<Rightarrow> u64" where
  "safe_gpa_to_hpa s gpa =
     (let hpa = gpa_to_hpa s gpa
      in if is_error_hpa hpa then bad_page_address s OR (gpa AND NOT PAGE_MASK) else hpa)"

section \<open>The non-paging context\<close>

definition nonpaging_new_cr3 :: "vm \<Rightarrow> vm" where
  "nonpaging_new_cr3 s = s"

text \<open>The walk over the shadow tables, from \<open>level\<close> down; \<open>True\<close> when the page is mapped.\<close>

fun nonpaging_map_level :: "nat \<Rightarrow> u64 \<Rightarrow> u64 \<Rightarrow> u64 \<Rightarrow> vm \<Rightarrow> bool \<times> vm" where
  "nonpaging_map_level 0 table v p s = (False, s)"
| "nonpaging_map_level (Suc 0) table v p s =
     (let s = mark_page_dirty (drop_bit PAGE_SHIFT v) s;
          s = page_header_update_slot table v s;
          s = pte_write (pt_entry table (PT64_INDEX v 1))
                (p OR PT_PRESENT_MASK OR PT_WRITABLE_MASK OR PT_USER_MASK) s
      in (True, s))"
| "nonpaging_map_level (Suc (Suc l)) table v p s =
     (let level = Suc (Suc l);
          ent = pt_entry table (PT64_INDEX v level)
      in if pte_read s ent = 0 then
           (let (new_table, s) = kvm_mmu_alloc_page (Some ent) s
            in if \<not> VALID_PAGE new_table then (False, s)
               else let s = (if level = PT32E_ROOT_LEVEL
                             then pte_write ent (new_table OR PT_PRESENT_MASK) s
                             else pte_write ent (new_table OR PT_PRESENT_MASK OR
                                    PT_WRITABLE_MASK OR PT_USER_MASK) s)
                    in nonpaging_map_level (Suc l) (pte_read s ent AND PT64_BASE_ADDR_MASK) v p s)
         else nonpaging_map_level (Suc l) (pte_read s ent AND PT64_BASE_ADDR_MASK) v p s)"

definition nonpaging_map :: "u64 \<Rightarrow> u64 \<Rightarrow> vm \<Rightarrow> bool \<times> vm" where
  "nonpaging_map v p s = nonpaging_map_level PT32E_ROOT_LEVEL (root_hpa (mmu (vcpu s))) v p s"

definition nonpaging_flush :: "vm \<Rightarrow> vm" where
  "nonpaging_flush s =
     (let root = root_hpa (mmu (vcpu s));
          s = count_tlb_flush s;
          s = release_pt_page_64 (shadow_root_level (mmu (vcpu s))) root s;
          (root, s) = kvm_mmu_alloc_page None s;
          s = set_root_hpa root s;
          root = (if is_paging s then root OR (cr3 (vcpu s) AND (CR3_PCD_MASK OR CR3_WPT_MASK))
                  else root)
      in vmcs_writel GUEST_CR3 root s)"

definition nonpaging_gva_to_gpa :: "vm \<Rightarrow> u64 \<Rightarrow> u64" where
  "nonpaging_gva_to_gpa s vaddr = vaddr"

text \<open>
  The retry loop of the fault handler: \<open>None\<close> when the fuel is used up, \<open>Some (True, _)\<close> for the
  result 1 (emulate), \<open>Some (False, _)\<close> for 0.
\<close>

fun nonpaging_page_fault :: "nat \<Rightarrow> u64 \<Rightarrow> vm \<Rightarrow> (bool \<times> vm) option" where
  "nonpaging_page_fault 0 gva s = None"
| "nonpaging_page_fault (Suc fuel) gva s =
     (let paddr = gpa_to_hpa s (gva AND PT64_BASE_ADDR_MASK)
      in if is_error_hpa paddr then Some (True, s)
         else let (ok, s) = nonpaging_map (gva AND PAGE_MASK) paddr s
              in if ok then Some (False, s)
                 else nonpaging_page_fault fuel gva (nonpaging_flush s))"

definition nonpaging_inval_page :: "u64 \<Rightarrow> vm \<Rightarrow> vm" where
  "nonpaging_inval_page addr s = s"

definition nonpaging_free :: "vm \<Rightarrow> vm" where
  "nonpaging_free s =
     (let root = root_hpa (mmu (vcpu s));
          s = (if VALID_PAGE root
               then release_pt_page_64 (shadow_root_level (mmu (vcpu s))) root s else s)
      in set_root_hpa INVALID_PAGE s)"

definition nonpaging_init_context :: "vm \<Rightarrow> vm" where
  "nonpaging_init_context s =
     (let (root, s) = kvm_mmu_alloc_page None s;
          s = set_mmu \<lparr>mmu_ctx = Some Nonpaging, root_hpa = root, root_level = PT32E_ROOT_LEVEL,
                       shadow_root_level = PT32E_ROOT_LEVEL\<rparr> s
      in vmcs_writel GUEST_CR3 root s)"

section \<open>The shared part of the paging contexts\<close>

text \<open>
  The flush walks over the list as it was: an element is taken off the list only when it is
  visited.
\<close>

definition flush_page :: "nat \<Rightarrow> vm \<Rightarrow> vm" where
  "flush_page h s =
     (if page_global (header s h) then s
      else case parent_pte (header s h) of
             None \<Rightarrow> s
           | Some p \<Rightarrow> release_pt_page_64 1 (page_hpa (header s h)) (pte_write p 0 s))"

definition kvm_mmu_flush_tlb :: "vm \<Rightarrow> vm" where
  "kvm_mmu_flush_tlb s = count_tlb_flush (fold flush_page (active_mmu_pages s) s)"

definition paging_new_cr3 :: "vm \<Rightarrow> vm" where
  "paging_new_cr3 s = kvm_mmu_flush_tlb s"

definition mark_pagetable_nonglobal :: "u64 \<Rightarrow> vm \<Rightarrow> vm" where
  "mark_pagetable_nonglobal shadow_pte s =
     set_header (page_header s shadow_pte)
       ((header s (page_header s shadow_pte))\<lparr>page_global := False\<rparr>) s"

definition set_pte_common :: "u64 \<Rightarrow> u64 \<Rightarrow> bool \<Rightarrow> u64 \<Rightarrow> vm \<Rightarrow> vm" where
  "set_pte_common shadow_pte gaddr dirty access_bits s =
     (let s = pte_or shadow_pte (push_bit PT_SHADOW_BITS_OFFSET access_bits) s;
          access_bits = (if \<not> dirty then access_bits AND NOT PT_WRITABLE_MASK else access_bits);
          s = (if access_bits AND PT_WRITABLE_MASK \<noteq> 0
               then mark_page_dirty (drop_bit PAGE_SHIFT gaddr) s else s);
          s = pte_or shadow_pte access_bits s;
          paddr = gpa_to_hpa s (gaddr AND PT64_BASE_ADDR_MASK);
          s = (if pte_read s shadow_pte AND PT_GLOBAL_MASK = 0
               then mark_pagetable_nonglobal shadow_pte s else s)
      in if is_error_hpa paddr then
           let s = pte_or shadow_pte gaddr s;
               s = pte_or shadow_pte PT_SHADOW_IO_MARK s
           in pte_and shadow_pte (NOT PT_PRESENT_MASK) s
         else
           let s = pte_or shadow_pte paddr s
           in page_header_update_slot shadow_pte gaddr s)"

definition inject_page_fault :: "u64 \<Rightarrow> u32 \<Rightarrow> vm \<Rightarrow> vm" where
  "inject_page_fault addr err_code s =
     (let vect_info = vmcs_read32 s IDT_VECTORING_INFO_FIELD;
          s = count_pf_guest s
      in if is_page_fault vect_info then
           let s = vmcs_write32 VM_ENTRY_EXCEPTION_ERROR_CODE 0 s
           in vmcs_write32 VM_ENTRY_INTR_INFO_FIELD
                (DF_VECTOR OR INTR_TYPE_EXCEPTION OR INTR_INFO_DELIEVER_CODE_MASK OR
                 INTR_INFO_VALID_MASK) s
         else
           let s = s\<lparr>vcpu := (vcpu s)\<lparr>cr2 := addr\<rparr>\<rparr>;
               s = vmcs_write32 VM_ENTRY_EXCEPTION_ERROR_CODE err_code s
           in vmcs_write32 VM_ENTRY_INTR_INFO_FIELD
                (PF_VECTOR OR INTR_TYPE_EXCEPTION OR INTR_INFO_DELIEVER_CODE_MASK OR
                 INTR_INFO_VALID_MASK) s)"

definition fix_read_pf :: "u64 \<Rightarrow> vm \<Rightarrow> bool \<times> vm" where
  "fix_read_pf shadow_ent s =
     (if pte_read s shadow_ent AND PT_SHADOW_USER_MASK \<noteq> 0 \<and>
         pte_read s shadow_ent AND PT_USER_MASK = 0
      then let s = pte_or shadow_ent PT_USER_MASK s;
               s = pte_and shadow_ent (NOT PT_WRITABLE_MASK) s
           in (True, s)
      else (False, s))"

definition may_access :: "u64 \<Rightarrow> bool \<Rightarrow> bool \<Rightarrow> bool" where
  "may_access pte write user \<longleftrightarrow>
     \<not> (user \<and> pte AND PT_USER_MASK = 0) \<and> \<not> (write \<and> pte AND PT_WRITABLE_MASK = 0)"

fun paging_inval_level :: "nat \<Rightarrow> u64 \<Rightarrow> u64 \<Rightarrow> vm \<Rightarrow> vm" where
  "paging_inval_level 0 page_addr addr s = s"
| "paging_inval_level (Suc 0) page_addr addr s =
     pte_write (pt_entry page_addr (PT64_INDEX addr 1)) 0 s"
| "paging_inval_level (Suc (Suc l)) table addr s =
     (let level = Suc (Suc l);
          ent = pt_entry table (PT64_INDEX addr level)
      in if \<not> is_present_pte (pte_read s ent) then s
         else let page_addr = pte_read s ent AND PT64_BASE_ADDR_MASK
              in if level = PT_DIRECTORY_LEVEL \<and> pte_read s ent AND PT_SHADOW_PS_MARK \<noteq> 0 then
                   let s = pte_write ent 0 s;
                       s = release_pt_page_64 PT_PAGE_TABLE_LEVEL page_addr s
                   in vmcs_writel GUEST_CR3 (root_hpa (mmu (vcpu s)) OR
                        (cr3 (vcpu s) AND (CR3_PCD_MASK OR CR3_WPT_MASK))) s
                 else paging_inval_level (Suc l) page_addr addr s)"

definition paging_inval_page :: "u64 \<Rightarrow> vm \<Rightarrow> vm" where
  "paging_inval_page addr s =
     paging_inval_level (shadow_root_level (mmu (vcpu s))) (root_hpa (mmu (vcpu s))) addr
       (count_invlpg s)"

definition paging_free :: "vm \<Rightarrow> vm" where
  "paging_free s = nonpaging_free s"

section \<open>The contexts\<close>

definition paging_init_root :: "kvm_mmu \<Rightarrow> vm \<Rightarrow> vm" where
  "paging_init_root context s =
     (let (root, s) = kvm_mmu_alloc_page None s;
          s = set_mmu (context\<lparr>root_hpa := root\<rparr>) s
      in vmcs_writel GUEST_CR3 (root OR (cr3 (vcpu s) AND (CR3_PCD_MASK OR CR3_WPT_MASK))) s)"

definition paging64_init_context :: "vm \<Rightarrow> vm" where
  "paging64_init_context s =
     paging_init_root ((mmu (vcpu s))\<lparr>mmu_ctx := Some Paging64, root_level := PT64_ROOT_LEVEL,
                                       shadow_root_level := PT64_ROOT_LEVEL\<rparr>) s"

definition paging32_init_context :: "vm \<Rightarrow> vm" where
  "paging32_init_context s =
     paging_init_root ((mmu (vcpu s))\<lparr>mmu_ctx := Some Paging32, root_level := PT32_ROOT_LEVEL,
                                       shadow_root_level := PT32E_ROOT_LEVEL\<rparr>) s"

definition paging32E_init_context :: "vm \<Rightarrow> vm" where
  "paging32E_init_context s =
     (let s = paging64_init_context s
      in set_mmu ((mmu (vcpu s))\<lparr>root_level := PT32E_ROOT_LEVEL,
                                 shadow_root_level := PT32E_ROOT_LEVEL\<rparr>) s)"

definition init_kvm_mmu :: "vm \<Rightarrow> vm" where
  "init_kvm_mmu s =
     (if \<not> is_paging s then nonpaging_init_context s
      else if is_long_mode s then paging64_init_context s
      else if is_pae s then paging32E_init_context s
      else paging32_init_context s)"

definition destroy_kvm_mmu :: "vm \<Rightarrow> vm" where
  "destroy_kvm_mmu s =
     (if VALID_PAGE (root_hpa (mmu (vcpu s))) then
        set_root_hpa INVALID_PAGE
          (case mmu_ctx (mmu (vcpu s)) of
             None \<Rightarrow> s\<lparr>kernel_bug := True\<rparr>
           | Some Nonpaging \<Rightarrow> nonpaging_free s
           | Some _ \<Rightarrow> paging_free s)
      else s)"

definition kvm_mmu_reset_context :: "vm \<Rightarrow> vm" where
  "kvm_mmu_reset_context s = init_kvm_mmu (destroy_kvm_mmu s)"

definition mmu_new_cr3 :: "vm \<Rightarrow> vm" where
  "mmu_new_cr3 s = (case mmu_ctx (mmu (vcpu s)) of
     None \<Rightarrow> s\<lparr>kernel_bug := True\<rparr>
   | Some Nonpaging \<Rightarrow> nonpaging_new_cr3 s
   | Some _ \<Rightarrow> paging_new_cr3 s)"

definition mmu_inval_page :: "u64 \<Rightarrow> vm \<Rightarrow> vm" where
  "mmu_inval_page addr s = (case mmu_ctx (mmu (vcpu s)) of
     None \<Rightarrow> s\<lparr>kernel_bug := True\<rparr>
   | Some Nonpaging \<Rightarrow> nonpaging_inval_page addr s
   | Some _ \<Rightarrow> paging_inval_page addr s)"

section \<open>The life of the pool\<close>

text \<open>Takes the headers off the free list one by one.\<close>

fun free_mmu_pages_list :: "nat list \<Rightarrow> vm \<Rightarrow> vm" where
  "free_mmu_pages_list [] s = s"
| "free_mmu_pages_list (h # hs) s =
     (let s = list_del h s;
          s = free_page (drop_bit PAGE_SHIFT (page_hpa (header s h))) s;
          s = set_header h ((header s h)\<lparr>page_hpa := INVALID_PAGE\<rparr>) s
      in free_mmu_pages_list hs s)"

definition free_mmu_pages :: "vm \<Rightarrow> vm" where
  "free_mmu_pages s = free_mmu_pages_list (free_pages (vcpu s)) s"

text \<open>The allocation loop from header \<open>i\<close> for \<open>n\<close> headers; \<open>False\<close>: \<open>-ENOMEM\<close>.\<close>

fun alloc_mmu_pages_from :: "nat \<Rightarrow> nat \<Rightarrow> vm \<Rightarrow> bool \<times> vm" where
  "alloc_mmu_pages_from 0 i s = (True, s)"
| "alloc_mmu_pages_from (Suc n) i s =
     (let (page, s) = alloc_page s
      in if page = 0 then (False, free_mmu_pages s)
         else let s = s\<lparr>page_private := (page_private s)(page := i)\<rparr>;
                  hpa = push_bit PAGE_SHIFT page;
                  s = set_header i ((header s i)\<lparr>page_hpa := hpa\<rparr>) s;
                  s = zero_table hpa s;
                  s = set_free_pages (i # free_pages (vcpu s)) s
              in alloc_mmu_pages_from n (Suc i) s)"

definition alloc_mmu_pages :: "vm \<Rightarrow> bool \<times> vm" where
  "alloc_mmu_pages s = alloc_mmu_pages_from KVM_NUM_MMU_PAGES 0 s"

text \<open>\<open>init_kvm_mmu\<close> always returns 0, so the second error path of \<open>kvm_mmu_init\<close> is dead.\<close>

definition kvm_mmu_init :: "vm \<Rightarrow> bool \<times> vm" where
  "kvm_mmu_init s =
     (let (ok, s) = alloc_mmu_pages s
      in if ok then (True, init_kvm_mmu s) else (False, s))"

definition kvm_mmu_destroy :: "vm \<Rightarrow> vm" where
  "kvm_mmu_destroy s = free_mmu_pages (destroy_kvm_mmu s)"

section \<open>Write protection for the dirty log\<close>

definition protect_page :: "nat \<Rightarrow> nat \<Rightarrow> vm \<Rightarrow> vm" where
  "protect_page slot h s =
     (if \<not> bit (slot_bitmap (header s h)) slot then s
      else let pt = page_hpa (header s h)
           in fold (\<lambda>i s.
             let p = pt_entry pt i
             in if pte_read s p AND PT_WRITABLE_MASK \<noteq> 0
                then pte_and p (NOT PT_WRITABLE_MASK) s else s) [0..<PT64_ENT_PER_PAGE] s)"

definition kvm_mmu_slot_remove_write_access :: "nat \<Rightarrow> vm \<Rightarrow> vm" where
  "kvm_mmu_slot_remove_write_access slot s = fold (protect_page slot) (active_mmu_pages s) s"

end
