(* ===== verification/Shadow_Tree.thy ===== *)
theory Shadow_Tree
  imports Mmu
begin

text \<open>
  Proofs about the shadow page tables as a tree: grafting a fresh table below an entry, the
  processor's walk over the tables, and the non-paging map and fault handler. The invariant
  \<open>shadow_ok\<close> says that the active tables are exactly the tables of the tree below
  \<open>root_hpa\<close>, each reached once.
\<close>

section \<open>Operations that leave the tables alone\<close>

definition same_tables :: "vm \<Rightarrow> vm \<Rightarrow> bool" where
  "same_tables s t \<longleftrightarrow> hmem t = hmem s \<and> page_private t = page_private s \<and>
     (\<forall>h. page_hpa (header t h) = page_hpa (header s h)) \<and>
     free_pages (vcpu t) = free_pages (vcpu s) \<and> active_mmu_pages t = active_mmu_pages s"

lemma same_tables_refl [simp, intro]: "same_tables s s"
  by (simp add: same_tables_def)

lemma same_tables_trans [trans]: "same_tables s t \<Longrightarrow> same_tables t u \<Longrightarrow> same_tables s u"
  by (simp add: same_tables_def)

lemma same_tablesD:
  assumes "same_tables s t"
  shows "pte_read t = pte_read s" "page_header t = page_header s" "active_tables t = active_tables s"
    "pool_pages t = pool_pages s" "pool_ok t = pool_ok s" "table_empty t = table_empty s"
    "free_pages (vcpu t) = free_pages (vcpu s)"
proof -
  show r: "pte_read t = pte_read s" "page_header t = page_header s"
    "active_tables t = active_tables s" "pool_pages t = pool_pages s"
    "free_pages (vcpu t) = free_pages (vcpu s)"
    using assms unfolding same_tables_def
    by (simp_all add: pte_read_def [abs_def] page_header_def [abs_def] active_tables_def pool_pages_def)
  then show "table_empty t = table_empty s" by (simp add: table_empty_def fun_eq_iff)
  with r show "pool_ok t = pool_ok s"
    using assms by (simp add: pool_ok_def header_ok_def same_tables_def)
qed

lemma same_tables_tree: "same_tables s t \<Longrightarrow> table_tree l t p = table_tree l s p"
  by (rule table_tree_cong) (simp add: same_tablesD)

lemma same_tables_tree_ok: "same_tables s t \<Longrightarrow> tree_ok l t p = tree_ok l s p"
  by (simp add: tree_ok_def same_tables_tree same_tablesD)

lemma same_tables_ops [simp, intro]:
  "same_tables s (mark_page_dirty gfn s)"
  "same_tables s (page_header_update_slot pte gpa s)"
  "same_tables s (mark_pagetable_nonglobal pte s)"
  "same_tables s (count_tlb_flush s)"
  "same_tables s (count_invlpg s)"
  "same_tables s (count_pf_guest s)"
  "same_tables s (count_pf_fixed s)"
  "same_tables s (set_mmu m s)"
  "same_tables s (vmcs_writel f v s)"
  "same_tables s (vmcs_write32 f d s)"
  by (auto simp: same_tables_def header_def page_header_update_slot_def set_header_def Let_def
      mark_pagetable_nonglobal_def count_tlb_flush_def count_invlpg_def count_pf_guest_def
      count_pf_fixed_def set_mmu_def vmcs_access_defs split: option.split)

section \<open>Writing an entry of an active table\<close>

lemma pte_read_write:
  assumes "is_page p" "i < 512" "is_page q" "j < 512"
  shows "pte_read (pte_write (pt_entry p i) v s) (pt_entry q j) =
    (if q = p \<and> j = i then v else pte_read s (pt_entry q j))"
  using assms by (auto simp: pte_read_def pte_write_def mem_simps)

lemma pte_write_fields [simp]:
  "header (pte_write a v s) = header s"
  "free_pages (vcpu (pte_write a v s)) = free_pages (vcpu s)"
  "active_mmu_pages (pte_write a v s) = active_mmu_pages s"
  "page_header (pte_write a v s) = page_header s"
  "pool_pages (pte_write a v s) = pool_pages s"
  "active_tables (pte_write a v s) = active_tables s"
  by (simp_all add: header_def fun_eq_iff pte_write_def page_header_def pool_pages_def
      active_tables_def)

lemma pool_ok_pte_write:
  assumes ok: "pool_ok s" and p: "p \<in> active_tables s" and i: "i < 512"
  shows "pool_ok (pte_write (pt_entry p i) v s)"
proof -
  have pg: "is_page p" using active_tableE [OF p ok] by metis
  have "table_empty (pte_write (pt_entry p i) v s) (page_hpa (header s h))"
    if h: "h \<in> set (free_pages (vcpu s))" for h
  proof -
    have ho: "header_ok s h" "table_empty s (page_hpa (header s h))" "h \<notin> set (active_mmu_pages s)"
      using ok h by (auto simp: pool_ok_def pool_pages_def)
    then have "page_hpa (header s h) \<noteq> p"
      using active_tableE [OF p ok] by (metis header_ok_def)
    moreover have "is_page (page_hpa (header s h))"
      using ho(1) by (auto simp: header_ok_def intro: base_addr_is_page)
    ultimately show ?thesis
      using ho(2) by (auto simp: table_empty_def pte_read_write [OF pg i])
  qed
  with ok show ?thesis
    by (simp add: pool_ok_def header_ok_def)
qed

section \<open>Grafting\<close>

text \<open>An empty table is a tree of its own, of any height.\<close>

lemma table_tree_empty: "table_empty s p \<Longrightarrow> 0 < l \<Longrightarrow> table_tree l s p = [p]"
proof (induction l s p rule: table_tree.induct)
  case (3 l s p)
  then have "sub_tree (Suc l) s p i = []" if "i < 512" for i
    using that by (simp add: sub_tree_def table_empty_def is_present_pte_def)
  then have "concat (map (sub_tree (Suc l) s p) [0..<512]) = []"
    by (simp only: concat_eq_Nil_conv) auto
  then show ?case unfolding table_tree_sub by simp
qed simp_all

lemma distinct_concat_mapI:
  assumes "distinct xs" "\<And>x. x \<in> set xs \<Longrightarrow> distinct (f x)"
    and "\<And>x y. x \<in> set xs \<Longrightarrow> y \<in> set xs \<Longrightarrow> x \<noteq> y \<Longrightarrow> set (f x) \<inter> set (f y) = {}"
  shows "distinct (concat (map f xs))"
  using assms
proof (induction xs)
  case (Cons x xs)
  have "set (f x) \<inter> set (f y) = {}" if "y \<in> set xs" for y
    using Cons.prems(1,3) that by (metis distinct.simps(2) list.set_intros)
  then show ?case using Cons by (auto simp: disjoint_iff)
qed simp

text \<open>
  Entry \<open>i\<close> of the table at \<open>p\<close> changed, and with it what is below it; the rest of the tree is
  as it was, and the new tables are not part of it.
\<close>

lemma tree_graft:
  assumes tree: "tree_ok (Suc (Suc m)) s p" and i: "i < 512"
    and same: "\<And>q j. q \<in> set (table_tree (Suc (Suc m)) s p) \<Longrightarrow> q \<notin> set (sub_tree (Suc m) s p i) \<Longrightarrow>
      j < 512 \<Longrightarrow> (q, j) \<noteq> (p, i) \<Longrightarrow> pte_read t (pt_entry q j) = pte_read s (pt_entry q j)"
    and d: "distinct (sub_tree (Suc m) t p i)"
    and act: "set (sub_tree (Suc m) t p i) \<subseteq> active_tables t"
      "set (table_tree (Suc (Suc m)) s p) - set (sub_tree (Suc m) s p i) \<subseteq> active_tables t"
    and dj: "set (sub_tree (Suc m) t p i) \<inter>
      (set (table_tree (Suc (Suc m)) s p) - set (sub_tree (Suc m) s p i)) = {}"
  shows "tree_ok (Suc (Suc m)) t p"
    and "set (table_tree (Suc (Suc m)) t p) =
      (set (table_tree (Suc (Suc m)) s p) - set (sub_tree (Suc m) s p i)) \<union> set (sub_tree (Suc m) t p i)"
proof -
  let ?f = "sub_tree (Suc m) s p" and ?g = "sub_tree (Suc m) t p"
  note tr = tree_okD [OF tree]
  have mem: "x \<in> set (table_tree (Suc (Suc m)) s p) \<longleftrightarrow> x = p \<or> (\<exists>j<512. x \<in> set (?f j))" for x
    unfolding table_tree_sub by auto
  have gf: "?g j = ?f j" if j: "j < 512" "j \<noteq> i" for j
  proof -
    have e: "pte_read t (pt_entry p j) = pte_read s (pt_entry p j)"
      using same [of p j] mem [of p] tr(4) [OF i] j by simp
    have "table_tree (Suc m) t (pte_read s (pt_entry p j) AND PT64_BASE_ADDR_MASK) =
        table_tree (Suc m) s (pte_read s (pt_entry p j) AND PT64_BASE_ADDR_MASK)"
      if pr: "is_present_pte (pte_read s (pt_entry p j))"
    proof (rule table_tree_cong)
      fix q and k :: nat
      assume "q \<in> set (table_tree (Suc m) s (pte_read s (pt_entry p j) AND PT64_BASE_ADDR_MASK))"
        and k: "k < 512"
      then have q: "q \<in> set (?f j)" using pr by (simp add: sub_tree_def)
      then have "q \<notin> set (?f i)" "q \<noteq> p" using tr(5) [OF j(1) i j(2)] tr(4) [OF j(1)] by auto
      then show "pte_read t (pt_entry q k) = pte_read s (pt_entry q k)"
        using same [OF _ _ k] mem [of q] q j(1) by blast
    qed
    then show ?thesis by (simp add: sub_tree_def e)
  qed
  have old: "set (table_tree (Suc (Suc m)) s p) - set (?f i) = {p} \<union> (\<Union>j\<in>{..<512} - {i}. set (?f j))"
    using mem tr(4) [OF i] tr(5) [OF _ i] by blast
  have new: "set (table_tree (Suc (Suc m)) t p) = {p} \<union> (\<Union>j\<in>{..<512} - {i}. set (?f j)) \<union> set (?g i)"
    unfolding table_tree_sub using gf i by (auto simp: Bex_def) metis+
  show "set (table_tree (Suc (Suc m)) t p) =
      (set (table_tree (Suc (Suc m)) s p) - set (?f i)) \<union> set (?g i)"
    unfolding old new by simp
  have djp: "p \<notin> set (?g i)" and dji: "set (?g i) \<inter> set (?f j) = {}" if "j < 512" "j \<noteq> i" for j
    using dj that unfolding old by auto
  have pg: "p \<notin> set (?g i)" using dj unfolding old by auto
  have "distinct (concat (map ?g [0..<512]))"
  proof (rule distinct_concat_mapI)
    fix j assume "j \<in> set [0..<512]"
    then show "distinct (?g j)" using d gf [of j] tr(3) [of j] by (cases "j = i") auto
  next
    fix j k assume jk: "j \<in> set [0..<512]" "k \<in> set [0..<512]" "j \<noteq> k"
    then show "set (?g j) \<inter> set (?g k) = {}"
      using gf [of j] gf [of k] dji [of j] dji [of k] tr(5) [of j k]
      by (cases "j = i"; cases "k = i") auto
  qed simp
  moreover have "p \<notin> set (concat (map ?g [0..<512]))"
  proof -
    have "p \<notin> set (?g j)" if "j < 512" for j
      using pg gf [OF that] tr(4) [OF that] by (cases "j = i") auto
    then show ?thesis by auto
  qed
  ultimately have "distinct (table_tree (Suc (Suc m)) t p)" unfolding table_tree_sub by simp
  moreover have "set (table_tree (Suc (Suc m)) t p) \<subseteq> active_tables t"
    using act unfolding old new by blast
  ultimately show "tree_ok (Suc (Suc m)) t p" by (simp add: tree_ok_def)
qed

section \<open>A tree that grows\<close>

text \<open>
  \<open>grown l s t p\<close>: below the table at \<open>p\<close> the tree may have changed and gained tables that
  were free; every other active table is as it was.
\<close>

definition grown :: "nat \<Rightarrow> vm \<Rightarrow> vm \<Rightarrow> u64 \<Rightarrow> bool" where
  "grown l s t p \<longleftrightarrow> pool_ok t \<and> tree_ok l t p \<and> set (table_tree l s p) \<subseteq> set (table_tree l t p) \<and>
     active_tables t = active_tables s \<union> set (table_tree l t p) \<and>
     (set (table_tree l t p) - set (table_tree l s p)) \<inter> active_tables s = {} \<and>
     (\<forall>q \<in> active_tables s - set (table_tree l s p). \<forall>j < 512.
        pte_read t (pt_entry q j) = pte_read s (pt_entry q j)) \<and>
     set (pool_pages t) = set (pool_pages s)"

lemma grownD:
  assumes "grown l s t p"
  shows "pool_ok t" "tree_ok l t p" "set (table_tree l s p) \<subseteq> set (table_tree l t p)"
    "active_tables t = active_tables s \<union> set (table_tree l t p)"
    "q \<in> set (table_tree l t p) \<Longrightarrow> q \<in> active_tables s \<Longrightarrow> q \<in> set (table_tree l s p)"
    "q \<in> active_tables s \<Longrightarrow> q \<notin> set (table_tree l s p) \<Longrightarrow> j < 512 \<Longrightarrow>
       pte_read t (pt_entry q j) = pte_read s (pt_entry q j)"
    "set (pool_pages t) = set (pool_pages s)"
  using assms by (auto simp: grown_def)

lemma grown_refl: "pool_ok s \<Longrightarrow> tree_ok l s p \<Longrightarrow> grown l s s p"
  by (auto simp: grown_def tree_ok_def)

text \<open>
  One level up: from \<open>s\<close> to \<open>s2\<close> the entry \<open>i\<close> of \<open>p\<close> may have been given the fresh tables \<open>F\<close>,
  then the tree below it grew.
\<close>

lemma grown_child:
  assumes ok: "pool_ok s" and tree: "tree_ok (Suc (Suc m)) s p" and i: "i < 512"
    and act2: "active_tables s2 = active_tables s \<union> F" and fresh: "F \<inter> active_tables s = {}"
    and same: "\<And>q j. q \<in> active_tables s \<Longrightarrow> j < 512 \<Longrightarrow> (q, j) \<noteq> (p, i) \<Longrightarrow>
      pte_read s2 (pt_entry q j) = pte_read s (pt_entry q j)"
    and e2: "is_present_pte (pte_read s2 (pt_entry p i))"
      "pte_read s2 (pt_entry p i) AND PT64_BASE_ADDR_MASK = c"
    and sub2: "set (table_tree (Suc m) s2 c) = set (sub_tree (Suc m) s p i) \<union> F"
    and g: "grown (Suc m) s2 t c" and pp: "set (pool_pages s2) = set (pool_pages s)"
  shows "grown (Suc (Suc m)) s t p" "pte_read t (pt_entry p i) = pte_read s2 (pt_entry p i)"
    "q \<in> active_tables s \<Longrightarrow> q \<notin> set (sub_tree (Suc m) s p i) \<Longrightarrow> j < 512 \<Longrightarrow> (q, j) \<noteq> (p, i) \<Longrightarrow>
       pte_read t (pt_entry q j) = pte_read s (pt_entry q j)"
proof -
  note gd = grownD [OF g] and tr = tree_okD [OF tree]
  have pn: "p \<notin> set (table_tree (Suc m) s2 c)"
    using sub2 tr(1) tr(4) [OF i] fresh by auto
  show e: "pte_read t (pt_entry p i) = pte_read s2 (pt_entry p i)"
    by (rule gd(6)) (use pn i tr(1) act2 in auto)
  have st: "sub_tree (Suc m) t p i = table_tree (Suc m) t c"
    using e e2 by (simp add: sub_tree_def)
  have old: "set (table_tree (Suc (Suc m)) s p) \<subseteq> active_tables s"
    using tree by (simp add: tree_ok_def)
  have sub: "set (sub_tree (Suc m) s p i) \<subseteq> set (table_tree (Suc (Suc m)) s p)"
    unfolding table_tree_sub using i by auto
  have keep: "pte_read t (pt_entry q j) = pte_read s (pt_entry q j)"
    if "q \<in> active_tables s" "q \<notin> set (sub_tree (Suc m) s p i)" "j < 512" "(q, j) \<noteq> (p, i)" for q j
  proof -
    have "q \<notin> set (table_tree (Suc m) s2 c)" using that(1,2) sub2 fresh by auto
    then have "pte_read t (pt_entry q j) = pte_read s2 (pt_entry q j)"
      using gd(6) [of q j] that act2 by auto
    then show ?thesis using same that by simp
  qed
  then show "q \<in> active_tables s \<Longrightarrow> q \<notin> set (sub_tree (Suc m) s p i) \<Longrightarrow> j < 512 \<Longrightarrow>
      (q, j) \<noteq> (p, i) \<Longrightarrow> pte_read t (pt_entry q j) = pte_read s (pt_entry q j)" .
  have keep': "pte_read t (pt_entry q j) = pte_read s (pt_entry q j)"
    if "q \<in> set (table_tree (Suc (Suc m)) s p)" "q \<notin> set (sub_tree (Suc m) s p i)" "j < 512"
      "(q, j) \<noteq> (p, i)" for q j
    using keep old that by blast
  have d: "distinct (sub_tree (Suc m) t p i)" "set (sub_tree (Suc m) t p i) \<subseteq> active_tables t"
    using gd(2) by (simp_all add: st tree_ok_def)
  have a: "set (table_tree (Suc (Suc m)) s p) - set (sub_tree (Suc m) s p i) \<subseteq> active_tables t"
    using gd(4) old act2 by blast
  have dj: "set (sub_tree (Suc m) t p i) \<inter>
      (set (table_tree (Suc (Suc m)) s p) - set (sub_tree (Suc m) s p i)) = {}"
    using gd(5) old act2 sub2 fresh unfolding st by blast
  have graft: "tree_ok (Suc (Suc m)) t p" "set (table_tree (Suc (Suc m)) t p) =
      (set (table_tree (Suc (Suc m)) s p) - set (sub_tree (Suc m) s p i)) \<union> set (sub_tree (Suc m) t p i)"
    by (rule tree_graft [OF tree i keep' d(1) d(2) a dj], assumption+)+
  have up: "set (sub_tree (Suc m) s p i) \<subseteq> set (sub_tree (Suc m) t p i)" "F \<subseteq> set (sub_tree (Suc m) t p i)"
    using gd(3) sub2 unfolding st by auto
  have "active_tables t = active_tables s \<union> set (table_tree (Suc (Suc m)) t p)"
    unfolding gd(4) act2 graft(2) using up(2) old unfolding st by blast
  moreover have "(set (table_tree (Suc (Suc m)) t p) - set (table_tree (Suc (Suc m)) s p)) \<inter>
      active_tables s = {}"
    using gd(5) act2 sub2 fresh sub unfolding graft(2) st by blast
  moreover have "set (table_tree (Suc (Suc m)) s p) \<subseteq> set (table_tree (Suc (Suc m)) t p)"
    using up(1) unfolding graft(2) by blast
  moreover have "pte_read t (pt_entry q j) = pte_read s (pt_entry q j)"
    if "q \<in> active_tables s" "q \<notin> set (table_tree (Suc (Suc m)) s p)" "j < 512" for q j
    using keep [of q j] that sub table_tree_root [of "Suc (Suc m)" p s] by blast
  ultimately show "grown (Suc (Suc m)) s t p"
    unfolding grown_def using gd(1,7) graft(1) pp by simp
qed

text \<open>The two ways down: through an entry that is there, and through a fresh table.\<close>

lemma grown_existing:
  assumes "pool_ok s" "tree_ok (Suc (Suc m)) s p" "i < 512"
    "is_present_pte (pte_read s (pt_entry p i))"
    "grown (Suc m) s t (pte_read s (pt_entry p i) AND PT64_BASE_ADDR_MASK)"
  shows "grown (Suc (Suc m)) s t p" "pte_read t (pt_entry p i) = pte_read s (pt_entry p i)"
    "q \<in> active_tables s \<Longrightarrow> q \<notin> set (sub_tree (Suc m) s p i) \<Longrightarrow> j < 512 \<Longrightarrow> (q, j) \<noteq> (p, i) \<Longrightarrow>
       pte_read t (pt_entry q j) = pte_read s (pt_entry q j)"
proof -
  let ?c = "pte_read s (pt_entry p i) AND PT64_BASE_ADDR_MASK"
  note g = grown_child [OF assms(1-3) _ _ _ assms(4) refl _ assms(5), of "{}"]
  show "grown (Suc (Suc m)) s t p" "pte_read t (pt_entry p i) = pte_read s (pt_entry p i)"
    using g(1,2) assms(4) by (simp_all add: sub_tree_def)
  assume "q \<in> active_tables s" "q \<notin> set (sub_tree (Suc m) s p i)" "j < 512" "(q, j) \<noteq> (p, i)"
  then show "pte_read t (pt_entry q j) = pte_read s (pt_entry q j)"
    by (intro g(3)) (use assms(4) in \<open>simp_all add: sub_tree_def\<close>)
qed

lemma tree_ok_child:
  assumes "tree_ok (Suc (Suc m)) s p" "i < 512" "is_present_pte (pte_read s (pt_entry p i))"
  shows "tree_ok (Suc m) s (pte_read s (pt_entry p i) AND PT64_BASE_ADDR_MASK)"
  using tree_okD(2,3) [OF assms(1,2)] assms(3) by (simp add: tree_ok_def sub_tree_def)

text \<open>\<open>s1\<close>: after the allocation of \<open>nt\<close>; \<open>s2\<close>: after the entry points to it.\<close>

lemma graft_fresh:
  assumes ok: "pool_ok s" and tree: "tree_ok (Suc (Suc m)) s p" and i: "i < 512"
    and e: "\<not> is_present_pte (pte_read s (pt_entry p i))"
    and al: "kvm_mmu_alloc_page parent s = (nt, s1)" "VALID_PAGE nt"
    and s2: "s2 = pte_write (pt_entry p i) v s1"
    and v: "is_present_pte v" "v AND PT64_BASE_ADDR_MASK = nt"
  shows "pool_ok s2" "tree_ok (Suc m) s2 nt" "pte_read s2 (pt_entry p i) = v"
    "table_empty s2 nt" "nt \<notin> active_tables s"
    "grown (Suc m) s2 t nt \<Longrightarrow> grown (Suc (Suc m)) s t p"
    "grown (Suc m) s2 t nt \<Longrightarrow> pte_read t (pt_entry p i) = v"
    "grown (Suc m) s2 t nt \<Longrightarrow> q \<in> active_tables s \<Longrightarrow> j < 512 \<Longrightarrow> (q, j) \<noteq> (p, i) \<Longrightarrow>
       pte_read t (pt_entry q j) = pte_read s (pt_entry q j)"
    "length (free_pages (vcpu s2)) = length (free_pages (vcpu s)) - 1" "free_pages (vcpu s) \<noteq> []"
    "pool_frame s s2"
proof -
  have ne: "free_pages (vcpu s) \<noteq> []"
    using kvm_mmu_alloc_page_ok(3) [OF ok al(1)] al(2) by (auto simp: VALID_PAGE_def)
  note a = kvm_mmu_alloc_page_ok [OF ok al(1)]
  note a4 = a(4) [OF ne]
  have pa: "p \<in> active_tables s" using tree_okD(1) [OF tree] .
  have pg: "is_page p" using active_tableE [OF pa ok] by metis
  have s1r: "pte_read s1 = pte_read s"
    using ne al(1) by (cases "free_pages (vcpu s)")
      (auto simp: pte_read_def [abs_def] dest: kvm_mmu_alloc_page_effect(2) [OF ok, of _ _ parent])
  have pn: "p \<noteq> nt" using pa a4 by auto
  show ok2: "pool_ok s2" unfolding s2 by (rule pool_ok_pte_write) (use a a4 pa i in auto)
  show e2: "pte_read s2 (pt_entry p i) = v" unfolding s2 using pg i by (simp add: pte_read_write)
  show em: "table_empty s2 nt"
    using a4 pn pg i by (auto simp: table_empty_def s2 pte_read_write)
  show "nt \<notin> active_tables s" using a4 by simp
  have act2: "active_tables s2 = active_tables s \<union> {nt}" using a4 by (simp add: s2)
  have tt: "table_tree (Suc m) s2 nt = [nt]" by (rule table_tree_empty [OF em]) simp
  show "tree_ok (Suc m) s2 nt" using tt act2 by (simp add: tree_ok_def)
  have same: "pte_read s2 (pt_entry q j) = pte_read s (pt_entry q j)"
    if "q \<in> active_tables s" "j < 512" "(q, j) \<noteq> (p, i)" for q j
  proof -
    have "is_page q" using active_tableE [OF that(1) ok] by metis
    then show ?thesis using that pg i by (auto simp: s2 pte_read_write s1r)
  qed
  have sub: "sub_tree (Suc m) s p i = []" using e by (simp add: sub_tree_def)
  have pp: "set (pool_pages s2) = set (pool_pages s)" using a(2) by (simp add: s2)
  note gc = grown_child [OF ok tree i act2 _ same, of nt t]
  show "grown (Suc m) s2 t nt \<Longrightarrow> grown (Suc (Suc m)) s t p"
    by (rule gc(1)) (use a4 e2 v tt sub pp in auto)
  show "grown (Suc m) s2 t nt \<Longrightarrow> pte_read t (pt_entry p i) = v"
    using gc(2) a4 e2 v tt sub pp by auto
  show "grown (Suc m) s2 t nt \<Longrightarrow> q \<in> active_tables s \<Longrightarrow> j < 512 \<Longrightarrow> (q, j) \<noteq> (p, i) \<Longrightarrow>
      pte_read t (pt_entry q j) = pte_read s (pt_entry q j)"
    using gc(3) a4 e2 v tt sub pp by auto
  show "length (free_pages (vcpu s2)) = length (free_pages (vcpu s)) - 1" using a4 by (simp add: s2)
  show "free_pages (vcpu s) \<noteq> []" by (rule ne)
  show "pool_frame s s2"
    using pool_frame_trans [OF pool_frame_alloc_page [of s parent] pool_frame_ops(1)] al(1)
    by (simp add: s2)
qed

section \<open>The processor's walk\<close>

text \<open>The leaf entry the processor finds for an address; 0 when the walk ends before.\<close>

fun shadow_walk :: "nat \<Rightarrow> vm \<Rightarrow> u64 \<Rightarrow> u64 \<Rightarrow> u64" where
  "shadow_walk 0 s table a = 0"
| "shadow_walk (Suc 0) s table a = pte_read s (pt_entry table (PT64_INDEX a 1))"
| "shadow_walk (Suc (Suc l)) s table a =
     (let e = pte_read s (pt_entry table (PT64_INDEX a (Suc (Suc l))))
      in if is_present_pte e then shadow_walk (Suc l) s (e AND PT64_BASE_ADDR_MASK) a else 0)"

text \<open>An entry above the leaf tables is zero or points to a table.\<close>

fun dirs_ok :: "nat \<Rightarrow> vm \<Rightarrow> u64 \<Rightarrow> bool" where
  "dirs_ok 0 s p = True"
| "dirs_ok (Suc 0) s p = True"
| "dirs_ok (Suc (Suc l)) s p = (\<forall>i < 512.
     let e = pte_read s (pt_entry p i)
     in e = 0 \<or> is_present_pte e \<and> dirs_ok (Suc l) s (e AND PT64_BASE_ADDR_MASK))"

lemma dirs_ok_cong:
  "(\<And>q i. q \<in> set (table_tree l s p) \<Longrightarrow> i < 512 \<Longrightarrow>
      pte_read t (pt_entry q i) = pte_read s (pt_entry q i)) \<Longrightarrow> dirs_ok l t p = dirs_ok l s p"
proof (induction l s p rule: dirs_ok.induct)
  case (3 l s p)
  have e: "pte_read t (pt_entry p i) = pte_read s (pt_entry p i)" if "i < 512" for i
    using 3(2) [of p i] that by simp
  have "dirs_ok (Suc l) t (pte_read s (pt_entry p i) AND PT64_BASE_ADDR_MASK) =
      dirs_ok (Suc l) s (pte_read s (pt_entry p i) AND PT64_BASE_ADDR_MASK)"
    if i: "i < 512" "is_present_pte (pte_read s (pt_entry p i))" for i
  proof (rule 3(1) [OF i(1) refl])
    fix q and j :: nat
    assume q: "q \<in> set (table_tree (Suc l) s (pte_read s (pt_entry p i) AND PT64_BASE_ADDR_MASK))"
      and j: "j < 512"
    from q i have "q \<in> set (table_tree (Suc (Suc l)) s p)" by force
    then show "pte_read t (pt_entry q j) = pte_read s (pt_entry q j)" using j by (rule 3(2))
  qed
  then show ?case by (auto simp: Let_def e)
qed simp_all

lemma dirs_ok_empty: "table_empty s p \<Longrightarrow> dirs_ok l s p"
  by (cases "(l, s, p)" rule: dirs_ok.cases) (simp_all add: table_empty_def)

lemma dirs_ok_child:
  "dirs_ok (Suc (Suc m)) s p \<Longrightarrow> i < 512 \<Longrightarrow> pte_read s (pt_entry p i) \<noteq> 0 \<Longrightarrow>
    is_present_pte (pte_read s (pt_entry p i)) \<and>
    dirs_ok (Suc m) s (pte_read s (pt_entry p i) AND PT64_BASE_ADDR_MASK)"
  by (auto simp: Let_def)

lemma zero_not_present [simp]: "\<not> is_present_pte 0"
  by (simp add: is_present_pte_def)

text \<open>The tables next to the one that changed stay well formed.\<close>

lemma dirs_ok_graft:
  assumes tree: "tree_ok (Suc (Suc m)) s p" and d: "dirs_ok (Suc (Suc m)) s p" and i: "i < 512"
    and same: "\<And>q j. q \<in> active_tables s \<Longrightarrow> q \<notin> set (sub_tree (Suc m) s p i) \<Longrightarrow> j < 512 \<Longrightarrow>
      (q, j) \<noteq> (p, i) \<Longrightarrow> pte_read t (pt_entry q j) = pte_read s (pt_entry q j)"
    and new: "is_present_pte (pte_read t (pt_entry p i))"
      "dirs_ok (Suc m) t (pte_read t (pt_entry p i) AND PT64_BASE_ADDR_MASK)"
  shows "dirs_ok (Suc (Suc m)) t p"
proof -
  note tr = tree_okD [OF tree]
  have "pte_read t (pt_entry p j) = 0 \<or> is_present_pte (pte_read t (pt_entry p j)) \<and>
      dirs_ok (Suc m) t (pte_read t (pt_entry p j) AND PT64_BASE_ADDR_MASK)" if j: "j < 512" for j
  proof (cases "j = i")
    case False
    let ?e = "pte_read s (pt_entry p j)"
    have e: "pte_read t (pt_entry p j) = ?e"
      using same [OF tr(1) tr(4) [OF i] j] False by simp
    show ?thesis
    proof (cases "?e = 0")
      case nz: False
      note c = dirs_ok_child [OF d j nz]
      have "dirs_ok (Suc m) t (?e AND PT64_BASE_ADDR_MASK) =
          dirs_ok (Suc m) s (?e AND PT64_BASE_ADDR_MASK)"
      proof (rule dirs_ok_cong)
        fix q and k :: nat
        assume "q \<in> set (table_tree (Suc m) s (?e AND PT64_BASE_ADDR_MASK))" and k: "k < 512"
        then have q: "q \<in> set (sub_tree (Suc m) s p j)" using c by (simp add: sub_tree_def)
        then have "q \<in> active_tables s" "q \<notin> set (sub_tree (Suc m) s p i)" "q \<noteq> p"
          using tr(2) [OF j] tr(5) [OF j i False] tr(4) [OF j] by auto
        then show "pte_read t (pt_entry q k) = pte_read s (pt_entry q k)"
          using same [OF _ _ k] by simp
      qed
      with c show ?thesis by (simp add: e)
    qed (simp add: e)
  qed (use new in simp)
  then show ?thesis by (simp add: Let_def)
qed

text \<open>The flags that \<open>nonpaging_map\<close> adds lie below the frame address.\<close>

lemma table_entry_flags:
  assumes "nt AND PT64_BASE_ADDR_MASK = nt"
  shows "(nt OR PT_PRESENT_MASK) AND PT64_BASE_ADDR_MASK = nt"
    "(nt OR PT_PRESENT_MASK OR PT_WRITABLE_MASK OR PT_USER_MASK) AND PT64_BASE_ADDR_MASK = nt"
    "is_present_pte (nt OR PT_PRESENT_MASK)"
    "is_present_pte (nt OR PT_PRESENT_MASK OR PT_WRITABLE_MASK OR PT_USER_MASK)"
proof -
  have flags: "PT_PRESENT_MASK AND PT64_BASE_ADDR_MASK = 0"
    "PT_WRITABLE_MASK AND PT64_BASE_ADDR_MASK = 0" "PT_USER_MASK AND PT64_BASE_ADDR_MASK = 0"
    by (rule bit_word_eqI, simp add: bit_and_iff mask_bits)+
  show "(nt OR PT_PRESENT_MASK) AND PT64_BASE_ADDR_MASK = nt"
    "(nt OR PT_PRESENT_MASK OR PT_WRITABLE_MASK OR PT_USER_MASK) AND PT64_BASE_ADDR_MASK = nt"
    by (simp_all add: bit.conj_disj_distrib2 flags assms)
  show "is_present_pte (nt OR PT_PRESENT_MASK)"
    "is_present_pte (nt OR PT_PRESENT_MASK OR PT_WRITABLE_MASK OR PT_USER_MASK)"
    by (simp_all add: pte_predicates_bit bit_or_iff mask_bits)
qed

definition leaf_entry :: "u64 \<Rightarrow> u64" where
  "leaf_entry hpa = hpa OR PT_PRESENT_MASK OR PT_WRITABLE_MASK OR PT_USER_MASK"

definition mapped :: "nat \<Rightarrow> u64 \<Rightarrow> u64 \<Rightarrow> u64 \<Rightarrow> vm \<Rightarrow> bool \<Rightarrow> vm \<Rightarrow> bool" where
  "mapped l p v hpa s ok t \<longleftrightarrow> grown l s t p \<and> dirs_ok l t p \<and>
     (ok \<longrightarrow> shadow_walk l t p v = leaf_entry hpa) \<and>
     (\<not> ok \<longrightarrow> length (free_pages (vcpu s)) < l - 1 \<and> pool_frame s t)"

lemma mapped_leaf:
  assumes ok: "pool_ok s" and tree: "tree_ok (Suc 0) s p"
    and t: "t = pte_write (pt_entry p (PT64_INDEX v 1)) (leaf_entry hpa) u" and u: "same_tables s u"
  shows "mapped (Suc 0) p v hpa s True t"
proof -
  have pa: "p \<in> active_tables s" using tree by (simp add: tree_ok_def)
  have pg: "is_page p" using active_tableE [OF pa ok] by metis
  note st = same_tablesD [OF u]
  have "pool_ok t" unfolding t by (rule pool_ok_pte_write) (use st ok pa in auto)
  moreover have "pte_read t (pt_entry q j) = pte_read s (pt_entry q j)"
    if "q \<in> active_tables s" "q \<noteq> p" "j < 512" for q j
  proof -
    have "is_page q" using active_tableE [OF that(1) ok] by metis
    then show ?thesis using that pg by (simp add: t pte_read_write st)
  qed
  moreover have "active_tables t = active_tables s" "pool_pages t = pool_pages s"
    by (simp_all add: t st)
  moreover have "pte_read t (pt_entry p (PT64_INDEX v 1)) = leaf_entry hpa"
    using pg by (simp add: t pte_read_write)
  ultimately show ?thesis
    using tree pa by (auto simp: mapped_def grown_def tree_ok_def)
qed

text \<open>One level up, through either kind of entry.\<close>

lemma mapped_up:
  assumes tree: "tree_ok (Suc (Suc m)) s p" and d: "dirs_ok (Suc (Suc m)) s p"
    and i: "i = PT64_INDEX v (Suc (Suc m))"
    and g: "grown (Suc (Suc m)) s t p" and e: "pte_read t (pt_entry p i) = e" "is_present_pte e"
    and same: "\<And>q j. q \<in> active_tables s \<Longrightarrow> q \<notin> set (sub_tree (Suc m) s p i) \<Longrightarrow> j < 512 \<Longrightarrow>
      (q, j) \<noteq> (p, i) \<Longrightarrow> pte_read t (pt_entry q j) = pte_read s (pt_entry q j)"
    and c: "mapped (Suc m) (e AND PT64_BASE_ADDR_MASK) v hpa s2 ok t"
    and f: "length (free_pages (vcpu s)) \<le> Suc (length (free_pages (vcpu s2)))" "pool_frame s s2"
  shows "mapped (Suc (Suc m)) p v hpa s ok t"
proof -
  have il: "i < 512" by (simp add: i)
  have "dirs_ok (Suc (Suc m)) t p"
    by (rule dirs_ok_graft [OF tree d il same]) (use e c in \<open>auto simp: mapped_def\<close>)
  moreover have "shadow_walk (Suc (Suc m)) t p v = shadow_walk (Suc m) t (e AND PT64_BASE_ADDR_MASK) v"
    using e i by simp
  ultimately show ?thesis
    using g c f unfolding mapped_def by (auto intro: pool_frame_trans)
qed

lemma nonpaging_map_level_mapped:
  "0 < l \<Longrightarrow> pool_ok s \<Longrightarrow> tree_ok l s p \<Longrightarrow> dirs_ok l s p \<Longrightarrow>
    nonpaging_map_level l p v hpa s = (ok', t) \<Longrightarrow> mapped l p v hpa s ok' t"
proof (induction l p v hpa s arbitrary: ok' t rule: nonpaging_map_level.induct)
  case (2 table v p s)
  show ?case
    using 2 mapped_leaf [OF 2(2,3) refl same_tables_trans [OF same_tables_ops(1,2)], of v p]
    by (auto simp: Let_def leaf_entry_def)
next
  case (3 m table v p s)
  let ?i = "PT64_INDEX v (Suc (Suc m))"
  let ?ent = "pt_entry table ?i"
  have i: "?i < 512" by simp
  note ok = 3(4) and tree = 3(5) and dirs = 3(6)
  show ?case
  proof (cases "pte_read s ?ent = 0")
    case False
    note c = dirs_ok_child [OF dirs i False]
    have "nonpaging_map_level (Suc m) (pte_read s ?ent AND PT64_BASE_ADDR_MASK) v p s = (ok', t)"
      using 3(7) False by simp
    from 3(2) [OF refl refl False _ ok tree_ok_child [OF tree i] conjunct2 [OF c] this] c
    have m: "mapped (Suc m) (pte_read s ?ent AND PT64_BASE_ADDR_MASK) v p s ok' t" by simp
    note g = grown_existing [OF ok tree i conjunct1 [OF c], of t]
    show ?thesis
      by (rule mapped_up [OF tree dirs refl _ _ conjunct1 [OF c] _ m]) (use g m in \<open>auto simp: mapped_def\<close>)
  next
    case True
    obtain nt s1 where al: "kvm_mmu_alloc_page (Some ?ent) s = (nt, s1)" by fastforce
    show ?thesis
    proof (cases "VALID_PAGE nt")
      case False
      then have "free_pages (vcpu s) = []"
        using kvm_mmu_alloc_page_ok(4) [OF ok al] by blast
      moreover have "ok' = False \<and> t = s"
        using 3(7) True al False kvm_mmu_alloc_page_ok(3) [OF ok al] calculation by simp
      ultimately show ?thesis
        using grown_refl [OF ok tree] dirs by (simp add: mapped_def)
    next
      case valid: True
      define e where "e = (if Suc (Suc m) = PT32E_ROOT_LEVEL then nt OR PT_PRESENT_MASK
        else nt OR PT_PRESENT_MASK OR PT_WRITABLE_MASK OR PT_USER_MASK)"
      define s2 where "s2 = pte_write ?ent e s1"
      have base: "nt AND PT64_BASE_ADDR_MASK = nt"
        using kvm_mmu_alloc_page_ok(3,4) [OF ok al] valid by (auto simp: VALID_PAGE_def)
      have e: "is_present_pte e" "e AND PT64_BASE_ADDR_MASK = nt"
        using table_entry_flags [OF base] by (simp_all add: e_def)
      have np: "\<not> is_present_pte (pte_read s ?ent)" using True by simp
      note gf = graft_fresh [OF ok tree i np al valid s2_def e]
      have s2: "(if Suc (Suc m) = PT32E_ROOT_LEVEL then pte_write ?ent (nt OR PT_PRESENT_MASK) s1
          else pte_write ?ent (nt OR PT_PRESENT_MASK OR PT_WRITABLE_MASK OR PT_USER_MASK) s1) = s2"
        by (simp add: s2_def e_def)
      have run: "nonpaging_map_level (Suc m) nt v p s2 = (ok', t)"
        using 3(7) True al valid gf(3) e(2) by (simp add: s2)
      have m: "mapped (Suc m) nt v p s2 ok' t"
        using 3(1) [OF refl refl True al [symmetric] refl] valid s2 gf(1-4) e(2) dirs_ok_empty run by simp
      then have g: "grown (Suc m) s2 t nt" by (simp add: mapped_def)
      show ?thesis
        by (rule mapped_up [OF tree dirs refl gf(6) [OF g] gf(7) [OF g] e(1) _ m [folded e(2)]])
          (use gf(8) [OF g] gf(9,10,11) in auto)
    qed
  qed
qed simp

section \<open>The invariant of the shadow tables\<close>

definition shadow_root :: "vm \<Rightarrow> u64" where
  "shadow_root s = root_hpa (mmu (vcpu s))"

definition shadow_levels :: "vm \<Rightarrow> nat" where
  "shadow_levels s = shadow_root_level (mmu (vcpu s))"

definition shadow_ok :: "vm \<Rightarrow> bool" where
  "shadow_ok s \<longleftrightarrow> pool_ok s \<and> 0 < shadow_levels s \<and> VALID_PAGE (shadow_root s) \<and>
     tree_ok (shadow_levels s) s (shadow_root s) \<and> dirs_ok (shadow_levels s) s (shadow_root s) \<and>
     active_tables s = set (table_tree (shadow_levels s) s (shadow_root s))"

lemma shadow_okD:
  assumes "shadow_ok s"
  shows "pool_ok s" "0 < shadow_levels s" "VALID_PAGE (shadow_root s)"
    "tree_ok (shadow_levels s) s (shadow_root s)" "dirs_ok (shadow_levels s) s (shadow_root s)"
    "active_tables s = set (table_tree (shadow_levels s) s (shadow_root s))"
  using assms by (simp_all add: shadow_ok_def)

lemma shadow_ok_same:
  assumes "same_tables s t" "mmu (vcpu t) = mmu (vcpu s)"
  shows "shadow_ok t = shadow_ok s"
  using same_tablesD [OF assms(1)] same_tables_tree [OF assms(1)] same_tables_tree_ok [OF assms(1)]
    dirs_ok_cong [of _ s _ t] assms(2)
  by (simp add: shadow_ok_def shadow_levels_def shadow_root_def)

text \<open>The whole tree goes back to the pool; then a fresh root is the tree.\<close>

lemma release_shadow:
  assumes "shadow_ok s"
  shows "pool_ok (release_pt_page_64 (shadow_levels s) (shadow_root s) s)"
    "active_mmu_pages (release_pt_page_64 (shadow_levels s) (shadow_root s) s) = []"
    "set (pool_pages (release_pt_page_64 (shadow_levels s) (shadow_root s) s)) = set (pool_pages s)"
proof -
  note d = shadow_okD [OF assms]
  have r: "released (set (table_tree (shadow_levels s) s (shadow_root s))) {} s
      (release_pt_page_64 (shadow_levels s) (shadow_root s) s)"
    by (rule release_pt_page_64_released) (use d in simp_all)
  note p = released_pool_ok [OF d(1) _ r]
  show "pool_ok (release_pt_page_64 (shadow_levels s) (shadow_root s) s)"
    "set (pool_pages (release_pt_page_64 (shadow_levels s) (shadow_root s) s)) = set (pool_pages s)"
    using p d(6) by simp_all
  have "active_tables (release_pt_page_64 (shadow_levels s) (shadow_root s) s) = {}"
    using p(2) d(6) by simp
  then show "active_mmu_pages (release_pt_page_64 (shadow_levels s) (shadow_root s) s) = []"
    by (simp add: active_tables_def)
qed

lemma pool_pages_length:
  "pool_ok s \<Longrightarrow> pool_ok t \<Longrightarrow> set (pool_pages t) = set (pool_pages s) \<Longrightarrow>
    length (pool_pages t) = length (pool_pages s)"
  by (metis distinct_card pool_ok_def)

lemma fresh_root_ok:
  assumes ok: "pool_ok s" and none: "active_mmu_pages s = []" and some: "pool_pages s \<noteq> []"
    and al: "kvm_mmu_alloc_page None s = (root, u)"
    and t: "same_tables u t" "shadow_root t = root" "0 < shadow_levels t"
  shows "shadow_ok t" "length (free_pages (vcpu t)) = length (pool_pages s) - 1"
    "length (pool_pages t) = length (pool_pages s)"
proof -
  have fr: "free_pages (vcpu s) \<noteq> []" "length (free_pages (vcpu s)) = length (pool_pages s)"
    using some none by (simp_all add: pool_pages_def)
  note a = kvm_mmu_alloc_page_ok [OF ok al] and st = same_tablesD [OF t(1)]
  note a4 = a(4) [OF fr(1)]
  have em: "table_empty t root" using a4 st by simp
  have "active_tables s = {}" using none by (simp add: active_tables_def)
  then have act: "active_tables t = {root}" using a4 st by simp
  have tt: "table_tree (shadow_levels t) t root = [root]"
    using table_tree_empty [OF em t(3)] .
  show "shadow_ok t"
    unfolding shadow_ok_def t(2) tree_ok_def tt using a a4 st t(3) act dirs_ok_empty [OF em]
    by simp
  show "length (free_pages (vcpu t)) = length (pool_pages s) - 1"
    using a4 st fr by simp
  show "length (pool_pages t) = length (pool_pages s)"
    using pool_pages_length [OF ok a(1,2)] st by simp
qed

lemma nonpaging_flush_ok:
  assumes ok: "shadow_ok s" and some: "pool_pages s \<noteq> []"
  shows "shadow_ok (nonpaging_flush s)"
    "length (free_pages (vcpu (nonpaging_flush s))) = length (pool_pages s) - 1"
    "length (pool_pages (nonpaging_flush s)) = length (pool_pages s)"
    "shadow_levels (nonpaging_flush s) = shadow_levels s"
proof -
  let ?c = "count_tlb_flush s"
  have same: "same_tables s ?c" "mmu (vcpu ?c) = mmu (vcpu s)"
    by (simp_all add: count_tlb_flush_def same_tables_def header_def)
  have okc: "shadow_ok ?c" using ok shadow_ok_same [OF same] by simp
  have lv: "shadow_levels ?c = shadow_levels s" "shadow_root ?c = shadow_root s"
    using same by (simp_all add: shadow_levels_def shadow_root_def)
  let ?r = "release_pt_page_64 (shadow_levels s) (shadow_root s) ?c"
  note r = release_shadow [OF okc, unfolded lv]
  obtain root u where al: "kvm_mmu_alloc_page None ?r = (root, u)" by fastforce
  let ?u = "set_root_hpa root u"
  define t where "t = nonpaging_flush s"
  have tv: "\<exists>v. t = vmcs_writel GUEST_CR3 v ?u"
    using al by (auto simp: t_def nonpaging_flush_def Let_def shadow_levels_def shadow_root_def same(2))
  have m: "mmu (vcpu u) = mmu (vcpu s)"
    using pool_frame_simps(13) [OF pool_frame_alloc_page [of ?r None]]
      pool_frame_simps(13) [OF pool_frame_release [of ?c]] al same(2) by simp
  have t1: "same_tables u t" "shadow_root t = root" "shadow_levels t = shadow_levels s"
    using tv m by (auto simp: shadow_root_def shadow_levels_def set_root_hpa_def set_mmu_def
        vmcs_writel_def same_tables_def header_def)
  have pc: "pool_pages ?c = pool_pages s" using same_tablesD(4) [OF same(1)] .
  then have some': "pool_pages ?r \<noteq> []" using r(3) some by (metis set_empty)
  have len: "length (pool_pages ?r) = length (pool_pages s)"
    using pool_pages_length [OF _ r(1,3)] shadow_okD(1) [OF okc] pc by simp
  have pos: "0 < shadow_levels t" using t1(3) shadow_okD(2) [OF ok] by simp
  note f = fresh_root_ok [OF r(1,2) some' al t1(1,2) pos]
  show "shadow_ok (nonpaging_flush s)"
    "length (free_pages (vcpu (nonpaging_flush s))) = length (pool_pages s) - 1"
    "length (pool_pages (nonpaging_flush s)) = length (pool_pages s)"
    "shadow_levels (nonpaging_flush s) = shadow_levels s"
    using f t1(3) len by (simp_all add: t_def)
qed

section \<open>The non-paging fault handler\<close>

lemma gpa_to_hpa_cong:
  "nmemslots t = nmemslots s \<Longrightarrow> memslots t = memslots s \<Longrightarrow> vheap t = vheap s \<Longrightarrow>
    gpa_to_hpa t = gpa_to_hpa s"
  by (rule ext) (simp add: gpa_to_hpa_def gfn_to_memslot_def gfn_to_page_def varray_def
      split: option.split)

lemma pool_frame_gpa_to_hpa: "pool_frame s t \<Longrightarrow> gpa_to_hpa t = gpa_to_hpa s"
  by (rule gpa_to_hpa_cong) (simp_all add: pool_frame_simps)

lemma gpa_to_hpa_nonpaging_flush: "gpa_to_hpa (nonpaging_flush s) = gpa_to_hpa s"
proof -
  let ?r = "release_pt_page_64 (shadow_root_level (mmu (vcpu (count_tlb_flush s))))
    (root_hpa (mmu (vcpu s))) (count_tlb_flush s)"
  obtain root u where al: "kvm_mmu_alloc_page None ?r = (root, u)" by fastforce
  have f: "pool_frame (count_tlb_flush s) u"
    using pool_frame_trans [OF pool_frame_release pool_frame_alloc_page [of ?r None]] al by simp
  obtain v where v: "nonpaging_flush s = vmcs_writel GUEST_CR3 v (set_root_hpa root u)"
    using al by (auto simp: nonpaging_flush_def Let_def)
  show ?thesis
    unfolding v by (rule gpa_to_hpa_cong)
      (simp_all add: vmcs_simps set_root_hpa_def set_mmu_def pool_frame_simps [OF f] count_tlb_flush_def)
qed

lemma page_header_update_slot_mmu [simp]:
  "mmu (vcpu (page_header_update_slot pte gpa s)) = mmu (vcpu s)"
  by (simp add: page_header_update_slot_def set_header_def Let_def split: option.split)

lemma pte_write_mmu [simp]: "mmu (vcpu (pte_write a v s)) = mmu (vcpu s)"
  by (simp add: pte_write_def)

lemma nonpaging_map_level_mmu:
  "nonpaging_map_level l p v hpa s = (ok, t) \<Longrightarrow> mmu (vcpu t) = mmu (vcpu s)"
proof (induction l p v hpa s arbitrary: ok t rule: nonpaging_map_level.induct)
  case (3 m table v p s)
  let ?ent = "pt_entry table (PT64_INDEX v (Suc (Suc m)))"
  obtain nt s1 where al: "kvm_mmu_alloc_page (Some ?ent) s = (nt, s1)" by fastforce
  have "mmu (vcpu s1) = mmu (vcpu s)"
    using pool_frame_simps(13) [OF pool_frame_alloc_page [of s "Some ?ent"]] al by simp
  then show ?case
    using 3(1) [OF refl refl _ al [symmetric] refl] 3(2) [OF refl refl] 3(3) al
    by (auto simp: Let_def split: if_splits)
qed (auto simp: Let_def)

lemma PT64_INDEX_page [simp]: "PT64_INDEX (a AND PAGE_MASK) l = PT64_INDEX a l"
proof -
  have "drop_bit (PT64_LEVEL_SHIFT l) (a AND PAGE_MASK) = drop_bit (PT64_LEVEL_SHIFT l) a"
    by (rule bit_word_eqI)
      (auto simp: bit_simps mask_bits PT64_LEVEL_SHIFT_def PAGE_SHIFT_def dest: bit_imp_le_length)
  then show ?thesis by (simp add: PT64_INDEX_def)
qed

lemma shadow_walk_page [simp]: "shadow_walk l s p (a AND PAGE_MASK) = shadow_walk l s p a"
  by (induction l s p a rule: shadow_walk.induct) (simp_all add: Let_def)

lemma nonpaging_map_ok:
  assumes ok: "shadow_ok s" and lv: "shadow_levels s = PT32E_ROOT_LEVEL"
    and map: "nonpaging_map v hpa s = (done, t)"
  shows "shadow_ok t" "shadow_root t = shadow_root s" "shadow_levels t = shadow_levels s"
    "set (pool_pages t) = set (pool_pages s)"
    "done \<Longrightarrow> shadow_walk (shadow_levels t) t (shadow_root t) v = leaf_entry hpa"
    "\<not> done \<Longrightarrow> length (free_pages (vcpu s)) < 2 \<and> pool_frame s t"
proof -
  note d = shadow_okD [OF ok]
  have run: "nonpaging_map_level (shadow_levels s) (shadow_root s) v hpa s = (done, t)"
    using map lv by (simp add: nonpaging_map_def shadow_root_def)
  have m: "mapped (shadow_levels s) (shadow_root s) v hpa s done t"
    by (rule nonpaging_map_level_mapped [OF d(2,1,4,5) run])
  have mm: "mmu (vcpu t) = mmu (vcpu s)" by (rule nonpaging_map_level_mmu [OF run])
  show lr: "shadow_root t = shadow_root s" "shadow_levels t = shadow_levels s"
    using mm by (simp_all add: shadow_root_def shadow_levels_def)
  have g: "grown (shadow_levels s) s t (shadow_root s)" using m by (simp add: mapped_def)
  note gd = grownD [OF g]
  have "active_tables t = set (table_tree (shadow_levels s) t (shadow_root s))"
    using gd(3,4) d(6) by auto
  then show "shadow_ok t"
    unfolding shadow_ok_def lr using m gd d by (simp add: mapped_def)
  show "set (pool_pages t) = set (pool_pages s)" by (rule gd(7))
  show "done \<Longrightarrow> shadow_walk (shadow_levels t) t (shadow_root t) v = leaf_entry hpa"
    using m by (simp add: mapped_def lr)
  show "\<not> done \<Longrightarrow> length (free_pages (vcpu s)) < 2 \<and> pool_frame s t"
    using m lv by (simp add: mapped_def PT32E_ROOT_LEVEL_def)
qed

lemma nonpaging_page_fault_step:
  assumes ok: "shadow_ok s" and lv: "shadow_levels s = PT32E_ROOT_LEVEL"
    and mem: "\<not> is_error_hpa (gpa_to_hpa s (gva AND PT64_BASE_ADDR_MASK))"
    and map: "nonpaging_map (gva AND PAGE_MASK) (gpa_to_hpa s (gva AND PT64_BASE_ADDR_MASK)) s = (True, t)"
  shows "nonpaging_page_fault (Suc n) gva s = Some (False, t) \<and> shadow_ok t \<and>
    shadow_walk (shadow_levels t) t (shadow_root t) gva =
      leaf_entry (gpa_to_hpa s (gva AND PT64_BASE_ADDR_MASK))"
  using nonpaging_map_ok [OF ok lv map] mem map by (simp add: Let_def)

text \<open>The small pool as a shadow tree of three levels, and one page of guest memory.\<close>

definition example_shadow :: vm where
  "example_shadow = example_pool\<lparr>nmemslots := 1,
     memslots := (\<lambda>_. zero_slot)(0 := zero_slot\<lparr>npages := 1, phys_mem := 1\<rparr>),
     vheap := (\<lambda>_. None)(1 \<mapsto> [9]),
     vcpu := (vcpu example_pool)\<lparr>mmu := \<lparr>mmu_ctx = Some Nonpaging, root_hpa = 0x5000,
       root_level = 3, shadow_root_level = 3\<rparr>\<rparr>\<rparr>"

lemma example_shadow_tables: "same_tables example_pool example_shadow"
  by (simp add: same_tables_def example_shadow_def header_def)

lemma example_shadow_ok:
  "shadow_ok example_shadow" "shadow_levels example_shadow = PT32E_ROOT_LEVEL"
  "shadow_root example_shadow = 0x5000" "length (pool_pages example_shadow) = 3"
proof -
  show l: "shadow_levels example_shadow = PT32E_ROOT_LEVEL" "shadow_root example_shadow = 0x5000"
    "length (pool_pages example_shadow) = 3"
    by (simp_all add: shadow_levels_def shadow_root_def PT32E_ROOT_LEVEL_def pool_pages_def
        example_shadow_def example_pool_def zero_defs)
  have "table_empty example_pool 0x5000"
    by (simp add: table_empty_def pte_read_def example_pool_def zero_defs load64_zero_mem)
  then have "dirs_ok 3 example_shadow 0x5000"
    using same_tablesD(6) [OF example_shadow_tables] dirs_ok_empty by simp
  moreover have "active_tables example_pool = {0x5000}"
    by (simp add: active_tables_def example_pool_def header_def zero_defs)
  ultimately show "shadow_ok example_shadow"
    unfolding shadow_ok_def l
    using same_tablesD [OF example_shadow_tables] example_pool_tree example_pool_ok
      same_tables_tree [OF example_shadow_tables] same_tables_tree_ok [OF example_shadow_tables]
    by (simp add: PT32E_ROOT_LEVEL_def VALID_PAGE_def INVALID_PAGE_def)
qed

lemma example_shadow_hpa: "gpa_to_hpa example_shadow (0x10 AND PT64_BASE_ADDR_MASK) = 0x9000"
  by (simp add: gpa_to_hpa_def gfn_to_memslot_def gfn_in_slot_def gfn_to_page_def varray_def
      arr_get_def example_shadow_def zero_defs PT64_BASE_ADDR_MASK_def PAGE_MASK_mask
      PAGE_SHIFT_def mask_numeral)

text \<open>
  C7: the retry loop of the non-paging fault handler ends within two rounds when the pool has
  three pages (it has 256): an address outside the slots is left to emulation without a change,
  and otherwise the processor's walk over the shadow tables then finds the host page of the
  faulting address, and the shadow tables are again a tree that uses exactly the active pages.
\<close>

theorem nonpaging_page_fault_maps:
  assumes "shadow_ok s" "shadow_levels s = PT32E_ROOT_LEVEL" "3 \<le> length (pool_pages s)"
    and hpa: "hpa = gpa_to_hpa s (gva AND PT64_BASE_ADDR_MASK)"
  shows "\<exists>t. nonpaging_page_fault 2 gva s = Some (is_error_hpa hpa, t) \<and>
    (if is_error_hpa hpa then t = s
     else shadow_ok t \<and> shadow_walk (shadow_levels t) t (shadow_root t) gva = leaf_entry hpa)"
proof (cases "is_error_hpa hpa")
  case True
  then show ?thesis by (simp add: numeral_2_eq_2 hpa Let_def)
next
  case False
  obtain b u where m: "nonpaging_map (gva AND PAGE_MASK) hpa s = (b, u)" by fastforce
  show ?thesis
  proof (cases b)
    case True
    with nonpaging_page_fault_step [OF assms(1,2), of gva u 1] False m show ?thesis
      by (auto simp: numeral_2_eq_2 hpa)
  next
    case nomem: False
    note mo = nonpaging_map_ok [OF assms(1,2) m]
    have len: "length (pool_pages u) = length (pool_pages s)"
      using pool_pages_length [OF _ _ mo(4)] mo(1) assms(1) by (simp add: shadow_ok_def)
    then have "pool_pages u \<noteq> []" using assms(3) by auto
    note fl = nonpaging_flush_ok [OF mo(1) this]
    have lv: "shadow_levels (nonpaging_flush u) = PT32E_ROOT_LEVEL"
      using fl(4) mo(3) assms(2) by simp
    have hpa': "gpa_to_hpa (nonpaging_flush u) (gva AND PT64_BASE_ADDR_MASK) = hpa"
      using gpa_to_hpa_nonpaging_flush [of u] pool_frame_gpa_to_hpa [of s u] mo(6) nomem hpa by simp
    obtain c t where m2: "nonpaging_map (gva AND PAGE_MASK) hpa (nonpaging_flush u) = (c, t)"
      by fastforce
    have c: c
    proof (rule ccontr)
      assume "\<not> c"
      then have "length (pool_pages s) - 1 < 2"
        using nonpaging_map_ok(6) [OF fl(1) lv m2] fl(2) len by simp
      then show False using assms(3) by arith
    qed
    have "nonpaging_page_fault 2 gva s = nonpaging_page_fault (Suc 0) gva (nonpaging_flush u)"
      using False m nomem by (simp add: numeral_2_eq_2 hpa Let_def)
    then show ?thesis
      using nonpaging_page_fault_step [OF fl(1) lv, of gva t 0] False m2 c by (auto simp: hpa')
  qed
qed


lemma nonpaging_page_fault_maps_witness:
  "\<exists>t. nonpaging_page_fault 2 0x10 example_shadow = Some (False, t) \<and>
    shadow_walk (shadow_levels t) t (shadow_root t) 0x10 = 0x9007"
proof -
  have e: "\<not> is_error_hpa 0x9000" "leaf_entry 0x9000 = 0x9007"
    by (simp_all add: is_error_hpa_def HPA_MSB_def leaf_entry_def pt_mask_defs)
  show ?thesis
    using nonpaging_page_fault_maps [OF example_shadow_ok(1,2) _ example_shadow_hpa [symmetric]] example_shadow_ok(4) e
    by auto
qed

end
