(* ===== verification/Mmu_Contexts.thy ===== *)
theory Mmu_Contexts
  imports Shadow_Tree
begin

text \<open>
  Life of the shadow MMU: filling the pool, the choice of the context from the guest's paging
  mode, the reset between contexts, and the write protection of a slot's pages for the dirty
  log.
\<close>

section \<open>Filling the pool\<close>

text \<open>Frames the pool can use: not \<open>NULL\<close>, and with an address of at most 52 bits.\<close>

definition usable_frames :: "u64 list \<Rightarrow> bool" where
  "usable_frames fs \<longleftrightarrow> distinct fs \<and> (\<forall>f \<in> set fs. f \<noteq> 0 \<and> unat f < 2 ^ 40)"

lemma frame_address:
  assumes "unat f < 2 ^ 40"
  shows "push_bit PAGE_SHIFT f AND PT64_BASE_ADDR_MASK = push_bit PAGE_SHIFT f"
    "drop_bit PAGE_SHIFT (push_bit PAGE_SHIFT f) = f"
proof -
  have hi: "n < 40" if "bit f n" for n
  proof -
    have "bit (unat f) n" using that by (simp add: bit_unsigned_iff)
    then show ?thesis using nat_bit_bound [of "unat f" 40 n] assms by simp
  qed
  show "push_bit PAGE_SHIFT f AND PT64_BASE_ADDR_MASK = push_bit PAGE_SHIFT f"
    by (rule bit_word_eqI) (auto simp: bit_simps mask_bits PAGE_SHIFT_def not_less dest: hi)
  show "drop_bit PAGE_SHIFT (push_bit PAGE_SHIFT f) = f"
    by (rule bit_word_eqI) (auto simp: bit_simps PAGE_SHIFT_def dest: hi)
qed

definition filling :: "nat \<Rightarrow> vm \<Rightarrow> bool" where
  "filling i s \<longleftrightarrow> free_pages (vcpu s) = rev [0..<i] \<and> active_mmu_pages s = [] \<and> pool_ok s \<and>
     usable_frames (free_frames s) \<and>
     (\<forall>h < i. drop_bit PAGE_SHIFT (page_hpa (header s h)) \<notin> set (free_frames s))"

definition fill_one :: "nat \<Rightarrow> u64 \<Rightarrow> u64 list \<Rightarrow> vm \<Rightarrow> vm" where
  "fill_one i page fs s =
     (let s = s\<lparr>free_frames := fs, page_private := (page_private s)(page := i)\<rparr>;
          s = set_header i ((header s i)\<lparr>page_hpa := push_bit PAGE_SHIFT page\<rparr>) s;
          s = zero_table (push_bit PAGE_SHIFT page) s
      in set_free_pages (i # free_pages (vcpu s)) s)"

lemma fill_one_fields:
  "page_hpa (header (fill_one i page fs s) h) =
    (if h = i then push_bit PAGE_SHIFT page else page_hpa (header s h))"
  "free_pages (vcpu (fill_one i page fs s)) = i # free_pages (vcpu s)"
  "active_mmu_pages (fill_one i page fs s) = active_mmu_pages s"
  "free_frames (fill_one i page fs s) = fs"
  "page_private (fill_one i page fs s) = (page_private s)(page := i)"
  "hmem (fill_one i page fs s) = zero_page (push_bit PAGE_SHIFT page) (hmem s)"
  "mmu (vcpu (fill_one i page fs s)) = mmu (vcpu s)"
  by (simp_all add: fill_one_def Let_def set_free_pages_def zero_table_def set_header_def header_def)

lemma filling_step:
  assumes f: "filling i s" and fr: "free_frames s = page # fs" and i: "i < KVM_NUM_MMU_PAGES"
  shows "filling (Suc i) (fill_one i page fs s)" and "page \<noteq> 0"
proof -
  let ?t = "fill_one i page fs s" and ?hpa = "push_bit PAGE_SHIFT page"
  note ff = fill_one_fields
  have ok: "pool_ok s" and hs: "free_pages (vcpu s) = rev [0..<i]" "active_mmu_pages s = []"
    using f by (simp_all add: filling_def)
  have pg: "unat page < 2 ^ 40" "page \<noteq> 0" "page \<notin> set fs"
    using f fr by (simp_all add: filling_def usable_frames_def)
  show "page \<noteq> 0" by (rule pg)
  note fa = frame_address [OF pg(1)]
  have old: "header_ok s h" "table_empty s (page_hpa (header s h))" if "h < i" for h
    using ok hs that by (auto simp: pool_ok_def pool_pages_def)
  have other: "drop_bit PAGE_SHIFT (page_hpa (header s h)) \<noteq> page" if "h < i" for h
    using f fr that by (auto simp: filling_def)
  then have ne: "page_hpa (header s h) \<noteq> ?hpa" if "h < i" for h
    using that fa(2) by metis
  have "header_ok ?t h \<and> table_empty ?t (page_hpa (header ?t h))" if h: "h < Suc i" for h
  proof (cases "h = i")
    case True
    then show ?thesis
      using fa i by (simp add: header_ok_def ff page_header_def table_empty_def pte_read_def mem_simps)
  next
    case False
    with h have hi: "h < i" by simp
    have page: "is_page (page_hpa (header s h))"
      using old(1) [OF hi] by (auto simp: header_ok_def intro: base_addr_is_page)
    show ?thesis
      using False old [OF hi] other [OF hi] ne [OF hi] page
      by (simp add: header_ok_def ff page_header_def table_empty_def pte_read_def mem_simps)
  qed
  then have "\<forall>h \<in> set (free_pages (vcpu ?t)). header_ok ?t h \<and> table_empty ?t (page_hpa (header ?t h))"
    unfolding ff(2) hs by auto
  moreover have "distinct (pool_pages ?t)" "set (pool_pages ?t) = set (free_pages (vcpu ?t))"
    by (simp_all add: pool_pages_def ff hs)
  ultimately have "pool_ok ?t"
    unfolding pool_ok_def by blast
  moreover have "usable_frames fs" using f fr by (simp add: filling_def usable_frames_def)
  moreover have "drop_bit PAGE_SHIFT (page_hpa (header ?t h)) \<notin> set fs" if "h < Suc i" for h
    using that f fr pg(3) fa(2) by (auto simp: ff filling_def less_Suc_eq)
  ultimately show "filling (Suc i) ?t"
    by (simp add: filling_def ff hs)
qed

lemma alloc_mmu_pages_from_fill:
  assumes "filling i s" "i + n \<le> KVM_NUM_MMU_PAGES" "n \<le> length (free_frames s)"
    "alloc_mmu_pages_from n i s = (ok, t)"
  shows "ok \<and> filling (i + n) t \<and> mmu (vcpu t) = mmu (vcpu s)"
  using assms
proof (induction n arbitrary: i s)
  case (Suc n)
  then obtain page fs where fr: "free_frames s = page # fs"
    by (cases "free_frames s") auto
  have i: "i < KVM_NUM_MMU_PAGES" using Suc.prems(2) by simp
  note st = filling_step [OF Suc.prems(1) fr i]
  have "alloc_mmu_pages_from n (Suc i) (fill_one i page fs s) = (ok, t)"
    using Suc.prems(4) fr st(2) by (simp add: alloc_page_def fill_one_def Let_def set_header_def
        header_def zero_table_def)
  from Suc.IH [OF st(1) _ _ this] Suc.prems(2,3) fr show ?case
    by (simp add: fill_one_fields)
qed simp

section \<open>Contexts\<close>

lemma same_tables_set_root: "same_tables s (set_root_hpa r s)"
  by (simp add: set_root_hpa_def)

lemma same_tables_vmcs_mmu:
  "same_tables s (vmcs_writel f v (set_mmu m s))"
  by (rule same_tables_trans [OF same_tables_ops(8) same_tables_ops(9)])

text \<open>The context \<open>init_kvm_mmu\<close> chooses for the guest's mode: kind, guest levels, shadow levels.\<close>

definition expected_context :: "vm \<Rightarrow> mmu_context \<times> nat \<times> nat" where
  "expected_context s =
     (if \<not> is_paging s then (Nonpaging, 3, 3)
      else if is_long_mode s then (Paging64, 4, 4)
      else if is_pae s then (Paging64, 3, 3)
      else (Paging32, 2, 3))"

definition current_context :: "vm \<Rightarrow> mmu_context option \<times> nat \<times> nat" where
  "current_context s = (mmu_ctx (mmu (vcpu s)), root_level (mmu (vcpu s)), shadow_root_level (mmu (vcpu s)))"

lemma init_kvm_mmu_effect:
  obtains root u m v where "kvm_mmu_alloc_page None s = (root, u)"
    "same_tables u (init_kvm_mmu s)" "mmu (vcpu (init_kvm_mmu s)) = m"
    "current_context (init_kvm_mmu s) = (Some (fst (expected_context s)), snd (expected_context s))"
    "shadow_root (init_kvm_mmu s) = root"
    "vmcs (init_kvm_mmu s) = (vmcs u)(GUEST_CR3 := v)"
    "v = (if is_paging s then root OR (cr3 (vcpu u) AND (CR3_PCD_MASK OR CR3_WPT_MASK)) else root)"
proof -
  obtain root u where al: "kvm_mmu_alloc_page None s = (root, u)" by fastforce
  note d = nonpaging_init_context_def paging64_init_context_def paging32_init_context_def
    paging32E_init_context_def paging_init_root_def init_kvm_mmu_def
  have st: "same_tables u (init_kvm_mmu s)"
    using al same_tables_vmcs_mmu
    by (auto simp: d Let_def intro: same_tables_trans [OF same_tables_vmcs_mmu same_tables_ops(8)])
  show thesis
    by (rule that [OF al st refl]) (use al in \<open>simp_all add: d Let_def expected_context_def
      current_context_def shadow_root_def set_mmu_def vmcs_writel_def PT64_ROOT_LEVEL_def
      PT32_ROOT_LEVEL_def PT32E_ROOT_LEVEL_def\<close>)
qed

text \<open>The MMU without a root: no table is in use.\<close>

definition mmu_idle :: "vm \<Rightarrow> bool" where
  "mmu_idle s \<longleftrightarrow> pool_ok s \<and> active_mmu_pages s = [] \<and> root_hpa (mmu (vcpu s)) = INVALID_PAGE"

lemma init_kvm_mmu_ok:
  assumes idle: "pool_ok s" "active_mmu_pages s = []" and some: "pool_pages s \<noteq> []"
  shows "shadow_ok (init_kvm_mmu s)"
    "length (free_pages (vcpu (init_kvm_mmu s))) = length (pool_pages s) - 1"
    "length (pool_pages (init_kvm_mmu s)) = length (pool_pages s)"
    "current_context (init_kvm_mmu s) = (Some (fst (expected_context s)), snd (expected_context s))"
proof -
  obtain root u m v where e: "kvm_mmu_alloc_page None s = (root, u)"
    "same_tables u (init_kvm_mmu s)"
    "current_context (init_kvm_mmu s) = (Some (fst (expected_context s)), snd (expected_context s))"
    "shadow_root (init_kvm_mmu s) = root"
    by (rule init_kvm_mmu_effect)
  have "0 < shadow_levels (init_kvm_mmu s)"
    using e(3) by (auto simp: shadow_levels_def current_context_def expected_context_def split: if_splits)
  from fresh_root_ok [OF idle some e(1,2,4) this] e(3)
  show "shadow_ok (init_kvm_mmu s)"
    "length (free_pages (vcpu (init_kvm_mmu s))) = length (pool_pages s) - 1"
    "length (pool_pages (init_kvm_mmu s)) = length (pool_pages s)"
    "current_context (init_kvm_mmu s) = (Some (fst (expected_context s)), snd (expected_context s))"
    by simp_all
qed

lemma destroy_kvm_mmu_ok:
  assumes ok: "shadow_ok s" and ctx: "mmu_ctx (mmu (vcpu s)) \<noteq> None"
  shows "mmu_idle (destroy_kvm_mmu s)" "length (pool_pages (destroy_kvm_mmu s)) = length (pool_pages s)"
    "vmcs (destroy_kvm_mmu s) = vmcs s" "cr3 (vcpu (destroy_kvm_mmu s)) = cr3 (vcpu s)"
proof -
  let ?r = "release_pt_page_64 (shadow_levels s) (shadow_root s) s"
  note r = release_shadow [OF ok] and v = shadow_okD(3) [OF ok]
  have f: "pool_frame s ?r" by simp
  have d: "destroy_kvm_mmu s = set_root_hpa INVALID_PAGE (set_root_hpa INVALID_PAGE ?r)"
    using ctx v by (auto simp: destroy_kvm_mmu_def nonpaging_free_def paging_free_def Let_def
        shadow_root_def shadow_levels_def split: option.split mmu_context.split)
  have st: "same_tables ?r (destroy_kvm_mmu s)"
    unfolding d by (rule same_tables_trans [OF same_tables_set_root same_tables_set_root])
  note sd = same_tablesD [OF st]
  show "mmu_idle (destroy_kvm_mmu s)"
    using sd(5) r(1,2) st by (simp add: mmu_idle_def same_tables_def d set_root_hpa_def set_mmu_def)
  show "length (pool_pages (destroy_kvm_mmu s)) = length (pool_pages s)"
    using sd(4) pool_pages_length [OF _ r(1,3)] ok by (simp add: shadow_ok_def)
  show "vmcs (destroy_kvm_mmu s) = vmcs s" "cr3 (vcpu (destroy_kvm_mmu s)) = cr3 (vcpu s)"
    using pool_frame_simps [OF f] by (simp_all add: d set_root_hpa_def set_mmu_def)
qed

lemma expected_context_cong:
  "vmcs t = vmcs s \<Longrightarrow> expected_context t = expected_context s"
  by (simp add: expected_context_def is_paging_def guest_cr0_def is_long_mode_def is_pae_def
      guest_cr4_def vmcs_readl_def vmcs_read32_def)

section \<open>Write protection\<close>

definition protect_entry :: "u64 \<Rightarrow> memory \<Rightarrow> memory" where
  "protect_entry p m = (if load64 m p AND PT_WRITABLE_MASK \<noteq> 0
     then store64 p (load64 m p AND NOT PT_WRITABLE_MASK) m else m)"

lemma protect_page_hmem:
  "protect_page slot h s = (if bit (slot_bitmap (header s h)) slot
    then s\<lparr>hmem := fold protect_entry (map (pt_entry (page_hpa (header s h))) [0..<512]) (hmem s)\<rparr>
    else s)"
proof -
  have loop: "fold (\<lambda>i s. let p = pt_entry a i
        in if pte_read s p AND PT_WRITABLE_MASK \<noteq> 0 then pte_and p (NOT PT_WRITABLE_MASK) s else s) is s =
      s\<lparr>hmem := fold protect_entry (map (pt_entry a) is) (hmem s)\<rparr>" for a "is" s
    by (induction "is" arbitrary: s) (simp_all add: pte_and_def pte_write_def pte_read_def protect_entry_def Let_def)
  then show ?thesis
    unfolding protect_page_def PT64_ENT_PER_PAGE_def Let_def [of "page_hpa (header s h)"] loop by simp
qed

lemma load64_protect_entries:
  assumes p: "is_page p" and q: "is_page q" "j < 512"
  shows "load64 (fold protect_entry (map (pt_entry p) [0..<512]) m) (pt_entry q j) =
    (if q = p then load64 m (pt_entry q j) AND NOT PT_WRITABLE_MASK else load64 m (pt_entry q j))"
proof -
  let ?as = "map (pt_entry p) [0..<512]"
  have al: "\<forall>a \<in> set ?as. aligned 8 a" "aligned 8 (pt_entry q j)"
    using elt_aligned [of p _ 3] elt_aligned [of q j 3] p q by auto
  have "inj_on (pt_entry p) {0..<512}"
    by (rule inj_onI) (use elt_inj [of p _ 3 p] p in auto)
  then have d: "distinct ?as" by (simp add: distinct_map)
  have mem: "pt_entry q j \<in> set ?as \<longleftrightarrow> q = p"
  proof
    assume "pt_entry q j \<in> set ?as"
    then obtain i where "i < 512" "pt_entry q j = pt_entry p i" by auto
    then show "q = p" using elt_page [of q j 3] elt_page [of p i 3] p q by simp
  qed (use q in auto)
  have e: "protect_entry = (\<lambda>a m. if load64 m a AND PT_WRITABLE_MASK \<noteq> 0
      then store64 a (load64 m a AND NOT PT_WRITABLE_MASK) m else m)"
    by (simp add: fun_eq_iff protect_entry_def)
  have clear: "x AND NOT PT_WRITABLE_MASK = x" if "\<not> bit x 1" for x
    by (rule bit_word_eqI) (use that in \<open>auto simp: bit_simps mask_bits dest: bit_imp_le_length\<close>)
  show ?thesis
    unfolding e mem64.rd_fold_wr_if [OF al d, of "\<lambda>v. v AND PT_WRITABLE_MASK \<noteq> 0"
        "\<lambda>v. v AND NOT PT_WRITABLE_MASK" m] mem
    by (auto simp: clear)
qed

definition pages_of_slot :: "nat \<Rightarrow> vm \<Rightarrow> nat list \<Rightarrow> u64 set" where
  "pages_of_slot slot s hs =
     {page_hpa (header s h) | h. h \<in> set hs \<and> bit (slot_bitmap (header s h)) slot}"

lemma protect_page_fields:
  "header (protect_page slot h s) = header s" "vcpu (protect_page slot h s) = vcpu s"
  "active_mmu_pages (protect_page slot h s) = active_mmu_pages s"
  "page_private (protect_page slot h s) = page_private s"
  by (simp_all add: protect_page_hmem header_def fun_eq_iff)

lemma protect_pages_read:
  assumes "\<forall>h \<in> set hs. is_page (page_hpa (header s h))" "is_page q" "j < 512"
  shows "pte_read (fold (protect_page slot) hs s) (pt_entry q j) =
    (if q \<in> pages_of_slot slot s hs then pte_read s (pt_entry q j) AND NOT PT_WRITABLE_MASK
     else pte_read s (pt_entry q j))"
  using assms(1)
proof (induction hs arbitrary: s)
  case (Cons h hs)
  let ?t = "protect_page slot h s"
  have idem: "x AND NOT PT_WRITABLE_MASK AND NOT PT_WRITABLE_MASK = x AND NOT PT_WRITABLE_MASK" for x
    by (simp add: and.assoc)
  have one: "pte_read ?t (pt_entry q j) =
      (if q = page_hpa (header s h) \<and> bit (slot_bitmap (header s h)) slot
       then pte_read s (pt_entry q j) AND NOT PT_WRITABLE_MASK else pte_read s (pt_entry q j))"
    using load64_protect_entries [of "page_hpa (header s h)" q j] Cons.prems assms(2,3)
    by (cases "q = page_hpa (header s h)") (simp_all add: protect_page_hmem pte_read_def)
  have pt: "pages_of_slot slot ?t hs = pages_of_slot slot s hs"
    by (simp add: pages_of_slot_def protect_page_fields)
  have split: "pages_of_slot slot s (h # hs) = pages_of_slot slot s hs \<union>
      (if bit (slot_bitmap (header s h)) slot then {page_hpa (header s h)} else {})"
    by (auto simp: pages_of_slot_def)
  have "pte_read (fold (protect_page slot) hs ?t) (pt_entry q j) =
      (if q \<in> pages_of_slot slot s hs then pte_read ?t (pt_entry q j) AND NOT PT_WRITABLE_MASK
       else pte_read ?t (pt_entry q j))"
    using Cons.IH [of ?t] Cons.prems by (simp add: protect_page_fields pt)
  with one show ?case
    by (auto simp: split idem)
qed (simp add: pages_of_slot_def)

section \<open>Properties\<close>

definition example_frames :: vm where
  "example_frames = zero_vm\<lparr>free_frames := map (\<lambda>i. of_nat (Suc i)) [0..<256]\<rparr>"

lemma example_frames_usable:
  "usable_frames (free_frames example_frames)" "length (free_frames example_frames) = 256"
  "active_mmu_pages example_frames = []" "free_pages (vcpu example_frames) = []"
proof -
  have u: "unat (of_nat (Suc i) :: u64) = Suc i" if "i < 256" for i
    using that by (simp add: unat_of_nat del: of_nat_Suc)
  then have "inj_on (\<lambda>i. of_nat (Suc i) :: u64) {0..<256}"
    by (intro inj_onI) (metis Suc_inject atLeastLessThan_iff)
  moreover have "(of_nat (Suc i) :: u64) \<noteq> 0" if "i < 256" for i
    using u [OF that] by (metis nat.distinct(1) unat_0)
  moreover have "unat (of_nat (Suc i) :: u64) < 2 ^ 40" if "i < 256" for i
    unfolding u [OF that] using that by simp
  ultimately show "usable_frames (free_frames example_frames)"
    by (auto simp: usable_frames_def example_frames_def zero_vm_def distinct_map
        simp del: of_nat_Suc upt_rec_numeral)
  show "length (free_frames example_frames) = 256" "active_mmu_pages example_frames = []"
    "free_pages (vcpu example_frames) = []"
    by (simp_all add: example_frames_def zero_defs)
qed

lemma mmu_init_well_formed:
  assumes "active_mmu_pages s = []" "free_pages (vcpu s) = []" "usable_frames (free_frames s)"
    "KVM_NUM_MMU_PAGES \<le> length (free_frames s)" and init: "kvm_mmu_init s = (ok, t)"
  shows "ok \<and> shadow_ok t \<and> length (pool_pages t) = 256 \<and> length (free_pages (vcpu t)) = 255"
proof -
  obtain b u where al: "alloc_mmu_pages s = (b, u)" by fastforce
  have "filling 0 s"
    using assms by (simp add: filling_def pool_ok_def pool_pages_def)
  from alloc_mmu_pages_from_fill [OF this _ assms(4) al [unfolded alloc_mmu_pages_def]]
  have b: b and f: "filling 256 u" by (simp_all add: KVM_NUM_MMU_PAGES_def)
  have u: "pool_ok u" "active_mmu_pages u = []" "length (pool_pages u) = 256"
    using f by (simp_all add: filling_def pool_pages_def)
  have t: "ok" "t = init_kvm_mmu u" using init al b by (simp_all add: kvm_mmu_init_def)
  have "pool_pages u \<noteq> []" using u(3) by auto
  from init_kvm_mmu_ok [OF u(1,2) this] t u(3) show ?thesis by simp
qed



text \<open>
  C22: \<open>kvm_mmu_reset_context\<close> gives every page of the old tree back, and the new tree is well
  formed with the context, the guest levels and the shadow levels that the guest's paging mode
  asks for.
\<close>

theorem kvm_mmu_reset_context_ok:
  assumes "shadow_ok s" "mmu_ctx (mmu (vcpu s)) \<noteq> None" "pool_pages s \<noteq> []"
    and t: "t = kvm_mmu_reset_context s"
  shows "shadow_ok t \<and> length (free_pages (vcpu t)) = length (pool_pages s) - 1 \<and>
    current_context t = (Some (fst (expected_context s)), snd (expected_context s))"
proof -
  note d = destroy_kvm_mmu_ok [OF assms(1,2)]
  have ne: "pool_pages (destroy_kvm_mmu s) \<noteq> []"
    using d(2) assms(3) by (metis length_0_conv)
  have idle: "pool_ok (destroy_kvm_mmu s)" "active_mmu_pages (destroy_kvm_mmu s) = []"
    using d(1) by (simp_all add: mmu_idle_def)
  from init_kvm_mmu_ok [OF idle ne] d(2) expected_context_cong [OF d(3)] show ?thesis
    by (simp add: t kvm_mmu_reset_context_def)
qed

lemma kvm_mmu_reset_context_ok_witness:
  "shadow_ok (kvm_mmu_reset_context example_shadow) \<and>
   current_context (kvm_mmu_reset_context example_shadow) = (Some Nonpaging, 3, 3)"
proof -
  have "mmu_ctx (mmu (vcpu example_shadow)) \<noteq> None" "pool_pages example_shadow \<noteq> []"
    "expected_context example_shadow = (Nonpaging, 3, 3)"
    using example_shadow_ok(4)
    by (auto simp: example_shadow_def expected_context_def is_paging_bit vmcs_readl_def
        example_pool_def zero_defs)
  then show ?thesis
    using kvm_mmu_reset_context_ok [OF example_shadow_ok(1) _ _ refl] by simp
qed

text \<open>
  C23: after \<open>kvm_mmu_slot_remove_write_access\<close> no entry of a table that maps the slot is
  writable, every other bit of those tables is kept, and the other tables are as they were.
\<close>

theorem slot_remove_write_access_effect:
  assumes "pool_ok s" "is_page q" "j < 512" and t: "t = kvm_mmu_slot_remove_write_access slot s"
  shows "pte_read t (pt_entry q j) =
    (if q \<in> pages_of_slot slot s (active_mmu_pages s)
     then pte_read s (pt_entry q j) AND NOT PT_WRITABLE_MASK else pte_read s (pt_entry q j))"
proof -
  have "\<forall>h \<in> set (active_mmu_pages s). is_page (page_hpa (header s h))"
    using assms(1) by (auto simp: pool_ok_def pool_pages_def header_ok_def intro: base_addr_is_page)
  from protect_pages_read [OF this assms(2,3)] show ?thesis
    by (simp add: t kvm_mmu_slot_remove_write_access_def)
qed

lemma slot_remove_write_access_effect_witness:
  "pte_read (kvm_mmu_slot_remove_write_access 0 example_pool) (pt_entry 0x5000 3) = 0"
  using slot_remove_write_access_effect [OF example_pool_ok, of "0x5000" 3 _ 0]
  by (simp add: is_page_def pte_read_def example_pool_def zero_defs load64_zero_mem)

end
