(* ===== verification/Guest_Paging.thy ===== *)
theory Guest_Paging
  imports Mmu_Contexts
begin

text \<open>
  \<open>paging_tmpl.h\<close>: the walk over the guest's page tables, the construction of shadow entries,
  the page fault handler of a paging guest and the translation of guest virtual addresses. The
  file is compiled twice; here the entry format \<open>pttype\<close> is an argument. Guest entries are
  \<open>u64\<close> values; a 32 bit entry is loaded zero-extended and stored truncated.
\<close>

section \<open>The two formats\<close>

datatype pttype = PTTYPE64 | PTTYPE32

definition pte_size_shift :: "pttype \<Rightarrow> nat" where
  "pte_size_shift pt = (case pt of PTTYPE64 \<Rightarrow> 3 | PTTYPE32 \<Rightarrow> 2)"

definition guest_read :: "pttype \<Rightarrow> vm \<Rightarrow> u64 \<Rightarrow> u64" where
  "guest_read pt s p = (case pt of PTTYPE64 \<Rightarrow> load64 (hmem s) p | PTTYPE32 \<Rightarrow> load32 (hmem s) p)"

definition guest_write :: "pttype \<Rightarrow> u64 \<Rightarrow> u64 \<Rightarrow> vm \<Rightarrow> vm" where
  "guest_write pt p v s = (case pt of
     PTTYPE64 \<Rightarrow> s\<lparr>hmem := store64 p v (hmem s)\<rparr>
   | PTTYPE32 \<Rightarrow> s\<lparr>hmem := store32 p v (hmem s)\<rparr>)"

definition guest_or :: "pttype \<Rightarrow> u64 \<Rightarrow> u64 \<Rightarrow> vm \<Rightarrow> vm" where
  "guest_or pt p v s = guest_write pt p (guest_read pt s p OR v) s"

definition PT_BASE_ADDR_MASK :: "pttype \<Rightarrow> u64" where
  "PT_BASE_ADDR_MASK pt =
     (case pt of PTTYPE64 \<Rightarrow> PT64_BASE_ADDR_MASK | PTTYPE32 \<Rightarrow> PT32_BASE_ADDR_MASK)"

definition PT_DIR_BASE_ADDR_MASK :: "pttype \<Rightarrow> u64" where
  "PT_DIR_BASE_ADDR_MASK pt =
     (case pt of PTTYPE64 \<Rightarrow> PT64_DIR_BASE_ADDR_MASK | PTTYPE32 \<Rightarrow> PT32_DIR_BASE_ADDR_MASK)"

definition PT_INDEX :: "pttype \<Rightarrow> u64 \<Rightarrow> nat \<Rightarrow> nat" where
  "PT_INDEX pt addr level =
     (case pt of PTTYPE64 \<Rightarrow> PT64_INDEX addr level | PTTYPE32 \<Rightarrow> PT32_INDEX addr level)"

definition PT_LEVEL_MASK :: "pttype \<Rightarrow> nat \<Rightarrow> u64" where
  "PT_LEVEL_MASK pt level =
     (case pt of PTTYPE64 \<Rightarrow> PT64_LEVEL_MASK level | PTTYPE32 \<Rightarrow> PT32_LEVEL_MASK level)"

definition PT_PTE_COPY_MASK :: "pttype \<Rightarrow> u64" where
  "PT_PTE_COPY_MASK pt =
     (case pt of PTTYPE64 \<Rightarrow> PT64_PTE_COPY_MASK | PTTYPE32 \<Rightarrow> PT32_PTE_COPY_MASK)"

definition PT_NON_PTE_COPY_MASK :: "pttype \<Rightarrow> u64" where
  "PT_NON_PTE_COPY_MASK pt =
     (case pt of PTTYPE64 \<Rightarrow> PT64_NON_PTE_COPY_MASK | PTTYPE32 \<Rightarrow> PT32_NON_PTE_COPY_MASK)"

section \<open>The walker\<close>

record guest_walker =
  wk_level :: nat
  wk_table :: u64
  inherited_ar :: u64

text \<open>\<open>kmap_atomic\<close> maps the page of \<open>hpa\<close>; the low bits of \<open>cr3\<close> place a PAE root inside it.\<close>

definition init_walker :: "vm \<Rightarrow> guest_walker" where
  "init_walker s =
     (let hpa = safe_gpa_to_hpa s (cr3 (vcpu s) AND PT64_BASE_ADDR_MASK);
          table = push_bit PAGE_SHIFT (drop_bit PAGE_SHIFT hpa)
      in \<lparr>wk_level = root_level (mmu (vcpu s)),
          wk_table = table OR (cr3 (vcpu s) AND NOT (PAGE_MASK OR CR3_FLAGS_MASK)),
          inherited_ar = PT_USER_MASK OR PT_WRITABLE_MASK\<rparr>)"

definition guest_ent :: "pttype \<Rightarrow> guest_walker \<Rightarrow> u64 \<Rightarrow> u64" where
  "guest_ent pt walker addr =
     elt (pte_size_shift pt) (wk_table walker) (PT_INDEX pt addr (wk_level walker))"

text \<open>The page that an entry of the walker's table maps directly: a large page.\<close>

definition is_large_pde :: "pttype \<Rightarrow> vm \<Rightarrow> nat \<Rightarrow> u64 \<Rightarrow> bool" where
  "is_large_pde pt s level pte \<longleftrightarrow>
     level = PT_DIRECTORY_LEVEL \<and> pte AND PT_PAGE_SIZE_MASK \<noteq> 0 \<and> (pt = PTTYPE64 \<or> is_pse s)"

text \<open>
  The loop of \<open>fetch_guest\<close>; its first argument is the walker's level, which goes down to the
  wanted one. The result is the address of the entry and the walker there.
\<close>

fun fetch_guest_from :: "nat \<Rightarrow> pttype \<Rightarrow> vm \<Rightarrow> nat \<Rightarrow> u64 \<Rightarrow> guest_walker \<Rightarrow> u64 \<times> guest_walker" where
  "fetch_guest_from 0 pt s level addr walker = (guest_ent pt walker addr, walker)"
| "fetch_guest_from (Suc n) pt s level addr walker =
     (let ent = guest_ent pt walker addr;
          pte = guest_read pt s ent
      in if level = wk_level walker \<or> \<not> is_present_pte pte \<or> is_large_pde pt s (wk_level walker) pte
         then (ent, walker)
         else
           let ar = (if wk_level walker \<noteq> 3 \<or> is_long_mode s then inherited_ar walker AND pte
                     else inherited_ar walker);
               paddr = safe_gpa_to_hpa s (pte AND PT_BASE_ADDR_MASK pt);
               walker = \<lparr>wk_level = wk_level walker - 1,
                         wk_table = push_bit PAGE_SHIFT (drop_bit PAGE_SHIFT paddr),
                         inherited_ar = ar\<rparr>
           in fetch_guest_from n pt s level addr walker)"

definition fetch_guest :: "pttype \<Rightarrow> vm \<Rightarrow> nat \<Rightarrow> u64 \<Rightarrow> guest_walker \<Rightarrow> u64 \<times> guest_walker" where
  "fetch_guest pt s level addr walker = fetch_guest_from (wk_level walker) pt s level addr walker"

section \<open>Shadow entries\<close>

definition set_pte :: "pttype \<Rightarrow> u64 \<Rightarrow> u64 \<Rightarrow> u64 \<Rightarrow> vm \<Rightarrow> vm" where
  "set_pte pt guest_pte shadow_pte access_bits s =
     (let access_bits = access_bits AND guest_pte;
          s = pte_write shadow_pte (guest_pte AND PT_PTE_COPY_MASK pt) s
      in set_pte_common shadow_pte (guest_pte AND PT_BASE_ADDR_MASK pt)
           (guest_pte AND PT_DIRTY_MASK \<noteq> 0) access_bits s)"

definition pde_gaddr :: "pttype \<Rightarrow> u64 \<Rightarrow> nat \<Rightarrow> u64" where
  "pde_gaddr pt guest_pde index =
     (let gaddr = (guest_pde AND PT_DIR_BASE_ADDR_MASK pt) + PAGE_SIZE * of_nat index
      in if pt = PTTYPE32 \<and> is_cpuid_PSE36
         then gaddr OR push_bit (32 - PT32_DIR_PSE36_SHIFT) (guest_pde AND PT32_DIR_PSE36_MASK)
         else gaddr)"

definition set_pde :: "pttype \<Rightarrow> u64 \<Rightarrow> u64 \<Rightarrow> u64 \<Rightarrow> nat \<Rightarrow> vm \<Rightarrow> vm" where
  "set_pde pt guest_pde shadow_pte access_bits index s =
     (let access_bits = access_bits AND guest_pde;
          gaddr = pde_gaddr pt guest_pde index;
          s = pte_write shadow_pte ((guest_pde AND PT_NON_PTE_COPY_MASK pt) OR
                drop_bit (PT_DIR_PAT_SHIFT - PT_PAT_SHIFT) (guest_pde AND PT_DIR_PAT_MASK)) s
      in set_pte_common shadow_pte gaddr (guest_pde AND PT_DIRTY_MASK \<noteq> 0) access_bits s)"

text \<open>\<open>NULL\<close>, \<open>ERR_PTR(-ENOMEM)\<close> or the address of the shadow entry.\<close>

datatype fetch_result = Not_Mapped | No_Memory | Shadow_Pte u64

definition set_accessed :: "pttype \<Rightarrow> u64 \<Rightarrow> guest_walker \<Rightarrow> vm \<Rightarrow> vm" where
  "set_accessed pt ent walker s =
     (if root_level (mmu (vcpu s)) \<noteq> 3 \<or> wk_level walker \<noteq> 3
      then guest_or pt ent PT_ACCESSED_MASK s else s)"

text \<open>At the leaf level: the entry for a 4K page, or for a part of a large page.\<close>

definition set_leaf :: "pttype \<Rightarrow> u64 \<Rightarrow> u64 \<Rightarrow> u64 option \<Rightarrow> u64 \<Rightarrow> guest_walker \<Rightarrow> vm \<Rightarrow> vm" where
  "set_leaf pt addr ent prev_shadow_ent shadow_ent walker s =
     (if wk_level walker = PT_DIRECTORY_LEVEL then
        let s = (case prev_shadow_ent of
                   None \<Rightarrow> s | Some p \<Rightarrow> pte_or p PT_SHADOW_PS_MARK s)
        in set_pde pt (guest_read pt s ent) shadow_ent (inherited_ar walker)
             (PT_INDEX pt addr PT_PAGE_TABLE_LEVEL) s
      else set_pte pt (guest_read pt s ent) shadow_ent (inherited_ar walker) s)"

definition link_table :: "pttype \<Rightarrow> nat \<Rightarrow> u64 \<Rightarrow> u64 \<Rightarrow> u64 \<Rightarrow> vm \<Rightarrow> vm" where
  "link_table pt level ent shadow_ent shadow_addr s =
     (if \<not> is_long_mode s \<and> level = 3 then
        pte_write shadow_ent (shadow_addr OR
          (guest_read pt s ent AND (PT_PRESENT_MASK OR PT_PWT_MASK OR PT_PCD_MASK))) s
      else
        let s = pte_write shadow_ent (shadow_addr OR
                  (guest_read pt s ent AND PT_NON_PTE_COPY_MASK pt)) s
        in pte_or shadow_ent (PT_WRITABLE_MASK OR PT_USER_MASK) s)"

fun fetch_from :: "nat \<Rightarrow> pttype \<Rightarrow> u64 \<Rightarrow> u64 \<Rightarrow> u64 option \<Rightarrow> guest_walker \<Rightarrow> vm \<Rightarrow>
    fetch_result \<times> guest_walker \<times> vm" where
  "fetch_from 0 pt addr shadow_addr prev walker s = (Not_Mapped, walker, s)"
| "fetch_from (Suc l) pt addr shadow_addr prev walker s =
     (let level = Suc l;
          shadow_ent = pt_entry shadow_addr (PT64_INDEX addr level);
          e = pte_read s shadow_ent
      in if is_present_pte e \<or> is_io_pte e then
           if level = PT_PAGE_TABLE_LEVEL then (Shadow_Pte shadow_ent, walker, s)
           else fetch_from l pt addr (e AND PT64_BASE_ADDR_MASK) (Some shadow_ent) walker s
         else
           let (ent, walker) = fetch_guest pt s
                 (if pt = PTTYPE32 \<and> PT32_ROOT_LEVEL < level then PT32_ROOT_LEVEL else level)
                 addr walker
           in if \<not> is_present_pte (guest_read pt s ent) then (Not_Mapped, walker, s)
              else
                let s = set_accessed pt ent walker s
                in if level = PT_PAGE_TABLE_LEVEL then
                     (Shadow_Pte shadow_ent, walker,
                      set_leaf pt addr ent prev shadow_ent walker s)
                   else
                     let (shadow_addr, s) = kvm_mmu_alloc_page (Some shadow_ent) s
                     in if \<not> VALID_PAGE shadow_addr then (No_Memory, walker, s)
                        else
                          let s = link_table pt level ent shadow_ent shadow_addr s
                          in fetch_from l pt addr shadow_addr (Some shadow_ent) walker s)"

definition fetch :: "pttype \<Rightarrow> u64 \<Rightarrow> guest_walker \<Rightarrow> vm \<Rightarrow> fetch_result \<times> guest_walker \<times> vm" where
  "fetch pt addr walker s = fetch_from (shadow_root_level (mmu (vcpu s))) pt addr
     (root_hpa (mmu (vcpu s))) None walker s"

section \<open>The fault handler\<close>

text \<open>The checks before the guest entry is looked at: \<open>None\<close> means \<open>return 0\<close>.\<close>

definition write_pf_allowed :: "u64 \<Rightarrow> bool \<Rightarrow> vm \<Rightarrow> vm option" where
  "write_pf_allowed shadow_ent user s =
     (let writable_shadow = (pte_read s shadow_ent AND PT_SHADOW_WRITABLE_MASK \<noteq> 0)
      in if is_writeble_pte (pte_read s shadow_ent) then None
         else if user then
           if pte_read s shadow_ent AND PT_SHADOW_USER_MASK = 0 \<or> \<not> writable_shadow then None
           else Some s
         else if \<not> writable_shadow then
           if is_write_protection s then None
           else Some (pte_and shadow_ent (NOT PT_USER_MASK) s)
         else Some s)"

definition fix_write_pf :: "pttype \<Rightarrow> u64 \<Rightarrow> guest_walker \<Rightarrow> u64 \<Rightarrow> bool \<Rightarrow> vm \<Rightarrow> bool \<times> vm" where
  "fix_write_pf pt shadow_ent walker addr user s =
     (case write_pf_allowed shadow_ent user s of
        None \<Rightarrow> (False, s)
      | Some s \<Rightarrow>
          let (ent, walker) = fetch_guest pt s PT_PAGE_TABLE_LEVEL addr walker
          in if \<not> is_present_pte (guest_read pt s ent) then (False, pte_write shadow_ent 0 s)
             else
               let gfn = drop_bit PAGE_SHIFT (guest_read pt s ent AND PT64_BASE_ADDR_MASK);
                   s = mark_page_dirty gfn s;
                   s = pte_or shadow_ent PT_WRITABLE_MASK s;
                   s = guest_or pt ent PT_DIRTY_MASK s
               in (True, s))"

text \<open>After the shadow entry was found: \<open>True\<close> is the result 1, emulate the access.\<close>

definition page_fault_update :: "pttype \<Rightarrow> u64 \<Rightarrow> u32 \<Rightarrow> u64 \<Rightarrow> guest_walker \<Rightarrow> vm \<Rightarrow> bool \<times> vm" where
  "page_fault_update pt addr error_code shadow_pte walker s =
     (let write_fault = (error_code AND PFERR_WRITE_MASK \<noteq> 0);
          pte_present = (error_code AND PFERR_PRESENT_MASK \<noteq> 0);
          user_fault = (error_code AND PFERR_USER_MASK \<noteq> 0);
          (fixed, s) = (if write_fault then fix_write_pf pt shadow_pte walker addr user_fault s
                        else fix_read_pf shadow_pte s)
      in if is_io_pte (pte_read s shadow_pte) then
           if may_access (pte_read s shadow_pte) write_fault user_fault then (True, s)
           else (False, inject_page_fault addr (error_code OR PFERR_PRESENT_MASK) s)
         else if pte_present \<and> \<not> fixed then (False, inject_page_fault addr error_code s)
         else (False, count_pf_fixed s))"

fun paging_page_fault :: "nat \<Rightarrow> pttype \<Rightarrow> u64 \<Rightarrow> u32 \<Rightarrow> vm \<Rightarrow> (bool \<times> vm) option" where
  "paging_page_fault 0 pt addr error_code s = None"
| "paging_page_fault (Suc fuel) pt addr error_code s =
     (let (r, walker, s) = fetch pt addr (init_walker s) s
      in case r of
           No_Memory \<Rightarrow> paging_page_fault fuel pt addr error_code (nonpaging_flush s)
         | Not_Mapped \<Rightarrow> Some (False, inject_page_fault addr error_code s)
         | Shadow_Pte shadow_pte \<Rightarrow> Some (page_fault_update pt addr error_code shadow_pte walker s))"

section \<open>Guest virtual to guest physical\<close>

definition paging_gva_to_gpa :: "pttype \<Rightarrow> vm \<Rightarrow> u64 \<Rightarrow> u64" where
  "paging_gva_to_gpa pt s vaddr =
     (let (ent, walker) = fetch_guest pt s PT_PAGE_TABLE_LEVEL vaddr (init_walker s);
          guest_pte = guest_read pt s ent
      in if \<not> is_present_pte guest_pte then UNMAPPED_GVA
         else if wk_level walker = PT_DIRECTORY_LEVEL then
           let gpa = (guest_pte AND PT_DIR_BASE_ADDR_MASK pt) OR
                 (vaddr AND (PT_LEVEL_MASK pt PT_PAGE_TABLE_LEVEL OR NOT PAGE_MASK))
           in if pt = PTTYPE32 \<and> is_cpuid_PSE36
              then gpa OR push_bit (32 - PT32_DIR_PSE36_SHIFT) (guest_pte AND PT32_DIR_PSE36_MASK)
              else gpa
         else (guest_pte AND PT_BASE_ADDR_MASK pt) OR (vaddr AND NOT PAGE_MASK))"

section \<open>The operations of the current context\<close>

definition mmu_gva_to_gpa :: "vm \<Rightarrow> u64 \<Rightarrow> u64" where
  "mmu_gva_to_gpa s gva = (case mmu_ctx (mmu (vcpu s)) of
     Some Paging64 \<Rightarrow> paging_gva_to_gpa PTTYPE64 s gva
   | Some Paging32 \<Rightarrow> paging_gva_to_gpa PTTYPE32 s gva
   | _ \<Rightarrow> nonpaging_gva_to_gpa s gva)"

definition mmu_page_fault :: "nat \<Rightarrow> u64 \<Rightarrow> u32 \<Rightarrow> vm \<Rightarrow> (bool \<times> vm) option" where
  "mmu_page_fault fuel gva error_code s = (case mmu_ctx (mmu (vcpu s)) of
     Some Paging64 \<Rightarrow> paging_page_fault fuel PTTYPE64 gva error_code s
   | Some Paging32 \<Rightarrow> paging_page_fault fuel PTTYPE32 gva error_code s
   | _ \<Rightarrow> nonpaging_page_fault fuel gva s)"

definition gva_to_hpa :: "vm \<Rightarrow> u64 \<Rightarrow> u64" where
  "gva_to_hpa s gva =
     (let gpa = mmu_gva_to_gpa s gva
      in if gpa = UNMAPPED_GVA then UNMAPPED_GVA else gpa_to_hpa s gpa)"

end
