(* ===== verification/Guest_Walk.thy ===== *)
theory Guest_Walk
  imports Guest_Paging
begin

text \<open>
  What \<open>Guest_Paging\<close> computes, against the architecture: the guest walk is the walk of the
  processor's manual over guest physical memory, and the entries that \<open>set_pte\<close> builds grant
  no more than the guest's own entries do.
\<close>

section \<open>Guest physical memory behind frames\<close>

lemma page_plus:
  assumes "is_page p" "unat off < 4096"
  shows "p + off = p OR off" "(p + off) AND PAGE_MASK = p" "(p + off) AND (PAGE_SIZE - 1) = off"
proof -
  have e: "p + off = elt 0 p (unat off)" by (simp add: elt_def)
  show "p + off = p OR off" unfolding e using elt_or [of p "unat off" 0] assms by simp
  show "(p + off) AND PAGE_MASK = p" unfolding e using elt_page [of p "unat off" 0] assms by simp
  show "(p + off) AND (PAGE_SIZE - 1) = off"
    unfolding e
  proof (rule bit_word_eqI)
    fix n
    have "bit (unat off) n \<Longrightarrow> n < 12" using nat_bit_bound [of "unat off" 12 n] assms(2) by simp
    then have "bit off n \<Longrightarrow> n < 12" by (simp add: bit_unsigned_iff)
    then show "bit (elt 0 p (unat off) AND PAGE_SIZE - 1) n = bit off n"
      using bit_elt [of p "unat off" 0 n] assms by (auto simp: bit_and_iff mask_bits bit_unsigned_iff)
  qed
qed

definition frame_hpa :: "vm \<Rightarrow> u64 \<Rightarrow> u64" where
  "frame_hpa s gpa = safe_gpa_to_hpa s (gpa AND PAGE_MASK)"

lemma drop_page_mask [simp]: "drop_bit PAGE_SHIFT (a AND PAGE_MASK) = drop_bit PAGE_SHIFT a"
  by (rule bit_word_eqI) (auto simp: bit_simps mask_bits PAGE_SHIFT_def dest: bit_imp_le_length)

lemma page_mask_low [simp]: "(a AND PAGE_MASK) AND (PAGE_SIZE - 1) = 0"
  by (rule bit_word_eqI) (auto simp: bit_simps mask_bits)

lemma not_page_mask: "NOT PAGE_MASK = PAGE_SIZE - 1"
  by (simp add: PAGE_MASK_def)

text \<open>The translation of an address is that of its frame with the offset put in.\<close>

lemma safe_gpa_to_hpa_frame:
  assumes bad: "is_page (bad_page_address s)"
  shows "is_page (frame_hpa s gpa)"
    "safe_gpa_to_hpa s gpa = frame_hpa s gpa OR (gpa AND (PAGE_SIZE - 1))"
proof -
  have off: "\<not> bit (PAGE_SIZE - 1) 63" by (simp add: mask_bits)
  show "is_page (frame_hpa s gpa)"
    using bad unfolding frame_hpa_def safe_gpa_to_hpa_def gpa_to_hpa_def Let_def drop_page_mask
      not_page_mask page_mask_low
    by (auto split: option.split simp: is_error_hpa_bit bit_or_iff mask_bits)
  show "safe_gpa_to_hpa s gpa = frame_hpa s gpa OR (gpa AND (PAGE_SIZE - 1))"
    unfolding frame_hpa_def safe_gpa_to_hpa_def gpa_to_hpa_def Let_def drop_page_mask
      not_page_mask page_mask_low
    using off by (auto split: option.split simp: is_error_hpa_bit bit_or_iff bit_and_iff mask_bits
        simp del: and_1_eq_0)
qed

lemma is_page_shift:
  assumes "is_page p"
  shows "push_bit PAGE_SHIFT (drop_bit PAGE_SHIFT p) = p"
proof (rule bit_word_eqI)
  fix n
  show "bit (push_bit PAGE_SHIFT (drop_bit PAGE_SHIFT p)) n = bit p n" if "n < LENGTH(64)"
    using that is_page_bit [OF assms, of n]
    by (cases "n < 12") (auto simp: bit_simps PAGE_SHIFT_def)
qed

lemma page_of_translation:
  assumes "is_page (bad_page_address s)"
  shows "push_bit PAGE_SHIFT (drop_bit PAGE_SHIFT (safe_gpa_to_hpa s gpa)) = frame_hpa s gpa"
proof -
  note f = safe_gpa_to_hpa_frame [OF assms, of gpa]
  have "drop_bit PAGE_SHIFT (safe_gpa_to_hpa s gpa) = drop_bit PAGE_SHIFT (frame_hpa s gpa)"
    unfolding f(2) by (rule bit_word_eqI) (auto simp: bit_simps mask_bits PAGE_SHIFT_def)
  then show ?thesis using is_page_shift [OF f(1)] by simp
qed

text \<open>An entry of a table that lies inside a page of guest memory.\<close>

lemma translate_in_page:
  assumes bad: "is_page (bad_page_address s)" and base: "is_page base" "unat off < 4096"
  shows "safe_gpa_to_hpa s (base + off) = frame_hpa s base + off"
proof -
  note b = page_plus [OF base]
  have "frame_hpa s (base + off) = frame_hpa s base"
    unfolding frame_hpa_def b(2) using base(1) by (simp add: is_page_and_mask)
  then show ?thesis
    using safe_gpa_to_hpa_frame(2) [OF bad, of "base + off"] b(3)
      page_plus(1) [OF safe_gpa_to_hpa_frame(1) [OF bad, of base] base(2)] by simp
qed

section \<open>The walk of the manual\<close>

text \<open>
  An entry of the guest at a guest physical address; the walk returns the level and the entry
  that maps the address, and \<open>None\<close> at an entry that is not present.
\<close>

definition gpa_read :: "pttype \<Rightarrow> vm \<Rightarrow> u64 \<Rightarrow> u64" where
  "gpa_read pt s gpa = guest_read pt s (safe_gpa_to_hpa s gpa)"

fun arch_walk :: "nat \<Rightarrow> pttype \<Rightarrow> vm \<Rightarrow> u64 \<Rightarrow> u64 \<Rightarrow> (nat \<times> u64) option" where
  "arch_walk 0 pt s base va = None"
| "arch_walk (Suc l) pt s base va =
     (let e = gpa_read pt s (elt (pte_size_shift pt) base (PT_INDEX pt va (Suc l)))
      in if \<not> bit e 0 then None
         else if l = 0 \<or> (l = 1 \<and> bit e 7 \<and> (pt = PTTYPE64 \<or> is_pse s)) then Some (Suc l, e)
         else arch_walk l pt s (e AND PT_BASE_ADDR_MASK pt) va)"

text \<open>Bits of the physical address: from the entry above the page size, from the address below.\<close>

definition page_bits :: "pttype \<Rightarrow> nat \<Rightarrow> nat" where
  "page_bits pt level = (if level = 1 then 12 else case pt of PTTYPE64 \<Rightarrow> 21 | PTTYPE32 \<Rightarrow> 22)"

definition arch_address_bit :: "pttype \<Rightarrow> nat \<Rightarrow> u64 \<Rightarrow> u64 \<Rightarrow> nat \<Rightarrow> bool" where
  "arch_address_bit pt level e va n \<longleftrightarrow>
     (if n < page_bits pt level then bit va n
      else if pt = PTTYPE64 then n < 52 \<and> bit e n
      else if level = 2 \<and> 32 \<le> n then n < 36 \<and> bit e (n - 19)
      else n < 32 \<and> bit e n)"

lemma guest_read_u32: "bit (guest_read PTTYPE32 s a) n \<Longrightarrow> n < 32"
  unfolding guest_read_def load32_def by (simp add: bit_load_le split: if_splits)

lemma PT_INDEX_bound: "PT_INDEX pt a l < 2 ^ (12 - pte_size_shift pt)"
proof -
  have "unat (x AND mask 10) < 1024" for x :: u64
    using take_bit_nat_less_exp [of 10 "unat x"]
    by (simp add: take_bit_eq_mask [symmetric] unsigned_take_bit_eq)
  then show ?thesis
    by (cases pt) (simp_all add: PT_INDEX_def pte_size_shift_def PT32_INDEX_def PT32_LEVEL_BITS_def)
qed

lemma base_mask_page: "is_page (e AND PT_BASE_ADDR_MASK pt)"
proof -
  have "(e AND PT_BASE_ADDR_MASK pt) AND PAGE_MASK = e AND PT_BASE_ADDR_MASK pt"
    by (rule bit_word_eqI) (cases pt; auto simp: PT_BASE_ADDR_MASK_def bit_and_iff mask_bits)
  then show ?thesis by (simp add: is_page_and_mask)
qed

text \<open>
  A table at the guest physical address \<open>base\<close>, seen by the walker at \<open>frame_hpa base\<close>; the
  offset of the root inside its page is nonzero only for PAE.
\<close>

definition table_fits :: "pttype \<Rightarrow> u64 \<Rightarrow> nat \<Rightarrow> bool" where
  "table_fits pt off i \<longleftrightarrow> unat off + 2 ^ pte_size_shift pt * i < 4096"

lemma guest_ent_read:
  assumes bad: "is_page (bad_page_address s)" and base: "is_page base"
    and fits: "table_fits pt off (PT_INDEX pt va l)" and l: "wk_level w = l"
    and t: "wk_table w = frame_hpa s base + off"
  shows "guest_read pt s (guest_ent pt w va) =
    gpa_read pt s (elt (pte_size_shift pt) (base + off) (PT_INDEX pt va l))"
proof -
  let ?i = "PT_INDEX pt va l" and ?k = "pte_size_shift pt"
  define o' where "o' = off + push_bit ?k (of_nat ?i)"
  have "push_bit ?k (of_nat ?i) = (of_nat (2 ^ ?k * ?i) :: u64)"
    by (simp add: push_bit_eq_mult)
  then have "unat (push_bit ?k (of_nat ?i) :: u64) \<le> 2 ^ ?k * ?i"
    by (simp only: unat_of_nat mod_less_eq_dividend)
  moreover have "unat o' \<le> unat off + unat (push_bit ?k (of_nat ?i) :: u64)"
    unfolding o'_def unat_word_ariths by (rule mod_less_eq_dividend)
  ultimately have "unat o' < 4096"
    using fits unfolding table_fits_def by linarith
  from translate_in_page [OF bad base this] show ?thesis
    by (simp add: gpa_read_def guest_ent_def elt_def l t o'_def add.assoc)
qed

lemma table_fits_zero: "table_fits pt 0 (PT_INDEX pt va l)"
proof -
  have "2 ^ pte_size_shift pt * PT_INDEX pt va l < 2 ^ pte_size_shift pt * 2 ^ (12 - pte_size_shift pt)"
    using PT_INDEX_bound [of pt va l] by (intro mult_strict_left_mono) auto
  then show ?thesis
    by (cases pt) (simp_all add: table_fits_def pte_size_shift_def)
qed

lemma fetch_guest_arch_walk:
  assumes bad: "is_page (bad_page_address s)"
  shows "is_page base \<Longrightarrow> table_fits pt off (PT_INDEX pt va n) \<Longrightarrow> wk_level w = n \<Longrightarrow>
    wk_table w = frame_hpa s base + off \<Longrightarrow> 0 < n \<Longrightarrow> fetch_guest_from n pt s 1 va w = (ent, w') \<Longrightarrow>
    arch_walk n pt s (base + off) va =
      (if is_present_pte (guest_read pt s ent) then Some (wk_level w', guest_read pt s ent) else None) \<and>
    (is_present_pte (guest_read pt s ent) \<longrightarrow> wk_level w' = 1 \<or> wk_level w' = 2)"
proof (induction n arbitrary: base off w)
  case (Suc m)
  let ?e = "guest_read pt s (guest_ent pt w va)"
  have e: "gpa_read pt s (elt (pte_size_shift pt) (base + off) (PT_INDEX pt va (Suc m))) = ?e"
    using guest_ent_read [OF bad Suc.prems(1,2,3,4)] by simp
  show ?case
  proof (cases "\<not> is_present_pte ?e \<or> m = 0 \<or> is_large_pde pt s (Suc m) ?e")
    case True
    then have "ent = guest_ent pt w va" "w' = w"
      using Suc.prems(3,6) by (auto simp: Let_def)
    then show ?thesis
      using True Suc.prems(3) e
      by (auto simp: Let_def pte_predicates_bit is_large_pde_def PT_DIRECTORY_LEVEL_def)
  next
    case False
    let ?base = "?e AND PT_BASE_ADDR_MASK pt"
    define ar where "ar = (if Suc m \<noteq> 3 \<or> is_long_mode s then inherited_ar w AND ?e else inherited_ar w)"
    let ?w = "\<lparr>wk_level = m, wk_table = frame_hpa s ?base, inherited_ar = ar\<rparr>"
    have run: "fetch_guest_from m pt s 1 va ?w = (ent, w')"
      using False Suc.prems(3,6) by (simp add: Let_def page_of_translation [OF bad] ar_def)
    have "arch_walk (Suc m) pt s (base + off) va = arch_walk m pt s (?base + 0) va"
      using False e by (auto simp: Let_def pte_predicates_bit is_large_pde_def PT_DIRECTORY_LEVEL_def)
    then show ?thesis
      using Suc.IH [OF base_mask_page table_fits_zero _ _ _ run] False by simp
  qed
qed simp

text \<open>The address bits that \<open>gva_to_gpa\<close> assembles.\<close>

lemma level_masks [mask_bits]:
  "bit (PT_LEVEL_MASK PTTYPE64 (Suc 0)) n \<longleftrightarrow> 12 \<le> n \<and> n < 21"
  "bit (PT_LEVEL_MASK PTTYPE32 (Suc 0)) n \<longleftrightarrow> 12 \<le> n \<and> n < 22"
  by (auto simp: PT_LEVEL_MASK_def PT64_LEVEL_MASK_def PT32_LEVEL_MASK_def PT64_LEVEL_SHIFT_def
      PT32_LEVEL_SHIFT_def PT64_LEVEL_BITS_def PT32_LEVEL_BITS_def PAGE_SHIFT_def bit_push_bit_iff
      bit_mask_iff)

lemma bit_pse36_mask [mask_bits]: "bit PT32_DIR_PSE36_MASK n \<longleftrightarrow> 13 \<le> n \<and> n < 17"
  by (auto simp: PT32_DIR_PSE36_MASK_def PT32_DIR_PSE36_SHIFT_def bit_push_bit_iff bit_mask_iff)

section \<open>Shadow entries\<close>

text \<open>The page arrays of the slots are not the bitmaps of other slots.\<close>

definition arrays_separate :: "vm \<Rightarrow> bool" where
  "arrays_separate s \<longleftrightarrow> (\<forall>i < nmemslots s. \<forall>j < nmemslots s.
     dirty_bitmap (memslots s j) \<noteq> 0 \<longrightarrow> phys_mem (memslots s i) \<noteq> dirty_bitmap (memslots s j))"

lemma gpa_to_hpa_mark_page_dirty:
  assumes "arrays_separate s"
  shows "gpa_to_hpa (mark_page_dirty gfn s) = gpa_to_hpa s"
proof
  fix gpa
  have m: "gfn_to_memslot (mark_page_dirty gfn s) g = gfn_to_memslot s g" for g
    by (simp add: gfn_to_memslot_def)
  have "varray (mark_page_dirty gfn s) (phys_mem (memslots s i)) = varray s (phys_mem (memslots s i))"
    if "i < nmemslots s" for i
    using assms that gfn_to_memslotD(1) [of s gfn]
    by (auto simp: varray_mark_page_dirty arrays_separate_def split: option.split)
  then show "gpa_to_hpa (mark_page_dirty gfn s) gpa = gpa_to_hpa s gpa"
    using gfn_to_memslotD(1) [of s]
    by (auto simp: gpa_to_hpa_def m gfn_to_page_def split: option.split)
qed

lemma pte_read_same: "aligned 8 p \<Longrightarrow> pte_read (pte_write p v s) p = v"
  by (simp add: pte_read_def pte_write_def mem64.rd_wr_same)

lemma gpa_to_hpa_pte_write [simp]: "gpa_to_hpa (pte_write p v s) = gpa_to_hpa s"
  by (rule gpa_to_hpa_cong) (simp_all add: pte_write_def)

lemma pte_read_marks [simp]:
  "pte_read (mark_page_dirty gfn s) = pte_read s"
  "pte_read (mark_pagetable_nonglobal q s) = pte_read s"
  "pte_read (page_header_update_slot q a s) = pte_read s"
  by (rule same_tablesD(1), simp)+

lemma arrays_separate_pte_write [simp]: "arrays_separate (pte_write p v s) = arrays_separate s"
  by (simp add: arrays_separate_def pte_write_def)

text \<open>The entry that \<open>set_pte_common\<close> leaves behind.\<close>

lemma set_pte_common_value:
  assumes p: "aligned 8 p" and sep: "arrays_separate s"
  shows "pte_read (set_pte_common p gaddr dirty access s) p =
    (let a' = (if dirty then access else access AND NOT PT_WRITABLE_MASK);
         v = pte_read s p OR push_bit PT_SHADOW_BITS_OFFSET access OR a';
         paddr = gpa_to_hpa s (gaddr AND PT64_BASE_ADDR_MASK)
     in if is_error_hpa paddr then (v OR gaddr OR PT_SHADOW_IO_MARK) AND NOT PT_PRESENT_MASK
        else v OR paddr)"
  unfolding set_pte_common_def Let_def pte_or_def pte_and_def
  by (auto simp: pte_read_same [OF p] gpa_to_hpa_mark_page_dirty sep or.assoc)

text \<open>The low bits of an address at the start of a frame.\<close>

lemma gpa_to_hpa_low:
  "n < 12 \<Longrightarrow> \<not> bit (gpa_to_hpa s (a AND PT64_BASE_ADDR_MASK)) n"
  by (auto simp: gpa_to_hpa_def bit_simps mask_bits PAGE_SHIFT_def split: option.split)

lemma base_addr_low: "n < 12 \<Longrightarrow> \<not> bit (a AND PT_BASE_ADDR_MASK pt) n"
  by (cases pt) (simp_all add: PT_BASE_ADDR_MASK_def bit_and_iff mask_bits)

lemma bit_copy_mask:
  "bit (PT_PTE_COPY_MASK pt) n \<longleftrightarrow>
    (n = 63 \<and> pt = PTTYPE64) \<or> n = 0 \<or> n = 3 \<or> n = 4 \<or> n = 5 \<or> n = 6 \<or> n = 7 \<or> n = 8"
  by (cases pt) (auto simp: PT_PTE_COPY_MASK_def mask_bits)

definition access_only :: "u64 \<Rightarrow> bool" where
  "access_only ar \<longleftrightarrow> (\<forall>n. bit ar n \<longrightarrow> n = 1 \<or> n = 2)"

lemma set_pte_value:
  assumes "aligned 8 p" "arrays_separate s"
  shows "pte_read (set_pte pt g p ar s) p =
    (let a = ar AND g;
         a' = (if g AND PT_DIRTY_MASK \<noteq> 0 then a else a AND NOT PT_WRITABLE_MASK);
         v = (g AND PT_PTE_COPY_MASK pt) OR push_bit PT_SHADOW_BITS_OFFSET a OR a';
         paddr = gpa_to_hpa s ((g AND PT_BASE_ADDR_MASK pt) AND PT64_BASE_ADDR_MASK)
     in if is_error_hpa paddr
        then (v OR (g AND PT_BASE_ADDR_MASK pt) OR PT_SHADOW_IO_MARK) AND NOT PT_PRESENT_MASK
        else v OR paddr)"
  unfolding set_pte_def Let_def
  by (subst set_pte_common_value) (simp_all add: assms Let_def pte_read_same)

section \<open>Large pages and the dirty log\<close>

text \<open>The guest frame of an address inside a large page, as \<open>set_pde\<close> maps it.\<close>

definition large_page_gfn :: "pttype \<Rightarrow> u64 \<Rightarrow> u64 \<Rightarrow> u64" where
  "large_page_gfn pt pde addr =
     drop_bit PAGE_SHIFT (pde_gaddr pt pde (PT_INDEX pt addr PT_PAGE_TABLE_LEVEL))"

lemma gfn_base_split:
  fixes d :: u64
  assumes "i < 512" "\<forall>n < 21. \<not> bit d n"
  shows "drop_bit PAGE_SHIFT (d + PAGE_SIZE * of_nat i) = drop_bit PAGE_SHIFT d OR of_nat i"
proof -
  have i: "bit (of_nat i :: u64) n \<Longrightarrow> n < 9" for n
    using nat_bit_bound [of i 9 n] assms(1) by (simp add: bit_simps)
  have p: "PAGE_SIZE * of_nat i = push_bit 12 (of_nat i :: u64)"
    by (simp add: PAGE_SIZE_val push_bit_eq_mult)
  have "d + push_bit 12 (of_nat i) = d OR push_bit 12 (of_nat i)"
  proof (rule disjunctive_add_eq_or, rule bit_word_eqI)
    fix n
    show "bit (d AND push_bit 12 (word_of_nat i)) n = bit (0 :: u64) n"
      using assms(2) i [of "n - 12"] by (auto simp: bit_and_iff bit_push_bit_iff)
  qed
  then show ?thesis
    unfolding p PAGE_SHIFT_def
    by (intro bit_word_eqI) (auto simp: bit_or_iff bit_drop_bit_eq bit_push_bit_iff dest: i bit_imp_le_length)
qed

section \<open>Properties\<close>

text \<open>
  C5: for a guest with paging, \<open>gva_to_gpa\<close> is the architecture's page walk: it is
  \<open>UNMAPPED_GVA\<close> when the walk meets an entry that is not present, and otherwise the address
  whose bits come from the mapping entry above the page size (with the PSE-36 bits of a 4M page)
  and from the virtual address below it. \<open>off\<close> is the place of a PAE root in its page.
\<close>

theorem gva_to_gpa_arch_walk:
  assumes bad: "is_page (bad_page_address s)" and lv: "0 < root_level (mmu (vcpu s))"
    and off: "off = cr3 (vcpu s) AND NOT (PAGE_MASK OR CR3_FLAGS_MASK)"
    and fits: "table_fits pt off (PT_INDEX pt va (root_level (mmu (vcpu s))))"
  shows "case arch_walk (root_level (mmu (vcpu s))) pt s ((cr3 (vcpu s) AND PT64_BASE_ADDR_MASK) + off) va of
      None \<Rightarrow> paging_gva_to_gpa pt s va = UNMAPPED_GVA
    | Some (level, e) \<Rightarrow> \<forall>n < 64. bit (paging_gva_to_gpa pt s va) n = arch_address_bit pt level e va n"
proof -
  let ?base = "cr3 (vcpu s) AND PT64_BASE_ADDR_MASK"
  have base: "is_page ?base" using base_mask_page [of _ PTTYPE64] by (simp add: PT_BASE_ADDR_MASK_def)
  have "unat off < 4096" using fits by (simp add: table_fits_def)
  then have t: "wk_table (init_walker s) = frame_hpa s ?base + off"
    using page_plus(1) [OF safe_gpa_to_hpa_frame(1) [OF bad]]
    by (simp add: init_walker_def Let_def page_of_translation [OF bad] off)
  obtain ent w' where f: "fetch_guest_from (root_level (mmu (vcpu s))) pt s 1 va (init_walker s) = (ent, w')"
    by fastforce
  have w: "wk_level (init_walker s) = root_level (mmu (vcpu s))"
    by (simp add: init_walker_def Let_def)
  note r = fetch_guest_arch_walk [OF bad base fits w t lv f]
  let ?e = "guest_read pt s ent"
  have g: "paging_gva_to_gpa pt s va = (if \<not> is_present_pte ?e then UNMAPPED_GVA
      else if wk_level w' = 2 then
        (let gpa = (?e AND PT_DIR_BASE_ADDR_MASK pt) OR (va AND (PT_LEVEL_MASK pt 1 OR NOT PAGE_MASK))
         in if pt = PTTYPE32 then gpa OR push_bit 19 (?e AND PT32_DIR_PSE36_MASK) else gpa)
      else (?e AND PT_BASE_ADDR_MASK pt) OR (va AND NOT PAGE_MASK))"
    using f w by (simp add: paging_gva_to_gpa_def fetch_guest_def PT_PAGE_TABLE_LEVEL_def
        PT_DIRECTORY_LEVEL_def PT32_DIR_PSE36_SHIFT_def is_cpuid_PSE36_def Let_def)
  show ?thesis
  proof (cases "is_present_pte ?e")
    case False
    then show ?thesis using r g by simp
  next
    case True
    have "bit (paging_gva_to_gpa pt s va) n = arch_address_bit pt (wk_level w') ?e va n" if "n < 64" for n
      unfolding g using r True that
      by (cases pt) (auto simp: arch_address_bit_def page_bits_def Let_def bit_simps mask_bits
          PT_BASE_ADDR_MASK_def PT_DIR_BASE_ADDR_MASK_def not_less dest: guest_read_u32)
    then show ?thesis using r True by simp
  qed
qed


text \<open>A guest with one 4M page at guest address 0, its page directory in frame 9.\<close>

definition example_guest :: vm where
  "example_guest = example_shadow\<lparr>
     hmem := (\<lambda>a. if a = 0x9000 then 0xe7 else if a = 0x9002 then 0x40 else 0),
     vmcs := (\<lambda>f. if f = CR4_READ_SHADOW then 0x10 else 0),
     vcpu := (vcpu example_shadow)\<lparr>mmu := \<lparr>mmu_ctx = Some Paging32, root_hpa = 0x5000,
       root_level = 2, shadow_root_level = 3\<rparr>\<rparr>\<rparr>"

lemma load32_unfold: "load32 m a = load_le (Suc (Suc (Suc (Suc 0)))) m a"
  by (simp add: load32_def eval_nat_numeral del: load_le.simps)

lemma example_guest_walk:
  "arch_walk 2 PTTYPE32 example_guest 0 0x5123 = Some (2, 0x4000e7)"
proof -
  have pse: "is_pse example_guest"
    by (simp add: is_pse_def bit_guest_cr4 vmcs_readl_def example_guest_def)
  have hpa: "safe_gpa_to_hpa example_guest 0 = 0x9000"
    by (simp add: safe_gpa_to_hpa_def gpa_to_hpa_def gfn_to_memslot_def gfn_in_slot_def
        gfn_to_page_def varray_def arr_get_def example_guest_def example_shadow_def zero_defs
        is_error_hpa_def HPA_MSB_def PAGE_SHIFT_def)
  have e: "gpa_read PTTYPE32 example_guest 0 = 0x4000e7"
    unfolding gpa_read_def hpa by (simp add: guest_read_def load32_unfold example_guest_def)
  have "PT_INDEX PTTYPE32 0x5123 (Suc (Suc 0)) = 0"
    by (simp add: PT_INDEX_def PT32_INDEX_def PT32_LEVEL_SHIFT_def PT32_LEVEL_BITS_def
        PAGE_SHIFT_def mask_numeral)
  then show ?thesis
    using e pse by (simp add: numeral_2_eq_2 elt_def Let_def)
qed

lemma gva_to_gpa_arch_walk_witness:
  "bit (paging_gva_to_gpa PTTYPE32 example_guest 0x5123) 22 \<and>
   bit (paging_gva_to_gpa PTTYPE32 example_guest 0x5123) 12 \<and>
   \<not> bit (paging_gva_to_gpa PTTYPE32 example_guest 0x5123) 13"
proof -
  have l: "root_level (mmu (vcpu example_guest)) = 2" "cr3 (vcpu example_guest) = 0"
    "bad_page_address example_guest = 0"
    by (simp_all add: example_guest_def example_shadow_def example_pool_def zero_defs)
  have i: "table_fits PTTYPE32 0 (PT_INDEX PTTYPE32 0x5123 2)" by (rule table_fits_zero)
  show ?thesis
    using gva_to_gpa_arch_walk [of example_guest 0 PTTYPE32 "0x5123"] example_guest_walk l i
    by (simp add: is_page_def arch_address_bit_def page_bits_def)
qed




text \<open>
  C11: \<open>fix_write_pf\<close> makes a page writable only when the guest allows it: a user write needs a
  user page that the guest made writable, a supervisor write to a read-only page needs
  \<open>CR0.WP\<close> clear; and the frame of the guest's entry has then been put in the dirty log.
\<close>

theorem fix_write_pf_legal:
  assumes "fix_write_pf pt p w addr user s = (True, t)" and e: "e = pte_read s p"
  shows "\<not> is_writeble_pte e \<and> (user \<longrightarrow> bit e 11 \<and> bit e 10) \<and>
    (\<not> user \<and> \<not> bit e 10 \<longrightarrow> \<not> is_write_protection s) \<and>
    (\<exists>gpte. is_present_pte gpte \<and>
       vheap t = vheap (mark_page_dirty (drop_bit PAGE_SHIFT (gpte AND PT64_BASE_ADDR_MASK)) s))"
proof -
  from assms(1) obtain s1 where a: "write_pf_allowed p user s = Some s1"
    by (auto simp: fix_write_pf_def split: option.splits)
  obtain ent w' where f: "fetch_guest pt s1 PT_PAGE_TABLE_LEVEL addr w = (ent, w')" by fastforce
  have s1: "s1 = s \<or> s1 = pte_and p (NOT PT_USER_MASK) s"
    using a by (auto simp: write_pf_allowed_def Let_def split: if_splits)
  have v: "vheap (mark_page_dirty gfn s1) = vheap (mark_page_dirty gfn s)" for gfn
    using s1 by (auto simp: mark_page_dirty_def pte_and_def pte_write_def gfn_to_memslot_def
        varray_def Let_def split: option.splits)
  let ?g = "guest_read pt s1 ent"
  have "is_present_pte ?g" "t = guest_or pt ent PT_DIRTY_MASK (pte_or p PT_WRITABLE_MASK
      (mark_page_dirty (drop_bit PAGE_SHIFT (?g AND PT64_BASE_ADDR_MASK)) s1))"
    using assms(1) a f by (auto simp: fix_write_pf_def Let_def split: if_splits)
  then have "vheap t = vheap (mark_page_dirty (drop_bit PAGE_SHIFT (?g AND PT64_BASE_ADDR_MASK)) s)"
    by (simp add: guest_or_def guest_write_def pte_or_def pte_write_def v split: pttype.split)
  moreover have "\<not> is_writeble_pte e \<and> (user \<longrightarrow> bit e 11 \<and> bit e 10) \<and>
      (\<not> user \<and> \<not> bit e 10 \<longrightarrow> \<not> is_write_protection s)"
    using a by (auto simp: write_pf_allowed_def Let_def e split: if_splits)
  ultimately show ?thesis using \<open>is_present_pte ?g\<close> by blast
qed

text \<open>
  For a 2M page, the frame that \<open>fix_write_pf\<close> logs (the base in the directory entry) is
  the frame the guest wrote to only for the first 4K of the page; all other writes through a
  large page are logged in the wrong place.
\<close>

theorem large_page_logs_base:
  assumes "\<forall>n. 12 \<le> n \<longrightarrow> n < 21 \<longrightarrow> \<not> bit pde n"
  shows "drop_bit PAGE_SHIFT (pde AND PT64_BASE_ADDR_MASK) = large_page_gfn PTTYPE64 pde addr \<longleftrightarrow>
    PT_INDEX PTTYPE64 addr PT_PAGE_TABLE_LEVEL = 0"
proof -
  let ?i = "PT_INDEX PTTYPE64 addr PT_PAGE_TABLE_LEVEL"
  let ?d = "pde AND PT64_DIR_BASE_ADDR_MASK"
  have i: "?i < 512" by (simp add: PT_INDEX_def)
  have d: "pde AND PT64_BASE_ADDR_MASK = ?d"
    using assms by (intro bit_word_eqI) (auto simp: bit_and_iff mask_bits not_less)
  have g: "large_page_gfn PTTYPE64 pde addr = drop_bit PAGE_SHIFT ?d OR of_nat ?i"
    unfolding large_page_gfn_def
    using gfn_base_split [OF i, of ?d]
    by (simp add: pde_gaddr_def PT_DIR_BASE_ADDR_MASK_def bit_and_iff mask_bits)
  show ?thesis
  proof
    assume "drop_bit PAGE_SHIFT (pde AND PT64_BASE_ADDR_MASK) = large_page_gfn PTTYPE64 pde addr"
    then have eq: "drop_bit PAGE_SHIFT ?d = drop_bit PAGE_SHIFT ?d OR of_nat ?i" unfolding d g .
    have "(of_nat ?i :: u64) = 0"
    proof (rule bit_word_eqI)
      fix n
      have "bit (of_nat ?i :: u64) n \<Longrightarrow> n < 9"
        using nat_bit_bound [of ?i 9 n] i by (simp add: bit_simps)
      moreover have "n < 9 \<Longrightarrow> \<not> bit (drop_bit PAGE_SHIFT ?d) n"
        by (simp add: bit_drop_bit_eq bit_and_iff mask_bits PAGE_SHIFT_def)
      moreover have "bit (of_nat ?i :: u64) n \<Longrightarrow> bit (drop_bit PAGE_SHIFT ?d) n"
        using eq by (metis bit_or_iff)
      ultimately show "bit (of_nat ?i :: u64) n = bit (0 :: u64) n" by auto
    qed
    then have "unat (of_nat ?i :: u64) = 0" by simp
    then show "?i = 0" using i by (simp add: unat_of_nat)
  qed (simp add: d g)
qed

lemma large_page_logs_base_witness:
  "drop_bit PAGE_SHIFT (0x2000e7 AND PT64_BASE_ADDR_MASK) \<noteq> large_page_gfn PTTYPE64 0x2000e7 0x5000"
proof -
  have "\<not> bit (0x2000e7 :: u64) n" if "12 \<le> n" "n < 21" for n
  proof -
    have "n = 12 \<or> n = 13 \<or> n = 14 \<or> n = 15 \<or> n = 16 \<or> n = 17 \<or> n = 18 \<or> n = 19 \<or> n = 20"
      using that by arith
    then show ?thesis by (elim disjE) simp_all
  qed
  moreover have "PT_INDEX PTTYPE64 0x5000 PT_PAGE_TABLE_LEVEL = 5"
    by (simp add: PT_INDEX_def PT64_INDEX_def PT64_LEVEL_SHIFT_def PT64_LEVEL_BITS_def PAGE_SHIFT_def
        PT_PAGE_TABLE_LEVEL_def mask_numeral)
  ultimately show ?thesis using large_page_logs_base [of "0x2000e7" "0x5000"] by simp
qed

end
