(* ===== verification/Guest_Access.thy ===== *)
theory Guest_Access
  imports Guest_Walk
begin

text \<open>
  Copies between the module and guest virtual memory, page by page: \<open>kvm_read_guest\<close>,
  \<open>kvm_write_guest\<close> and the memory operations of the instruction emulator. The locale
  \<open>page_translation\<close> is what the copy loops need of a translation (it works by pages); it is
  interpreted on \<open>gva_to_hpa\<close>, and gives that the loops read and write byte by byte what the
  translation of each address says.
\<close>

section \<open>The copy loops\<close>

definition page_offset :: "u64 \<Rightarrow> nat" where
  "page_offset addr = unat (addr AND NOT PAGE_MASK)"

lemma page_offset_lt [simp]: "page_offset addr < 4096"
  using take_bit_nat_less_exp [of 12 "unat addr"]
  by (simp add: page_offset_def PAGE_MASK_mask take_bit_eq_mask [symmetric] unsigned_take_bit_eq)

definition map_page :: "u64 \<Rightarrow> u64" where
  "map_page paddr = push_bit PAGE_SHIFT (drop_bit PAGE_SHIFT paddr)"

text \<open>\<open>memcpy\<close> from and to host memory.\<close>

definition bytes_at :: "memory \<Rightarrow> u64 \<Rightarrow> nat \<Rightarrow> u8 list" where
  "bytes_at m a n = map (\<lambda>i. m (a + of_nat i)) [0..<n]"

fun put_bytes :: "u64 \<Rightarrow> u8 list \<Rightarrow> memory \<Rightarrow> memory" where
  "put_bytes a [] m = m"
| "put_bytes a (b # bs) m = put_bytes (a + 1) bs (m(a := b))"

text \<open>
  The loops of \<open>kvm_read_guest\<close> and \<open>kvm_write_guest\<close>, over the translation they use. The
  bytes copied before an unmapped page are the result; their number is what the code returns.
\<close>

function read_chunks :: "(vm \<Rightarrow> u64 \<Rightarrow> u64) \<Rightarrow> vm \<Rightarrow> u64 \<Rightarrow> nat \<Rightarrow> u8 list" where
  "read_chunks tr s addr n =
     (if n = 0 then []
      else let paddr = tr s addr
           in if is_error_hpa paddr then []
              else let guest_buf = map_page paddr OR (addr AND NOT PAGE_MASK);
                       now = min n (4096 - page_offset addr)
                   in bytes_at (hmem s) guest_buf now @
                      read_chunks tr s (addr + of_nat now) (n - now))"
  by pat_completeness auto
termination by (relation "measure (\<lambda>(tr, s, addr, n). n)") auto

function write_chunks :: "(vm \<Rightarrow> u64 \<Rightarrow> u64) \<Rightarrow> u64 \<Rightarrow> u8 list \<Rightarrow> vm \<Rightarrow> nat \<times> vm" where
  "write_chunks tr addr data s =
     (if data = [] then (0, s)
      else let paddr = tr s addr
           in if is_error_hpa paddr then (0, s)
              else let guest_buf = map_page paddr OR (addr AND NOT PAGE_MASK);
                       now = min (length data) (4096 - page_offset addr);
                       s = s\<lparr>hmem := put_bytes guest_buf (take now data) (hmem s)\<rparr>;
                       (n, s) = write_chunks tr (addr + of_nat now) (drop now data) s
                   in (now + n, s))"
  by pat_completeness auto
termination by (relation "measure (\<lambda>(tr, addr, data, s). length data)") (auto simp: min_def)

declare read_chunks.simps [simp del] write_chunks.simps [simp del]

definition kvm_read_guest :: "vm \<Rightarrow> u64 \<Rightarrow> nat \<Rightarrow> u8 list" where
  "kvm_read_guest s addr n = read_chunks gva_to_hpa s addr n"

definition kvm_write_guest :: "u64 \<Rightarrow> u8 list \<Rightarrow> vm \<Rightarrow> nat \<times> vm" where
  "kvm_write_guest addr data s = write_chunks gva_to_hpa addr data s"

section \<open>The emulator's memory operations\<close>

datatype x86emul = X86EMUL_CONTINUE | X86EMUL_UNHANDLEABLE | X86EMUL_PROPAGATE_FAULT

text \<open>The bytes copied to \<open>*val\<close> before the result, which is kept by the caller on success only.\<close>

function emulator_read_std :: "vm \<Rightarrow> u64 \<Rightarrow> nat \<Rightarrow> x86emul \<times> u8 list" where
  "emulator_read_std s addr bytes =
     (if bytes = 0 then (X86EMUL_CONTINUE, [])
      else let gpa = mmu_gva_to_gpa s addr;
               tocopy = min bytes (4096 - page_offset addr)
           in if gpa = UNMAPPED_GVA then (X86EMUL_PROPAGATE_FAULT, [])
              else let pfn = drop_bit PAGE_SHIFT gpa
                   in case gfn_to_memslot s pfn of
                        None \<Rightarrow> (X86EMUL_UNHANDLEABLE, [])
                      | Some i \<Rightarrow>
                          let page = push_bit PAGE_SHIFT (gfn_to_page s (memslots s i) pfn);
                              copied = bytes_at (hmem s) (page + of_nat (page_offset addr)) tocopy;
                              (rc, rest) = emulator_read_std s (addr + of_nat tocopy) (bytes - tocopy)
                          in (rc, copied @ rest))"
  by pat_completeness auto
termination by (relation "measure (\<lambda>(s, addr, bytes). bytes)") auto

declare emulator_read_std.simps [simp del]

definition emulator_write_std :: "u64 \<Rightarrow> u64 \<Rightarrow> nat \<Rightarrow> vm \<Rightarrow> x86emul \<times> vm" where
  "emulator_write_std addr val bytes s = (X86EMUL_UNHANDLEABLE, s)"

definition set_mmio :: "u64 \<Rightarrow> nat \<Rightarrow> bool \<Rightarrow> vm \<Rightarrow> vm" where
  "set_mmio gpa bytes is_write s =
     s\<lparr>vcpu := (vcpu s)\<lparr>mmio_needed := True, mmio_phys_addr := gpa, mmio_size := bytes,
                         mmio_is_write := is_write\<rparr>\<rparr>"

definition emulator_read_emulated :: "u64 \<Rightarrow> nat \<Rightarrow> vm \<Rightarrow> x86emul \<times> u8 list \<times> vm" where
  "emulator_read_emulated addr bytes s =
     (if mmio_read_completed (vcpu s) then
        (X86EMUL_CONTINUE, take bytes (mmio_data (vcpu s)),
         s\<lparr>vcpu := (vcpu s)\<lparr>mmio_read_completed := False\<rparr>\<rparr>)
      else let (rc, val) = emulator_read_std s addr bytes
           in if rc = X86EMUL_CONTINUE then (X86EMUL_CONTINUE, val, s)
              else let gpa = mmu_gva_to_gpa s addr
                   in if gpa = UNMAPPED_GVA then (X86EMUL_PROPAGATE_FAULT, val, s)
                      else (X86EMUL_UNHANDLEABLE, val, set_mmio gpa bytes False s))"

text \<open>The low \<open>bytes\<close> bytes of a value, as \<open>memcpy\<close> takes them on this machine.\<close>

definition val_bytes :: "u64 \<Rightarrow> nat \<Rightarrow> u8 list" where
  "val_bytes val bytes = map (\<lambda>i. ucast (drop_bit (8 * i) val)) [0..<bytes]"

definition overlay :: "u8 list \<Rightarrow> u8 list \<Rightarrow> u8 list" where
  "overlay new old = new @ drop (length new) old"

definition emulator_write_emulated :: "u64 \<Rightarrow> u64 \<Rightarrow> nat \<Rightarrow> vm \<Rightarrow> x86emul \<times> vm" where
  "emulator_write_emulated addr val bytes s =
     (let gpa = mmu_gva_to_gpa s addr
      in if gpa = UNMAPPED_GVA then (X86EMUL_PROPAGATE_FAULT, s)
         else let s = set_mmio gpa bytes True s
              in (X86EMUL_CONTINUE,
                  s\<lparr>vcpu := (vcpu s)\<lparr>mmio_data := overlay (val_bytes val bytes) (mmio_data (vcpu s))\<rparr>\<rparr>))"

definition emulator_cmpxchg_emulated :: "u64 \<Rightarrow> u64 \<Rightarrow> u64 \<Rightarrow> nat \<Rightarrow> vm \<Rightarrow> x86emul \<times> vm" where
  "emulator_cmpxchg_emulated addr old new bytes s = emulator_write_emulated addr new bytes s"

section \<open>Byte by byte\<close>

text \<open>The byte a guest virtual address stands for.\<close>

definition guest_byte :: "(vm \<Rightarrow> u64 \<Rightarrow> u64) \<Rightarrow> vm \<Rightarrow> u64 \<Rightarrow> u8 option" where
  "guest_byte tr s a = (if is_error_hpa (tr s a) then None else Some (hmem s (tr s a)))"

fun read_bytes :: "(vm \<Rightarrow> u64 \<Rightarrow> u64) \<Rightarrow> vm \<Rightarrow> u64 \<Rightarrow> nat \<Rightarrow> u8 list" where
  "read_bytes tr s a 0 = []"
| "read_bytes tr s a (Suc n) = (case guest_byte tr s a of
     None \<Rightarrow> [] | Some b \<Rightarrow> b # read_bytes tr s (a + 1) n)"

fun write_bytes :: "(vm \<Rightarrow> u64 \<Rightarrow> u64) \<Rightarrow> u64 \<Rightarrow> u8 list \<Rightarrow> vm \<Rightarrow> nat \<times> vm" where
  "write_bytes tr a [] s = (0, s)"
| "write_bytes tr a (b # bs) s =
     (if is_error_hpa (tr s a) then (0, s)
      else let (n, t) = write_bytes tr (a + 1) bs (s\<lparr>hmem := (hmem s)(tr s a := b)\<rparr>) in (Suc n, t))"

text \<open>Addresses inside the page of \<open>a\<close>.\<close>

lemma in_page:
  assumes "page_offset a + k < 4096"
  shows "(a + of_nat k) AND PAGE_MASK = a AND PAGE_MASK"
    "(a + of_nat k) AND NOT PAGE_MASK = (a AND NOT PAGE_MASK) + of_nat k"
    "page_offset (a + of_nat k) = page_offset a + k"
proof -
  let ?off = "(a AND NOT PAGE_MASK) + of_nat k :: u64"
  have k: "unat (of_nat k :: u64) = k" using assms by (simp add: unat_of_nat)
  have o: "unat ?off = page_offset a + k"
    using assms k by (simp add: page_offset_def unat_word_ariths)
  have lo: "unat (a AND NOT PAGE_MASK) < 4096"
    using page_offset_lt [of a] by (simp only: page_offset_def)
  have "a = (a AND PAGE_MASK) + (a AND NOT PAGE_MASK)"
    using page_plus(1) [OF is_page_mask lo, of a] page_split [of a] by simp
  then have a: "a + of_nat k = (a AND PAGE_MASK) + ?off" by (metis add.assoc)
  have "unat ?off < 4096" using o assms by simp
  note p = page_plus [OF is_page_mask this, of a]
  show "(a + of_nat k) AND PAGE_MASK = a AND PAGE_MASK" using p(2) unfolding a [symmetric] .
  show n: "(a + of_nat k) AND NOT PAGE_MASK = ?off"
    using p(3) unfolding not_page_mask [symmetric] a [symmetric] .
  show "page_offset (a + of_nat k) = page_offset a + k" using n o by (simp add: page_offset_def)
qed

section \<open>Translations that work by pages\<close>

locale page_translation =
  fixes tr :: "vm \<Rightarrow> u64 \<Rightarrow> u64"
    and wf :: "vm \<Rightarrow> bool"
  assumes error_page: "wf s \<Longrightarrow> is_error_hpa (tr s a) = is_error_hpa (tr s (a AND PAGE_MASK))"
    and page_linear: "wf s \<Longrightarrow> \<not> is_error_hpa (tr s a) \<Longrightarrow>
      tr s a = map_page (tr s (a AND PAGE_MASK)) OR (a AND NOT PAGE_MASK)"
begin

lemma map_page_same:
  assumes "wf s" "\<not> is_error_hpa (tr s a)"
  shows "map_page (tr s a) = map_page (tr s (a AND PAGE_MASK))"
proof -
  have "map_page (map_page x OR (a AND NOT PAGE_MASK)) = map_page x" for x
    by (rule bit_word_eqI) (auto simp: map_page_def bit_simps mask_bits PAGE_SHIFT_def)
  then show ?thesis using page_linear [OF assms] by metis
qed

text \<open>The buffer of the loops is the translation of each address of the page.\<close>

lemma buffer_in_page:
  assumes wf: "wf s" and ne: "\<not> is_error_hpa (tr s a)" and k: "page_offset a + k < 4096"
  shows "\<not> is_error_hpa (tr s (a + of_nat k))"
    "tr s (a + of_nat k) = (map_page (tr s a) OR (a AND NOT PAGE_MASK)) + of_nat k"
proof -
  note i = in_page [OF k]
  show ne': "\<not> is_error_hpa (tr s (a + of_nat k))"
    using error_page [OF wf, of "a + of_nat k"] error_page [OF wf, of a] ne i(1) by simp
  let ?P = "map_page (tr s a)"
  have pg: "is_page ?P" by (simp add: map_page_def)
  have o: "unat (a AND NOT PAGE_MASK) < 4096" "unat ((a AND NOT PAGE_MASK) + of_nat k) < 4096"
    using page_offset_lt [of a] i(2,3) k by (simp_all add: page_offset_def)
  have "tr s (a + of_nat k) = ?P OR ((a AND NOT PAGE_MASK) + of_nat k)"
    using page_linear [OF wf ne'] i map_page_same [OF wf ne] by simp
  also have "\<dots> = (?P + (a AND NOT PAGE_MASK)) + of_nat k"
    using page_plus(1) [OF pg o(2)] by (simp add: add.assoc)
  also have "\<dots> = (?P OR (a AND NOT PAGE_MASK)) + of_nat k"
    using page_plus(1) [OF pg o(1)] by simp
  finally show "tr s (a + of_nat k) = (?P OR (a AND NOT PAGE_MASK)) + of_nat k" .
qed

lemma read_bytes_page:
  assumes wf: "wf s" and ne: "\<not> is_error_hpa (tr s a)"
  shows "page_offset a + k \<le> 4096 \<Longrightarrow> read_bytes tr s (a + of_nat j) (k - j + m) =
    map (\<lambda>i. hmem s ((map_page (tr s a) OR (a AND NOT PAGE_MASK)) + of_nat i)) [j..<k] @
    read_bytes tr s (a + of_nat (max j k)) m"
proof (induction "k - j" arbitrary: j)
  case (Suc d)
  then have jk: "j < k" by simp
  note b = buffer_in_page [OF wf ne, of j]
  have "d = k - Suc j" using Suc.hyps(2) by simp
  note ih = Suc.hyps(1) [OF this Suc.prems]
  have "k - j + m = Suc (k - Suc j + m)" using jk by simp
  then show ?case
    using b ih jk Suc.prems by (simp add: guest_byte_def upt_conv_Cons max_def ac_simps)
next
  case 0
  then show ?case by (simp add: max_def)
qed

lemma read_chunks_bytes: "wf s \<Longrightarrow> read_chunks tr s a n = read_bytes tr s a n"
proof (induction n arbitrary: a rule: less_induct)
  case (less n)
  show ?case
  proof (cases "n = 0 \<or> is_error_hpa (tr s a)")
    case True
    then show ?thesis
      by (subst read_chunks.simps) (cases n; auto simp: guest_byte_def)
  next
    case False
    define now where "now = min n (4096 - page_offset a)"
    have now: "0 < now" "now \<le> n" "page_offset a + now \<le> 4096"
      using False page_offset_lt [of a] unfolding now_def by (simp, simp, linarith)
    have "read_chunks tr s a n =
        bytes_at (hmem s) (map_page (tr s a) OR (a AND NOT PAGE_MASK)) now @
        read_chunks tr s (a + of_nat now) (n - now)"
      using False by (subst read_chunks.simps) (simp add: now_def Let_def)
    also have "read_chunks tr s (a + of_nat now) (n - now) = read_bytes tr s (a + of_nat now) (n - now)"
      using less now by simp
    finally show ?thesis
      using read_bytes_page [OF less.prems _ now(3), of 0 "n - now"] False now
      by (simp add: bytes_at_def)
  qed
qed

end

text \<open>A translation that writes to memory do not change, as without paging.\<close>

locale stable_translation = page_translation +
  assumes stable: "wf s \<Longrightarrow> tr (s\<lparr>hmem := m\<rparr>) = tr s"
    and stable_wf: "wf s \<Longrightarrow> wf (s\<lparr>hmem := m\<rparr>)"
begin

lemma write_bytes_page:
  assumes "wf s" "\<not> is_error_hpa (tr s a)" "page_offset a + j + length ds \<le> 4096"
  shows "write_bytes tr (a + of_nat j) (ds @ rest) s =
    (let (n, t) = write_bytes tr (a + of_nat (j + length ds)) rest
           (s\<lparr>hmem := put_bytes ((map_page (tr s a) OR (a AND NOT PAGE_MASK)) + of_nat j) ds (hmem s)\<rparr>)
     in (length ds + n, t))"
  using assms
proof (induction ds arbitrary: j s)
  case Nil
  then show ?case by simp
next
  case (Cons d ds)
  let ?buf = "map_page (tr s a) OR (a AND NOT PAGE_MASK)"
  let ?s = "s\<lparr>hmem := (hmem s)(tr s (a + of_nat j) := d)\<rparr>"
  note b = buffer_in_page [OF Cons.prems(1,2), of j]
  have "page_offset a + Suc j + length ds \<le> 4096" using Cons.prems(3) by simp
  note ih = Cons.IH [of ?s "Suc j", unfolded stable [OF Cons.prems(1)],
      OF stable_wf [OF Cons.prems(1)] Cons.prems(2) this]
  show ?case
    using b ih Cons.prems(3) by (simp add: ac_simps fun_upd_def split: prod.split)
qed

lemma write_in_page:
  assumes "wf s" "\<not> is_error_hpa (tr s a)" "page_offset a + j + length ds \<le> 4096"
  shows "write_bytes tr (a + of_nat j) ds s =
    (length ds, s\<lparr>hmem := put_bytes (tr s a + of_nat j) ds (hmem s)\<rparr>)"
  using write_bytes_page [OF assms, of "[]"] buffer_in_page(2) [OF assms(1,2), of 0] by simp

lemma write_chunks_bytes: "wf s \<Longrightarrow> write_chunks tr a ds s = write_bytes tr a ds s"
proof (induction "length ds" arbitrary: a ds s rule: less_induct)
  case less
  show ?case
  proof (cases "ds = [] \<or> is_error_hpa (tr s a)")
    case True
    then show ?thesis
      by (subst write_chunks.simps) (cases ds; auto)
  next
    case False
    define now where "now = min (length ds) (4096 - page_offset a)"
    have now: "0 < now" "now \<le> length ds" "page_offset a + now \<le> 4096"
      using False page_offset_lt [of a] unfolding now_def by (simp, simp, linarith)
    let ?s = "s\<lparr>hmem := put_bytes (map_page (tr s a) OR (a AND NOT PAGE_MASK)) (take now ds) (hmem s)\<rparr>"
    have "write_chunks tr a ds s =
        (let (n, t) = write_chunks tr (a + of_nat now) (drop now ds) ?s in (now + n, t))"
      using False by (subst write_chunks.simps) (simp add: now_def Let_def)
    also have "write_chunks tr (a + of_nat now) (drop now ds) ?s =
        write_bytes tr (a + of_nat now) (drop now ds) ?s"
      by (rule less.hyps) (use now stable_wf [OF less.prems] in auto)
    finally show ?thesis
      using write_bytes_page [OF less.prems, of a 0 "take now ds" "drop now ds"] False now
      by (simp add: min_def)
  qed
qed

end

section \<open>The translation of the guest works by pages\<close>

lemma PT_INDEX_page: "PT_INDEX pt (a AND PAGE_MASK) l = PT_INDEX pt a l"
proof (cases pt)
  case PTTYPE32
  have "drop_bit (PT32_LEVEL_SHIFT l) (a AND PAGE_MASK) = drop_bit (PT32_LEVEL_SHIFT l) a"
    by (rule bit_word_eqI)
      (auto simp: bit_simps mask_bits PT32_LEVEL_SHIFT_def PAGE_SHIFT_def dest: bit_imp_le_length)
  then show ?thesis by (simp add: PTTYPE32 PT_INDEX_def PT32_INDEX_def)
qed (simp add: PT_INDEX_def)

lemma fetch_guest_from_page:
  "fetch_guest_from n pt s l (a AND PAGE_MASK) w = fetch_guest_from n pt s l a w"
  by (induction n pt s l a w rule: fetch_guest_from.induct)
    (simp_all add: guest_ent_def PT_INDEX_page Let_def)

lemma fetch_guest_page: "fetch_guest pt s l (a AND PAGE_MASK) w = fetch_guest pt s l a w"
  by (simp add: fetch_guest_def fetch_guest_from_page)

text \<open>What the slots and the context must be for the translation to work by pages.\<close>

definition translation_ok :: "vm \<Rightarrow> bool" where
  "translation_ok s \<longleftrightarrow> slots_ok s"

text \<open>A guest physical address that is in no slot when it is \<open>UNMAPPED_GVA\<close> or has its frame.\<close>

lemma last_frame_error:
  assumes "slots_ok s" "drop_bit PAGE_SHIFT gpa = drop_bit PAGE_SHIFT UNMAPPED_GVA"
  shows "is_error_hpa (gpa_to_hpa s gpa)"
proof -
  have "unat (drop_bit PAGE_SHIFT UNMAPPED_GVA) = 2 ^ 52 - 1"
    by (simp add: UNMAPPED_GVA_def PAGE_SHIFT_def mask_numeral)
  moreover have "2 ^ 52 - 1 \<notin> slot_frames (memslots s i)" if "i < KVM_MEMORY_SLOTS" for i
    using slots_okD(2) [OF assms(1) that] by (auto simp: slot_frames_def slot_in_range_def)
  ultimately have "gfn_to_memslot s (drop_bit PAGE_SHIFT gpa) = None"
    using assms(2) by (simp add: gfn_to_memslot_None [OF assms(1)])
  then show ?thesis
    by (simp add: gpa_to_hpa_def is_error_hpa_bit bit_or_iff mask_bits)
qed

lemma gva_to_hpa_gpa:
  assumes "slots_ok s"
  shows "is_error_hpa (gva_to_hpa s a) = is_error_hpa (gpa_to_hpa s (mmu_gva_to_gpa s a))"
    "\<not> is_error_hpa (gva_to_hpa s a) \<Longrightarrow> gva_to_hpa s a = gpa_to_hpa s (mmu_gva_to_gpa s a)"
  using last_frame_error [OF assms, of UNMAPPED_GVA]
  by (auto simp: gva_to_hpa_def Let_def is_error_hpa_bit UNMAPPED_GVA_def bit_simps)

text \<open>The guest physical address of an address is that of its page with the offset put in.\<close>

lemma mmu_gva_to_gpa_page:
  "mmu_gva_to_gpa s a = UNMAPPED_GVA \<and> mmu_gva_to_gpa s (a AND PAGE_MASK) = UNMAPPED_GVA \<or>
   mmu_gva_to_gpa s a = mmu_gva_to_gpa s (a AND PAGE_MASK) OR (a AND NOT PAGE_MASK) \<and>
   is_page (mmu_gva_to_gpa s (a AND PAGE_MASK))"
proof -
  have np: "a = (a AND PAGE_MASK) OR (a AND NOT PAGE_MASK)" by (simp add: page_split)
  have pg: "paging_gva_to_gpa pt s a = UNMAPPED_GVA \<and> paging_gva_to_gpa pt s (a AND PAGE_MASK) = UNMAPPED_GVA \<or>
      paging_gva_to_gpa pt s a = paging_gva_to_gpa pt s (a AND PAGE_MASK) OR (a AND NOT PAGE_MASK) \<and>
      is_page (paging_gva_to_gpa pt s (a AND PAGE_MASK))" for pt
  proof -
    obtain ent w where f: "fetch_guest pt s PT_PAGE_TABLE_LEVEL a (init_walker s) = (ent, w)"
      by fastforce
    have f': "fetch_guest pt s PT_PAGE_TABLE_LEVEL (a AND PAGE_MASK) (init_walker s) = (ent, w)"
      using f by (simp add: fetch_guest_page)
    let ?e = "guest_read pt s ent"
    have lo: "\<not> bit (PT_LEVEL_MASK pt' PT_PAGE_TABLE_LEVEL) n"
        "\<not> bit (PT_DIR_BASE_ADDR_MASK pt') n" "\<not> bit (PT_BASE_ADDR_MASK pt') n"
      if "n < 12" for n pt'
      using that by (cases pt'; simp add: PT_PAGE_TABLE_LEVEL_def PT_DIR_BASE_ADDR_MASK_def
          PT_BASE_ADDR_MASK_def mask_bits)+
    have pse: "\<not> bit (push_bit (32 - PT32_DIR_PSE36_SHIFT) (x :: u64)) n"
      if "n < 12" for n x using that by (simp add: bit_push_bit_iff bit_and_iff PT32_DIR_PSE36_SHIFT_def)
    show ?thesis
    proof (cases "is_present_pte ?e")
      case False
      then show ?thesis using f f' by (simp add: paging_gva_to_gpa_def)
    next
      case True
      have "paging_gva_to_gpa pt s a = paging_gva_to_gpa pt s (a AND PAGE_MASK) OR (a AND NOT PAGE_MASK)"
        using True f f' by (intro bit_word_eqI)
          (auto simp: paging_gva_to_gpa_def Let_def bit_or_iff bit_and_iff bit_not_iff mask_bits)
      moreover have "is_page (paging_gva_to_gpa pt s (a AND PAGE_MASK))"
        unfolding is_page_def using True f' by (intro bit_word_eqI)
          (auto simp: paging_gva_to_gpa_def Let_def bit_or_iff bit_and_iff bit_not_iff
            bit_take_bit_iff mask_bits lo pse)
      ultimately show ?thesis by blast
    qed
  qed
  show ?thesis
    using pg np by (auto simp: mmu_gva_to_gpa_def nonpaging_gva_to_gpa_def split: option.split mmu_context.split)
qed

lemma gpa_to_hpa_page:
  assumes "is_page p" "gpa = p OR (a AND NOT PAGE_MASK)"
  shows "is_error_hpa (gpa_to_hpa s gpa) = is_error_hpa (gpa_to_hpa s p)"
    "\<not> is_error_hpa (gpa_to_hpa s gpa) \<Longrightarrow>
      gpa_to_hpa s gpa = map_page (gpa_to_hpa s p) OR (a AND NOT PAGE_MASK)"
proof -
  have d: "drop_bit PAGE_SHIFT gpa = drop_bit PAGE_SHIFT p"
    unfolding assms(2) by (rule bit_word_eqI) (auto simp: bit_simps mask_bits PAGE_SHIFT_def)
  have o: "gpa AND (PAGE_SIZE - 1) = a AND NOT PAGE_MASK" "p AND (PAGE_SIZE - 1) = 0"
    using is_page_bit [OF assms(1)] unfolding assms(2) not_page_mask
    by (auto intro!: bit_word_eqI simp: bit_simps mask_bits)
  have m: "map_page (push_bit PAGE_SHIFT f) = push_bit PAGE_SHIFT f" for f
    by (simp add: map_page_def is_page_shift)
  have off: "\<not> bit (a AND NOT PAGE_MASK) 63" by (simp add: bit_and_iff bit_not_iff mask_bits)
  show "is_error_hpa (gpa_to_hpa s gpa) = is_error_hpa (gpa_to_hpa s p)"
    using off by (auto simp: gpa_to_hpa_def d o is_error_hpa_bit bit_or_iff mask_bits split: option.split)
  show "\<not> is_error_hpa (gpa_to_hpa s gpa) \<Longrightarrow>
      gpa_to_hpa s gpa = map_page (gpa_to_hpa s p) OR (a AND NOT PAGE_MASK)"
    by (cases "gfn_to_memslot s (drop_bit PAGE_SHIFT p)")
      (simp_all add: gpa_to_hpa_def d o m is_error_hpa_bit bit_or_iff mask_bits)
qed

lemma gva_to_hpa_page:
  assumes "slots_ok s"
  shows "is_error_hpa (gva_to_hpa s a) = is_error_hpa (gva_to_hpa s (a AND PAGE_MASK))"
    "\<not> is_error_hpa (gva_to_hpa s a) \<Longrightarrow>
      gva_to_hpa s a = map_page (gva_to_hpa s (a AND PAGE_MASK)) OR (a AND NOT PAGE_MASK)"
proof -
  note g = gva_to_hpa_gpa [OF assms] and pg = mmu_gva_to_gpa_page [of s a]
  note p = gpa_to_hpa_page [of "mmu_gva_to_gpa s (a AND PAGE_MASK)" "mmu_gva_to_gpa s a" a s]
  have err: "is_error_hpa (gpa_to_hpa s UNMAPPED_GVA)" by (rule last_frame_error [OF assms refl])
  show e: "is_error_hpa (gva_to_hpa s a) = is_error_hpa (gva_to_hpa s (a AND PAGE_MASK))"
    using pg
  proof
    assume "mmu_gva_to_gpa s a = UNMAPPED_GVA \<and> mmu_gva_to_gpa s (a AND PAGE_MASK) = UNMAPPED_GVA"
    then show ?thesis using g(1) by simp
  next
    assume "mmu_gva_to_gpa s a = mmu_gva_to_gpa s (a AND PAGE_MASK) OR (a AND NOT PAGE_MASK) \<and>
      is_page (mmu_gva_to_gpa s (a AND PAGE_MASK))"
    then show ?thesis using p(1) g(1) [of a] g(1) [of "a AND PAGE_MASK"] by blast
  qed
  assume ne: "\<not> is_error_hpa (gva_to_hpa s a)"
  then have "mmu_gva_to_gpa s a \<noteq> UNMAPPED_GVA" using g(1) [of a] err by auto
  with pg have q: "mmu_gva_to_gpa s a = mmu_gva_to_gpa s (a AND PAGE_MASK) OR (a AND NOT PAGE_MASK)"
    "is_page (mmu_gva_to_gpa s (a AND PAGE_MASK))" by blast+
  have ne': "\<not> is_error_hpa (gva_to_hpa s (a AND PAGE_MASK))" using ne e by blast
  have "\<not> is_error_hpa (gpa_to_hpa s (mmu_gva_to_gpa s a))" using ne g(1) by blast
  from p(2) [OF q(2,1) this]
  show "gva_to_hpa s a = map_page (gva_to_hpa s (a AND PAGE_MASK)) OR (a AND NOT PAGE_MASK)"
    unfolding g(2) [OF ne] g(2) [OF ne'] .
qed

interpretation guest: page_translation gva_to_hpa translation_ok
  by unfold_locales (unfold translation_ok_def, fact gva_to_hpa_page, fact gva_to_hpa_page)

definition nonpaging_ok :: "vm \<Rightarrow> bool" where
  "nonpaging_ok s \<longleftrightarrow> slots_ok s \<and> mmu_ctx (mmu (vcpu s)) = Some Nonpaging"

interpretation flat: stable_translation gva_to_hpa nonpaging_ok
proof unfold_locales
  fix s :: vm and a m
  assume ok: "nonpaging_ok s"
  then have so: "slots_ok s" by (simp add: nonpaging_ok_def)
  show "is_error_hpa (gva_to_hpa s a) = is_error_hpa (gva_to_hpa s (a AND PAGE_MASK))"
    "\<not> is_error_hpa (gva_to_hpa s a) \<Longrightarrow>
      gva_to_hpa s a = map_page (gva_to_hpa s (a AND PAGE_MASK)) OR (a AND NOT PAGE_MASK)"
    using gva_to_hpa_page [OF so] by blast+
  have "gpa_to_hpa (s\<lparr>hmem := m\<rparr>) = gpa_to_hpa s"
    by (rule gpa_to_hpa_cong) simp_all
  then show "gva_to_hpa (s\<lparr>hmem := m\<rparr>) = gva_to_hpa s"
    using ok by (simp add: fun_eq_iff gva_to_hpa_def mmu_gva_to_gpa_def nonpaging_ok_def
        nonpaging_gva_to_gpa_def)
  show "nonpaging_ok (s\<lparr>hmem := m\<rparr>)"
    using ok by (simp add: nonpaging_ok_def slots_ok_def)
qed

lemma example_shadow_slots: "slots_ok example_shadow" "mmu_ctx (mmu (vcpu example_shadow)) = Some Nonpaging"
  by (auto simp: slots_ok_def example_shadow_def example_pool_def zero_defs slot_in_range_def
      slot_frames_def KVM_MEMORY_SLOTS_def)

lemma example_shadow_gva:
  "gva_to_hpa example_shadow 0x10 = 0x9010" "gva_to_hpa example_shadow 0x11 = 0x9011"
  by (simp_all add: gva_to_hpa_def mmu_gva_to_gpa_def example_shadow_slots nonpaging_gva_to_gpa_def)
    (simp_all add: gpa_to_hpa_def gfn_to_memslot_def gfn_in_slot_def gfn_to_page_def varray_def
      arr_get_def example_shadow_def zero_defs PAGE_SHIFT_def PAGE_SIZE_val UNMAPPED_GVA_def)

lemma example_gva_ok: "\<not> is_error_hpa 0x9010" "\<not> is_error_hpa 0x9011"
  by (simp_all add: is_error_hpa_def HPA_MSB_def)

section \<open>Properties\<close>

text \<open>
  C11: \<open>kvm_read_guest\<close> copies page by page, but what it returns is the sequence of bytes that
  the guest sees from the address on, up to the first address without a host page.
\<close>

theorem kvm_read_guest_bytes:
  assumes "slots_ok s"
  shows "kvm_read_guest s a n = read_bytes gva_to_hpa s a n"
  unfolding kvm_read_guest_def by (rule guest.read_chunks_bytes) (simp add: translation_ok_def assms)

lemma kvm_read_guest_bytes_witness: "kvm_read_guest example_shadow 0x10 (Suc (Suc 0)) = [0, 0]"
proof -
  have "hmem example_shadow = (\<lambda>_. 0)"
    by (simp add: example_shadow_def example_pool_def zero_defs)
  then show ?thesis
    using kvm_read_guest_bytes [OF example_shadow_slots(1), of "0x10" "Suc (Suc 0)"]
    by (simp add: guest_byte_def example_shadow_gva example_gva_ok)
qed



end
