(* ===== verification/Cr_Access.thy ===== *)
theory Cr_Access
  imports Guest_Access
begin

text \<open>
  Control registers and modes of the guest: the switch between protected mode and the
  virtual-8086 mode that stands for real mode (\<open>enter_rmode\<close>, \<open>enter_pmode\<close>), long mode, and the
  writes to \<open>CR0\<close>, \<open>CR3\<close>, \<open>CR4\<close>, \<open>CR8\<close> and \<open>EFER\<close> with the faults they raise.
\<close>

section \<open>Constants\<close>

definition MSR_EFER :: u32 where
  "MSR_EFER = 0xc0000080"

definition TSS_IOPB_BASE_OFFSET :: nat where
  "TSS_IOPB_BASE_OFFSET = 0x66"

definition TSS_BASE_SIZE :: nat where
  "TSS_BASE_SIZE = 0x68"

definition TSS_IOPB_SIZE :: nat where
  "TSS_IOPB_SIZE = 65536 div 8"

definition TSS_REDIRECTION_SIZE :: nat where
  "TSS_REDIRECTION_SIZE = 256 div 8"

definition RMODE_TSS_SIZE :: nat where
  "RMODE_TSS_SIZE = TSS_BASE_SIZE + TSS_REDIRECTION_SIZE + TSS_IOPB_SIZE + 1"

definition CR0_RESEVED_BITS :: u64 where
  "CR0_RESEVED_BITS = 0xffffffff1ffaffc0"

definition LMSW_GUEST_MASK :: u64 where
  "LMSW_GUEST_MASK = 0x0e"

definition CR4_RESEVED_BITS :: u64 where
  "CR4_RESEVED_BITS = NOT (mask 11)"

definition CR8_RESEVED_BITS :: u64 where
  "CR8_RESEVED_BITS = NOT 0x0f"

definition EFER_RESERVED_BITS :: u64 where
  "EFER_RESERVED_BITS = 0xfffffffffffff2fe"

section \<open>Model-specific registers of the guest\<close>

definition find_msr_entry :: "vm \<Rightarrow> u32 \<Rightarrow> nat option" where
  "find_msr_entry s msr =
     List.find (\<lambda>i. msr_index (guest_msrs (vcpu s) ! i) = msr) [0..<nmsrs (vcpu s)]"

text \<open>\<open>entry->data = f(entry->data)\<close> through the pointer \<open>find_msr_entry\<close> returned.\<close>

definition update_msr :: "nat option \<Rightarrow> (u64 \<Rightarrow> u64) \<Rightarrow> vm \<Rightarrow> vm" where
  "update_msr entry f s = (case entry of
     None \<Rightarrow> s\<lparr>kernel_bug := True\<rparr>
   | Some i \<Rightarrow> s\<lparr>vcpu := (vcpu s)\<lparr>guest_msrs := (guest_msrs (vcpu s))
       [i := (guest_msrs (vcpu s) ! i)\<lparr>msr_data := f (msr_data (guest_msrs (vcpu s) ! i))\<rparr>]\<rparr>\<rparr>)"

definition set_shadow_efer :: "u64 \<Rightarrow> vm \<Rightarrow> vm" where
  "set_shadow_efer efer s = s\<lparr>vcpu := (vcpu s)\<lparr>shadow_efer := efer\<rparr>\<rparr>"

section \<open>Faults\<close>

definition inject_gp :: "vm \<Rightarrow> vm" where
  "inject_gp s =
     (let s = vmcs_write32 VM_ENTRY_EXCEPTION_ERROR_CODE 0 s
      in vmcs_write32 VM_ENTRY_INTR_INFO_FIELD
           (GP_VECTOR OR INTR_TYPE_EXCEPTION OR INTR_INFO_DELIEVER_CODE_MASK OR
            INTR_INFO_VALID_MASK) s)"

definition update_exception_bitmap :: "vm \<Rightarrow> vm" where
  "update_exception_bitmap s =
     (if rmode_active (rmode (vcpu s)) then vmcs_write32 EXCEPTION_BITMAP (NOT 0) s
      else vmcs_write32 EXCEPTION_BITMAP (push_bit (unat PF_VECTOR) 1) s)"

definition skip_emulated_instruction :: "vm \<Rightarrow> vm" where
  "skip_emulated_instruction s =
     (let rip = vmcs_readl s GUEST_RIP + ucast (vmcs_read32 s VM_EXIT_INSTRUCTION_LEN);
          s = vmcs_writel GUEST_RIP rip s;
          interruptibility = vmcs_read32 s GUEST_INTERRUPTIBILITY_INFO
      in if interruptibility AND 3 \<noteq> 0
         then vmcs_write32 GUEST_INTERRUPTIBILITY_INFO (interruptibility AND NOT 3) s
         else s)"

section \<open>Real mode and protected mode\<close>

definition set_rmode :: "rmode_save \<Rightarrow> vm \<Rightarrow> vm" where
  "set_rmode r s = s\<lparr>vcpu := (vcpu s)\<lparr>rmode := r\<rparr>\<rparr>"

text \<open>\<open>FIX_PMODE_DATASEG\<close>: the selector, base, limit and access rights fields of a segment.\<close>

definition fix_pmode_dataseg :: "nat \<Rightarrow> nat \<Rightarrow> nat \<Rightarrow> nat \<Rightarrow> vm \<Rightarrow> vm" where
  "fix_pmode_dataseg sel base limit ar s =
     (let s = vmcs_write16 sel 0 s;
          s = vmcs_writel base 0 s;
          s = vmcs_write32 limit 0xffff s
      in vmcs_write32 ar 0x93 s)"

definition pmode_segments :: "vm \<Rightarrow> vm" where
  "pmode_segments s =
     (let s = fix_pmode_dataseg GUEST_SS_SELECTOR GUEST_SS_BASE GUEST_SS_LIMIT GUEST_SS_AR_BYTES s;
          s = fix_pmode_dataseg GUEST_ES_SELECTOR GUEST_ES_BASE GUEST_ES_LIMIT GUEST_ES_AR_BYTES s;
          s = fix_pmode_dataseg GUEST_DS_SELECTOR GUEST_DS_BASE GUEST_DS_LIMIT GUEST_DS_AR_BYTES s;
          s = fix_pmode_dataseg GUEST_GS_SELECTOR GUEST_GS_BASE GUEST_GS_LIMIT GUEST_GS_AR_BYTES s;
          s = fix_pmode_dataseg GUEST_FS_SELECTOR GUEST_FS_BASE GUEST_FS_LIMIT GUEST_FS_AR_BYTES s;
          s = vmcs_write16 GUEST_CS_SELECTOR
                (vmcs_read16 s GUEST_CS_SELECTOR AND NOT SELECTOR_RPL_MASK) s
      in vmcs_write32 GUEST_CS_AR_BYTES 0x9b s)"

definition enter_pmode :: "vm \<Rightarrow> vm" where
  "enter_pmode s =
     (let s = set_rmode ((rmode (vcpu s))\<lparr>rmode_active := False\<rparr>) s;
          s = vmcs_writel GUEST_TR_BASE (rm_tr_base (rmode (vcpu s))) s;
          s = vmcs_write32 GUEST_TR_LIMIT (rm_tr_limit (rmode (vcpu s))) s;
          s = vmcs_write32 GUEST_TR_AR_BYTES (rm_tr_ar (rmode (vcpu s))) s;
          flags = vmcs_readl s GUEST_RFLAGS;
          flags = flags AND NOT (IOPL_MASK OR X86_EFLAGS_VM);
          flags = flags OR push_bit IOPL_SHIFT (ucast (save_iopl (rmode (vcpu s))));
          s = vmcs_writel GUEST_RFLAGS flags s;
          s = vmcs_writel GUEST_CR4 ((vmcs_readl s GUEST_CR4 AND NOT CR4_VME_MASK) OR
                (vmcs_readl s CR0_READ_SHADOW AND CR4_VME_MASK)) s;
          s = update_exception_bitmap s
      in pmode_segments s)"

text \<open>The result is an \<open>int\<close>: the guest physical address is cut to 32 bits.\<close>

definition rmode_tss_base :: "vm \<Rightarrow> u32" where
  "rmode_tss_base s =
     (let base_gfn = base_gfn (memslots s 0) + npages (memslots s 0) - 3
      in ucast (push_bit PAGE_SHIFT base_gfn))"

definition fix_rmode_seg :: "nat \<Rightarrow> nat \<Rightarrow> nat \<Rightarrow> nat \<Rightarrow> vm \<Rightarrow> vm" where
  "fix_rmode_seg sel base limit ar s =
     (let s = vmcs_write16 sel (ucast (drop_bit 4 (vmcs_readl s base))) s;
          s = vmcs_write32 limit 0xffff s
      in vmcs_write32 ar 0xf3 s)"

definition rmode_segments :: "vm \<Rightarrow> vm" where
  "rmode_segments s =
     (let s = vmcs_write32 GUEST_CS_AR_BYTES 0xf3 s;
          s = vmcs_write16 GUEST_CS_SELECTOR (ucast (drop_bit 4 (vmcs_readl s GUEST_CS_BASE))) s;
          s = fix_rmode_seg GUEST_ES_SELECTOR GUEST_ES_BASE GUEST_ES_LIMIT GUEST_ES_AR_BYTES s;
          s = fix_rmode_seg GUEST_DS_SELECTOR GUEST_DS_BASE GUEST_DS_LIMIT GUEST_DS_AR_BYTES s;
          s = fix_rmode_seg GUEST_SS_SELECTOR GUEST_SS_BASE GUEST_SS_LIMIT GUEST_SS_AR_BYTES s;
          s = fix_rmode_seg GUEST_GS_SELECTOR GUEST_GS_BASE GUEST_GS_LIMIT GUEST_GS_AR_BYTES s
      in fix_rmode_seg GUEST_FS_SELECTOR GUEST_FS_BASE GUEST_FS_LIMIT GUEST_FS_AR_BYTES s)"

definition enter_rmode :: "vm \<Rightarrow> vm" where
  "enter_rmode s =
     (let s = set_rmode ((rmode (vcpu s))\<lparr>rmode_active := True\<rparr>) s;
          s = set_rmode ((rmode (vcpu s))\<lparr>rm_tr_base := vmcs_readl s GUEST_TR_BASE\<rparr>) s;
          s = vmcs_writel GUEST_TR_BASE (scast (rmode_tss_base s)) s;
          s = set_rmode ((rmode (vcpu s))\<lparr>rm_tr_limit := vmcs_read32 s GUEST_TR_LIMIT\<rparr>) s;
          s = vmcs_write32 GUEST_TR_LIMIT (of_nat RMODE_TSS_SIZE - 1) s;
          s = set_rmode ((rmode (vcpu s))\<lparr>rm_tr_ar := vmcs_read32 s GUEST_TR_AR_BYTES\<rparr>) s;
          s = vmcs_write32 GUEST_TR_AR_BYTES 0x008b s;
          flags = vmcs_readl s GUEST_RFLAGS;
          s = set_rmode ((rmode (vcpu s))\<lparr>save_iopl :=
                ucast (drop_bit IOPL_SHIFT (flags AND IOPL_MASK))\<rparr>) s;
          flags = flags OR IOPL_MASK OR X86_EFLAGS_VM;
          s = vmcs_writel GUEST_RFLAGS flags s;
          s = vmcs_writel GUEST_CR4 (vmcs_readl s GUEST_CR4 OR CR4_VME_MASK) s;
          s = update_exception_bitmap s
      in rmode_segments s)"

text \<open>The three pages of the task state segment for virtual-8086 mode; \<open>False\<close> is the result 0.\<close>

definition init_rmode_tss :: "vm \<Rightarrow> bool \<times> vm" where
  "init_rmode_tss s =
     (let fn = scast (signed_drop_bit PAGE_SHIFT (rmode_tss_base s));
          p1 = gfn_to_page_opt s fn;
          p2 = gfn_to_page_opt s (fn + 1);
          p3 = gfn_to_page_opt s (fn + 2)
      in if p1 = 0 \<or> p2 = 0 \<or> p3 = 0 then (False, s)
         else
           let page = push_bit PAGE_SHIFT p1;
               iopb = TSS_BASE_SIZE + TSS_REDIRECTION_SIZE;
               m = zero_page page (hmem s);
               m = m(page + of_nat TSS_IOPB_BASE_OFFSET := of_nat (iopb mod 256),
                     page + of_nat TSS_IOPB_BASE_OFFSET + 1 := of_nat (iopb div 256));
               m = zero_page (push_bit PAGE_SHIFT p2) m;
               page = push_bit PAGE_SHIFT p3;
               m = zero_page page m;
               m = m(page + of_nat (RMODE_TSS_SIZE - 2 * 4096 - 1) := NOT 0)
           in (True, s\<lparr>hmem := m\<rparr>))"

section \<open>Long mode\<close>

definition internal_set_efer :: "u64 \<Rightarrow> vm \<Rightarrow> vm" where
  "internal_set_efer efer s =
     (let msr = find_msr_entry s MSR_EFER;
          s = set_shadow_efer efer s
      in if efer AND EFER_LMA \<noteq> 0 then
           let s = vmcs_write32 VM_ENTRY_CONTROLS
                     (vmcs_read32 s VM_ENTRY_CONTROLS OR VM_ENTRY_CONTROLS_IA32E_MASK) s
           in update_msr msr (\<lambda>_. efer) s
         else
           let s = vmcs_write32 VM_ENTRY_CONTROLS
                     (vmcs_read32 s VM_ENTRY_CONTROLS AND NOT VM_ENTRY_CONTROLS_IA32E_MASK) s
           in update_msr msr (\<lambda>_. efer AND NOT EFER_LME) s)"

definition enter_lmode :: "vm \<Rightarrow> vm" where
  "enter_lmode s =
     (let guest_tr_ar = vmcs_read32 s GUEST_TR_AR_BYTES;
          s = (if guest_tr_ar AND AR_TYPE_MASK \<noteq> AR_TYPE_BUSY_64_TSS
               then vmcs_write32 GUEST_TR_AR_BYTES
                      ((guest_tr_ar AND NOT AR_TYPE_MASK) OR AR_TYPE_BUSY_64_TSS) s
               else s);
          s = set_shadow_efer (shadow_efer (vcpu s) OR EFER_LMA) s;
          s = update_msr (find_msr_entry s MSR_EFER) (\<lambda>d. d OR EFER_LMA OR EFER_LME) s
      in vmcs_write32 VM_ENTRY_CONTROLS
           (vmcs_read32 s VM_ENTRY_CONTROLS OR VM_ENTRY_CONTROLS_IA32E_MASK) s)"

definition exit_lmode :: "vm \<Rightarrow> vm" where
  "exit_lmode s =
     (let s = set_shadow_efer (shadow_efer (vcpu s) AND NOT EFER_LMA) s
      in vmcs_write32 VM_ENTRY_CONTROLS
           (vmcs_read32 s VM_ENTRY_CONTROLS AND NOT VM_ENTRY_CONTROLS_IA32E_MASK) s)"

section \<open>Writes to control registers\<close>

definition internal_set_cr0 :: "u64 \<Rightarrow> vm \<Rightarrow> vm" where
  "internal_set_cr0 cr0 s =
     (let s = (if rmode_active (rmode (vcpu s)) \<and> cr0 AND CR0_PE_MASK \<noteq> 0
               then enter_pmode s else s);
          s = (if \<not> rmode_active (rmode (vcpu s)) \<and> cr0 AND CR0_PE_MASK = 0
               then enter_rmode s else s);
          s = (if shadow_efer (vcpu s) AND EFER_LME \<noteq> 0 then
                 let s = (if \<not> is_paging s \<and> cr0 AND CR0_PG_MASK \<noteq> 0 then enter_lmode s else s)
                 in if is_paging s \<and> cr0 AND CR0_PG_MASK = 0 then exit_lmode s else s
               else s);
          s = vmcs_writel CR0_READ_SHADOW cr0 s
      in vmcs_writel GUEST_CR0 (cr0 OR KVM_VM_CR0_ALWAYS_ON) s)"

text \<open>
  The loop over the four page directory pointers; \<open>True\<close> when one is present with a reserved
  bit set. A frame outside the slots is a \<open>NULL\<close> slot that \<open>gfn_to_page\<close> dereferences.
\<close>

definition pdpte_address :: "u64 \<Rightarrow> u64 \<Rightarrow> nat \<Rightarrow> u64" where
  "pdpte_address pdpt root i = pt_entry pdpt (unat (drop_bit 5 (root AND (PAGE_SIZE - 1))) + i)"

definition pdptrs_have_reserved_bits_set :: "u64 \<Rightarrow> vm \<Rightarrow> bool \<times> vm" where
  "pdptrs_have_reserved_bits_set root s =
     (let pdpt_gfn = drop_bit PAGE_SHIFT root
      in case gfn_to_memslot s pdpt_gfn of
           None \<Rightarrow> (True, s\<lparr>kernel_bug := True\<rparr>)
         | Some slot \<Rightarrow>
             let pdpt = push_bit PAGE_SHIFT (gfn_to_page s (memslots s slot) pdpt_gfn)
             in (\<exists>i \<in> set [0..<4].
                   let pdpte = pte_read s (pdpte_address pdpt root i)
                   in pdpte AND 1 \<noteq> 0 \<and> pdpte AND 0xfffffff0000001e6 \<noteq> 0, s))"

text \<open>The checks of \<open>set_cr0\<close> before the write; \<open>True\<close> means that \<open>#GP\<close> is injected.\<close>

definition cr0_write_faults :: "u64 \<Rightarrow> vm \<Rightarrow> bool \<times> vm" where
  "cr0_write_faults cr0 s =
     (if cr0 AND CR0_RESEVED_BITS \<noteq> 0 then (True, s)
      else if cr0 AND CR0_NW_MASK \<noteq> 0 \<and> cr0 AND CR0_CD_MASK = 0 then (True, s)
      else if cr0 AND CR0_PG_MASK \<noteq> 0 \<and> cr0 AND CR0_PE_MASK = 0 then (True, s)
      else if \<not> is_paging s \<and> cr0 AND CR0_PG_MASK \<noteq> 0 then
        if shadow_efer (vcpu s) AND EFER_LME \<noteq> 0 then
          if \<not> is_pae s then (True, s)
          else (vmcs_read32 s GUEST_CS_AR_BYTES AND SEGMENT_AR_L_MASK \<noteq> 0, s)
        else if is_pae s then pdptrs_have_reserved_bits_set (cr3 (vcpu s)) s
        else (False, s)
      else (False, s))"

definition set_cr0 :: "u64 \<Rightarrow> vm \<Rightarrow> vm" where
  "set_cr0 cr0 s =
     (let (fault, s) = cr0_write_faults cr0 s
      in if fault then inject_gp s
         else kvm_mmu_reset_context (internal_set_cr0 cr0 s))"

definition lmsw :: "u64 \<Rightarrow> vm \<Rightarrow> vm" where
  "lmsw msw s =
     (let cr0 = guest_cr0 s;
          s = (if msw AND CR0_PE_MASK \<noteq> 0 \<and> cr0 AND CR0_PE_MASK = 0 then
                 let s = enter_pmode s
                 in vmcs_writel CR0_READ_SHADOW (cr0 OR CR0_PE_MASK) s
               else s)
      in vmcs_writel GUEST_CR0 ((vmcs_readl s GUEST_CR0 AND NOT LMSW_GUEST_MASK) OR
           (msw AND LMSW_GUEST_MASK)) s)"

definition internal_set_cr4 :: "u64 \<Rightarrow> vm \<Rightarrow> vm" where
  "internal_set_cr4 cr4 s =
     (let s = vmcs_writel CR4_READ_SHADOW cr4 s
      in vmcs_writel GUEST_CR4 (cr4 OR (if rmode_active (rmode (vcpu s))
           then KVM_RMODE_VM_CR4_ALWAYS_ON else KVM_PMODE_VM_CR4_ALWAYS_ON)) s)"

text \<open>
  The reserved bits of the page directory pointers inject \<open>#GP\<close> but, unlike the other checks,
  do not end the function.
\<close>

definition set_cr4 :: "u64 \<Rightarrow> vm \<Rightarrow> vm" where
  "set_cr4 cr4 s =
     (if cr4 AND CR4_RESEVED_BITS \<noteq> 0 then inject_gp s
      else if is_long_mode s \<and> cr4 AND CR4_PAE_MASK = 0 then inject_gp s
      else
        let (fault, s) =
              (if \<not> is_long_mode s \<and> is_paging s \<and> \<not> is_pae s \<and> cr4 AND CR4_PAE_MASK \<noteq> 0
               then pdptrs_have_reserved_bits_set (cr3 (vcpu s)) s else (False, s));
            s = (if fault then inject_gp s else s)
        in if cr4 AND CR4_VMXE_MASK \<noteq> 0 then inject_gp s
           else kvm_mmu_reset_context (internal_set_cr4 cr4 s))"

definition set_cr3 :: "u64 \<Rightarrow> vm \<Rightarrow> vm" where
  "set_cr3 v s =
     (let (fault, s) =
            (if is_long_mode s then (v AND CR3_L_MODE_RESEVED_BITS \<noteq> 0, s)
             else if v AND CR3_RESEVED_BITS \<noteq> 0 then (True, s)
             else if is_paging s \<and> is_pae s then pdptrs_have_reserved_bits_set v s
             else (False, s))
      in if fault then inject_gp s
         else mmu_new_cr3 (s\<lparr>vcpu := (vcpu s)\<lparr>cr3 := v\<rparr>\<rparr>))"

definition set_cr8 :: "u64 \<Rightarrow> vm \<Rightarrow> vm" where
  "set_cr8 v s =
     (if v AND CR8_RESEVED_BITS \<noteq> 0 then inject_gp s
      else s\<lparr>vcpu := (vcpu s)\<lparr>cr8 := v\<rparr>\<rparr>)"

definition set_efer :: "u64 \<Rightarrow> vm \<Rightarrow> vm" where
  "set_efer efer s =
     (if efer AND EFER_RESERVED_BITS \<noteq> 0 then inject_gp s
      else if is_paging s \<and> shadow_efer (vcpu s) AND EFER_LME \<noteq> efer AND EFER_LME then inject_gp s
      else
        let efer = (efer AND NOT EFER_LMA) OR (shadow_efer (vcpu s) AND EFER_LMA);
            s = set_shadow_efer efer s;
            msr = find_msr_entry s MSR_EFER;
            efer = (if efer AND EFER_LMA = 0 then efer AND NOT EFER_LME else efer);
            s = update_msr msr (\<lambda>_. efer) s
        in skip_emulated_instruction s)"

section \<open>The emulator's view of the control registers\<close>

definition mk_cr_64 :: "u64 \<Rightarrow> u32 \<Rightarrow> u64" where
  "mk_cr_64 curr_cr new_val = (curr_cr AND NOT (mask 32)) OR ucast new_val"

definition realmode_lgdt :: "u16 \<Rightarrow> u64 \<Rightarrow> vm \<Rightarrow> vm" where
  "realmode_lgdt limit base s =
     vmcs_write32 GUEST_GDTR_LIMIT (ucast limit) (vmcs_writel GUEST_GDTR_BASE base s)"

definition realmode_lidt :: "u16 \<Rightarrow> u64 \<Rightarrow> vm \<Rightarrow> vm" where
  "realmode_lidt limit base s =
     vmcs_write32 GUEST_IDTR_LIMIT (ucast limit) (vmcs_writel GUEST_IDTR_BASE base s)"

text \<open>The second result is \<open>*rflags\<close>.\<close>

definition realmode_lmsw :: "u64 \<Rightarrow> vm \<Rightarrow> u64 \<times> vm" where
  "realmode_lmsw msw s = (let s = lmsw msw s in (vmcs_readl s GUEST_RFLAGS, s))"

definition realmode_get_cr :: "nat \<Rightarrow> vm \<Rightarrow> u64" where
  "realmode_get_cr cr s =
     (if cr = 0 then guest_cr0 s
      else if cr = 2 then cr2 (vcpu s)
      else if cr = 3 then cr3 (vcpu s)
      else if cr = 4 then guest_cr4 s
      else 0)"

definition realmode_set_cr :: "nat \<Rightarrow> u64 \<Rightarrow> u64 \<Rightarrow> vm \<Rightarrow> u64 \<times> vm" where
  "realmode_set_cr cr val rflags s =
     (if cr = 0 then
        let s = set_cr0 (mk_cr_64 (guest_cr0 s) (ucast val)) s
        in (vmcs_readl s GUEST_RFLAGS, s)
      else if cr = 2 then (rflags, s\<lparr>vcpu := (vcpu s)\<lparr>cr2 := val\<rparr>\<rparr>)
      else if cr = 3 then (rflags, set_cr3 val s)
      else if cr = 4 then (rflags, set_cr4 (mk_cr_64 (guest_cr4 s) (ucast val)) s)
      else (rflags, s))"

end
