(* ===== verification/Cr_Modes.thy ===== *)
theory Cr_Modes
  imports Cr_Access Mmu_Contexts
begin

text \<open>
  What the writes to the control registers do. \<open>cpu_view\<close> is what they share with the shadow
  paging code: everything of the virtual cpu and the VMCS except the page pool, the paging
  context and \<open>GUEST_CR3\<close>. The invariant \<open>mode_ok\<close> ties the guest's mode bits, the VM entry
  controls and the state that stands for real mode together, and every sequence of writes
  keeps it.
\<close>

section \<open>The view that the paging code leaves alone\<close>

definition cpu_view :: "vm \<Rightarrow> (nat \<Rightarrow> u64) \<times> kvm_vcpu" where
  "cpu_view s = ((vmcs s)(GUEST_CR3 := 0),
     (vcpu s)\<lparr>free_pages := [], page_header_buf := (\<lambda>_. zero_page_header), mmu := zero_mmu\<rparr>)"

lemma cpu_viewD:
  assumes "cpu_view t = cpu_view s"
  shows "f \<noteq> GUEST_CR3 \<Longrightarrow> vmcs_readl t f = vmcs_readl s f"
    "f \<noteq> GUEST_CR3 \<Longrightarrow> vmcs_read16 t f = vmcs_read16 s f"
    "f \<noteq> GUEST_CR3 \<Longrightarrow> vmcs_read32 t f = vmcs_read32 s f"
    "shadow_efer (vcpu t) = shadow_efer (vcpu s)" "rmode (vcpu t) = rmode (vcpu s)"
    "cr3 (vcpu t) = cr3 (vcpu s)" "regs (vcpu t) = regs (vcpu s)" "rip (vcpu t) = rip (vcpu s)"
    "cr2 (vcpu t) = cr2 (vcpu s)" "cr8 (vcpu t) = cr8 (vcpu s)"
    "apic_base (vcpu t) = apic_base (vcpu s)" "guest_msrs (vcpu t) = guest_msrs (vcpu s)"
    "nmsrs (vcpu t) = nmsrs (vcpu s)" "irq_summary (vcpu t) = irq_summary (vcpu s)"
    "irq_pending (vcpu t) = irq_pending (vcpu s)"
proof -
  have "((vmcs t)(GUEST_CR3 := 0)) f = ((vmcs s)(GUEST_CR3 := 0)) f" for f
    using assms by (simp add: cpu_view_def)
  from this [of f] show "f \<noteq> GUEST_CR3 \<Longrightarrow> vmcs_readl t f = vmcs_readl s f"
    "f \<noteq> GUEST_CR3 \<Longrightarrow> vmcs_read16 t f = vmcs_read16 s f"
    "f \<noteq> GUEST_CR3 \<Longrightarrow> vmcs_read32 t f = vmcs_read32 s f"
    by (auto simp: vmcs_readl_def vmcs_read16_def vmcs_read32_def)
qed (use assms in \<open>cases "vcpu t"; cases "vcpu s"; simp add: cpu_view_def\<close>)+

lemma cpu_view_pool_frame: "pool_frame s t \<Longrightarrow> cpu_view t = cpu_view s"
  by (auto elim!: pool_frameE simp: cpu_view_def)

lemma cpu_view_ops [simp]:
  "cpu_view (kvm_mmu_free_page p s) = cpu_view s"
  "cpu_view (snd (kvm_mmu_alloc_page parent s)) = cpu_view s"
  "cpu_view (release_pt_page_64 l p s) = cpu_view s"
  "cpu_view (pte_write a v s) = cpu_view s"
  "cpu_view (zero_table p s) = cpu_view s"
  by (rule cpu_view_pool_frame, simp)+

lemma cpu_view_fields [simp]:
  "cpu_view (set_mmu m s) = cpu_view s"
  "cpu_view (set_root_hpa root s) = cpu_view s"
  "cpu_view (vmcs_writel GUEST_CR3 v s) = cpu_view s"
  "cpu_view (count_tlb_flush s) = cpu_view s"
  "cpu_view (count_invlpg s) = cpu_view s"
  "cpu_view (s\<lparr>kernel_bug := b\<rparr>) = cpu_view s"
  by (simp_all add: cpu_view_def set_mmu_def set_root_hpa_def vmcs_writel_def count_tlb_flush_def
      count_invlpg_def)

lemma cpu_view_alloc: "kvm_mmu_alloc_page parent s = (root, t) \<Longrightarrow> cpu_view t = cpu_view s"
  using cpu_view_ops(2) [of parent s] by simp

lemma cpu_view_init_kvm_mmu [simp]: "cpu_view (init_kvm_mmu s) = cpu_view s"
  by (simp add: init_kvm_mmu_def nonpaging_init_context_def paging64_init_context_def
      paging32_init_context_def paging32E_init_context_def paging_init_root_def Let_def
      cpu_view_alloc split: prod.split)

lemma cpu_view_destroy_kvm_mmu [simp]: "cpu_view (destroy_kvm_mmu s) = cpu_view s"
  by (simp add: destroy_kvm_mmu_def nonpaging_free_def paging_free_def Let_def
      split: option.split mmu_context.split)

lemma cpu_view_reset [simp]: "cpu_view (kvm_mmu_reset_context s) = cpu_view s"
  by (simp add: kvm_mmu_reset_context_def)

lemma cpu_view_fold:
  "(\<And>x s. cpu_view (f x s) = cpu_view s) \<Longrightarrow> cpu_view (fold f xs s) = cpu_view s"
  by (induction xs arbitrary: s) simp_all

lemma cpu_view_flush_page [simp]: "cpu_view (flush_page h s) = cpu_view s"
  by (simp add: flush_page_def split: option.split)

lemma cpu_view_flush_tlb [simp]: "cpu_view (kvm_mmu_flush_tlb s) = cpu_view s"
  by (simp add: kvm_mmu_flush_tlb_def cpu_view_fold)

lemma cpu_view_new_cr3 [simp]: "cpu_view (mmu_new_cr3 s) = cpu_view s"
  by (simp add: mmu_new_cr3_def nonpaging_new_cr3_def paging_new_cr3_def
      split: option.split mmu_context.split)

lemma cpu_view_inval [simp]: "cpu_view (mmu_inval_page addr s) = cpu_view s"
proof -
  have "cpu_view (paging_inval_level l table addr t) = cpu_view t" for l table t
    by (induction l table addr t rule: paging_inval_level.induct) (auto simp: Let_def)
  then show ?thesis
    by (simp add: mmu_inval_page_def nonpaging_inval_page_def paging_inval_page_def
        split: option.split mmu_context.split)
qed


section \<open>The mode invariant\<close>

text \<open>
  Bits 8 and 10 of the shadow EFER are LME and LMA. The last three lines are what VM entry and
  the exits need: the bits of \<open>CR0\<close> and \<open>CR4\<close> that VMX operation fixes, virtual-8086 mode while
  the guest is in real mode, and the exceptions that exit.
\<close>

definition mode_ok :: "vm \<Rightarrow> bool" where
  "mode_ok s \<longleftrightarrow>
     (is_long_mode s \<longleftrightarrow> bit (shadow_efer (vcpu s)) 10) \<and>
     (bit (shadow_efer (vcpu s)) 10 \<longleftrightarrow> bit (shadow_efer (vcpu s)) 8 \<and> is_paging s) \<and>
     (bit (shadow_efer (vcpu s)) 10 \<longrightarrow> is_pae s) \<and>
     (is_paging s \<longrightarrow> guest_cr0 s AND CR0_PE_MASK \<noteq> 0) \<and>
     (rmode_active (rmode (vcpu s)) \<longleftrightarrow> guest_cr0 s AND CR0_PE_MASK = 0) \<and>
     vmcs_readl s GUEST_CR0 AND KVM_VM_CR0_ALWAYS_ON = KVM_VM_CR0_ALWAYS_ON \<and>
     vmcs_readl s GUEST_CR4 AND CR4_VMXE_MASK \<noteq> 0 \<and>
     (rmode_active (rmode (vcpu s)) \<longrightarrow> vmcs_readl s GUEST_CR4 AND CR4_VME_MASK \<noteq> 0 \<and>
        vmcs_readl s GUEST_RFLAGS AND X86_EFLAGS_VM \<noteq> 0) \<and>
     vmcs_read32 s EXCEPTION_BITMAP =
       (if rmode_active (rmode (vcpu s)) then NOT 0 else push_bit (unat PF_VECTOR) 1)"

text \<open>The state the invariant looks at, as bits.\<close>

lemma is_long_mode_bit: "is_long_mode s \<longleftrightarrow> bit (vmcs_read32 s VM_ENTRY_CONTROLS) 9"
  by (simp add: is_long_mode_def)

lemma and_always_on:
  "x AND KVM_VM_CR0_ALWAYS_ON = KVM_VM_CR0_ALWAYS_ON \<longleftrightarrow>
     bit x 0 \<and> bit x 5 \<and> bit x 16 \<and> bit x 31"
proof
  assume a: "x AND KVM_VM_CR0_ALWAYS_ON = KVM_VM_CR0_ALWAYS_ON"
  have "bit x n" if "n \<in> {0, 5, 16, 31}" for n
    using arg_cong [OF a, of "\<lambda>v. bit v n"] that by (auto simp: bit_simps mask_bits)
  then show "bit x 0 \<and> bit x 5 \<and> bit x 16 \<and> bit x 31" by simp
next
  assume "bit x 0 \<and> bit x 5 \<and> bit x 16 \<and> bit x 31"
  then show "x AND KVM_VM_CR0_ALWAYS_ON = KVM_VM_CR0_ALWAYS_ON"
    by (auto intro!: bit_word_eqI simp: bit_simps mask_bits)
qed

lemmas mode_bits = is_long_mode_bit is_paging_bit is_pae_bit and_always_on

lemma mode_ok_bits:
  "mode_ok s \<longleftrightarrow>
     (let efer = shadow_efer (vcpu s); cr0 = vmcs_readl s CR0_READ_SHADOW;
          cr4 = vmcs_readl s CR4_READ_SHADOW; rm = rmode_active (rmode (vcpu s)) in
     (bit (vmcs_read32 s VM_ENTRY_CONTROLS) 9 \<longleftrightarrow> bit efer 10) \<and>
     (bit efer 10 \<longleftrightarrow> bit efer 8 \<and> bit cr0 31) \<and> (bit efer 10 \<longrightarrow> bit cr4 5) \<and>
     (bit cr0 31 \<longrightarrow> bit cr0 0) \<and> (rm \<longleftrightarrow> \<not> bit cr0 0) \<and>
     (bit (vmcs_readl s GUEST_CR0) 0 \<and> bit (vmcs_readl s GUEST_CR0) 5 \<and>
        bit (vmcs_readl s GUEST_CR0) 16 \<and> bit (vmcs_readl s GUEST_CR0) 31) \<and>
     bit (vmcs_readl s GUEST_CR4) 13 \<and>
     (rm \<longrightarrow> bit (vmcs_readl s GUEST_CR4) 0 \<and> bit (vmcs_readl s GUEST_RFLAGS) 17) \<and>
     vmcs_read32 s EXCEPTION_BITMAP = (if rm then NOT 0 else push_bit (unat PF_VECTOR) 1))"
  by (simp add: mode_ok_def mode_bits bit_guest_cr0 Let_def)

lemma mode_ok_view: "cpu_view t = cpu_view s \<Longrightarrow> mode_ok t = mode_ok s"
  by (simp add: mode_ok_bits cpu_viewD [of t s])

section \<open>Entering and leaving the modes\<close>

lemmas segment_defs = fix_pmode_dataseg_def fix_rmode_seg_def pmode_segments_def rmode_segments_def

text \<open>The fields of the segment registers, apart from \<open>TR\<close> and \<open>LDTR\<close>.\<close>

definition seg_fields :: "nat set" where
  "seg_fields = {GUEST_CS_SELECTOR, GUEST_CS_AR_BYTES,
     GUEST_SS_SELECTOR, GUEST_SS_BASE, GUEST_SS_LIMIT, GUEST_SS_AR_BYTES,
     GUEST_ES_SELECTOR, GUEST_ES_BASE, GUEST_ES_LIMIT, GUEST_ES_AR_BYTES,
     GUEST_DS_SELECTOR, GUEST_DS_BASE, GUEST_DS_LIMIT, GUEST_DS_AR_BYTES,
     GUEST_GS_SELECTOR, GUEST_GS_BASE, GUEST_GS_LIMIT, GUEST_GS_AR_BYTES,
     GUEST_FS_SELECTOR, GUEST_FS_BASE, GUEST_FS_LIMIT, GUEST_FS_AR_BYTES}"

lemma fix_seg_reads:
  "f \<notin> {sel, base, limit, ar} \<Longrightarrow>
     vmcs_readl (fix_pmode_dataseg sel base limit ar s) f = vmcs_readl s f"
  "f \<notin> {sel, limit, ar} \<Longrightarrow> vmcs_readl (fix_rmode_seg sel base limit ar s) f = vmcs_readl s f"
  by (simp_all add: fix_pmode_dataseg_def fix_rmode_seg_def Let_def vmcs_simps)

lemma segments_reads [simp]:
  assumes "f \<notin> seg_fields"
  shows "vmcs_readl (pmode_segments s) f = vmcs_readl s f"
    "vmcs_readl (rmode_segments s) f = vmcs_readl s f"
    "vmcs_read32 (pmode_segments s) f = vmcs_read32 s f"
    "vmcs_read32 (rmode_segments s) f = vmcs_read32 s f"
proof -
  show "vmcs_readl (pmode_segments s) f = vmcs_readl s f"
    "vmcs_readl (rmode_segments s) f = vmcs_readl s f"
    using assms by (simp_all add: seg_fields_def pmode_segments_def rmode_segments_def Let_def
        fix_seg_reads vmcs_simps)
  then show "vmcs_read32 (pmode_segments s) f = vmcs_read32 s f"
    "vmcs_read32 (rmode_segments s) f = vmcs_read32 s f" by (simp_all add: vmcs_read32_def)
qed

lemma vcpu_segments [simp]:
  "vcpu (pmode_segments s) = vcpu s" "vcpu (rmode_segments s) = vcpu s"
  "vcpu (update_exception_bitmap s) = vcpu s"
  by (simp_all add: segment_defs update_exception_bitmap_def Let_def vmcs_simps)

lemma rmode_fields [simp]:
  "vcpu (set_rmode r s) = (vcpu s)\<lparr>rmode := r\<rparr>" "vmcs_readl (set_rmode r s) = vmcs_readl s"
  "vmcs_read16 (set_rmode r s) = vmcs_read16 s" "vmcs_read32 (set_rmode r s) = vmcs_read32 s"
  "memslots (set_rmode r s) = memslots s"
  by (simp_all add: set_rmode_def vmcs_readl_def [abs_def] vmcs_read16_def [abs_def]
      vmcs_read32_def [abs_def])

lemma update_exception_bitmap_reads:
  "f \<noteq> EXCEPTION_BITMAP \<Longrightarrow> vmcs_readl (update_exception_bitmap s) f = vmcs_readl s f"
  "f \<noteq> EXCEPTION_BITMAP \<Longrightarrow> vmcs_read32 (update_exception_bitmap s) f = vmcs_read32 s f"
  "vmcs_read32 (update_exception_bitmap s) EXCEPTION_BITMAP =
    (if rmode_active (rmode (vcpu s)) then NOT 0 else push_bit (unat PF_VECTOR) 1)"
  by (simp_all add: update_exception_bitmap_def vmcs_simps)


text \<open>Neither mode switch touches the shadow registers, \<open>CR0\<close> or the entry controls.\<close>

definition mode_fields :: "nat set" where
  "mode_fields = {CR0_READ_SHADOW, CR4_READ_SHADOW, GUEST_CR0, VM_ENTRY_CONTROLS, GUEST_CR3,
     GUEST_RIP, GUEST_CS_BASE}"

lemma switch_reads [simp]:
  assumes "f \<in> mode_fields"
  shows "vmcs_readl (enter_pmode s) f = vmcs_readl s f"
    "vmcs_readl (enter_rmode s) f = vmcs_readl s f"
    "vmcs_read32 (enter_pmode s) f = vmcs_read32 s f"
    "vmcs_read32 (enter_rmode s) f = vmcs_read32 s f"
proof -
  show "vmcs_readl (enter_pmode s) f = vmcs_readl s f"
    "vmcs_readl (enter_rmode s) f = vmcs_readl s f"
    using assms unfolding mode_fields_def
    by (elim insertE emptyE; simp add: enter_pmode_def enter_rmode_def seg_fields_def
        update_exception_bitmap_reads Let_def vmcs_simps)+
  then show "vmcs_read32 (enter_pmode s) f = vmcs_read32 s f"
    "vmcs_read32 (enter_rmode s) f = vmcs_read32 s f" by (simp_all add: vmcs_read32_def)
qed

lemma switch_vcpu [simp]:
  "vcpu (enter_pmode s) = (vcpu s)\<lparr>rmode := (rmode (vcpu s))\<lparr>rmode_active := False\<rparr>\<rparr>"
  "rmode_active (rmode (vcpu (enter_rmode s)))"
  "shadow_efer (vcpu (enter_rmode s)) = shadow_efer (vcpu s)"
  by (simp_all add: enter_pmode_def enter_rmode_def Let_def vmcs_simps)

lemma enter_pmode_reads:
  "vmcs_readl (enter_pmode s) GUEST_CR4 = (vmcs_readl s GUEST_CR4 AND NOT CR4_VME_MASK) OR
     (vmcs_readl s CR0_READ_SHADOW AND CR4_VME_MASK)"
  "vmcs_readl (enter_pmode s) GUEST_RFLAGS = (vmcs_readl s GUEST_RFLAGS AND
     NOT (IOPL_MASK OR X86_EFLAGS_VM)) OR push_bit IOPL_SHIFT (ucast (save_iopl (rmode (vcpu s))))"
  "vmcs_read32 (enter_pmode s) EXCEPTION_BITMAP = push_bit (unat PF_VECTOR) 1"
  "vmcs_readl (enter_pmode s) GUEST_TR_BASE = rm_tr_base (rmode (vcpu s))"
  "vmcs_read32 (enter_pmode s) GUEST_TR_LIMIT = rm_tr_limit (rmode (vcpu s))"
  "vmcs_read32 (enter_pmode s) GUEST_TR_AR_BYTES = rm_tr_ar (rmode (vcpu s))"
  by (simp_all add: enter_pmode_def seg_fields_def update_exception_bitmap_reads Let_def vmcs_simps)

lemma enter_rmode_reads:
  "vmcs_readl (enter_rmode s) GUEST_CR4 = vmcs_readl s GUEST_CR4 OR CR4_VME_MASK"
  "vmcs_readl (enter_rmode s) GUEST_RFLAGS = vmcs_readl s GUEST_RFLAGS OR IOPL_MASK OR X86_EFLAGS_VM"
  "vmcs_read32 (enter_rmode s) EXCEPTION_BITMAP = NOT 0"
  "rmode (vcpu (enter_rmode s)) = \<lparr>rmode_active = True,
     save_iopl = ucast (drop_bit IOPL_SHIFT (vmcs_readl s GUEST_RFLAGS AND IOPL_MASK)),
     rm_tr_base = vmcs_readl s GUEST_TR_BASE, rm_tr_limit = vmcs_read32 s GUEST_TR_LIMIT,
     rm_tr_ar = vmcs_read32 s GUEST_TR_AR_BYTES\<rparr>"
  by (simp_all add: enter_rmode_def seg_fields_def update_exception_bitmap_reads Let_def vmcs_simps)

text \<open>
  C25: leaving real mode restores what entering it saved. After \<open>enter_rmode\<close> and then
  \<open>enter_pmode\<close> the guest's task register and its flags are as they were, when the guest was not
  in virtual-8086 mode already; real mode is off, only page faults exit, and bit 0 of \<open>CR4\<close>
  (VME) is the protection enable bit of the guest's \<open>CR0\<close>, because the code reads the shadow of
  the wrong register.
\<close>

theorem rmode_roundtrip:
  assumes "vmcs_readl s GUEST_RFLAGS AND X86_EFLAGS_VM = 0"
  shows "let t = enter_pmode (enter_rmode s) in
    vmcs_readl t GUEST_TR_BASE = vmcs_readl s GUEST_TR_BASE \<and>
    vmcs_read32 t GUEST_TR_LIMIT = vmcs_read32 s GUEST_TR_LIMIT \<and>
    vmcs_read32 t GUEST_TR_AR_BYTES = vmcs_read32 s GUEST_TR_AR_BYTES \<and>
    vmcs_readl t GUEST_RFLAGS = vmcs_readl s GUEST_RFLAGS \<and>
    \<not> rmode_active (rmode (vcpu t)) \<and>
    vmcs_read32 t EXCEPTION_BITMAP = push_bit (unat PF_VECTOR) 1 \<and>
    (bit (vmcs_readl t GUEST_CR4) 0 \<longleftrightarrow> bit (vmcs_readl s CR0_READ_SHADOW) 0)"
proof -
  have c0: "CR0_READ_SHADOW \<in> mode_fields" by (simp add: mode_fields_def)
  have vm: "\<not> bit (vmcs_readl s GUEST_RFLAGS) 17" using assms by simp
  have n13: "n - 12 = Suc 0 \<longleftrightarrow> n = 13" for n :: nat by arith
  have "vmcs_readl (enter_pmode (enter_rmode s)) GUEST_RFLAGS = vmcs_readl s GUEST_RFLAGS"
    by (rule bit_word_eqI) (use vm in \<open>auto simp: n13 enter_pmode_reads enter_rmode_reads bit_simps
      mask_bits IOPL_SHIFT_def dest: bit_imp_le_length\<close>)
  then show ?thesis
    by (simp add: Let_def enter_pmode_reads enter_rmode_reads bit_simps mask_bits c0)
qed

theorem rmode_roundtrip_witness:
  "vmcs_readl (enter_pmode (enter_rmode (vmcs_writel GUEST_RFLAGS 0x3202 zero_vm))) GUEST_RFLAGS = 0x3202"
proof -
  have "vmcs_readl (vmcs_writel GUEST_RFLAGS 0x3202 zero_vm) GUEST_RFLAGS AND X86_EFLAGS_VM = 0"
    by (simp add: vmcs_simps)
  from rmode_roundtrip [OF this] show ?thesis by (simp add: Let_def vmcs_simps)
qed


section \<open>The writes keep the invariant\<close>

lemma update_msr_vcpu:
  "shadow_efer (vcpu (update_msr e g s)) = shadow_efer (vcpu s)"
  "rmode (vcpu (update_msr e g s)) = rmode (vcpu s)"
  "vmcs_readl (update_msr e g s) = vmcs_readl s"
  "vmcs_read32 (update_msr e g s) = vmcs_read32 s"
  by (simp_all add: update_msr_def vmcs_readl_def [abs_def] vmcs_read32_def [abs_def]
      split: option.split)

lemma set_shadow_efer_fields [simp]:
  "vcpu (set_shadow_efer e s) = (vcpu s)\<lparr>shadow_efer := e\<rparr>"
  "vmcs_readl (set_shadow_efer e s) = vmcs_readl s" "vmcs_read32 (set_shadow_efer e s) = vmcs_read32 s"
  by (simp_all add: set_shadow_efer_def vmcs_readl_def [abs_def] vmcs_read32_def [abs_def])

lemma inject_gp_mode [simp]: "mode_ok (inject_gp s) = mode_ok s"
  by (simp add: mode_ok_bits inject_gp_def vmcs_simps Let_def)

lemma skip_mode [simp]: "mode_ok (skip_emulated_instruction s) = mode_ok s"
  by (simp add: mode_ok_bits skip_emulated_instruction_def vmcs_simps Let_def)

lemma lmode_reads:
  "f \<notin> {VM_ENTRY_CONTROLS, GUEST_TR_AR_BYTES} \<Longrightarrow> vmcs_readl (enter_lmode s) f = vmcs_readl s f"
  "f \<notin> {VM_ENTRY_CONTROLS, GUEST_TR_AR_BYTES} \<Longrightarrow> vmcs_read32 (enter_lmode s) f = vmcs_read32 s f"
  "vmcs_read32 (enter_lmode s) VM_ENTRY_CONTROLS =
     vmcs_read32 s VM_ENTRY_CONTROLS OR VM_ENTRY_CONTROLS_IA32E_MASK"
  "shadow_efer (vcpu (enter_lmode s)) = shadow_efer (vcpu s) OR EFER_LMA"
  "rmode (vcpu (enter_lmode s)) = rmode (vcpu s)"
  "f \<noteq> VM_ENTRY_CONTROLS \<Longrightarrow> vmcs_readl (exit_lmode s) f = vmcs_readl s f"
  "f \<noteq> VM_ENTRY_CONTROLS \<Longrightarrow> vmcs_read32 (exit_lmode s) f = vmcs_read32 s f"
  "vmcs_read32 (exit_lmode s) VM_ENTRY_CONTROLS =
     vmcs_read32 s VM_ENTRY_CONTROLS AND NOT VM_ENTRY_CONTROLS_IA32E_MASK"
  "vcpu (exit_lmode s) = (vcpu s)\<lparr>shadow_efer := shadow_efer (vcpu s) AND NOT EFER_LMA\<rparr>"
  by (auto simp: enter_lmode_def exit_lmode_def Let_def vmcs_simps update_msr_vcpu)

text \<open>The long mode half of \<open>__set_cr0\<close>, and the real mode half.\<close>

definition cr0_rmode :: "u64 \<Rightarrow> vm \<Rightarrow> vm" where
  "cr0_rmode cr0 s =
     (let s = (if rmode_active (rmode (vcpu s)) \<and> bit cr0 0 then enter_pmode s else s)
      in if \<not> rmode_active (rmode (vcpu s)) \<and> \<not> bit cr0 0 then enter_rmode s else s)"

definition cr0_lmode :: "u64 \<Rightarrow> vm \<Rightarrow> vm" where
  "cr0_lmode cr0 s =
     (if bit (shadow_efer (vcpu s)) 8 then
        let s = (if \<not> is_paging s \<and> bit cr0 31 then enter_lmode s else s)
        in if is_paging s \<and> \<not> bit cr0 31 then exit_lmode s else s
      else s)"

lemma internal_set_cr0_split:
  "internal_set_cr0 cr0 s = vmcs_writel GUEST_CR0 (cr0 OR KVM_VM_CR0_ALWAYS_ON)
     (vmcs_writel CR0_READ_SHADOW cr0 (cr0_lmode cr0 (cr0_rmode cr0 s)))"
  by (simp add: internal_set_cr0_def cr0_rmode_def cr0_lmode_def Let_def)

text \<open>Real mode follows the new \<open>CR0\<close>; the rest of the invariant is that of the old one.\<close>

lemma cr0_rmode_effect:
  assumes ok: "mode_ok s" and t: "t = cr0_rmode cr0 s"
  shows "rmode_active (rmode (vcpu t)) \<longleftrightarrow> \<not> bit cr0 0"
    "shadow_efer (vcpu t) = shadow_efer (vcpu s)"
    "f \<in> mode_fields \<Longrightarrow> vmcs_readl t f = vmcs_readl s f"
    "f \<in> mode_fields \<Longrightarrow> vmcs_read32 t f = vmcs_read32 s f"
    "bit (vmcs_readl t GUEST_CR4) 13"
    "\<not> bit cr0 0 \<Longrightarrow> bit (vmcs_readl t GUEST_CR4) 0 \<and> bit (vmcs_readl t GUEST_RFLAGS) 17"
    "vmcs_read32 t EXCEPTION_BITMAP = (if bit cr0 0 then push_bit (unat PF_VECTOR) 1 else NOT 0)"
proof -
  have a: "rmode_active (rmode (vcpu s)) \<longleftrightarrow> \<not> bit (vmcs_readl s CR0_READ_SHADOW) 0"
    "bit (vmcs_readl s GUEST_CR4) 13"
    "rmode_active (rmode (vcpu s)) \<Longrightarrow> bit (vmcs_readl s GUEST_CR4) 0 \<and> bit (vmcs_readl s GUEST_RFLAGS) 17"
    "vmcs_read32 s EXCEPTION_BITMAP =
       (if rmode_active (rmode (vcpu s)) then NOT 0 else push_bit (unat PF_VECTOR) 1)"
    using ok by (simp_all add: mode_ok_bits Let_def)
  note r = t [unfolded cr0_rmode_def Let_def]
  consider "rmode_active (rmode (vcpu s))" "bit cr0 0" "t = enter_pmode s"
    | "\<not> rmode_active (rmode (vcpu s))" "\<not> bit cr0 0" "t = enter_rmode s"
    | "rmode_active (rmode (vcpu s)) \<longleftrightarrow> \<not> bit cr0 0" "t = s"
    using r by (cases "rmode_active (rmode (vcpu s))"; cases "bit cr0 0") simp_all
  note c = this
  note e = enter_pmode_reads enter_rmode_reads bit_or_iff bit_and_iff bit_not_iff bit_u64_masks
    bit_IOPL_MASK
  show "rmode_active (rmode (vcpu t)) \<longleftrightarrow> \<not> bit cr0 0"
    "shadow_efer (vcpu t) = shadow_efer (vcpu s)" by (cases rule: c; simp)+
  show "f \<in> mode_fields \<Longrightarrow> vmcs_readl t f = vmcs_readl s f"
    "f \<in> mode_fields \<Longrightarrow> vmcs_read32 t f = vmcs_read32 s f" by (cases rule: c; simp)+
  show "bit (vmcs_readl t GUEST_CR4) 13" by (cases rule: c; simp add: e a(2))
  show "\<not> bit cr0 0 \<Longrightarrow> bit (vmcs_readl t GUEST_CR4) 0 \<and> bit (vmcs_readl t GUEST_RFLAGS) 17"
    by (cases rule: c; simp add: e a(3))
  show "vmcs_read32 t EXCEPTION_BITMAP = (if bit cr0 0 then push_bit (unat PF_VECTOR) 1 else NOT 0)"
    by (cases rule: c; simp add: enter_pmode_reads(3) enter_rmode_reads(3) a(4))
qed


lemma cr0_lmode_reads:
  assumes "f \<notin> {VM_ENTRY_CONTROLS, GUEST_TR_AR_BYTES}"
  shows "vmcs_readl (cr0_lmode cr0 s) f = vmcs_readl s f"
    "vmcs_read32 (cr0_lmode cr0 s) f = vmcs_read32 s f"
  using assms by (simp_all add: cr0_lmode_def Let_def lmode_reads)

lemma cr0_lmode_rmode [simp]: "rmode (vcpu (cr0_lmode cr0 s)) = rmode (vcpu s)"
  by (simp add: cr0_lmode_def Let_def lmode_reads)

text \<open>Long mode follows the new \<open>CR0\<close> when LME is set.\<close>

lemma cr0_lmode_effect:
  assumes "is_long_mode s \<longleftrightarrow> bit (shadow_efer (vcpu s)) 10"
    and "bit (shadow_efer (vcpu s)) 10 \<longleftrightarrow> bit (shadow_efer (vcpu s)) 8 \<and> is_paging s"
    and t: "t = cr0_lmode cr0 s"
  shows "bit (vmcs_read32 t VM_ENTRY_CONTROLS) 9 \<longleftrightarrow> bit (shadow_efer (vcpu t)) 10"
    "bit (shadow_efer (vcpu t)) 10 \<longleftrightarrow> bit (shadow_efer (vcpu s)) 8 \<and> bit cr0 31"
    "bit (shadow_efer (vcpu t)) 8 \<longleftrightarrow> bit (shadow_efer (vcpu s)) 8"
proof -
  note e = lmode_reads bit_or_iff bit_and_iff bit_not_iff bit_u64_masks bit_vmx_masks mode_bits
  note a = assms(1,2) [unfolded mode_bits]
  consider "bit (shadow_efer (vcpu s)) 8" "\<not> is_paging s" "bit cr0 31" "t = enter_lmode s"
    | "bit (shadow_efer (vcpu s)) 8" "is_paging s" "\<not> bit cr0 31" "t = exit_lmode s"
    | "bit (shadow_efer (vcpu s)) 8 \<Longrightarrow> is_paging s \<longleftrightarrow> bit cr0 31" "t = s"
    unfolding t cr0_lmode_def
    by (cases "bit (shadow_efer (vcpu s)) 8"; cases "is_paging s"; cases "bit cr0 31")
      (simp_all add: is_paging_bit lmode_reads Let_def)
  note c = this
  show "bit (vmcs_read32 t VM_ENTRY_CONTROLS) 9 \<longleftrightarrow> bit (shadow_efer (vcpu t)) 10"
    by (cases rule: c; simp add: e a)
  show "bit (shadow_efer (vcpu t)) 10 \<longleftrightarrow> bit (shadow_efer (vcpu s)) 8 \<and> bit cr0 31"
    by (cases rule: c; use a in \<open>auto simp: e\<close>)
  show "bit (shadow_efer (vcpu t)) 8 \<longleftrightarrow> bit (shadow_efer (vcpu s)) 8"
    by (cases rule: c; simp add: e)
qed

lemma internal_set_cr0_mode:
  assumes ok: "mode_ok s" and pe: "bit cr0 31 \<Longrightarrow> bit cr0 0"
    and pae: "bit cr0 31 \<Longrightarrow> bit (shadow_efer (vcpu s)) 8 \<Longrightarrow> is_pae s"
  shows "mode_ok (internal_set_cr0 cr0 s)"
proof -
  let ?r = "cr0_rmode cr0 s" and ?t = "cr0_lmode cr0 (cr0_rmode cr0 s)"
  let ?u = "internal_set_cr0 cr0 s"
  note r = cr0_rmode_effect [OF ok, of ?r cr0, OF refl]
  have m: "{CR0_READ_SHADOW, CR4_READ_SHADOW, VM_ENTRY_CONTROLS} \<subseteq> mode_fields"
    by (simp add: mode_fields_def)
  have lm: "is_long_mode ?r \<longleftrightarrow> bit (shadow_efer (vcpu ?r)) 10"
    "bit (shadow_efer (vcpu ?r)) 10 \<longleftrightarrow> bit (shadow_efer (vcpu ?r)) 8 \<and> is_paging ?r"
    using ok r(2-4) m by (auto simp: mode_ok_def mode_bits)
  note l = cr0_lmode_effect [OF lm, of ?t cr0, OF refl] cr0_lmode_reads [of _ cr0 ?r]
  have vc: "vcpu ?u = vcpu ?t" by (simp add: internal_set_cr0_split vmcs_simps)
  have g: "bit (vmcs_readl ?u GUEST_CR0) n \<longleftrightarrow> bit cr0 n \<or> bit KVM_VM_CR0_ALWAYS_ON n" for n
    by (simp add: internal_set_cr0_split vmcs_simps bit_simps)
  have v: "vmcs_readl ?u CR0_READ_SHADOW = cr0" "vmcs_read32 ?u VM_ENTRY_CONTROLS = vmcs_read32 ?t VM_ENTRY_CONTROLS"
    "vmcs_readl ?u CR4_READ_SHADOW = vmcs_readl s CR4_READ_SHADOW"
    "vmcs_readl ?u GUEST_CR4 = vmcs_readl ?r GUEST_CR4"
    "vmcs_readl ?u GUEST_RFLAGS = vmcs_readl ?r GUEST_RFLAGS"
    "vmcs_read32 ?u EXCEPTION_BITMAP = vmcs_read32 ?r EXCEPTION_BITMAP"
    using m r(3) by (simp_all add: internal_set_cr0_split vmcs_simps l(4,5))
  show ?thesis
    using l(1-3) r pe pae m
    by (simp add: mode_ok_bits Let_def vc g v mask_bits is_pae_bit)
qed


lemma pdptrs_state: "snd (pdptrs_have_reserved_bits_set root s) \<in> {s, s\<lparr>kernel_bug := True\<rparr>}"
  by (simp add: pdptrs_have_reserved_bits_set_def Let_def split: option.split)

lemma cpu_view_pdptrs [simp]: "cpu_view (snd (pdptrs_have_reserved_bits_set root s)) = cpu_view s"
  using pdptrs_state [of root s] by auto

lemma cpu_view_faults [simp]: "cpu_view (snd (cr0_write_faults cr0 s)) = cpu_view s"
  by (simp add: cr0_write_faults_def)

lemma cr0_write_faultsD:
  assumes "\<not> fst (cr0_write_faults cr0 s)"
  shows "bit cr0 31 \<Longrightarrow> bit cr0 0"
    "\<not> is_paging s \<Longrightarrow> bit cr0 31 \<Longrightarrow> bit (shadow_efer (vcpu s)) 8 \<Longrightarrow> is_pae s"
    "cr0 AND CR0_RESEVED_BITS = 0" "bit cr0 29 \<Longrightarrow> bit cr0 30"
  using assms by (auto simp: cr0_write_faults_def split: if_splits)

lemma set_cr0_mode:
  assumes "mode_ok s"
  shows "mode_ok (set_cr0 cr0 s)"
proof -
  obtain b t where f: "cr0_write_faults cr0 s = (b, t)" by fastforce
  then have v: "cpu_view t = cpu_view s" using cpu_view_faults [of cr0 s] by simp
  show ?thesis
  proof (cases b)
    case True
    then show ?thesis using assms mode_ok_view [OF v] by (simp add: set_cr0_def f)
  next
    case False
    with f have n: "\<not> fst (cr0_write_faults cr0 s)" by simp
    have t: "mode_ok t" using assms mode_ok_view [OF v] by simp
    note d = cpu_viewD [OF v]
    have "mode_ok (internal_set_cr0 cr0 t)"
    proof (rule internal_set_cr0_mode [OF t cr0_write_faultsD(1) [OF n]], assumption)
      assume p: "bit cr0 31" "bit (shadow_efer (vcpu t)) 8"
      show "is_pae t"
      proof (cases "is_paging s")
        case True
        then show ?thesis using p t d by (simp add: mode_ok_def is_paging_bit)
      next
        case False
        then show ?thesis using cr0_write_faultsD(2) [OF n] p d by (simp add: is_pae_bit)
      qed
    qed
    then show ?thesis
      using False mode_ok_view [OF cpu_view_reset] by (simp add: set_cr0_def f)
  qed
qed

lemma lmsw_mode:
  assumes "mode_ok s"
  shows "mode_ok (lmsw msw s)"
proof -
  note e = enter_pmode_reads bit_guest_cr0 bit_or_iff bit_and_iff bit_not_iff bit_u64_masks
  have L: "\<not> bit LMSW_GUEST_MASK n" if "n \<notin> {1, 2, 3}" for n
  proof -
    have m: "LMSW_GUEST_MASK = push_bit 1 (mask 3)" by (simp add: LMSW_GUEST_MASK_def mask_numeral)
    show ?thesis unfolding m bit_push_bit_iff bit_mask_iff using that by auto
  qed
  show ?thesis
    using assms by (simp add: lmsw_def mode_ok_bits Let_def vmcs_simps e L mode_fields_def)
qed

lemma set_cr4_mode:
  assumes "mode_ok s"
  shows "mode_ok (set_cr4 cr4 s)"
proof -
  have i: "mode_ok (internal_set_cr4 cr4 t)" if "mode_ok t" "\<not> (is_long_mode t \<and> \<not> bit cr4 5)" for t
    using that by (auto simp: internal_set_cr4_def mode_ok_bits Let_def vmcs_simps mode_bits
        bit_or_iff bit_cr4_always_on)
  obtain b t where p: "pdptrs_have_reserved_bits_set (cr3 (vcpu s)) s = (b, t)" by fastforce
  then have v: "cpu_view t = cpu_view s"
    using cpu_view_pdptrs [of "cr3 (vcpu s)" s] by simp
  have gp: "is_long_mode (inject_gp u) = is_long_mode u" for u
    by (simp add: inject_gp_def is_long_mode_def vmcs_simps)
  have lt: "is_long_mode t = is_long_mode s" by (simp add: is_long_mode_def cpu_viewD [OF v])
  have k: "mode_ok (kvm_mmu_reset_context (internal_set_cr4 cr4 u))"
    if "mode_ok u" "is_long_mode u = is_long_mode s" "\<not> (is_long_mode s \<and> \<not> bit cr4 5)" for u
    using i [OF that(1)] that(2,3) mode_ok_view [OF cpu_view_reset] by auto
  show ?thesis
    using assms mode_ok_view [OF v] k [of s] k [of t] k [of "inject_gp t"] k [of "inject_gp s"]
    by (auto simp: set_cr4_def Let_def p gp lt)
qed


lemma set_efer_mode:
  assumes "mode_ok s"
  shows "mode_ok (set_efer efer s)"
proof -
  have u: "mode_ok (update_msr e g t) = mode_ok t" for e g t
    by (simp add: mode_ok_bits update_msr_vcpu)
  have p: "bit (shadow_efer (vcpu s)) 8 = bit efer 8"
    if "shadow_efer (vcpu s) AND EFER_LME = efer AND EFER_LME"
    using arg_cong [OF that, of "\<lambda>v. bit v 8"] by (simp add: bit_and_iff mask_bits)
  have "mode_ok (set_shadow_efer ((efer AND NOT EFER_LMA) OR (shadow_efer (vcpu s) AND EFER_LMA)) s)"
    if "\<not> (is_paging s \<and> shadow_efer (vcpu s) AND EFER_LME \<noteq> efer AND EFER_LME)"
    using that assms p
    by (auto simp: mode_ok_bits Let_def is_paging_bit bit_or_iff bit_and_iff bit_not_iff mask_bits)
  then show ?thesis
    using assms by (simp add: set_efer_def Let_def u)
qed

lemma set_cr3_mode:
  assumes "mode_ok s"
  shows "mode_ok (set_cr3 v s)"
proof -
  have c: "mode_ok (t\<lparr>vcpu := (vcpu t)\<lparr>cr3 := v\<rparr>\<rparr>) = mode_ok t" for t
    by (simp add: mode_ok_bits vmcs_simps Let_def)
  have n: "mode_ok (mmu_new_cr3 t) = mode_ok t" for t by (rule mode_ok_view) simp
  have p: "mode_ok t" if "pdptrs_have_reserved_bits_set v s = (b, t)" for b t
    using mode_ok_view [OF cpu_view_pdptrs [of v s]] that assms by simp
  show ?thesis
    using assms by (auto simp: set_cr3_def n c dest: p split: prod.split)
qed

lemma set_cr8_mode: "mode_ok s \<Longrightarrow> mode_ok (set_cr8 v s)"
  by (simp add: set_cr8_def mode_ok_bits vmcs_simps Let_def inject_gp_def)

text \<open>A write by the guest to a register that holds mode bits.\<close>

datatype cr_write = Write_cr0 u64 | Write_cr3 u64 | Write_cr4 u64 | Write_cr8 u64
  | Write_efer u64 | Write_msw u64

fun do_cr_write :: "cr_write \<Rightarrow> vm \<Rightarrow> vm" where
  "do_cr_write (Write_cr0 v) s = set_cr0 v s"
| "do_cr_write (Write_cr3 v) s = set_cr3 v s"
| "do_cr_write (Write_cr4 v) s = set_cr4 v s"
| "do_cr_write (Write_cr8 v) s = set_cr8 v s"
| "do_cr_write (Write_efer v) s = set_efer v s"
| "do_cr_write (Write_msw v) s = lmsw v s"

lemma do_cr_write_mode: "mode_ok s \<Longrightarrow> mode_ok (do_cr_write w s)"
  by (cases w) (simp_all add: set_cr0_mode set_cr3_mode set_cr4_mode set_cr8_mode set_efer_mode
      lmsw_mode)

text \<open>A guest in flat protected mode, just before it turns paging on.\<close>

definition example_pmode :: vm where
  "example_pmode =
     vmcs_writel GUEST_CR0 0x80010031 (vmcs_writel CR0_READ_SHADOW 0x11
       (vmcs_writel GUEST_CR4 0x2020 (vmcs_write32 EXCEPTION_BITMAP 0x4000
         (vmcs_write32 GUEST_CS_AR_BYTES 0x9b
           (zero_vm\<lparr>vcpu := zero_vcpu\<lparr>guest_msrs := [\<lparr>msr_index = MSR_EFER, msr_reserved = 0,
              msr_data = 0\<rparr>], nmsrs := 1\<rparr>\<rparr>)))))"

lemma example_pmode_ok: "mode_ok example_pmode"
proof -
  have b: "bit (0x80010031 :: u64) 31" "bit (0x80010031 :: u64) 16" "bit (0x80010031 :: u64) 5"
    "bit (0x80010031 :: u64) 0" "\<not> bit (0x11 :: u64) 31" "bit (0x11 :: u64) 0"
    "bit (0x2020 :: u64) 13" by code_simp+
  show ?thesis
    by (simp add: mode_ok_bits example_pmode_def vmcs_simps zero_vcpu_def zero_rmode_def b Let_def
        PF_VECTOR_def) (simp add: zero_vm_def vmcs_read32_def vmcs_readl_def)
qed

text \<open>
  C10: the mode invariant is kept by every sequence of guest writes to \<open>CR0\<close>, \<open>CR3\<close>, \<open>CR4\<close>, \<open>CR8\<close>,
  \<open>EFER\<close> and the machine status word, faulting or not. So LMA, the IA-32e entry control and LME
  with paging always agree, long mode implies PAE, paging implies protection, the
  virtual-8086 substitute is used exactly while the guest is in real mode, and the bits that
  VMX operation needs stay on.
\<close>

theorem cr_writes_mode_ok:
  assumes "mode_ok s"
  shows "mode_ok (fold do_cr_write ws s)"
  using assms by (induction ws arbitrary: s) (simp_all add: do_cr_write_mode)

theorem cr_writes_mode_ok_witness:
  "mode_ok (fold do_cr_write [Write_cr4 0x20, Write_efer 0x100, Write_cr0 0x80000011, Write_cr0 0]
     example_pmode)"
  by (rule cr_writes_mode_ok [OF example_pmode_ok])


section \<open>What a write to CR0 or CR4 does\<close>

text \<open>A reset leaves the paging context that the guest's mode asks for.\<close>

lemma reset_context [simp]:
  "current_context (kvm_mmu_reset_context s) = (Some (fst (expected_context s)), snd (expected_context s))"
proof -
  have e: "expected_context (destroy_kvm_mmu s) = expected_context s"
    using cpu_viewD(1,3) [OF cpu_view_destroy_kvm_mmu [of s]]
    by (simp add: expected_context_def mode_bits)
  obtain root u m v where "current_context (init_kvm_mmu (destroy_kvm_mmu s)) =
      (Some (fst (expected_context (destroy_kvm_mmu s))), snd (expected_context (destroy_kvm_mmu s)))"
    by (rule init_kvm_mmu_effect)
  then show ?thesis by (simp add: kvm_mmu_reset_context_def e)
qed

lemma guest_reads_reset [simp]:
  "guest_cr0 (kvm_mmu_reset_context s) = guest_cr0 s" "guest_cr4 (kvm_mmu_reset_context s) = guest_cr4 s"
  "is_long_mode (kvm_mmu_reset_context s) = is_long_mode s"
  "rmode (vcpu (kvm_mmu_reset_context s)) = rmode (vcpu s)"
  "expected_context (kvm_mmu_reset_context s) = expected_context s"
  "vmcs_read32 (kvm_mmu_reset_context s) VM_ENTRY_INTR_INFO_FIELD = vmcs_read32 s VM_ENTRY_INTR_INFO_FIELD"
  by (simp_all add: guest_cr0_def guest_cr4_def is_long_mode_def expected_context_def mode_bits
      cpu_viewD [OF cpu_view_reset [of s]])

lemma cr0_rmode_cr4:
  "vmcs_readl (cr0_rmode cr0 s) CR4_READ_SHADOW = vmcs_readl s CR4_READ_SHADOW"
  "n \<noteq> 0 \<Longrightarrow> bit (vmcs_readl (cr0_rmode cr0 s) GUEST_CR4) n = bit (vmcs_readl s GUEST_CR4) n"
  by (auto simp: cr0_rmode_def Let_def mode_fields_def enter_pmode_reads enter_rmode_reads
      bit_or_iff bit_and_iff bit_not_iff mask_bits dest: bit_imp_le_length)

lemma internal_set_cr0_reads:
  "guest_cr0 (internal_set_cr0 cr0 s) = cr0" "guest_cr4 (internal_set_cr0 cr0 s) = guest_cr4 s"
proof -
  show "guest_cr0 (internal_set_cr0 cr0 s) = cr0"
    by (rule bit_word_eqI)
      (auto simp: bit_guest_cr0 internal_set_cr0_split vmcs_simps bit_or_iff mask_bits)
  show "guest_cr4 (internal_set_cr0 cr0 s) = guest_cr4 s"
    by (rule bit_word_eqI) (simp add: bit_guest_cr4 internal_set_cr0_split vmcs_simps
      cr0_lmode_reads cr0_rmode_cr4)
qed

text \<open>
  C26: a write to \<open>CR0\<close> that passes the checks takes effect and nothing else of the guest's
  control state is lost: the guest reads back the value it wrote and its old \<open>CR4\<close>, real mode
  and long mode follow the new bits, and the paging context that the shadow paging code uses
  afterwards is the one the new mode asks for.
\<close>

theorem set_cr0_effect:
  assumes "mode_ok s" "\<not> fst (cr0_write_faults cr0 s)"
  shows "let t = set_cr0 cr0 s in
    guest_cr0 t = cr0 \<and> guest_cr4 t = guest_cr4 s \<and>
    (rmode_active (rmode (vcpu t)) \<longleftrightarrow> cr0 AND CR0_PE_MASK = 0) \<and>
    (is_long_mode t \<longleftrightarrow> cr0 AND CR0_PG_MASK \<noteq> 0 \<and> shadow_efer (vcpu s) AND EFER_LME \<noteq> 0) \<and>
    current_context t = (Some (fst (expected_context t)), snd (expected_context t))"
proof -
  obtain t where f: "cr0_write_faults cr0 s = (False, t)"
    using assms(2) by (cases "cr0_write_faults cr0 s") auto
  then have v: "cpu_view t = cpu_view s" using cpu_view_faults [of cr0 s] by simp
  let ?u = "internal_set_cr0 cr0 t"
  have c: "set_cr0 cr0 s = kvm_mmu_reset_context ?u" by (simp add: set_cr0_def f)
  have g: "guest_cr4 t = guest_cr4 s" by (simp add: guest_cr4_def cpu_viewD [OF v])
  have t: "mode_ok t" using assms(1) mode_ok_view [OF v] by simp
  have rm: "rmode (vcpu ?u) = rmode (vcpu (cr0_rmode cr0 t))"
    by (simp add: internal_set_cr0_split vmcs_simps)
  note r = cr0_rmode_effect [OF t, of "cr0_rmode cr0 t" cr0, OF refl]
  have lm: "is_long_mode (cr0_rmode cr0 t) \<longleftrightarrow> bit (shadow_efer (vcpu (cr0_rmode cr0 t))) 10"
    "bit (shadow_efer (vcpu (cr0_rmode cr0 t))) 10 \<longleftrightarrow>
       bit (shadow_efer (vcpu (cr0_rmode cr0 t))) 8 \<and> is_paging (cr0_rmode cr0 t)"
    using t r(2-4) by (auto simp: mode_ok_def mode_bits mode_fields_def)
  have l: "is_long_mode ?u \<longleftrightarrow> bit cr0 31 \<and> bit (shadow_efer (vcpu s)) 8"
    using cr0_lmode_effect(1,2) [OF lm, of "cr0_lmode cr0 (cr0_rmode cr0 t)" cr0, OF refl] r(2)
      cpu_viewD(4) [OF v]
    by (auto simp: internal_set_cr0_split is_long_mode_bit vmcs_simps)
  show ?thesis
    unfolding c by (simp add: Let_def internal_set_cr0_reads g rm r(1) l)
qed


lemma example_pmode_reads:
  "vmcs_readl example_pmode CR0_READ_SHADOW = 0x11" "vmcs_readl example_pmode CR4_READ_SHADOW = 0"
  "vcpu example_pmode = zero_vcpu\<lparr>guest_msrs := [\<lparr>msr_index = MSR_EFER, msr_reserved = 0,
     msr_data = 0\<rparr>], nmsrs := 1\<rparr>"
  "vmcs_read32 example_pmode VM_ENTRY_CONTROLS = 0"
  by (simp_all add: example_pmode_def vmcs_simps)
    (simp_all add: zero_vm_def vmcs_read32_def vmcs_readl_def)

theorem set_cr0_effect_witness:
  "guest_cr0 (set_cr0 0x80000011 example_pmode) = 0x80000011 \<and>
   current_context (set_cr0 0x80000011 example_pmode) = (Some Paging32, 2, 3)"
proof -
  have b: "(0x80000011 :: u64) AND CR0_RESEVED_BITS = 0" "\<not> bit (0x80000011 :: u64) 29"
    "bit (0x80000011 :: u64) 0" "bit (0x80000011 :: u64) 31" "\<not> bit (0x11 :: u64) 31"
    unfolding CR0_RESEVED_BITS_def by code_simp+
  have f: "\<not> fst (cr0_write_faults 0x80000011 example_pmode)"
    by (simp add: cr0_write_faults_def b mode_bits example_pmode_reads zero_vcpu_def)
  note e = set_cr0_effect [OF example_pmode_ok f, unfolded Let_def]
  have "is_paging (set_cr0 0x80000011 example_pmode)"
    using e b by (simp add: is_paging_def)
  moreover have "\<not> is_pae (set_cr0 0x80000011 example_pmode)"
    using e by (simp add: is_pae_def) (simp add: bit_guest_cr4 example_pmode_reads)
  moreover have "\<not> is_long_mode (set_cr0 0x80000011 example_pmode)"
    using e by (simp add: example_pmode_reads zero_vcpu_def)
  ultimately show ?thesis
    using e by (simp add: expected_context_def)
qed

lemma internal_set_cr4_reads:
  "guest_cr4 (internal_set_cr4 cr4 s) = cr4" "guest_cr0 (internal_set_cr4 cr4 s) = guest_cr0 s"
  by (rule bit_word_eqI, auto simp: bit_guest_cr4 bit_guest_cr0 internal_set_cr4_def Let_def
      vmcs_simps bit_or_iff bit_cr4_always_on)+

lemma internal_set_cr4_other [simp]:
  "vmcs_read32 (internal_set_cr4 cr4 s) VM_ENTRY_INTR_INFO_FIELD = vmcs_read32 s VM_ENTRY_INTR_INFO_FIELD"
  by (simp add: internal_set_cr4_def Let_def vmcs_simps)

lemma guest_reads_inject_gp [simp]:
  "guest_cr0 (inject_gp s) = guest_cr0 s" "guest_cr4 (inject_gp s) = guest_cr4 s"
  by (simp_all add: inject_gp_def guest_cr0_def guest_cr4_def vmcs_simps Let_def)

definition gp_info :: u32 where
  "gp_info = GP_VECTOR OR INTR_TYPE_EXCEPTION OR INTR_INFO_DELIEVER_CODE_MASK OR INTR_INFO_VALID_MASK"

lemma inject_gp_info [simp]: "vmcs_read32 (inject_gp s) VM_ENTRY_INTR_INFO_FIELD = gp_info"
  by (simp add: inject_gp_def gp_info_def Let_def vmcs_simps)

text \<open>
  A write to \<open>CR4\<close> without reserved bits that does not leave PAE in long mode always takes
  effect: the guest reads it back, \<open>CR0\<close> is unchanged and the paging context follows. It does so
  even when turning PAE on finds a page directory pointer with reserved bits, in which case
  the fault is injected as well: the code has no return there. (The VMXE check that follows
  is never reached, the bit is a reserved one.)
\<close>

theorem set_cr4_effect:
  assumes "cr4 AND CR4_RESEVED_BITS = 0" "is_long_mode s \<Longrightarrow> cr4 AND CR4_PAE_MASK \<noteq> 0"
  shows "let t = set_cr4 cr4 s in
    guest_cr4 t = cr4 \<and> guest_cr0 t = guest_cr0 s \<and>
    current_context t = (Some (fst (expected_context t)), snd (expected_context t)) \<and>
    vmcs_read32 t VM_ENTRY_INTR_INFO_FIELD =
      (if \<not> is_long_mode s \<and> is_paging s \<and> \<not> is_pae s \<and> cr4 AND CR4_PAE_MASK \<noteq> 0 \<and>
          fst (pdptrs_have_reserved_bits_set (cr3 (vcpu s)) s)
       then gp_info else vmcs_read32 s VM_ENTRY_INTR_INFO_FIELD)"
proof -
  have "bit CR4_RESEVED_BITS 13" by (simp add: CR4_RESEVED_BITS_def bit_simps)
  then have x: "\<not> bit cr4 13"
    using arg_cong [OF assms(1), of "\<lambda>v. bit v 13"] by (simp add: bit_and_iff)
  obtain b t where p: "pdptrs_have_reserved_bits_set (cr3 (vcpu s)) s = (b, t)" by fastforce
  then have v: "cpu_view t = cpu_view s"
    using cpu_view_pdptrs [of "cr3 (vcpu s)" s] by simp
  have "guest_cr0 t = guest_cr0 s"
    "vmcs_read32 t VM_ENTRY_INTR_INFO_FIELD = vmcs_read32 s VM_ENTRY_INTR_INFO_FIELD"
    by (simp_all add: guest_cr0_def cpu_viewD [OF v])
  then show ?thesis
    using assms x by (auto simp: set_cr4_def p Let_def internal_set_cr4_reads)
qed

theorem set_cr4_effect_witness:
  "guest_cr4 (set_cr4 0x20 example_pmode) = 0x20"
proof -
  have "(0x20 :: u64) AND CR4_RESEVED_BITS = 0" by (simp add: CR4_RESEVED_BITS_def mask_numeral)
  moreover have "is_long_mode example_pmode \<Longrightarrow> (0x20 :: u64) AND CR4_PAE_MASK \<noteq> 0"
    by (simp add: is_long_mode_bit example_pmode_reads)
  ultimately show ?thesis using set_cr4_effect [where s = example_pmode] by (simp add: Let_def)
qed

lemma word_8_32:
  assumes "unat d < 128"
  shows "8 * d = 32 * d \<longleftrightarrow> d = (0 :: u64)"
proof
  assume "8 * d = 32 * d"
  then have "unat (8 * d) = unat (32 * d)" by (rule arg_cong)
  then show "d = 0" using assms by (simp add: unat_word_ariths unat_eq_zero)
qed simp

text \<open>
  The page directory pointers that are checked for reserved bits are those that the
  processor loads only when the root is in the first 32 bytes of its page. The four
  entries of a PAE guest are at \<open>cr3\<close> without its low five bits, 8 bytes apart; the code uses
  the offset divided by 32 as the index of an 8-byte element, a quarter of the distance.
\<close>

theorem pdptrs_checked_entries:
  assumes "pdpt AND PAGE_MASK = pdpt"
  shows "(\<forall>i < 4. pdpte_address pdpt root i = (pdpt OR (root AND 0xfe0)) + of_nat (8 * i)) \<longleftrightarrow>
    root AND 0xfe0 = 0"
proof -
  let ?d = "drop_bit 5 (root AND (PAGE_SIZE - 1))"
  have m: "(0xfe0 :: u64) = push_bit 5 (mask 7)" by (simp add: mask_numeral)
  have d: "root AND 0xfe0 = push_bit 5 ?d"
    unfolding m by (rule bit_word_eqI) (auto simp: bit_simps mask_bits)
  have o: "pdpt OR (root AND 0xfe0) = pdpt + (root AND 0xfe0)"
  proof (rule disjunctive_add [symmetric])
    fix n
    show "\<not> bit pdpt n \<or> \<not> bit (root AND 0xfe0) n"
      using arg_cong [OF assms, of "\<lambda>v. bit v n"] unfolding m
      by (auto simp: bit_simps mask_bits)
  qed
  have "?d = take_bit 7 (drop_bit 5 root)"
    by (rule bit_word_eqI) (auto simp: bit_simps mask_bits)
  then have lt: "unat ?d < 128"
    using take_bit_nat_less_exp [of 7 "unat (drop_bit 5 root)"] by (simp add: unsigned_take_bit_eq)
  have e: "pdpte_address pdpt root i = pdpt + 8 * ?d + of_nat (8 * i)" for i
    unfolding pdpte_address_def elt_def by (simp add: push_bit_eq_mult del: drop_bit_and)
  have "pdpt OR (root AND 0xfe0) = pdpt + 32 * ?d"
    unfolding o by (subst d) (simp add: push_bit_eq_mult mult.commute del: drop_bit_and)
  then have "(\<forall>i < 4. pdpte_address pdpt root i = (pdpt OR (root AND 0xfe0)) + of_nat (8 * i)) \<longleftrightarrow>
      (\<forall>i < (4 :: nat). 8 * ?d = 32 * ?d)"
    unfolding e by (simp del: drop_bit_and)
  also have "\<dots> \<longleftrightarrow> 8 * ?d = 32 * ?d" using zero_less_numeral [of "num.Bit0 (num.Bit0 num.One)"] by blast
  also have "\<dots> \<longleftrightarrow> ?d = 0" by (rule word_8_32 [OF lt])
  also have "\<dots> \<longleftrightarrow> root AND 0xfe0 = 0"
  proof
    assume z: "?d = 0"
    show "root AND 0xfe0 = 0" by (subst d) (simp only: z push_bit_of_0)
  next
    assume z: "root AND 0xfe0 = 0"
    have "?d = drop_bit 5 (root AND 0xfe0)"
      unfolding m by (rule bit_word_eqI) (auto simp: bit_simps mask_bits)
    then show "?d = 0" by (simp only: z drop_bit_of_0)
  qed
  finally show ?thesis .
qed

theorem pdptrs_checked_entries_witness:
  "\<not> (\<forall>i < 4. pdpte_address 0x7000 0x7020 i = (0x7000 OR (0x7020 AND 0xfe0)) + of_nat (8 * i))"
  using pdptrs_checked_entries [of "0x7000" "0x7020"] by (simp add: PAGE_MASK_mask mask_numeral)

end
