(* ===== verification/Vcpu_Load.thy ===== *)
theory Vcpu_Load
  imports Kvm_State
begin

text \<open>
  \<open>vcpu_load\<close>: the virtual cpu's VMCS becomes the current one of this cpu, and the host state
  in it that depends on the cpu is set again when the virtual cpu last ran on another one.
  The sequential handlers use it as their first step; what it does to the other cpus is in
  \<open>Vcpu_Switch\<close>. \<open>vcpu_put\<close> only enables preemption and unlocks, so it has no counterpart.
\<close>

section \<open>The base of a segment of the host\<close>

text \<open>
  \<open>struct segment_descriptor\<close>: the base is in bytes 2 to 4 and 7, the low half of byte 5 is the
  type, its bit 4 is clear for a system segment; a 64 bit system descriptor has the upper half
  of the base in bytes 8 to 11. The recursion on the selector of the LDT does not end when that
  selector is in an LDT itself: fuel, with \<open>None\<close> when it is used up.
\<close>

definition descriptor_base :: "memory \<Rightarrow> u64 \<Rightarrow> u64" where
  "descriptor_base m d =
     (let base_low = take_bit 16 (load32 m (d + 2));
          base_mid = ucast (m (d + 4)) :: u64;
          base_high = ucast (m (d + 7)) :: u64;
          v = base_low OR push_bit 16 base_mid OR push_bit 24 base_high;
          type = m (d + 5) AND 0xf;
          system = bit (m (d + 5)) 4
      in if \<not> system \<and> (type = 2 \<or> type = 9 \<or> type = 11)
         then v OR push_bit 32 (load32 m (d + 8)) else v)"

fun segment_base :: "nat \<Rightarrow> vm \<Rightarrow> u16 \<Rightarrow> u64 option" where
  "segment_base 0 s selector = None"
| "segment_base (Suc fuel) s selector =
     (let offset = ucast (selector AND NOT 7) :: u64
      in if selector AND 4 \<noteq> 0 then
           (case segment_base fuel s (h_ldt (host s)) of
              None \<Rightarrow> None
            | Some table_base \<Rightarrow> Some (descriptor_base (hmem s) (table_base + offset)))
         else Some (descriptor_base (hmem s) (h_gdt_base (host s) + offset)))"

text \<open>Fuel 2 is enough whenever the selector of the LDT is in the GDT, as the processor requires.\<close>

definition read_tr_base :: "vm \<Rightarrow> u64" where
  "read_tr_base s = (case segment_base 2 s (h_tr (host s)) of None \<Rightarrow> 0 | Some base \<Rightarrow> base)"

section \<open>Loading the virtual cpu\<close>

definition MSR_IA32_SYSENTER_ESP :: u32 where
  "MSR_IA32_SYSENTER_ESP = 0x175"

definition internal_vcpu_load :: "vm \<Rightarrow> vm" where
  "internal_vcpu_load s =
     (let cpu = h_cpu (host s);
          moved = vcpu_cpu (vcpu s) \<noteq> cpu;
          s = (if moved then s\<lparr>vcpu := (vcpu s)\<lparr>launched := False\<rparr>\<rparr> else s);
          s = (if h_current_vmcs (host s) \<noteq> vcpu_vmcs (vcpu s)
               then s\<lparr>host := (host s)\<lparr>h_current_vmcs := vcpu_vmcs (vcpu s)\<rparr>\<rparr> else s)
      in if moved then
           let s = s\<lparr>vcpu := (vcpu s)\<lparr>vcpu_cpu := cpu\<rparr>\<rparr>;
               s = vmcs_writel HOST_TR_BASE (read_tr_base s) s;
               s = vmcs_writel HOST_GDTR_BASE (h_gdt_base (host s)) s
           in vmcs_writel HOST_IA32_SYSENTER_ESP (h_msr (host s) MSR_IA32_SYSENTER_ESP) s
         else s)"

definition vcpu_load :: "vm \<Rightarrow> vm option" where
  "vcpu_load s = (if vcpu_vmcs (vcpu s) = None then None else Some (internal_vcpu_load s))"

lemma segment_base_enough:
  assumes "h_ldt (host s) AND 4 = 0"
  shows "segment_base (Suc (Suc fuel)) s selector = segment_base 2 s selector"
  using assms by (simp add: numeral_2_eq_2 Let_def)

text \<open>The guest's own state is not touched.\<close>

lemma vcpu_load_frame:
  assumes "vcpu_load s = Some t"
  shows "hmem t = hmem s" "memslots t = memslots s" "nmemslots t = nmemslots s"
    "regs (vcpu t) = regs (vcpu s)" "irq_summary (vcpu t) = irq_summary (vcpu s)"
    "irq_pending (vcpu t) = irq_pending (vcpu s)" "rmode (vcpu t) = rmode (vcpu s)"
    "cr3 (vcpu t) = cr3 (vcpu s)" "shadow_efer (vcpu t) = shadow_efer (vcpu s)"
    "f \<notin> {HOST_TR_BASE, HOST_GDTR_BASE, HOST_IA32_SYSENTER_ESP} \<Longrightarrow> vmcs_readl t f = vmcs_readl s f"
    "f \<notin> {HOST_TR_BASE, HOST_GDTR_BASE, HOST_IA32_SYSENTER_ESP} \<Longrightarrow> vmcs_read32 t f = vmcs_read32 s f"
    "h_current_vmcs (host t) = vcpu_vmcs (vcpu t)" "vcpu_cpu (vcpu t) = h_cpu (host t)"
  using assms by (auto simp: vcpu_load_def internal_vcpu_load_def Let_def vmcs_simps split: if_splits)

end
