(* ===== verification/Irq.thy ===== *)
theory Irq
  imports Cr_Modes Vcpu_Load
begin

text \<open>
  Pending interrupts: the two-level bit vector \<open>irq_summary\<close> / \<open>irq_pending\<close>, the ioctl that
  queues an interrupt, and the injection before a guest entry. The vector implements a set of
  numbers below 256 from which the least is taken; the locale \<open>irq_queue\<close> is that interface, and
  the order in which interrupts are delivered is proved in it.
\<close>

section \<open>The bit vector\<close>

definition BITS_PER_LONG :: nat where
  "BITS_PER_LONG = 64"

definition NR_IRQ_WORDS :: nat where
  "NR_IRQ_WORDS = 256 div BITS_PER_LONG"

text \<open>\<open>__ffs\<close>: the least set bit; the instruction leaves its result undefined for 0, here 64.\<close>

definition ffs :: "u64 \<Rightarrow> nat" where
  "ffs w = length (takeWhile (\<lambda>i. \<not> bit w i) [0..<64])"

text \<open>\<open>set_bit(irq, vcpu->irq_pending); set_bit(irq / BITS_PER_LONG, &vcpu->irq_summary)\<close>.\<close>

definition set_pending_irq :: "nat \<Rightarrow> vm \<Rightarrow> vm" where
  "set_pending_irq irq s =
     s\<lparr>vcpu := (vcpu s)\<lparr>
       irq_pending := (irq_pending (vcpu s))(irq div BITS_PER_LONG :=
         Bit_Operations.set_bit (irq mod BITS_PER_LONG) (irq_pending (vcpu s) (irq div BITS_PER_LONG))),
       irq_summary := Bit_Operations.set_bit (irq div BITS_PER_LONG) (irq_summary (vcpu s))\<rparr>\<rparr>"

definition next_irq :: "vm \<Rightarrow> nat" where
  "next_irq s =
     (let word_index = ffs (irq_summary (vcpu s));
          bit_index = ffs (irq_pending (vcpu s) word_index)
      in word_index * BITS_PER_LONG + bit_index)"

definition clear_next_irq :: "vm \<Rightarrow> vm" where
  "clear_next_irq s =
     (let word_index = ffs (irq_summary (vcpu s));
          bit_index = ffs (irq_pending (vcpu s) word_index);
          word = unset_bit bit_index (irq_pending (vcpu s) word_index);
          summary = (if word = 0 then unset_bit word_index (irq_summary (vcpu s))
                     else irq_summary (vcpu s))
      in s\<lparr>vcpu := (vcpu s)\<lparr>irq_pending := (irq_pending (vcpu s))(word_index := word),
                             irq_summary := summary\<rparr>\<rparr>)"

section \<open>Injection\<close>

text \<open>
  A \<open>u16\<close> in guest memory, little endian. The checks on the stack compare the \<open>int\<close> values
  of \<open>sp\<close> and \<open>sp - 6\<close>, so the second never holds; below 6 the new stack pointer is negative
  and is sign-extended into \<open>RSP\<close>. A failed access leaves the guest as it was, except for the
  stack words already written.
\<close>

definition bytes16 :: "u16 \<Rightarrow> u8 list" where
  "bytes16 w = [ucast w, ucast (drop_bit 8 w)]"

definition word16 :: "u8 list \<Rightarrow> u16" where
  "word16 bs = ucast (bs ! 0) OR push_bit 8 (ucast (bs ! 1))"

definition rmode_irq_regs :: "u16 \<Rightarrow> u16 \<Rightarrow> u16 \<Rightarrow> u64 \<Rightarrow> vm \<Rightarrow> vm" where
  "rmode_irq_regs ent0 ent1 sp flags s =
     (let s = vmcs_writel GUEST_RFLAGS
                (flags AND NOT (X86_EFLAGS_IF OR X86_EFLAGS_AC OR X86_EFLAGS_TF)) s;
          s = vmcs_write16 GUEST_CS_SELECTOR ent1 s;
          s = vmcs_writel GUEST_CS_BASE (push_bit 4 (ucast ent1)) s;
          s = vmcs_writel GUEST_RIP (ucast ent0) s
      in vmcs_writel GUEST_RSP ((vmcs_readl s GUEST_RSP AND NOT 0xffff) OR (ucast sp - 6)) s)"

definition inject_rmode_irq :: "nat \<Rightarrow> vm \<Rightarrow> vm" where
  "inject_rmode_irq irq s =
     (let ss_base = vmcs_readl s GUEST_SS_BASE;
          sp = ucast (vmcs_readl s GUEST_RSP) :: u16;
          ss_limit = vmcs_read32 s GUEST_SS_LIMIT
      in if ucast sp > ss_limit then s
         else
           let ent = kvm_read_guest s (of_nat (4 * irq)) 4
           in if length ent \<noteq> 4 then s
              else
                let flags = vmcs_readl s GUEST_RFLAGS;
                    cs = ucast (drop_bit 4 (vmcs_readl s GUEST_CS_BASE)) :: u16;
                    ip = ucast (vmcs_readl s GUEST_RIP) :: u16;
                    (n, s) = kvm_write_guest (ss_base + ucast sp - 2) (bytes16 (ucast flags)) s
                in if n \<noteq> 2 then s
                   else let (n, s) = kvm_write_guest (ss_base + ucast sp - 4) (bytes16 cs) s
                   in if n \<noteq> 2 then s
                   else let (n, s) = kvm_write_guest (ss_base + ucast sp - 6) (bytes16 ip) s
                   in if n \<noteq> 2 then s
                   else rmode_irq_regs (word16 (take 2 ent)) (word16 (drop 2 ent)) sp flags s)"

definition kvm_do_inject_irq :: "vm \<Rightarrow> vm" where
  "kvm_do_inject_irq s =
     (let irq = next_irq s;
          s = clear_next_irq s
      in if rmode_active (rmode (vcpu s)) then inject_rmode_irq irq s
         else vmcs_write32 VM_ENTRY_INTR_INFO_FIELD
                (of_nat irq OR INTR_TYPE_EXT_INTR OR INTR_INFO_VALID_MASK) s)"

definition kvm_try_inject_irq :: "vm \<Rightarrow> vm" where
  "kvm_try_inject_irq s =
     (if vmcs_readl s GUEST_RFLAGS AND X86_EFLAGS_IF \<noteq> 0 \<and>
         vmcs_read32 s GUEST_INTERRUPTIBILITY_INFO AND 3 = 0
      then kvm_do_inject_irq s
      else vmcs_write32 CPU_BASED_VM_EXEC_CONTROL
             (vmcs_read32 s CPU_BASED_VM_EXEC_CONTROL OR CPU_BASED_VIRTUAL_INTR_PENDING) s)"

text \<open>The two words of \<open>struct kvm_interrupt\<close> are unsigned, so only the upper bounds can fail.\<close>

definition kvm_dev_ioctl_interrupt :: "u32 \<Rightarrow> u32 \<Rightarrow> vm \<Rightarrow> errno option \<times> vm" where
  "kvm_dev_ioctl_interrupt vcpu_slot irq s =
     (if unat vcpu_slot \<ge> KVM_MAX_VCPUS then (Some EINVAL, s)
      else if irq \<ge> 256 then (Some EINVAL, s)
      else case vcpu_load s of
             None \<Rightarrow> (Some ENOENT, s)
           | Some s \<Rightarrow> (None, set_pending_irq (unat irq) s))"

section \<open>The interface\<close>

text \<open>A set of numbers below a bound; the least is taken first.\<close>

fun drain :: "('s \<Rightarrow> nat) \<Rightarrow> ('s \<Rightarrow> 's) \<Rightarrow> nat \<Rightarrow> 's \<Rightarrow> nat list" where
  "drain nxt del 0 s = []"
| "drain nxt del (Suc n) s = nxt s # drain nxt del n (del s)"

locale irq_queue =
  fixes add :: "nat \<Rightarrow> 's \<Rightarrow> 's"
    and nxt :: "'s \<Rightarrow> nat"
    and del :: "'s \<Rightarrow> 's"
    and pending :: "'s \<Rightarrow> nat set"
    and ok :: "'s \<Rightarrow> bool"
    and bound :: nat
  assumes finite_pending: "finite (pending s)"
    and ok_add: "ok s \<Longrightarrow> i < bound \<Longrightarrow> ok (add i s)"
    and pending_add: "ok s \<Longrightarrow> i < bound \<Longrightarrow> pending (add i s) = insert i (pending s)"
    and nxt_Min: "ok s \<Longrightarrow> pending s \<noteq> {} \<Longrightarrow> nxt s = Min (pending s)"
    and ok_del: "ok s \<Longrightarrow> pending s \<noteq> {} \<Longrightarrow> ok (del s)"
    and pending_del: "ok s \<Longrightarrow> pending s \<noteq> {} \<Longrightarrow> pending (del s) = pending s - {nxt s}"
begin

lemma fold_add:
  assumes "ok s" "\<forall>i \<in> set is. i < bound"
  shows "ok (fold add is s) \<and> pending (fold add is s) = pending s \<union> set is"
  using assms by (induction "is" arbitrary: s) (simp_all add: ok_add pending_add)

lemma drain_sorted:
  assumes "ok s"
  shows "drain nxt del (card (pending s)) s = sorted_list_of_set (pending s)"
  using assms
proof (induction "card (pending s)" arbitrary: s)
  case 0
  then show ?case using finite_pending [of s] by simp
next
  case (Suc n)
  then have ne: "pending s \<noteq> {}" by auto
  have n: "n = card (pending (del s))"
    using Suc.hyps(2) Suc.prems ne finite_pending [of s]
    by (simp add: pending_del nxt_Min)
  have "drain nxt del (card (pending s)) s = Min (pending s) # drain nxt del (card (pending (del s))) (del s)"
    using Suc.hyps(2) Suc.prems ne n by (simp flip: Suc.hyps(2) add: nxt_Min)
  also have "\<dots> = Min (pending s) # sorted_list_of_set (pending s - {Min (pending s)})"
    using Suc.hyps(1) [OF n] Suc.prems ne by (simp add: ok_del pending_del nxt_Min)
  also have "\<dots> = sorted_list_of_set (pending s)"
    using ne finite_pending [of s] by (simp add: sorted_list_of_set_nonempty)
  finally show ?case .
qed

end

section \<open>The bit vector implements it\<close>

definition irq_set :: "vm \<Rightarrow> nat set" where
  "irq_set s = {i. i < 256 \<and> bit (irq_pending (vcpu s) (i div 64)) (i mod 64)}"

text \<open>The summary has the bit of exactly the words that are not empty.\<close>

definition irq_ok :: "vm \<Rightarrow> bool" where
  "irq_ok s \<longleftrightarrow> (\<forall>w. bit (irq_summary (vcpu s)) w \<longleftrightarrow> w < 4 \<and> irq_pending (vcpu s) w \<noteq> 0)"

lemma ffs_least:
  assumes "w \<noteq> 0"
  shows "ffs w < 64" "bit w (ffs w)" "i < ffs w \<Longrightarrow> \<not> bit w i"
proof -
  let ?P = "\<lambda>i. \<not> bit w i"
  have "\<exists>n. bit w n"
  proof (rule ccontr)
    assume "\<nexists>n. bit w n"
    then have "w = 0" by (intro bit_word_eqI) simp
    with assms show False by simp
  qed
  then obtain n where n: "bit w n" ..
  then have lt: "n < 64" using bit_imp_le_length by fastforce
  have "\<not> (\<forall>i \<in> set [0..<64]. ?P i)" using n lt by auto
  then have "takeWhile ?P [0..<64] \<noteq> [0..<64]" by (metis takeWhile_eq_all_conv)
  then have "length (takeWhile ?P [0..<64]) \<noteq> 64"
    by (metis length_upt minus_nat.diff_0 takeWhile_eq_take take_all order_refl)
  then show l: "ffs w < 64"
    using length_takeWhile_le [of ?P "[0..<64]"] by (simp add: ffs_def del: upt_rec_numeral)
  have "\<not> ?P ([0..<64] ! ffs w)"
    unfolding ffs_def by (rule nth_length_takeWhile) (use l in \<open>simp add: ffs_def del: upt_rec_numeral\<close>)
  then show "bit w (ffs w)" using l by (simp del: upt_rec_numeral)
  show "\<not> bit w i" if "i < ffs w"
  proof -
    have "takeWhile ?P [0..<64] ! i = [0..<64] ! i"
      using that by (simp add: ffs_def takeWhile_nth del: upt_rec_numeral)
    moreover have "takeWhile ?P [0..<64] ! i \<in> set (takeWhile ?P [0..<64])"
      using that unfolding ffs_def by (rule nth_mem)
    then have "?P (takeWhile ?P [0..<64] ! i)" by (rule set_takeWhileD [THEN conjunct2])
    ultimately show ?thesis using that l by (simp del: upt_rec_numeral)
  qed
qed

lemma irq_set_finite: "finite (irq_set s)"
  by (simp add: irq_set_def)

lemma irq_set_empty:
  assumes "irq_ok s"
  shows "irq_set s = {} \<longleftrightarrow> irq_summary (vcpu s) = 0"
proof
  assume e: "irq_set s = {}"
  show "irq_summary (vcpu s) = 0"
  proof (rule ccontr)
    assume "irq_summary (vcpu s) \<noteq> 0"
    then obtain w where "w < 4" "irq_pending (vcpu s) w \<noteq> 0"
      using ffs_least(2) assms unfolding irq_ok_def by blast
    then have "w * 64 + ffs (irq_pending (vcpu s) w) \<in> irq_set s"
      using ffs_least(1,2) [of "irq_pending (vcpu s) w"] by (simp add: irq_set_def)
    with e show False by simp
  qed
next
  assume "irq_summary (vcpu s) = 0"
  then have "irq_pending (vcpu s) w = 0" if "w < 4" for w
    using assms that by (auto simp: irq_ok_def)
  then show "irq_set s = {}" by (auto simp: irq_set_def)
qed

text \<open>The least pending number is in the first word that is not empty.\<close>

lemma next_irq_Min:
  assumes ok: "irq_ok s" and ne: "irq_set s \<noteq> {}"
  shows "next_irq s = Min (irq_set s)" "ffs (irq_summary (vcpu s)) < 4"
    "irq_pending (vcpu s) (ffs (irq_summary (vcpu s))) \<noteq> 0"
proof -
  let ?w = "ffs (irq_summary (vcpu s))"
  let ?b = "ffs (irq_pending (vcpu s) ?w)"
  have "irq_summary (vcpu s) \<noteq> 0" using irq_set_empty [OF ok] ne by simp
  note f = ffs_least [OF this]
  show w: "?w < 4" "irq_pending (vcpu s) ?w \<noteq> 0" using ok f(2) by (auto simp: irq_ok_def)
  note g = ffs_least [OF w(2)]
  have mem: "?w * 64 + ?b \<in> irq_set s" using w g by (simp add: irq_set_def)
  have "?w * 64 + ?b \<le> i" if i: "i \<in> irq_set s" for i
  proof -
    have b: "bit (irq_pending (vcpu s) (i div 64)) (i mod 64)" "i < 256" using i by (auto simp: irq_set_def)
    then have "irq_pending (vcpu s) (i div 64) \<noteq> 0" by auto
    then have "bit (irq_summary (vcpu s)) (i div 64)" using ok b(2) by (auto simp: irq_ok_def)
    then have le: "?w \<le> i div 64" using f(3) [of "i div 64"] by linarith
    show ?thesis
    proof (cases "i div 64 = ?w")
      case True
      then have "?b \<le> i mod 64" using g(3) [of "i mod 64"] b(1) by (metis linorder_not_le)
      then show ?thesis using True by (metis add.commute add_le_cancel_right mod_div_mult_eq)
    next
      case False
      with le have "?w + 1 \<le> i div 64" by simp
      then have "(?w + 1) * 64 \<le> i" by (metis div_le_mono div_mult_self_is_m less_eq_div_iff_mult_less_eq zero_less_numeral)
      with g(1) show ?thesis by simp
    qed
  qed
  then have "Min (irq_set s) = ?w * 64 + ?b"
    using mem by (intro Min_eqI) (auto simp: irq_set_finite)
  then show "next_irq s = Min (irq_set s)"
    by (simp add: next_irq_def BITS_PER_LONG_def Let_def)
qed

lemma set_pending_irq_ok:
  assumes "irq_ok s" "irq < 256"
  shows "irq_ok (set_pending_irq irq s)" "irq_set (set_pending_irq irq s) = insert irq (irq_set s)"
proof -
  have nz: "Bit_Operations.set_bit (irq mod 64) w \<noteq> 0" for w :: u64
  proof
    assume "Bit_Operations.set_bit (irq mod 64) w = 0"
    then have "\<not> bit (Bit_Operations.set_bit (irq mod 64) w) (irq mod 64)" by simp
    then show False by (simp add: bit_set_bit_iff)
  qed
  have d: "irq div 64 < 4" using assms(2) by simp
  show "irq_ok (set_pending_irq irq s)"
    unfolding irq_ok_def
  proof
    fix w
    show "bit (irq_summary (vcpu (set_pending_irq irq s))) w \<longleftrightarrow>
        w < 4 \<and> irq_pending (vcpu (set_pending_irq irq s)) w \<noteq> 0"
      using assms(1) [unfolded irq_ok_def, rule_format, of w] d nz
      by (cases "w = irq div 64")
        (simp_all add: set_pending_irq_def BITS_PER_LONG_def bit_set_bit_iff)
  qed
  show "irq_set (set_pending_irq irq s) = insert irq (irq_set s)"
  proof (rule set_eqI)
    fix i
    have "i div 64 = irq div 64 \<Longrightarrow> i mod 64 = irq mod 64 \<Longrightarrow> i = irq"
      by (metis div_mult_mod_eq)
    then show "i \<in> irq_set (set_pending_irq irq s) \<longleftrightarrow> i \<in> insert irq (irq_set s)"
      using assms(2) by (auto simp: irq_set_def set_pending_irq_def BITS_PER_LONG_def bit_set_bit_iff)
  qed
qed

lemma clear_next_irq_ok:
  assumes ok: "irq_ok s" and ne: "irq_set s \<noteq> {}"
  shows "irq_ok (clear_next_irq s)" "irq_set (clear_next_irq s) = irq_set s - {next_irq s}"
proof -
  let ?w = "ffs (irq_summary (vcpu s))"
  let ?b = "ffs (irq_pending (vcpu s) ?w)"
  note m = next_irq_Min [OF ok ne]
  note b = ffs_least(1) [OF m(3)]
  show "irq_ok (clear_next_irq s)"
    using ok m(2,3) by (auto simp: irq_ok_def clear_next_irq_def Let_def bit_unset_bit_iff)
  show "irq_set (clear_next_irq s) = irq_set s - {next_irq s}"
  proof (rule set_eqI)
    fix i
    have "i div 64 = ?w \<Longrightarrow> i mod 64 = ?b \<Longrightarrow> i = ?w * 64 + ?b"
      by (metis div_mult_mod_eq)
    then have "i = ?w * 64 + ?b \<longleftrightarrow> i div 64 = ?w \<and> i mod 64 = ?b"
      using b by auto
    then show "i \<in> irq_set (clear_next_irq s) \<longleftrightarrow> i \<in> irq_set s - {next_irq s}"
      by (auto simp: irq_set_def clear_next_irq_def next_irq_def BITS_PER_LONG_def Let_def
          bit_unset_bit_iff)
  qed
qed

interpretation irqs: irq_queue set_pending_irq next_irq clear_next_irq irq_set irq_ok 256
  by unfold_locales (simp_all add: irq_set_finite set_pending_irq_ok next_irq_Min clear_next_irq_ok)

section \<open>What is delivered\<close>

text \<open>
  C12: the two-level bit vector of pending interrupts is a set from which the least number is
  taken: whatever interrupts are queued on an empty vector, and however often each, taking
  them one by one yields every queued number once, in ascending order. Finding the word in
  the summary never misses a pending interrupt.
\<close>

theorem irq_delivery_order:
  assumes "irq_ok s" "irq_set s = {}" "\<forall>i \<in> set is. i < 256"
  shows "drain next_irq clear_next_irq (card (set is)) (fold set_pending_irq is s) =
    sorted_list_of_set (set is)"
  using irqs.fold_add [OF assms(1,3)] irqs.drain_sorted [of "fold set_pending_irq is s"] assms(2)
  by simp

definition example_no_irq :: vm where
  "example_no_irq = zero_vm"

lemma example_no_irq_ok: "irq_ok example_no_irq" "irq_set example_no_irq = {}"
  by (simp_all add: irq_ok_def irq_set_def example_no_irq_def zero_vm_def zero_vcpu_def)

theorem irq_delivery_order_witness:
  "drain next_irq clear_next_irq 3 (fold set_pending_irq [200, 32, 65, 32] example_no_irq) = [32, 65, 200]"
proof -
  have "card (set [200, 32, 65, 32 :: nat]) = 3" by (simp add: card_insert_if)
  moreover have "set [200, 32, 65, 32 :: nat] = {32, 65, 200}" by auto
  then have "sorted_list_of_set (set [200, 32, 65, 32 :: nat]) = [32, 65, 200]" by simp
  ultimately show ?thesis
    using irq_delivery_order [OF example_no_irq_ok, of "[200, 32, 65, 32]"] by simp
qed

lemma irq_vmcs [simp]:
  "irq_ok (vmcs_write32 f v s) = irq_ok s" "irq_set (vmcs_write32 f v s) = irq_set s"
  by (simp_all add: irq_ok_def irq_set_def vmcs_simps)

lemma clear_next_irq_frame [simp]:
  "vmcs_readl (clear_next_irq s) = vmcs_readl s" "vmcs_read32 (clear_next_irq s) = vmcs_read32 s"
  "rmode (vcpu (clear_next_irq s)) = rmode (vcpu s)" "hmem (clear_next_irq s) = hmem s"
  by (simp_all add: clear_next_irq_def Let_def vmcs_readl_def [abs_def] vmcs_read32_def [abs_def])


definition example_irq :: vm where
  "example_irq = set_pending_irq 33 (vmcs_writel GUEST_RFLAGS 0x202 example_no_irq)"


section \<open>Interrupts in real mode\<close>

text \<open>The three stack words are one frame of six bytes; \<open>a\<close> is the address of its first byte.\<close>

lemma kvm_write_guest_in_page:
  assumes "nonpaging_ok s" "\<not> is_error_hpa (gva_to_hpa s a)" "page_offset a + j + length ds \<le> 4096"
  shows "kvm_write_guest (a + of_nat j) ds s =
    (length ds, s\<lparr>hmem := put_bytes (gva_to_hpa s a + of_nat j) ds (hmem s)\<rparr>)"
  unfolding kvm_write_guest_def flat.write_chunks_bytes [OF assms(1)]
  by (rule flat.write_in_page [OF assms])

definition irq_frame :: "vm \<Rightarrow> u8 list" where
  "irq_frame s = bytes16 (ucast (vmcs_readl s GUEST_RIP)) @
     bytes16 (ucast (drop_bit 4 (vmcs_readl s GUEST_CS_BASE))) @
     bytes16 (ucast (vmcs_readl s GUEST_RFLAGS))"

lemma word16_bytes: "(ucast (ucast w :: u8) :: u16) OR push_bit 8 (ucast (ucast (drop_bit 8 w) :: u8)) = w"
  by (rule bit_word_eqI) (auto simp: bit_simps)

lemma low_word_minus_6:
  assumes "6 \<le> (ucast r :: u16)"
  shows "(r AND NOT 0xffff) OR (ucast (ucast r :: u16) - 6) = r - (6 :: u64)"
proof -
  let ?l = "ucast (ucast r :: u16) :: u64"
  have m: "(0xffff :: u64) = mask 16" by (simp add: mask_numeral)
  have l: "?l = r AND 0xffff"
    unfolding m by (rule bit_word_eqI) (auto simp: bit_simps)
  have r: "r = (r AND NOT 0xffff) + ?l"
  proof -
    have "(r AND NOT 0xffff) + (r AND 0xffff) = (r AND NOT 0xffff) OR (r AND 0xffff)"
      unfolding m by (rule disjunctive_add) (auto simp: bit_and_iff bit_not_iff bit_mask_iff)
    also have "\<dots> = r" unfolding m by (rule bit_word_eqI) (auto simp: bit_simps)
    finally show ?thesis unfolding l by simp
  qed
  have "6 \<le> unat ?l" using assms by (simp add: word_le_nat_alt unsigned_ucast_eq unsigned_take_bit_eq)
  moreover have "unat ?l < 2 ^ 16"
    using take_bit_nat_less_exp [of 16 "unat r"] by (simp add: unsigned_ucast_eq unsigned_take_bit_eq)
  ultimately have "unat (?l - 6) < 2 ^ 16" by (simp add: unat_sub_if')
  then have x: "?l - 6 = take_bit 16 (?l - 6)"
    by (intro word_unat_eq_iff [THEN iffD2]) (simp add: unsigned_take_bit_eq take_bit_nat_eq_self)
  have "(r AND NOT 0xffff) + (?l - 6) = (r AND NOT 0xffff) OR (?l - 6)"
  proof (rule disjunctive_add)
    fix n
    show "\<not> bit (r AND NOT 0xffff) n \<or> \<not> bit (?l - 6) n"
      unfolding m by (subst x) (auto simp: bit_and_iff bit_not_iff bit_mask_iff bit_take_bit_iff)
  qed
  then show ?thesis using r by (metis add_diff_eq)
qed

lemma three_words:
  assumes "length x = 2" "length y = 2" "length z = 2"
  shows "bytes_at (put_bytes h x (put_bytes (h + 2) y (put_bytes (h + 4) z m))) h 6 = x @ y @ z"
proof -
  obtain x0 x1 y0 y1 z0 z1 where "x = [x0, x1]" "y = [y0, y1]" "z = [z0, z1]"
    using assms by (auto simp: length_Suc_conv numeral_2_eq_2)
  moreover have "[0..<6] = [0, 1, 2, 3, 4, 5]" by (simp add: upt_rec)
  ultimately show ?thesis by (simp add: bytes_at_def)
qed

text \<open>
  C28: an interrupt in real mode pushes \<open>FLAGS\<close>, \<open>CS\<close> and \<open>IP\<close>, in this order, below the stack
  pointer and continues at the far pointer of the interrupt table at \<open>4 * irq\<close>, with IF, TF and
  AC cleared, whenever the stack frame is in a mapped page, the stack pointer is within its
  limit and at least 6.
\<close>

theorem inject_rmode_irq_frame:
  fixes sp :: u16
  assumes "nonpaging_ok s"
    and sp: "sp = ucast (vmcs_readl s GUEST_RSP)" "6 \<le> sp" "(ucast sp :: u32) \<le> vmcs_read32 s GUEST_SS_LIMIT"
    and a: "a = vmcs_readl s GUEST_SS_BASE + (ucast sp - 6)" "page_offset a + 6 \<le> 4096"
    and ne: "\<not> is_error_hpa (gva_to_hpa s a)"
    and ent: "kvm_read_guest s (of_nat (4 * irq)) 4 = bytes16 ip @ bytes16 cs"
  shows "let t = inject_rmode_irq irq s in
    bytes_at (hmem t) (gva_to_hpa s a) 6 = irq_frame s \<and>
    vmcs_readl t GUEST_RIP = ucast ip \<and> vmcs_read16 t GUEST_CS_SELECTOR = cs \<and>
    vmcs_readl t GUEST_CS_BASE = 16 * ucast cs \<and>
    vmcs_readl t GUEST_RSP = vmcs_readl s GUEST_RSP - 6 \<and>
    vmcs_readl t GUEST_RFLAGS =
      vmcs_readl s GUEST_RFLAGS AND NOT (X86_EFLAGS_IF OR X86_EFLAGS_AC OR X86_EFLAGS_TF)"
proof -
  define h where "h = gva_to_hpa s a"
  define flags where "flags = bytes16 (ucast (vmcs_readl s GUEST_RFLAGS))"
  define c where "c = bytes16 (ucast (drop_bit 4 (vmcs_readl s GUEST_CS_BASE)))"
  define i where "i = bytes16 (ucast (vmcs_readl s GUEST_RIP))"
  note l = flags_def c_def i_def
  have len: "length flags = 2" "length c = 2" "length i = 2" by (simp_all add: l bytes16_def)
  define m1 where "m1 = put_bytes (h + 4) flags (hmem s)"
  define m2 where "m2 = put_bytes (h + 2) c m1"
  define m3 where "m3 = put_bytes h i m2"
  have w: "kvm_write_guest (a + of_nat j) ds (s\<lparr>hmem := m\<rparr>) =
      (length ds, s\<lparr>hmem := put_bytes (h + of_nat j) ds m\<rparr>)" if "j + length ds \<le> 6" for j ds m
    using kvm_write_guest_in_page [of "s\<lparr>hmem := m\<rparr>" a j ds] flat.stable_wf [OF assms(1), of m]
      flat.stable [OF assms(1), of m] ne a(2) that by (simp add: h_def)
  have w1: "kvm_write_guest (vmcs_readl s GUEST_SS_BASE + ucast sp - 2) flags s = (2, s\<lparr>hmem := m1\<rparr>)"
    using w [of 4 flags "hmem s"] len by (simp add: a(1) m1_def algebra_simps)
  have w2: "kvm_write_guest (vmcs_readl s GUEST_SS_BASE + ucast sp - 4) c (s\<lparr>hmem := m1\<rparr>) = (2, s\<lparr>hmem := m2\<rparr>)"
    using w [of 2 c m1] len by (simp add: a(1) m2_def algebra_simps)
  have w3: "kvm_write_guest (vmcs_readl s GUEST_SS_BASE + ucast sp - 6) i (s\<lparr>hmem := m2\<rparr>) = (2, s\<lparr>hmem := m3\<rparr>)"
    using w [of 0 i m2] len by (simp add: a(1) m3_def algebra_simps)
  have e: "length (kvm_read_guest s (of_nat (4 * irq)) 4) = 4" "word16 (take 2 (kvm_read_guest s (of_nat (4 * irq)) 4)) = ip"
    "word16 (drop 2 (kvm_read_guest s (of_nat (4 * irq)) 4)) = cs"
    unfolding ent by (simp_all add: bytes16_def word16_def word16_bytes)
  have lim: "\<not> ucast sp > vmcs_read32 s GUEST_SS_LIMIT" using sp(3) by simp
  have t: "inject_rmode_irq irq s = rmode_irq_regs ip cs sp (vmcs_readl s GUEST_RFLAGS) (s\<lparr>hmem := m3\<rparr>)"
    using w1 w2 w3 e lim unfolding inject_rmode_irq_def l sp(1) [symmetric] Let_def
    by simp
  have rsp: "(vmcs_readl s GUEST_RSP AND NOT 0xffff) OR (ucast sp - 6) = vmcs_readl s GUEST_RSP - 6"
    using low_word_minus_6 sp(1,2) by simp
  have "bytes_at m3 h 6 = irq_frame s"
    using three_words [OF len(3,2,1), of h "hmem s"]
    by (simp add: m3_def m2_def m1_def irq_frame_def l)
  then show ?thesis
    unfolding t by (simp add: rmode_irq_regs_def Let_def vmcs_simps rsp [simplified] h_def push_bit_eq_mult)
qed

definition example_real :: vm where
  "example_real = vmcs_writel GUEST_RSP 0x106 (vmcs_write32 GUEST_SS_LIMIT 0xffff
     (vmcs_writel GUEST_RIP 0x1234 example_shadow))"

lemma example_real_ok: "nonpaging_ok example_real"
  using example_shadow_slots by (simp add: nonpaging_ok_def example_real_def slots_ok_def vmcs_simps)

lemma example_real_gva:
  "gva_to_hpa example_real 0 = 0x9000" "gva_to_hpa example_real 1 = 0x9001"
  "gva_to_hpa example_real 2 = 0x9002" "gva_to_hpa example_real 3 = 0x9003"
  "gva_to_hpa example_real 0x100 = 0x9100"
  by (simp_all add: gva_to_hpa_def mmu_gva_to_gpa_def example_real_def example_shadow_slots vmcs_simps
      nonpaging_gva_to_gpa_def)
    (simp_all add: gpa_to_hpa_def gfn_to_memslot_def gfn_in_slot_def gfn_to_page_def varray_def
      arr_get_def example_shadow_def zero_defs PAGE_SHIFT_def PAGE_SIZE_val UNMAPPED_GVA_def vmcs_simps)

theorem inject_rmode_irq_frame_witness:
  "let t = inject_rmode_irq 0 example_real in
    bytes_at (hmem t) 0x9100 6 = [0x34, 0x12, 0, 0, 0, 0] \<and> vmcs_readl t GUEST_RSP = 0x100"
proof -
  have m: "hmem example_real = (\<lambda>_. 0)"
    by (simp add: example_real_def example_shadow_def example_pool_def zero_defs vmcs_simps)
  have v: "vmcs_readl example_real GUEST_RSP = 0x106" "vmcs_read32 example_real GUEST_SS_LIMIT = 0xffff"
    "vmcs_readl example_real GUEST_RIP = 0x1234" "vmcs_readl example_real GUEST_SS_BASE = 0"
    "vmcs_readl example_real GUEST_CS_BASE = 0" "vmcs_readl example_real GUEST_RFLAGS = 0"
    by (simp_all add: example_real_def vmcs_simps)
      (simp_all add: example_shadow_def example_pool_def zero_defs vmcs_readl_def)
  have e: "\<not> is_error_hpa 0x9000" "\<not> is_error_hpa 0x9001" "\<not> is_error_hpa 0x9002"
    "\<not> is_error_hpa 0x9003" "\<not> is_error_hpa 0x9100"
    by (simp_all add: is_error_hpa_def HPA_MSB_def)
  have "kvm_read_guest example_real 0 (Suc (Suc (Suc (Suc 0)))) = [0, 0, 0, 0]"
    unfolding kvm_read_guest_def flat.read_chunks_bytes [OF example_real_ok]
    by (simp add: guest_byte_def example_real_gva e m)
  then have "kvm_read_guest example_real (of_nat (4 * 0)) 4 = bytes16 0 @ bytes16 0"
    by (simp add: bytes16_def numeral_eq_Suc)
  then show ?thesis
    using inject_rmode_irq_frame [of example_real "0x106" "0x100" 0 0 0] example_real_ok
    by (simp add: v e example_real_gva page_offset_def PAGE_MASK_mask mask_numeral Let_def
        irq_frame_def bytes16_def)
qed

end
