(* ===== verification/Exit_Handlers.thy ===== *)
theory Exit_Handlers
  imports Irq
begin

text \<open>
  The exit handlers: what the module does when the guest has exited, and the dispatch over the
  exit reason. The instruction emulator is the argument \<open>memop\<close> of the handlers that call it.
  The result \<open>True\<close> of a handler is the C result 1 (resume the guest); \<open>False\<close> is 0, with the
  reason for user space in \<open>kvm_run\<close>. The union in \<open>struct kvm_run\<close> is one field per member: user
  space reads the member that \<open>exit_reason\<close> names.
\<close>

section \<open>The data for user space\<close>

text \<open>\<open>enum kvm_exit_reason\<close>; the field of \<open>kvm_run\<close> that holds it is a \<open>__u32\<close>.\<close>

abbreviation (input) KVM_EXIT_UNKNOWN :: u32 where "KVM_EXIT_UNKNOWN \<equiv> 0"
abbreviation (input) KVM_EXIT_EXCEPTION :: u32 where "KVM_EXIT_EXCEPTION \<equiv> 1"
abbreviation (input) KVM_EXIT_IO :: u32 where "KVM_EXIT_IO \<equiv> 2"
abbreviation (input) KVM_EXIT_CPUID :: u32 where "KVM_EXIT_CPUID \<equiv> 3"
abbreviation (input) KVM_EXIT_DEBUG :: u32 where "KVM_EXIT_DEBUG \<equiv> 4"
abbreviation (input) KVM_EXIT_HLT :: u32 where "KVM_EXIT_HLT \<equiv> 5"
abbreviation (input) KVM_EXIT_MMIO :: u32 where "KVM_EXIT_MMIO \<equiv> 6"

definition KVM_EXIT_TYPE_FAIL_ENTRY :: u32 where
  "KVM_EXIT_TYPE_FAIL_ENTRY = 1"

definition KVM_EXIT_TYPE_VM_EXIT :: u32 where
  "KVM_EXIT_TYPE_VM_EXIT = 2"

record run_io =
  io_in :: bool
  io_size :: u8
  io_string :: bool
  io_string_down :: bool
  io_rep :: bool
  io_port :: u16
  io_count :: u64
  io_address :: u64
  io_value :: u32

record run_mmio =
  rm_phys_addr :: u64
  rm_data :: "u8 list"
  rm_len :: nat
  rm_is_write :: bool

record kvm_run =
  run_vcpu :: u32
  emulated :: bool
  mmio_completed :: bool
  exit_type :: u32
  exit_reason :: u32
  instruction_length :: u32
  hardware_exit_reason :: u32
  ex_exception :: u32
  ex_error_code :: u32
  run_io :: run_io
  run_mmio :: run_mmio

definition example_run :: kvm_run where
  "example_run = \<lparr>run_vcpu = 0, emulated = False, mmio_completed = False, exit_type = 0,
     exit_reason = KVM_EXIT_UNKNOWN, instruction_length = 0, hardware_exit_reason = 0,
     ex_exception = 0, ex_error_code = 0,
     run_io = \<lparr>io_in = False, io_size = 0, io_string = False, io_string_down = False, io_rep = False,
       io_port = 0, io_count = 0, io_address = 0, io_value = 0\<rparr>,
     run_mmio = \<lparr>rm_phys_addr = 0, rm_data = [], rm_len = 0, rm_is_write = False\<rparr>\<rparr>"

section \<open>The emulator's context\<close>

datatype x86emul_mode = X86EMUL_MODE_REAL | X86EMUL_MODE_PROT16 | X86EMUL_MODE_PROT32
  | X86EMUL_MODE_PROT64

record x86_emulate_ctxt =
  eflags :: u64
  ctxt_cr2 :: u64
  ctxt_mode :: x86emul_mode
  cs_base :: u64
  ds_base :: u64
  es_base :: u64
  ss_base :: u64
  gs_base :: u64
  fs_base :: u64

text \<open>\<open>x86_emulate_memop\<close>: \<open>True\<close> is a result other than 0, a failure.\<close>

type_synonym memop = "x86_emulate_ctxt \<Rightarrow> vm \<Rightarrow> bool \<times> x86_emulate_ctxt \<times> vm"

datatype emulation_result = EMULATE_DONE | EMULATE_DO_MMIO | EMULATE_FAIL

definition vcpu_load_rsp_rip :: "vm \<Rightarrow> vm" where
  "vcpu_load_rsp_rip s =
     s\<lparr>vcpu := (vcpu s)\<lparr>regs := (regs (vcpu s))(VCPU_REGS_RSP := vmcs_readl s GUEST_RSP),
                        rip := vmcs_readl s GUEST_RIP\<rparr>\<rparr>"

definition vcpu_put_rsp_rip :: "vm \<Rightarrow> vm" where
  "vcpu_put_rsp_rip s =
     vmcs_writel GUEST_RIP (rip (vcpu s)) (vmcs_writel GUEST_RSP (regs (vcpu s) VCPU_REGS_RSP) s)"

definition set_reg :: "nat \<Rightarrow> u64 \<Rightarrow> vm \<Rightarrow> vm" where
  "set_reg reg v s = s\<lparr>vcpu := (vcpu s)\<lparr>regs := (regs (vcpu s))(reg := v)\<rparr>\<rparr>"

definition emulation_mode :: "vm \<Rightarrow> x86emul_mode" where
  "emulation_mode s =
     (let cs_ar = vmcs_read32 s GUEST_CS_AR_BYTES
      in if vmcs_readl s GUEST_RFLAGS AND X86_EFLAGS_VM \<noteq> 0 then X86EMUL_MODE_REAL
         else if cs_ar AND AR_L_MASK \<noteq> 0 then X86EMUL_MODE_PROT64
         else if cs_ar AND AR_DB_MASK \<noteq> 0 then X86EMUL_MODE_PROT32
         else X86EMUL_MODE_PROT16)"

definition emulation_context :: "u64 \<Rightarrow> vm \<Rightarrow> x86_emulate_ctxt" where
  "emulation_context addr s =
     (let mode = emulation_mode s;
          base = (\<lambda>field. if mode = X86EMUL_MODE_PROT64 then 0 else vmcs_readl s field)
      in \<lparr>eflags = vmcs_readl s GUEST_RFLAGS, ctxt_cr2 = addr, ctxt_mode = mode,
          cs_base = base GUEST_CS_BASE, ds_base = base GUEST_DS_BASE, es_base = base GUEST_ES_BASE,
          ss_base = base GUEST_SS_BASE, gs_base = base GUEST_GS_BASE, fs_base = base GUEST_FS_BASE\<rparr>)"

text \<open>The caller passes \<open>NULL\<close> for \<open>run\<close> in real mode. A failure report is only printed.\<close>

definition fill_mmio :: "vm \<Rightarrow> kvm_run \<Rightarrow> kvm_run" where
  "fill_mmio s run =
     run\<lparr>run_mmio := \<lparr>rm_phys_addr = mmio_phys_addr (vcpu s), rm_data = take 8 (mmio_data (vcpu s)),
                      rm_len = mmio_size (vcpu s), rm_is_write = mmio_is_write (vcpu s)\<rparr>\<rparr>"

definition emulate_instruction ::
  "memop \<Rightarrow> kvm_run option \<Rightarrow> u64 \<Rightarrow> vm \<Rightarrow> emulation_result \<times> kvm_run option \<times> vm" where
  "emulate_instruction memop run addr s =
     (let s = vcpu_load_rsp_rip s;
          ctxt = emulation_context addr s;
          s = s\<lparr>vcpu := (vcpu s)\<lparr>mmio_is_write := False\<rparr>\<rparr>;
          (r, ctxt, s) = memop ctxt s;
          run = (if r \<or> mmio_is_write (vcpu s) then map_option (fill_mmio s) run else run)
      in if r then
           if \<not> mmio_needed (vcpu s) then (EMULATE_FAIL, run, s) else (EMULATE_DO_MMIO, run, s)
         else
           let s = vcpu_put_rsp_rip s;
               s = vmcs_writel GUEST_RFLAGS (eflags ctxt) s
           in if mmio_is_write (vcpu s) then (EMULATE_DO_MMIO, run, s)
              else (EMULATE_DONE, run, s))"

section \<open>Exceptions and external interrupts\<close>

definition handle_rmode_exception :: "memop \<Rightarrow> u32 \<Rightarrow> u32 \<Rightarrow> vm \<Rightarrow> bool \<times> vm" where
  "handle_rmode_exception memop vec err_code s =
     (if \<not> rmode_active (rmode (vcpu s)) then (False, s)
      else if vec = GP_VECTOR \<and> err_code = 0 then
        let (er, _, s) = emulate_instruction memop None 0 s
        in (er = EMULATE_DONE, s)
      else (False, s))"

definition count_mmio_exit :: "vm \<Rightarrow> vm" where
  "count_mmio_exit s = s\<lparr>kvm_stat := (kvm_stat s)\<lparr>mmio_exits := mmio_exits (kvm_stat s) + 1\<rparr>\<rparr>"

text \<open>The part of \<open>handle_exception\<close> after the page fault case: real mode, debug, the rest.\<close>

definition reflect_exception :: "memop \<Rightarrow> u32 \<Rightarrow> u32 \<Rightarrow> kvm_run \<Rightarrow> vm \<Rightarrow> bool \<times> kvm_run \<times> vm" where
  "reflect_exception memop intr_info error_code run s =
     (let (handled, s) =
            (if rmode_active (rmode (vcpu s))
             then handle_rmode_exception memop (intr_info AND INTR_INFO_VECTOR_MASK) error_code s
             else (False, s))
      in if handled then (True, run, s)
         else if intr_info AND (INTR_INFO_INTR_TYPE_MASK OR INTR_INFO_VECTOR_MASK) =
                 (INTR_TYPE_EXCEPTION OR 1)
         then (False, run\<lparr>exit_reason := KVM_EXIT_DEBUG\<rparr>, s)
         else (False, run\<lparr>exit_reason := KVM_EXIT_EXCEPTION,
                ex_exception := intr_info AND INTR_INFO_VECTOR_MASK,
                ex_error_code := error_code\<rparr>, s))"

text \<open>\<open>None\<close> when the retry loop of the page fault handler uses up its fuel.\<close>

definition handle_exception ::
  "nat \<Rightarrow> memop \<Rightarrow> kvm_run \<Rightarrow> vm \<Rightarrow> (bool \<times> kvm_run \<times> vm) option" where
  "handle_exception fuel memop run s =
     (let vect_info = vmcs_read32 s IDT_VECTORING_INFO_FIELD;
          intr_info = vmcs_read32 s VM_EXIT_INTR_INFO;
          s = (if is_external_interrupt vect_info
               then set_pending_irq (unat (vect_info AND VECTORING_INFO_VECTOR_MASK)) s else s)
      in if intr_info AND INTR_INFO_INTR_TYPE_MASK = 0x200 then Some (True, run, s)
         else
           let error_code = (if intr_info AND INTR_INFO_DELIEVER_CODE_MASK \<noteq> 0
                             then vmcs_read32 s VM_EXIT_INTR_ERROR_CODE else 0)
           in if is_page_fault intr_info then
                let addr = vmcs_readl s EXIT_QUALIFICATION
                in (case mmu_page_fault fuel addr error_code s of
                      None \<Rightarrow> None
                    | Some (False, s) \<Rightarrow> Some (True, run, s)
                    | Some (True, s) \<Rightarrow>
                        (case emulate_instruction memop (Some run) addr s of
                           (EMULATE_DONE, run', s) \<Rightarrow> Some (True, the run', s)
                         | (EMULATE_DO_MMIO, run', s) \<Rightarrow>
                             Some (False, (the run')\<lparr>exit_reason := KVM_EXIT_MMIO\<rparr>, count_mmio_exit s)
                         | (EMULATE_FAIL, run', s) \<Rightarrow>
                             Some (reflect_exception memop intr_info error_code (the run') s)))
              else Some (reflect_exception memop intr_info error_code run s))"

definition handle_external_interrupt :: "kvm_run \<Rightarrow> vm \<Rightarrow> bool \<times> kvm_run \<times> vm" where
  "handle_external_interrupt run s =
     (True, run, s\<lparr>kvm_stat := (kvm_stat s)\<lparr>irq_exits := irq_exits (kvm_stat s) + 1\<rparr>\<rparr>)"


section \<open>Port input and output\<close>

text \<open>
  The prefixes before the opcode: the counter's size in bytes when the opcode is reached, or
  \<open>None\<close> when the bytes end before it. The address size prefix changes the size and then, like
  every byte that is not in the list, ends the scan.
\<close>

definition io_prefixes :: "u8 set" where
  "io_prefixes = {0xf0, 0xf2, 0xf3, 0x2e, 0x36, 0x3e, 0x26, 0x64, 0x65, 0x66}"

fun io_counter_size :: "u8 list \<Rightarrow> nat \<Rightarrow> nat option" where
  "io_counter_size [] countr_size = None"
| "io_counter_size (b # bs) countr_size =
     (if b \<in> io_prefixes then io_counter_size bs countr_size
      else if b = 0x67 then Some (if countr_size = 2 then 4 else countr_size div 2)
      else Some countr_size)"

definition get_io_count :: "vm \<Rightarrow> u64 option" where
  "get_io_count s =
     (let cs_ar = vmcs_read32 s GUEST_CS_AR_BYTES;
          countr_size = (if vmcs_readl s GUEST_RFLAGS AND X86_EFLAGS_VM \<noteq> 0 then 2
                         else if cs_ar AND AR_L_MASK \<noteq> 0 then 8
                         else if cs_ar AND AR_DB_MASK \<noteq> 0 then 4 else 2);
          addr = vmcs_readl s GUEST_RIP +
            (if countr_size \<noteq> 8 then vmcs_readl s GUEST_CS_BASE else 0)
      in case io_counter_size (kvm_read_guest s addr 8) countr_size of
           None \<Rightarrow> None
         | Some n \<Rightarrow> Some (regs (vcpu s) VCPU_REGS_RCX AND drop_bit (64 - 8 * n) (NOT 0)))"

definition count_io_exit :: "vm \<Rightarrow> vm" where
  "count_io_exit s = s\<lparr>kvm_stat := (kvm_stat s)\<lparr>io_exits := io_exits (kvm_stat s) + 1\<rparr>\<rparr>"

definition io_request :: "vm \<Rightarrow> run_io \<Rightarrow> run_io" where
  "io_request s io =
     (let qual = vmcs_read64 s EXIT_QUALIFICATION
      in io\<lparr>io_in := qual AND 8 \<noteq> 0,
            io_size := ucast (qual AND 7) + 1,
            io_string := qual AND 16 \<noteq> 0,
            io_string_down := vmcs_readl s GUEST_RFLAGS AND X86_EFLAGS_DF \<noteq> 0,
            io_rep := qual AND 32 \<noteq> 0,
            io_port := ucast (drop_bit 16 qual)\<rparr>)"

definition handle_io :: "kvm_run \<Rightarrow> vm \<Rightarrow> bool \<times> kvm_run \<times> vm" where
  "handle_io run s =
     (let s = count_io_exit s;
          run = run\<lparr>exit_reason := KVM_EXIT_IO, run_io := io_request s (run_io run)\<rparr>
      in if io_string (run_io run) then
           (case get_io_count s of
              None \<Rightarrow> (True, run, s)
            | Some n \<Rightarrow> (False, run\<lparr>run_io := (run_io run)\<lparr>io_count := n,
                           io_address := vmcs_readl s GUEST_LINEAR_ADDRESS\<rparr>\<rparr>, s))
         else (False, run\<lparr>run_io := (run_io run)\<lparr>
                        io_value := ucast (regs (vcpu s) VCPU_REGS_RAX)\<rparr>\<rparr>, s))"

definition handle_invlpg :: "kvm_run \<Rightarrow> vm \<Rightarrow> bool \<times> kvm_run \<times> vm" where
  "handle_invlpg run s =
     (let address = vmcs_read64 s EXIT_QUALIFICATION;
          len = scast (vmcs_read32 s VM_EXIT_INSTRUCTION_LEN);
          s = mmu_inval_page address s
      in (True, run, vmcs_writel GUEST_RIP (vmcs_readl s GUEST_RIP + len) s))"

section \<open>Control and debug registers\<close>

definition LMSW_SOURCE_DATA_SHIFT :: nat where
  "LMSW_SOURCE_DATA_SHIFT = 16"

definition mov_to_cr :: "nat \<Rightarrow> nat \<Rightarrow> vm \<Rightarrow> vm option" where
  "mov_to_cr cr reg s =
     (let s = vcpu_load_rsp_rip s;
          v = regs (vcpu s) reg
      in if cr = 0 then Some (skip_emulated_instruction (set_cr0 v s))
         else if cr = 3 then Some (skip_emulated_instruction (set_cr3 v s))
         else if cr = 4 then Some (skip_emulated_instruction (set_cr4 v s))
         else if cr = 8 then Some (skip_emulated_instruction (set_cr8 v s))
         else None)"

definition mov_from_cr :: "nat \<Rightarrow> nat \<Rightarrow> vm \<Rightarrow> vm option" where
  "mov_from_cr cr reg s =
     (let s = vcpu_load_rsp_rip s
      in if cr = 3 then Some (skip_emulated_instruction (vcpu_put_rsp_rip (set_reg reg (cr3 (vcpu s)) s)))
         else if cr = 8 then Some (skip_emulated_instruction (vcpu_put_rsp_rip (set_reg reg (cr8 (vcpu s)) s)))
         else None)"

definition handle_cr :: "kvm_run \<Rightarrow> vm \<Rightarrow> bool \<times> kvm_run \<times> vm" where
  "handle_cr run s =
     (let qual = vmcs_read64 s EXIT_QUALIFICATION;
          cr = unat (qual AND 15);
          reg = unat (drop_bit 8 qual AND 15);
          op = drop_bit 4 qual AND 3;
          t = (if op = 0 then mov_to_cr cr reg s
               else if op = 1 then mov_from_cr cr reg s
               else if op = 3 then
                 Some (skip_emulated_instruction
                   (lmsw (drop_bit LMSW_SOURCE_DATA_SHIFT qual AND 0x0f) s))
               else None)
      in case t of Some s \<Rightarrow> (True, run, s)
         | None \<Rightarrow> (False, run\<lparr>exit_reason := KVM_EXIT_UNKNOWN\<rparr>, s))"

definition handle_dr :: "kvm_run \<Rightarrow> vm \<Rightarrow> bool \<times> kvm_run \<times> vm" where
  "handle_dr run s =
     (let qual = vmcs_read64 s EXIT_QUALIFICATION;
          dr = qual AND 7;
          reg = unat (drop_bit 8 qual AND 15);
          s = vcpu_load_rsp_rip s;
          s = (if qual AND 16 \<noteq> 0
               then set_reg reg (if dr = 6 then 0xffff0ff0 else if dr = 7 then 0x400 else 0) s
               else s);
          s = vcpu_put_rsp_rip s
      in (True, run, skip_emulated_instruction s))"

definition handle_cpuid :: "kvm_run \<Rightarrow> vm \<Rightarrow> bool \<times> kvm_run \<times> vm" where
  "handle_cpuid run s = (False, run\<lparr>exit_reason := KVM_EXIT_CPUID\<rparr>, s)"

section \<open>Interrupt window and halt\<close>

definition handle_interrupt_window :: "kvm_run \<Rightarrow> vm \<Rightarrow> bool \<times> kvm_run \<times> vm" where
  "handle_interrupt_window run s =
     (True, run, vmcs_write32 CPU_BASED_VM_EXEC_CONTROL
        (vmcs_read32 s CPU_BASED_VM_EXEC_CONTROL AND NOT CPU_BASED_VIRTUAL_INTR_PENDING) s)"

definition handle_halt :: "kvm_run \<Rightarrow> vm \<Rightarrow> bool \<times> kvm_run \<times> vm" where
  "handle_halt run s =
     (let s = skip_emulated_instruction s
      in if irq_summary (vcpu s) \<noteq> 0 \<and> vmcs_readl s GUEST_RFLAGS AND X86_EFLAGS_IF \<noteq> 0
         then (True, run, s)
         else (False, run\<lparr>exit_reason := KVM_EXIT_HLT\<rparr>, s))"

end
