(* ===== verification/Msr.thy ===== *)
theory Msr
  imports Exit_Handlers
begin

text \<open>
  Reads and writes of model-specific registers by the guest, and what a guest reads back after
  a write. The register numbers are those of the kernel's \<open>msr.h\<close>, which follow the processor
  manual.
\<close>

section \<open>Register numbers\<close>

definition MSR_IA32_TIME_STAMP_COUNTER :: u32 where
  "MSR_IA32_TIME_STAMP_COUNTER = 0x10"

abbreviation (input) MSR_IA32_APICBASE :: u32 where "MSR_IA32_APICBASE \<equiv> 0x1b"
abbreviation (input) MSR_IA32_UCODE_WRITE :: u32 where "MSR_IA32_UCODE_WRITE \<equiv> 0x79"
abbreviation (input) MSR_IA32_UCODE_REV :: u32 where "MSR_IA32_UCODE_REV \<equiv> 0x8b"
abbreviation (input) MSR_IA32_SYSENTER_CS :: u32 where "MSR_IA32_SYSENTER_CS \<equiv> 0x174"
abbreviation (input) MSR_IA32_SYSENTER_EIP :: u32 where "MSR_IA32_SYSENTER_EIP \<equiv> 0x176"
abbreviation (input) MSR_IA32_MCG_CAP :: u32 where "MSR_IA32_MCG_CAP \<equiv> 0x179"
abbreviation (input) MSR_IA32_MCG_STATUS :: u32 where "MSR_IA32_MCG_STATUS \<equiv> 0x17a"
abbreviation (input) MSR_IA32_MC0_CTL :: u32 where "MSR_IA32_MC0_CTL \<equiv> 0x400"
abbreviation (input) MSR_IA32_MC0_STATUS :: u32 where "MSR_IA32_MC0_STATUS \<equiv> 0x401"
abbreviation (input) MSR_IA32_MC0_MISC :: u32 where "MSR_IA32_MC0_MISC \<equiv> 0x403"
abbreviation (input) MSR_STAR :: u32 where "MSR_STAR \<equiv> 0xc0000081"
abbreviation (input) MSR_LSTAR :: u32 where "MSR_LSTAR \<equiv> 0xc0000082"
abbreviation (input) MSR_CSTAR :: u32 where "MSR_CSTAR \<equiv> 0xc0000083"
abbreviation (input) MSR_SYSCALL_MASK :: u32 where "MSR_SYSCALL_MASK \<equiv> 0xc0000084"
abbreviation (input) MSR_FS_BASE :: u32 where "MSR_FS_BASE \<equiv> 0xc0000100"
abbreviation (input) MSR_GS_BASE :: u32 where "MSR_GS_BASE \<equiv> 0xc0000101"
abbreviation (input) MSR_KERNEL_GS_BASE :: u32 where "MSR_KERNEL_GS_BASE \<equiv> 0xc0000102"

text \<open>The registers that the module saves and restores around a guest entry.\<close>

definition vmx_msr_index :: "u32 list" where
  "vmx_msr_index = [MSR_SYSCALL_MASK, MSR_LSTAR, MSR_CSTAR, MSR_KERNEL_GS_BASE, MSR_EFER, MSR_STAR]"

definition NR_VMX_MSR :: nat where
  "NR_VMX_MSR = length vmx_msr_index"

definition NR_BAD_MSRS :: nat where
  "NR_BAD_MSRS = 2"

section \<open>The handlers\<close>

text \<open>The registers that always read as 0: machine check, microcode and memory type ranges.\<close>

definition zero_msr :: "u32 \<Rightarrow> bool" where
  "zero_msr ecx \<longleftrightarrow> ecx \<in> {MSR_IA32_MC0_CTL, MSR_IA32_MCG_STATUS, MSR_IA32_MCG_CAP, MSR_IA32_MC0_MISC,
     MSR_IA32_MC0_MISC + 4, MSR_IA32_MC0_MISC + 8, MSR_IA32_MC0_MISC + 12, MSR_IA32_MC0_MISC + 16,
     MSR_IA32_UCODE_REV, 0xfe} \<or> 0x200 \<le> ecx \<and> ecx \<le> 0x2ff"

definition rdmsr_data :: "u32 \<Rightarrow> vm \<Rightarrow> u64 option" where
  "rdmsr_data ecx s =
     (if ecx = MSR_FS_BASE then Some (vmcs_readl s GUEST_FS_BASE)
      else if ecx = MSR_GS_BASE then Some (vmcs_readl s GUEST_GS_BASE)
      else if ecx = MSR_IA32_SYSENTER_CS then Some (ucast (vmcs_read32 s GUEST_SYSENTER_CS))
      else if ecx = MSR_IA32_SYSENTER_EIP then Some (ucast (vmcs_read32 s GUEST_SYSENTER_EIP))
      else if ecx = MSR_IA32_SYSENTER_ESP then Some (ucast (vmcs_read32 s GUEST_SYSENTER_ESP))
      else if zero_msr ecx then Some 0
      else if ecx = MSR_IA32_APICBASE then Some (apic_base (vcpu s))
      else map_option (\<lambda>i. msr_data (guest_msrs (vcpu s) ! i)) (find_msr_entry s ecx))"

definition handle_rdmsr :: "kvm_run \<Rightarrow> vm \<Rightarrow> bool \<times> kvm_run \<times> vm" where
  "handle_rdmsr run s =
     (let ecx = ucast (regs (vcpu s) VCPU_REGS_RCX)
      in case rdmsr_data ecx s of
           None \<Rightarrow> (True, run, inject_gp s)
         | Some data \<Rightarrow>
             let s = set_reg VCPU_REGS_RAX (data AND mask 32) s;
                 s = set_reg VCPU_REGS_RDX (drop_bit 32 data AND mask 32) s
             in (True, run, skip_emulated_instruction s))"

text \<open>The write itself, for every register but EFER; \<open>None\<close> is the unhandled register.\<close>

definition wrmsr_data :: "u32 \<Rightarrow> u64 \<Rightarrow> vm \<Rightarrow> vm option" where
  "wrmsr_data ecx data s =
     (if ecx = MSR_FS_BASE then Some (vmcs_writel GUEST_FS_BASE data s)
      else if ecx = MSR_GS_BASE then Some (vmcs_writel GUEST_GS_BASE data s)
      else if ecx = MSR_IA32_SYSENTER_CS then Some (vmcs_write32 GUEST_SYSENTER_CS (ucast data) s)
      else if ecx = MSR_IA32_SYSENTER_EIP then Some (vmcs_write32 GUEST_SYSENTER_EIP (ucast data) s)
      else if ecx = MSR_IA32_SYSENTER_ESP then Some (vmcs_write32 GUEST_SYSENTER_ESP (ucast data) s)
      else if ecx = MSR_IA32_MC0_STATUS then Some s
      else if ecx = MSR_IA32_TIME_STAMP_COUNTER then Some (vmcs_write64 TSC_OFFSET (data - h_tsc (host s)) s)
      else if ecx = MSR_IA32_UCODE_REV \<or> ecx = MSR_IA32_UCODE_WRITE \<or> (0x200 \<le> ecx \<and> ecx \<le> 0x2ff)
      then Some s
      else if ecx = MSR_IA32_APICBASE then Some (s\<lparr>vcpu := (vcpu s)\<lparr>apic_base := data\<rparr>\<rparr>)
      else case find_msr_entry s ecx of
             None \<Rightarrow> None
           | Some i \<Rightarrow> Some (update_msr (Some i) (\<lambda>_. data) s))"

definition handle_wrmsr :: "kvm_run \<Rightarrow> vm \<Rightarrow> bool \<times> kvm_run \<times> vm" where
  "handle_wrmsr run s =
     (let ecx = ucast (regs (vcpu s) VCPU_REGS_RCX) :: u32;
          data = (regs (vcpu s) VCPU_REGS_RAX AND mask 32) OR
                 push_bit 32 (regs (vcpu s) VCPU_REGS_RDX AND mask 32)
      in if ecx = MSR_EFER then (True, run, set_efer data s)
         else case wrmsr_data ecx data s of
                None \<Rightarrow> (True, run, inject_gp s)
              | Some s \<Rightarrow> (True, run, skip_emulated_instruction s))"

section \<open>What a guest reads back\<close>

text \<open>What is left of a value written to a register, when a handler accepts the write.\<close>

definition msr_readback :: "u32 \<Rightarrow> u64 \<Rightarrow> u64" where
  "msr_readback ecx data =
     (if ecx \<in> {MSR_IA32_SYSENTER_CS, MSR_IA32_SYSENTER_EIP, MSR_IA32_SYSENTER_ESP} then take_bit 32 data
      else if zero_msr ecx then 0 else data)"

lemma find_msr_entryD:
  assumes "find_msr_entry s msr = Some i"
  shows "i < nmsrs (vcpu s)" "msr_index (guest_msrs (vcpu s) ! i) = msr"
    "j < i \<Longrightarrow> msr_index (guest_msrs (vcpu s) ! j) \<noteq> msr"
proof -
  have f: "List.find (\<lambda>i. msr_index (guest_msrs (vcpu s) ! i) = msr) [0..<nmsrs (vcpu s)] = Some i"
    using assms by (simp add: find_msr_entry_def)
  then show "i < nmsrs (vcpu s)" "msr_index (guest_msrs (vcpu s) ! i) = msr"
    "j < i \<Longrightarrow> msr_index (guest_msrs (vcpu s) ! j) \<noteq> msr"
    by (auto simp: find_Some_iff)
qed

lemma find_msr_entry_update [simp]:
  "find_msr_entry (update_msr e g s) msr = find_msr_entry s msr"
proof -
  have "msr_index (guest_msrs (vcpu (update_msr e g s)) ! i) = msr_index (guest_msrs (vcpu s) ! i)" for i
    by (cases e; cases "the e < length (guest_msrs (vcpu s))"; cases "the e = i")
      (simp_all add: update_msr_def list_update_beyond)
  moreover have "nmsrs (vcpu (update_msr e g s)) = nmsrs (vcpu s)"
    by (cases e) (auto simp: update_msr_def)
  ultimately show ?thesis by (simp add: find_msr_entry_def)
qed


lemma find_msr_entry_frame [simp]:
  "find_msr_entry (vmcs_writel f v s) = find_msr_entry s"
  "find_msr_entry (vmcs_write32 f w s) = find_msr_entry s"
  "find_msr_entry (vmcs_write64 f v s) = find_msr_entry s"
  "find_msr_entry (set_reg r v s) = find_msr_entry s"
  "find_msr_entry (skip_emulated_instruction s) = find_msr_entry s"
  "find_msr_entry (set_shadow_efer e s) = find_msr_entry s"
  "find_msr_entry (s\<lparr>vcpu := (vcpu s)\<lparr>apic_base := v\<rparr>\<rparr>) = find_msr_entry s"
  by (simp_all add: find_msr_entry_def [abs_def] vmcs_simps set_reg_def skip_emulated_instruction_def Let_def)

lemma skip_frame [simp]:
  "vcpu (skip_emulated_instruction s) = vcpu s"
  "f \<notin> {GUEST_RIP, GUEST_INTERRUPTIBILITY_INFO} \<Longrightarrow>
     vmcs_readl (skip_emulated_instruction s) f = vmcs_readl s f"
  "f \<notin> {GUEST_RIP, GUEST_INTERRUPTIBILITY_INFO} \<Longrightarrow>
     vmcs_read32 (skip_emulated_instruction s) f = vmcs_read32 s f"
  by (simp_all add: skip_emulated_instruction_def Let_def vmcs_simps)

lemma set_reg_frame [simp]:
  "vmcs_readl (set_reg r v s) = vmcs_readl s" "vmcs_read32 (set_reg r v s) = vmcs_read32 s"
  "apic_base (vcpu (set_reg r v s)) = apic_base (vcpu s)"
  "guest_msrs (vcpu (set_reg r v s)) = guest_msrs (vcpu s)"
  "regs (vcpu (set_reg r v s)) = (regs (vcpu s))(r := v)"
  by (simp_all add: set_reg_def vmcs_readl_def [abs_def] vmcs_read32_def [abs_def])

lemma rdmsr_data_skip [simp]: "rdmsr_data ecx (skip_emulated_instruction s) = rdmsr_data ecx s"
  by (simp add: rdmsr_data_def)

lemma zero_msr_distinct:
  "zero_msr ecx \<Longrightarrow> ecx \<notin> {MSR_FS_BASE, MSR_GS_BASE, MSR_IA32_SYSENTER_CS, MSR_IA32_SYSENTER_EIP,
     MSR_IA32_SYSENTER_ESP, MSR_IA32_APICBASE}"
  by (auto simp: zero_msr_def MSR_IA32_SYSENTER_ESP_def)

text \<open>Registers that can be written but not read, or that read as something else.\<close>

definition write_only_msr :: "u32 \<Rightarrow> bool" where
  "write_only_msr ecx \<longleftrightarrow> ecx \<in> {MSR_IA32_TIME_STAMP_COUNTER, MSR_IA32_UCODE_WRITE, MSR_IA32_MC0_STATUS}"

lemma wrmsr_rdmsr:
  assumes w: "wrmsr_data ecx data s = Some t" and wo: "\<not> write_only_msr ecx"
    and n: "nmsrs (vcpu s) \<le> length (guest_msrs (vcpu s))"
  shows "rdmsr_data ecx t = Some (msr_readback ecx data)"
proof -
  have tb: "ucast (ucast data :: u32) = take_bit 32 data"
    by (rule bit_word_eqI) (auto simp: bit_simps)
  consider "ecx \<in> {MSR_FS_BASE, MSR_GS_BASE, MSR_IA32_SYSENTER_CS, MSR_IA32_SYSENTER_EIP,
      MSR_IA32_SYSENTER_ESP, MSR_IA32_APICBASE}" | "zero_msr ecx"
    | "ecx \<notin> {MSR_FS_BASE, MSR_GS_BASE, MSR_IA32_SYSENTER_CS, MSR_IA32_SYSENTER_EIP,
      MSR_IA32_SYSENTER_ESP, MSR_IA32_APICBASE}" "\<not> zero_msr ecx" by blast
  then show ?thesis
  proof cases
    case 1
    then show ?thesis
      using w by (auto simp: wrmsr_data_def rdmsr_data_def msr_readback_def vmcs_simps tb zero_msr_def
          MSR_IA32_SYSENTER_ESP_def MSR_IA32_TIME_STAMP_COUNTER_def)
  next
    case 2
    then show ?thesis using zero_msr_distinct [OF 2] by (auto simp: rdmsr_data_def msr_readback_def)
  next
    case 3
    then have "\<not> (0x200 \<le> ecx \<and> ecx \<le> 0x2ff)" "ecx \<noteq> MSR_IA32_UCODE_REV" by (auto simp: zero_msr_def)
    with 3 w wo obtain i where i: "find_msr_entry s ecx = Some i" "t = update_msr (Some i) (\<lambda>_. data) s"
      by (auto simp: wrmsr_data_def write_only_msr_def split: option.splits)
    then have "i < length (guest_msrs (vcpu s))" using find_msr_entryD(1) [OF i(1)] n by simp
    then have "msr_data (guest_msrs (vcpu t) ! i) = data" by (simp add: i(2) update_msr_def)
    then show ?thesis using 3 i by (simp add: rdmsr_data_def msr_readback_def)
  qed
qed


definition example_msr :: vm where
  "example_msr = set_reg VCPU_REGS_RCX 0xc0000082 (set_reg VCPU_REGS_RAX 5 (set_reg VCPU_REGS_RDX 7
     (zero_vm\<lparr>vcpu := zero_vcpu\<lparr>guest_msrs := [\<lparr>msr_index = MSR_LSTAR, msr_reserved = 0,
        msr_data = 0\<rparr>], nmsrs := 1\<rparr>\<rparr>)))"


lemma rdmsr_data_efer:
  "rdmsr_data MSR_EFER s =
    map_option (\<lambda>i. msr_data (guest_msrs (vcpu s) ! i)) (find_msr_entry s MSR_EFER)"
  by (simp add: rdmsr_data_def zero_msr_def MSR_EFER_def MSR_IA32_SYSENTER_ESP_def)

text \<open>
  Outside long mode a guest does not read back the EFER it wrote: an accepted write keeps
  the value in the shadow register, but the entry that RDMSR reads has the long mode enable bit
  cleared, so the guest sees LME as 0 although its next write to \<open>CR0.PG\<close> will enter long mode.
\<close>

theorem efer_readback:
  assumes "efer AND EFER_RESERVED_BITS = 0" "shadow_efer (vcpu s) AND EFER_LMA = 0"
    and "is_paging s \<Longrightarrow> shadow_efer (vcpu s) AND EFER_LME = efer AND EFER_LME"
    and "find_msr_entry s MSR_EFER = Some i" "nmsrs (vcpu s) \<le> length (guest_msrs (vcpu s))"
  shows "shadow_efer (vcpu (set_efer efer s)) = efer AND NOT EFER_LMA \<and>
    rdmsr_data MSR_EFER (set_efer efer s) = Some (efer AND NOT EFER_LMA AND NOT EFER_LME)"
proof -
  let ?e = "(efer AND NOT EFER_LMA) OR (shadow_efer (vcpu s) AND EFER_LMA)"
  let ?u = "set_shadow_efer ?e s"
  have e: "?e = efer AND NOT EFER_LMA" by (simp only: assms(2) or.right_neutral)
  have l: "(efer AND NOT EFER_LMA) AND EFER_LMA = 0" by (simp add: bit_and_iff bit_not_iff mask_bits)
  have s: "set_efer efer s = skip_emulated_instruction
      (update_msr (Some i) (\<lambda>_. (efer AND NOT EFER_LMA) AND NOT EFER_LME) (set_shadow_efer (efer AND NOT EFER_LMA) s))"
    using assms(1,3,4) l unfolding set_efer_def Let_def e by auto
  have "i < length (guest_msrs (vcpu s))" using find_msr_entryD(1) [OF assms(4)] assms(5) by simp
  then have d: "msr_data (guest_msrs (vcpu (set_efer efer s)) ! i) = (efer AND NOT EFER_LMA) AND NOT EFER_LME"
    unfolding s by (simp add: update_msr_def)
  have "shadow_efer (vcpu (set_efer efer s)) = efer AND NOT EFER_LMA"
    unfolding s by (simp add: update_msr_vcpu)
  moreover have "find_msr_entry (set_efer efer s) MSR_EFER = Some i" unfolding s by (simp add: assms(4))
  ultimately show ?thesis
    using d by (simp add: rdmsr_data_efer and.assoc)
qed

theorem efer_readback_witness:
  "rdmsr_data MSR_EFER (set_efer 0x100 example_pmode) = Some 0"
proof -
  have "(0x100 :: u64) AND EFER_RESERVED_BITS = 0" unfolding EFER_RESERVED_BITS_def by code_simp
  moreover have "shadow_efer (vcpu example_pmode) AND EFER_LMA = 0" "\<not> is_paging example_pmode"
    "nmsrs (vcpu example_pmode) \<le> length (guest_msrs (vcpu example_pmode))"
    "find_msr_entry example_pmode MSR_EFER = Some 0"
    by (simp_all add: example_pmode_reads is_paging_bit zero_vcpu_def find_msr_entry_def)
  moreover have "(0x100 :: u64) AND NOT EFER_LMA AND NOT EFER_LME = 0"
    unfolding EFER_LMA_def EFER_LME_def by code_simp
  ultimately show ?thesis using efer_readback [of "0x100" example_pmode 0] by simp
qed

end
