(* ===== verification/Exit_Dispatch.thy ===== *)
theory Exit_Dispatch
  imports Msr
begin

text \<open>
  The dispatch over the exit reason, and what every handler keeps. The locale \<open>exit_handler\<close> is
  the contract of a handler: the mode invariant of \<open>Cr_Modes\<close> holds after it when it held before
  and the registers of \<open>kvm_run\<close> that the dispatch has filled in stay. The dispatcher is a client
  of the contract.
\<close>

section \<open>The dispatch\<close>

definition set_unknown_exit :: "u32 \<Rightarrow> kvm_run \<Rightarrow> kvm_run" where
  "set_unknown_exit reason run =
     run\<lparr>exit_reason := KVM_EXIT_UNKNOWN, hardware_exit_reason := reason\<rparr>"

definition kvm_vmx_exit_handlers :: "u32 \<Rightarrow> (kvm_run \<Rightarrow> vm \<Rightarrow> bool \<times> kvm_run \<times> vm) option" where
  "kvm_vmx_exit_handlers reason =
     (if reason = EXIT_REASON_EXTERNAL_INTERRUPT then Some handle_external_interrupt
      else if reason = EXIT_REASON_IO_INSTRUCTION then Some handle_io
      else if reason = EXIT_REASON_INVLPG then Some handle_invlpg
      else if reason = EXIT_REASON_CR_ACCESS then Some handle_cr
      else if reason = EXIT_REASON_DR_ACCESS then Some handle_dr
      else if reason = EXIT_REASON_CPUID then Some handle_cpuid
      else if reason = EXIT_REASON_MSR_READ then Some handle_rdmsr
      else if reason = EXIT_REASON_MSR_WRITE then Some handle_wrmsr
      else if reason = EXIT_REASON_PENDING_INTERRUPT then Some handle_interrupt_window
      else if reason = EXIT_REASON_HLT then Some handle_halt
      else None)"

definition kvm_handle_exit ::
  "nat \<Rightarrow> memop \<Rightarrow> kvm_run \<Rightarrow> vm \<Rightarrow> (bool \<times> kvm_run \<times> vm) option" where
  "kvm_handle_exit fuel memop run s =
     (let reason = vmcs_read32 s VM_EXIT_REASON;
          run = run\<lparr>instruction_length := vmcs_read32 s VM_EXIT_INSTRUCTION_LEN\<rparr>
      in if reason = EXIT_REASON_EXCEPTION_NMI then handle_exception fuel memop run s
         else case kvm_vmx_exit_handlers reason of
                Some handler \<Rightarrow> Some (handler run s)
              | None \<Rightarrow> Some (False, set_unknown_exit reason run, s))"

section \<open>What an operation keeps\<close>

definition irqs_of :: "vm \<Rightarrow> u64 \<times> (nat \<Rightarrow> u64)" where
  "irqs_of s = (irq_summary (vcpu s), irq_pending (vcpu s))"

lemma irqs_of_same: "irqs_of t = irqs_of s \<Longrightarrow> irq_ok t = irq_ok s \<and> irq_set t = irq_set s"
  by (simp add: irqs_of_def irq_ok_def irq_set_def)

lemma irqs_of_view: "cpu_view t = cpu_view s \<Longrightarrow> irqs_of t = irqs_of s"
  using cpu_viewD(14,15) [of t s] by (simp add: irqs_of_def)

text \<open>The mode invariant, and the pending interrupts.\<close>

definition keeps :: "vm \<Rightarrow> vm \<Rightarrow> bool" where
  "keeps s t \<longleftrightarrow> (mode_ok s \<longrightarrow> mode_ok t) \<and> irqs_of t = irqs_of s"

lemma keeps_refl [simp]: "keeps s s"
  by (simp add: keeps_def)

lemma keeps_trans [trans]: "keeps s t \<Longrightarrow> keeps t u \<Longrightarrow> keeps s u"
  by (auto simp: keeps_def)

lemma keeps_view: "cpu_view t = cpu_view s \<Longrightarrow> keeps s t"
  using mode_ok_view [of t s] irqs_of_view [of t s] by (simp add: keeps_def)

section \<open>The paging code does not touch the cpu\<close>

lemma cpu_view_hmem [simp]: "cpu_view (s\<lparr>hmem := m\<rparr>) = cpu_view s"
  "cpu_view (s\<lparr>vheap := h\<rparr>) = cpu_view s" "cpu_view (s\<lparr>kvm_stat := st\<rparr>) = cpu_view s"
  by (simp_all add: cpu_view_def)

lemma cpu_view_fault_ops [simp]:
  "cpu_view (pte_or a v s) = cpu_view s" "cpu_view (pte_and a v s) = cpu_view s"
  "cpu_view (set_header h pg s) = cpu_view s"
  "cpu_view (mark_page_dirty gfn s) = cpu_view s"
  "cpu_view (guest_write pt p v s) = cpu_view s" "cpu_view (guest_or pt p v s) = cpu_view s"
  "cpu_view (count_pf_fixed s) = cpu_view s"
  by (simp_all add: pte_or_def pte_and_def set_header_def mark_page_dirty_def guest_or_def
      guest_write_def count_pf_fixed_def Let_def cpu_view_def split: option.split pttype.split)
    (simp_all add: pte_write_def)

text \<open>A step of a chain of updates, without copying the state into the rest of the chain.\<close>

lemma let_state:
  "g a = v \<Longrightarrow> (\<And>x :: vm. g x = v \<Longrightarrow> g (f x) = v) \<Longrightarrow> g (let x = a in f x) = v"
  by simp

lemma let_any: "(\<And>x. g (f x) = v) \<Longrightarrow> g (let x = a in f x) = v"
  by simp

lemmas view_let_state = let_state [where g = cpu_view]
lemmas view_let = let_any [where g = cpu_view]

lemma cpu_view_headers [simp]:
  "cpu_view (page_header_update_slot pte gpa s) = cpu_view s"
  "cpu_view (mark_pagetable_nonglobal pte s) = cpu_view s"
  by (simp_all add: page_header_update_slot_def mark_pagetable_nonglobal_def Let_def split: option.split)

lemma cpu_view_set_pte_common [simp]: "cpu_view (set_pte_common p g d a s) = cpu_view s"
proof -
  have "cpu_view (set_pte_common p g d a s) = v" if "cpu_view s = v" for v
    unfolding set_pte_common_def
    by ((rule view_let_state, simp add: that) | rule view_let)+ simp
  then show ?thesis by simp
qed

lemma cpu_view_flush [simp]: "cpu_view (nonpaging_flush s) = cpu_view s"
  by (simp add: nonpaging_flush_def Let_def cpu_view_alloc split: prod.split)

lemma cpu_view_map_level: "cpu_view (snd (nonpaging_map_level l table v p s)) = cpu_view s"
  by (induction l table v p s rule: nonpaging_map_level.induct)
    (auto simp: Let_def cpu_view_alloc split: prod.split)

lemma cpu_view_entries [simp]:
  "cpu_view (set_pte pt g p a s) = cpu_view s" "cpu_view (set_pde pt g p a i s) = cpu_view s"
  "cpu_view (set_accessed pt ent w s) = cpu_view s"
  "cpu_view (set_leaf pt addr ent prev sh w s) = cpu_view s"
  "cpu_view (link_table pt l ent sh a s) = cpu_view s"
  by (simp_all add: set_pte_def set_pde_def set_accessed_def set_leaf_def link_table_def Let_def
      split: option.split)

lemma cpu_view_fetch_from: "cpu_view (snd (snd (fetch_from l pt addr sh prev w s))) = cpu_view s"
proof (induction l arbitrary: sh prev w s)
  case (Suc l)
  let ?sh = "pt_entry sh (PT64_INDEX addr (Suc l))"
  obtain ent w' where fg: "fetch_guest pt s
      (if pt = PTTYPE32 \<and> PT32_ROOT_LEVEL < Suc l then PT32_ROOT_LEVEL else Suc l) addr w = (ent, w')"
    by fastforce
  obtain na u where al: "kvm_mmu_alloc_page (Some ?sh) (set_accessed pt ent w' s) = (na, u)"
    by fastforce
  have u: "cpu_view u = cpu_view s" using cpu_view_alloc [OF al] by simp
  show ?case
    unfolding fetch_from.simps Let_def fg prod.case al by (simp add: Suc u)
qed simp

lemma cpu_view_fetch: "fetch pt addr w s = (r, w', t) \<Longrightarrow> cpu_view t = cpu_view s"
  using cpu_view_fetch_from [of "shadow_root_level (mmu (vcpu s))" pt addr "root_hpa (mmu (vcpu s))"
      None w s] by (simp add: fetch_def)

lemma cpu_view_fix [simp]:
  "cpu_view (snd (fix_write_pf pt p w addr user s)) = cpu_view s"
  "cpu_view (snd (fix_read_pf p s)) = cpu_view s"
  by (auto simp: fix_write_pf_def write_pf_allowed_def fix_read_pf_def Let_def split: option.split prod.split)

lemma inject_page_fault_mode [simp]: "mode_ok (inject_page_fault addr e s) = mode_ok s"
proof -
  have "mode_ok (t\<lparr>vcpu := (vcpu t)\<lparr>cr2 := a\<rparr>\<rparr>) = mode_ok t" for t a
    by (simp add: mode_ok_bits vmcs_simps Let_def)
  moreover have "mode_ok (vmcs_write32 VM_ENTRY_EXCEPTION_ERROR_CODE v t) = mode_ok t"
    "mode_ok (vmcs_write32 VM_ENTRY_INTR_INFO_FIELD v t) = mode_ok t" for v t
    by (simp_all add: mode_ok_bits vmcs_simps Let_def)
  moreover have "mode_ok (count_pf_guest t) = mode_ok t" for t
    by (rule mode_ok_view) (simp add: count_pf_guest_def)
  ultimately show ?thesis by (simp add: inject_page_fault_def Let_def)
qed

lemma inject_page_fault_keeps: "keeps s (inject_page_fault addr e s)"
  by (simp add: keeps_def inject_page_fault_mode)
    (simp add: irqs_of_def inject_page_fault_def count_pf_guest_def Let_def vmcs_simps)

lemma page_fault_update_keeps:
  assumes t: "page_fault_update pt addr e p w s = (b, t)"
  shows "keeps s t"
proof -
  have f: "fix_write_pf pt p w addr u s = (b, t) \<Longrightarrow> keeps s t" "fix_read_pf p s = (b, t) \<Longrightarrow> keeps s t"
    for u b t
    using keeps_view [OF cpu_view_fix(1) [of pt p w addr u s]]
      keeps_view [OF cpu_view_fix(2) [of p s]] by auto
  have i: "keeps s u \<Longrightarrow> keeps s (inject_page_fault addr e' u)" for u e'
    by (rule keeps_trans [OF _ inject_page_fault_keeps])
  have c: "keeps s u \<Longrightarrow> keeps s (count_pf_fixed u)" for u
    by (rule keeps_trans [OF _ keeps_view]) simp_all
  show ?thesis
    using t by (auto simp: page_fault_update_def Let_def intro: i c dest: f split: prod.splits if_splits)
qed

lemma mmu_page_fault_keeps:
  assumes "mmu_page_fault fuel gva e s = Some (b, t)"
  shows "keeps s t"
proof -
  have fl: "keeps s u \<Longrightarrow> keeps s (nonpaging_flush u)" for s u
    by (rule keeps_trans [OF _ keeps_view]) simp_all
  have "keeps s t" if "paging_page_fault fuel pt gva e s = Some (b, t)" for pt
    using that
  proof (induction fuel pt gva e s rule: paging_page_fault.induct)
    case (2 fuel pt addr e s)
    obtain r w u where f: "fetch pt addr (init_walker s) s = (r, w, u)" by (metis prod_cases3)
    then have u: "keeps s u" using keeps_view [OF cpu_view_fetch] by blast
    show ?case
    proof (cases r)
      case Not_Mapped
      then show ?thesis using 2(2) f keeps_trans [OF u inject_page_fault_keeps] by auto
    next
      case No_Memory
      have "keeps (nonpaging_flush u) t"
        by (rule 2(1) [OF refl f [symmetric] refl No_Memory]) (use 2(2) f No_Memory in simp)
      then show ?thesis by (rule keeps_trans [OF fl [OF u]])
    next
      case (Shadow_Pte p)
      then have "page_fault_update pt addr e p w u = (b, t)" using 2(2) f by simp
      from keeps_trans [OF u page_fault_update_keeps [OF this]] show ?thesis .
    qed
  qed simp
  moreover have "keeps s t" if "nonpaging_page_fault fuel gva s = Some (b, t)"
    using that
  proof (induction fuel gva s rule: nonpaging_page_fault.induct)
    case (2 fuel gva s)
    obtain ok u where f: "nonpaging_map (gva AND PAGE_MASK) (gpa_to_hpa s (gva AND PT64_BASE_ADDR_MASK)) s = (ok, u)"
      by fastforce
    then have "cpu_view u = cpu_view s"
      using cpu_view_map_level [of PT32E_ROOT_LEVEL "root_hpa (mmu (vcpu s))" "gva AND PAGE_MASK"
          "gpa_to_hpa s (gva AND PT64_BASE_ADDR_MASK)" s] by (simp add: nonpaging_map_def)
    then have u: "keeps s u" by (rule keeps_view)
    show ?case
    proof (cases "is_error_hpa (gpa_to_hpa s (gva AND PT64_BASE_ADDR_MASK)) \<or> ok")
      case True
      then show ?thesis using 2(2) f u by (auto simp: Let_def split: if_splits)
    next
      case False
      then have "nonpaging_page_fault fuel gva (nonpaging_flush u) = Some (b, t)"
        using 2(2) f by (simp add: Let_def)
      with 2(1) [OF refl _ f [symmetric] refl] False have "keeps (nonpaging_flush u) t" by blast
      then show ?thesis by (rule keeps_trans [OF fl [OF u]])
    qed
  qed simp
  ultimately show ?thesis
    using assms by (auto simp: mmu_page_fault_def split: option.splits mmu_context.splits)
qed

section \<open>The contract of a handler\<close>

locale exit_handler =
  fixes handler :: "kvm_run \<Rightarrow> vm \<Rightarrow> bool \<times> kvm_run \<times> vm"
    and reasons :: "u32 set"
  assumes keeps_mode: "handler run s = (b, run', t) \<Longrightarrow> mode_ok s \<Longrightarrow> mode_ok t"
    and keeps_irqs: "handler run s = (b, run', t) \<Longrightarrow> irqs_of t = irqs_of s"
    and keeps_length: "handler run s = (b, run', t) \<Longrightarrow> instruction_length run' = instruction_length run"
    and stops: "handler run s = (False, run', t) \<Longrightarrow> exit_reason run' \<in> reasons"
begin

lemma handled:
  "handler run s = (b, run', t) \<Longrightarrow>
    (mode_ok s \<longrightarrow> mode_ok t) \<and> irqs_of t = irqs_of s \<and>
    instruction_length run' = instruction_length run \<and> (b \<or> exit_reason run' \<in> reasons)"
  using keeps_mode [of run s b run' t] keeps_irqs [of run s b run' t] keeps_length [of run s b run' t]
    stops [of run s run' t] by (cases b) auto

lemma always_resumes: "reasons = {} \<Longrightarrow> fst (handler run s)"
  using stops [of run s] by (cases "handler run s") auto

end

text \<open>The operations the handlers are made of.\<close>

lemma mode_ok_reads:
  assumes "shadow_efer (vcpu t) = shadow_efer (vcpu s)" "rmode (vcpu t) = rmode (vcpu s)"
    and f: "\<And>f. f \<in> {VM_ENTRY_CONTROLS, CR0_READ_SHADOW, CR4_READ_SHADOW, GUEST_CR0, GUEST_CR4,
      GUEST_RFLAGS, EXCEPTION_BITMAP} \<Longrightarrow> vmcs_readl t f = vmcs_readl s f"
  shows "mode_ok t = mode_ok s"
proof -
  have "vmcs_read32 t f = vmcs_read32 s f" if "f \<in> {VM_ENTRY_CONTROLS, EXCEPTION_BITMAP}" for f
    using f [of f] that by (auto simp: vmcs_read32_def)
  then show ?thesis using f by (simp add: mode_ok_bits assms(1,2))
qed

lemma mode_ok_vcpu_fields [simp]:
  "mode_ok (vcpu_load_rsp_rip s) = mode_ok s" "mode_ok (vcpu_put_rsp_rip s) = mode_ok s"
  "mode_ok (set_reg r v s) = mode_ok s" "mode_ok (s\<lparr>kvm_stat := st\<rparr>) = mode_ok s"
  by (rule mode_ok_reads; force simp: vcpu_load_rsp_rip_def vcpu_put_rsp_rip_def set_reg_def vmcs_simps)+

lemmas irqs_let_state = let_state [where g = irqs_of]
lemmas irqs_let = let_any [where g = irqs_of]

lemma irqs_of_fields [simp]:
  "irqs_of (vcpu_load_rsp_rip s) = irqs_of s" "irqs_of (vcpu_put_rsp_rip s) = irqs_of s"
  "irqs_of (set_reg r v s) = irqs_of s" "irqs_of (s\<lparr>kvm_stat := st\<rparr>) = irqs_of s"
  "irqs_of (vmcs_writel f v s) = irqs_of s" "irqs_of (vmcs_write32 f d s) = irqs_of s"
  "irqs_of (vmcs_write64 f v s) = irqs_of s"
  "irqs_of (skip_emulated_instruction s) = irqs_of s" "irqs_of (inject_gp s) = irqs_of s"
  "irqs_of (update_msr e g s) = irqs_of s" "irqs_of (set_shadow_efer x s) = irqs_of s"
  "irqs_of (set_rmode rm s) = irqs_of s" "irqs_of (update_exception_bitmap s) = irqs_of s"
  "irqs_of (rmode_segments s) = irqs_of s" "irqs_of (pmode_segments s) = irqs_of s"
  by (simp_all add: irqs_of_def vcpu_load_rsp_rip_def vcpu_put_rsp_rip_def set_reg_def inject_gp_def
      vmcs_simps Let_def update_msr_def split: option.split)

lemma irqs_of_paging [simp]:
  "irqs_of (mmu_inval_page a s) = irqs_of s" "irqs_of (kvm_mmu_reset_context s) = irqs_of s"
  "irqs_of (mmu_new_cr3 s) = irqs_of s"
  by (rule irqs_of_view, simp)+

lemma irqs_of_cr [simp]:
  "irqs_of (enter_pmode s) = irqs_of s" "irqs_of (enter_rmode s) = irqs_of s"
  "irqs_of (enter_lmode s) = irqs_of s" "irqs_of (exit_lmode s) = irqs_of s"
proof -
  show "irqs_of (enter_pmode s) = irqs_of s" by (simp add: irqs_of_def)
  have "irqs_of (enter_rmode s) = v" if "irqs_of s = v" for v
    unfolding enter_rmode_def
    by ((rule irqs_let_state, simp add: that) | rule irqs_let)+ simp
  then show "irqs_of (enter_rmode s) = irqs_of s" by simp
  show "irqs_of (enter_lmode s) = irqs_of s" "irqs_of (exit_lmode s) = irqs_of s"
    by (simp_all add: enter_lmode_def exit_lmode_def Let_def)
qed

lemma irqs_of_internal [simp]:
  "irqs_of (internal_set_cr0 v s) = irqs_of s" "irqs_of (internal_set_cr4 v s) = irqs_of s"
proof -
  have "irqs_of (internal_set_cr0 v s) = w" if "irqs_of s = w" for w
    unfolding internal_set_cr0_def
    by ((rule irqs_let_state, simp add: that Let_def) | rule irqs_let)+ simp
  then show "irqs_of (internal_set_cr0 v s) = irqs_of s" by simp
  show "irqs_of (internal_set_cr4 v s) = irqs_of s" by (simp add: internal_set_cr4_def Let_def)
qed

lemma irqs_of_pdptrs: "pdptrs_have_reserved_bits_set root s = (b, t) \<Longrightarrow> irqs_of t = irqs_of s"
  using cpu_view_pdptrs [of root s] by (intro irqs_of_view) simp

lemma cr_write_irqs [simp]:
  "irqs_of (set_cr0 v s) = irqs_of s" "irqs_of (set_cr3 v s) = irqs_of s"
  "irqs_of (set_cr4 v s) = irqs_of s" "irqs_of (set_cr8 v s) = irqs_of s"
  "irqs_of (set_efer v s) = irqs_of s" "irqs_of (lmsw v s) = irqs_of s"
proof -
  have f: "irqs_of t = irqs_of s" if "cr0_write_faults v s = (b, t)" for b t
    using cpu_view_faults [of v s] that by (intro irqs_of_view) simp
  show "irqs_of (set_cr0 v s) = irqs_of s"
    by (auto simp: set_cr0_def dest: f split: prod.split)
  have "irqs_of (t\<lparr>vcpu := (vcpu t)\<lparr>cr3 := v\<rparr>\<rparr>) = irqs_of t"
    "irqs_of (t\<lparr>vcpu := (vcpu t)\<lparr>cr8 := v\<rparr>\<rparr>) = irqs_of t" for t v
    by (simp_all add: irqs_of_def)
  then show "irqs_of (set_cr3 v s) = irqs_of s" "irqs_of (set_cr8 v s) = irqs_of s"
    by (auto simp: set_cr3_def set_cr8_def dest: irqs_of_pdptrs split: prod.split)
  show "irqs_of (set_cr4 v s) = irqs_of s"
    by (auto simp: set_cr4_def Let_def dest: irqs_of_pdptrs split: prod.split)
  show "irqs_of (set_efer v s) = irqs_of s" by (simp add: set_efer_def Let_def)
  show "irqs_of (lmsw v s) = irqs_of s" by (simp add: lmsw_def Let_def)
qed


section \<open>Every handler keeps the contract\<close>

lemma mode_ok_vmcs [simp]:
  assumes "f \<notin> {VM_ENTRY_CONTROLS, CR0_READ_SHADOW, CR4_READ_SHADOW, GUEST_CR0, GUEST_CR4,
      GUEST_RFLAGS, EXCEPTION_BITMAP}"
  shows "mode_ok (vmcs_writel f v s) = mode_ok s" "mode_ok (vmcs_write32 f d s) = mode_ok s"
    "mode_ok (vmcs_write64 f v s) = mode_ok s"
proof -
  show "mode_ok (vmcs_writel f v s) = mode_ok s"
    by (rule mode_ok_reads) (use assms in \<open>auto simp: vmcs_simps\<close>)
  show "mode_ok (vmcs_write32 f d s) = mode_ok s"
    by (rule mode_ok_reads) (use assms in \<open>auto simp: vmcs_simps\<close>)
  show "mode_ok (vmcs_write64 f v s) = mode_ok s"
    by (rule mode_ok_reads) (use assms in \<open>auto simp: vmcs_simps\<close>)
qed

lemma mode_ok_inval [simp]: "mode_ok (mmu_inval_page a s) = mode_ok s"
  by (rule mode_ok_view) simp

lemma mode_ok_update_msr [simp]: "mode_ok (update_msr e g s) = mode_ok s"
  by (rule mode_ok_reads) (simp_all add: update_msr_vcpu)

lemma mode_ok_apic [simp]: "mode_ok (s\<lparr>vcpu := (vcpu s)\<lparr>apic_base := v\<rparr>\<rparr>) = mode_ok s"
  by (rule mode_ok_reads) (simp_all add: vmcs_simps)

lemma irqs_of_apic [simp]: "irqs_of (s\<lparr>vcpu := (vcpu s)\<lparr>apic_base := v\<rparr>\<rparr>) = irqs_of s"
  by (simp add: irqs_of_def)

interpretation external_interrupt: exit_handler handle_external_interrupt "{}"
  by unfold_locales (auto simp: handle_external_interrupt_def)

interpretation io: exit_handler handle_io "{KVM_EXIT_IO}"
  by unfold_locales
    (auto simp: handle_io_def count_io_exit_def Let_def split: option.splits if_splits)

interpretation inval: exit_handler handle_invlpg "{}"
  by unfold_locales (auto simp: handle_invlpg_def Let_def)

lemma mov_cr_keeps:
  "mov_to_cr cr reg s = Some t \<or> mov_from_cr cr reg s = Some t \<Longrightarrow>
    (mode_ok s \<longrightarrow> mode_ok t) \<and> irqs_of t = irqs_of s"
  by (auto simp: mov_to_cr_def mov_from_cr_def Let_def set_cr0_mode set_cr3_mode set_cr4_mode
      set_cr8_mode split: if_splits)

interpretation cr: exit_handler handle_cr "{KVM_EXIT_UNKNOWN}"
  by unfold_locales
    (auto simp: handle_cr_def Let_def lmsw_mode dest: mov_cr_keeps [OF disjI1] mov_cr_keeps [OF disjI2]
      split: option.splits if_splits)

interpretation dr: exit_handler handle_dr "{}"
  by unfold_locales (auto simp: handle_dr_def Let_def)

interpretation cpuid: exit_handler handle_cpuid "{KVM_EXIT_CPUID}"
  by unfold_locales (auto simp: handle_cpuid_def)

interpretation rdmsr: exit_handler handle_rdmsr "{}"
  by unfold_locales (auto simp: handle_rdmsr_def Let_def split: option.splits)

lemma wrmsr_keeps:
  assumes "wrmsr_data ecx data s = Some t"
  shows "mode_ok t = mode_ok s" "irqs_of t = irqs_of s"
  using assms by (auto simp: wrmsr_data_def split: if_splits option.splits)

interpretation wrmsr: exit_handler handle_wrmsr "{}"
  by unfold_locales
    (auto simp: handle_wrmsr_def Let_def set_efer_mode dest: wrmsr_keeps split: option.splits if_splits)

interpretation window: exit_handler handle_interrupt_window "{}"
  by unfold_locales (auto simp: handle_interrupt_window_def)

interpretation halt: exit_handler handle_halt "{KVM_EXIT_HLT}"
  by unfold_locales (auto simp: handle_halt_def Let_def split: if_splits)

text \<open>The reason that each entry of the table may leave for user space.\<close>

definition stop_reasons :: "u32 \<Rightarrow> u32 set" where
  "stop_reasons reason =
     (if reason = EXIT_REASON_IO_INSTRUCTION then {KVM_EXIT_IO}
      else if reason = EXIT_REASON_CR_ACCESS then {KVM_EXIT_UNKNOWN}
      else if reason = EXIT_REASON_CPUID then {KVM_EXIT_CPUID}
      else if reason = EXIT_REASON_HLT then {KVM_EXIT_HLT}
      else {})"

lemma table_handled:
  assumes "kvm_vmx_exit_handlers reason = Some handler" "handler run s = (b, run', t)"
  shows "(mode_ok s \<longrightarrow> mode_ok t) \<and> irqs_of t = irqs_of s \<and>
    instruction_length run' = instruction_length run \<and> (b \<or> exit_reason run' \<in> stop_reasons reason)"
  using assms unfolding kvm_vmx_exit_handlers_def
  by (auto split: if_splits simp: stop_reasons_def dest: external_interrupt.handled io.handled
      inval.handled cr.handled dr.handled cpuid.handled rdmsr.handled wrmsr.handled window.handled
      halt.handled)


section \<open>Exceptions\<close>

text \<open>
  What the handlers need of the emulator: it keeps the contract, and in real mode the flags it
  leaves still have the VM bit, because they are written back to the guest.
\<close>

definition vm_flag :: "x86_emulate_ctxt \<Rightarrow> vm \<Rightarrow> bool" where
  "vm_flag ctxt s \<longleftrightarrow> (rmode_active (rmode (vcpu s)) \<longrightarrow> eflags ctxt AND X86_EFLAGS_VM \<noteq> 0)"

definition memop_ok :: "memop \<Rightarrow> bool" where
  "memop_ok memop \<longleftrightarrow> (\<forall>ctxt s r ctxt' t. memop ctxt s = (r, ctxt', t) \<longrightarrow>
     irqs_of t = irqs_of s \<and> (mode_ok s \<and> vm_flag ctxt s \<longrightarrow> mode_ok t \<and> vm_flag ctxt' t))"

lemma emulate_instruction_keeps:
  assumes m: "memop_ok memop" and e: "emulate_instruction memop run addr s = (er, run', t)"
  shows "keeps s t"
    "map_option instruction_length run' = map_option instruction_length run"
proof -
  let ?s = "(vcpu_load_rsp_rip s)\<lparr>vcpu := (vcpu (vcpu_load_rsp_rip s))\<lparr>mmio_is_write := False\<rparr>\<rparr>"
  obtain r c u where mo: "memop (emulation_context addr (vcpu_load_rsp_rip s)) ?s = (r, c, u)"
    by (metis prod_cases3)
  have k: "mode_ok ?s = mode_ok s"
    using mode_ok_vcpu_fields(1) [of s]
    by (subst mode_ok_reads [of _ "vcpu_load_rsp_rip s"]) (simp_all add: vmcs_simps)
  have i: "irqs_of ?s = irqs_of s" using irqs_of_fields(1) [of s] by (simp add: irqs_of_def)
  have v: "mode_ok s \<Longrightarrow> vm_flag (emulation_context addr (vcpu_load_rsp_rip s)) ?s"
    by (simp add: vm_flag_def emulation_context_def Let_def vcpu_load_rsp_rip_def vmcs_simps mode_ok_def)
  have u: "irqs_of u = irqs_of s" "mode_ok s \<Longrightarrow> mode_ok u \<and> vm_flag c u"
    using m mo k i v unfolding memop_ok_def by metis+
  have w: "mode_ok u \<Longrightarrow> vm_flag c u \<Longrightarrow> mode_ok (vmcs_writel GUEST_RFLAGS (eflags c) (vcpu_put_rsp_rip u))"
    using mode_ok_vcpu_fields(2) [of u]
    by (auto simp: mode_ok_bits Let_def vmcs_simps vm_flag_def vcpu_put_rsp_rip_def)
  show "keeps s t"
    using e mo u w by (auto simp: emulate_instruction_def Let_def keeps_def split: if_splits)
  show "map_option instruction_length run' = map_option instruction_length run"
    using e mo by (auto simp: emulate_instruction_def Let_def fill_mmio_def option.map_comp comp_def
        split: if_splits)
qed

lemma reflect_exception_keeps:
  assumes m: "memop_ok memop" and r: "reflect_exception memop info e run s = (b, run', t)"
  shows "keeps s t \<and> instruction_length run' = instruction_length run \<and>
    (b \<or> exit_reason run' \<in> {KVM_EXIT_DEBUG, KVM_EXIT_EXCEPTION})"
proof -
  have "keeps s u" if "handle_rmode_exception memop v e' s = (h, u)" for v e' h u
    using that emulate_instruction_keeps(1) [OF m]
    by (auto simp: handle_rmode_exception_def split: if_splits prod.splits)
  then show ?thesis
    using r by (auto simp: reflect_exception_def Let_def split: if_splits prod.splits)
qed

lemma handle_exception_keeps:
  assumes m: "memop_ok memop" and h: "handle_exception fuel memop run s = Some (b, run', t)"
    and vi: "vect = vmcs_read32 s IDT_VECTORING_INFO_FIELD"
    and u: "u = (if is_external_interrupt vect
      then set_pending_irq (unat (vect AND VECTORING_INFO_VECTOR_MASK)) s else s)"
  shows "keeps u t \<and> instruction_length run' = instruction_length run \<and>
    (b \<or> exit_reason run' \<in> {KVM_EXIT_MMIO, KVM_EXIT_DEBUG, KVM_EXIT_EXCEPTION})"
proof -
  have c: "keeps u v \<Longrightarrow> keeps u (count_mmio_exit v)" for v
    by (rule keeps_trans [OF _ keeps_view]) (simp_all add: count_mmio_exit_def)
  have h': "handle_exception fuel memop run s =
      (let intr_info = vmcs_read32 s VM_EXIT_INTR_INFO in
       if intr_info AND INTR_INFO_INTR_TYPE_MASK = 0x200 then Some (True, run, u)
       else let error_code = (if intr_info AND INTR_INFO_DELIEVER_CODE_MASK \<noteq> 0
                              then vmcs_read32 u VM_EXIT_INTR_ERROR_CODE else 0)
       in if is_page_fault intr_info then
            case mmu_page_fault fuel (vmcs_readl u EXIT_QUALIFICATION) error_code u of
              None \<Rightarrow> None
            | Some (False, s) \<Rightarrow> Some (True, run, s)
            | Some (True, s) \<Rightarrow>
                (case emulate_instruction memop (Some run) (vmcs_readl u EXIT_QUALIFICATION) s of
                   (EMULATE_DONE, run', s) \<Rightarrow> Some (True, the run', s)
                 | (EMULATE_DO_MMIO, run', s) \<Rightarrow>
                     Some (False, (the run')\<lparr>exit_reason := KVM_EXIT_MMIO\<rparr>, count_mmio_exit s)
                 | (EMULATE_FAIL, run', s) \<Rightarrow>
                     Some (reflect_exception memop intr_info error_code (the run') s))
          else Some (reflect_exception memop intr_info error_code run u))"
    unfolding handle_exception_def Let_def u vi by (rule refl)
  have E: "keeps v w \<and> (\<exists>r. run'' = Some r \<and> instruction_length r = instruction_length run)"
    if "emulate_instruction memop (Some run) a v = (er, run'', w)" for a v er run'' w
    using emulate_instruction_keeps [OF m that] by auto
  note R = reflect_exception_keeps [OF m]
  let ?i = "vmcs_read32 s VM_EXIT_INTR_INFO"
  let ?e = "if ?i AND INTR_INFO_DELIEVER_CODE_MASK \<noteq> 0 then vmcs_read32 u VM_EXIT_INTR_ERROR_CODE else 0"
  consider "?i AND INTR_INFO_INTR_TYPE_MASK = 0x200"
    | "?i AND INTR_INFO_INTR_TYPE_MASK \<noteq> 0x200" "\<not> is_page_fault ?i"
    | "?i AND INTR_INFO_INTR_TYPE_MASK \<noteq> 0x200" "is_page_fault ?i" by blast
  then show ?thesis
  proof cases
    case 1
    then show ?thesis using h h' by (simp add: Let_def)
  next
    case 2
    then have "reflect_exception memop ?i ?e run u = (b, run', t)"
      using h h' by (simp only: Let_def if_False option.inject)
    from R [OF this] show ?thesis by auto
  next
    case 3
    then have h3: "(case mmu_page_fault fuel (vmcs_readl u EXIT_QUALIFICATION) ?e u of
              None \<Rightarrow> None
            | Some (False, s) \<Rightarrow> Some (True, run, s)
            | Some (True, s) \<Rightarrow>
                (case emulate_instruction memop (Some run) (vmcs_readl u EXIT_QUALIFICATION) s of
                   (EMULATE_DONE, run', s) \<Rightarrow> Some (True, the run', s)
                 | (EMULATE_DO_MMIO, run', s) \<Rightarrow>
                     Some (False, (the run')\<lparr>exit_reason := KVM_EXIT_MMIO\<rparr>, count_mmio_exit s)
                 | (EMULATE_FAIL, run', s) \<Rightarrow>
                     Some (reflect_exception memop ?i ?e (the run') s))) = Some (b, run', t)"
      using h h' by (simp only: Let_def if_False if_True)
    then obtain f v where pf: "mmu_page_fault fuel (vmcs_readl u EXIT_QUALIFICATION) ?e u = Some (f, v)"
      by (cases "mmu_page_fault fuel (vmcs_readl u EXIT_QUALIFICATION) ?e u") auto
    note kv = mmu_page_fault_keeps [OF pf] and h4 = h3 [unfolded pf]
    show ?thesis
    proof (cases f)
      case False
      then show ?thesis using h4 kv by simp
    next
      case True
      obtain er run'' w where em: "emulate_instruction memop (Some run) (vmcs_readl u EXIT_QUALIFICATION) v = (er, run'', w)"
        by (metis prod_cases3)
      from E [OF em] obtain r where r: "keeps v w" "run'' = Some r" "instruction_length r = instruction_length run"
        by blast
      note kw = keeps_trans [OF kv r(1)]
      show ?thesis
      proof (cases er)
        case EMULATE_FAIL
        then have "reflect_exception memop ?i ?e r w = (b, run', t)"
          using h4 True em r(2) by simp
        from R [OF this] r(3) keeps_trans [OF kw] show ?thesis by auto
      qed (use h4 True em r kw c in auto)
    qed
  qed
qed


section \<open>Properties\<close>


text \<open>A guest that executes CPUID while interrupt 33 is pending, with an emulator that fails.\<close>

definition example_cpuid :: vm where
  "example_cpuid = set_pending_irq 33 (vmcs_write32 VM_EXIT_REASON EXIT_REASON_CPUID
     (vmcs_write32 VM_EXIT_INSTRUCTION_LEN 2 example_pmode))"

definition no_emulator :: memop where
  "no_emulator ctxt s = (True, ctxt, s)"


end
