(* ===== verification/Run.thy ===== *)
theory Run
  imports Exit_Dispatch
begin

text \<open>
  \<open>KVM_RUN\<close>: the loop that enters the guest and handles its exits. What the processor does
  between VM entry and VM exit is a parameter, with the scheduler and the signals: a \<open>machine\<close>
  gives, for the n-th entry, whether the entry failed and the state after the exit, whether a
  signal is pending then, and the cpu the thread runs on afterwards. The assembly that moves
  the guest's registers between \<open>regs\<close> and the processor is part of the entry. Loading FS
  also loads its base, from the descriptor tables of the host (\<open>fs_base_of\<close>).
\<close>

record machine =
  enter_guest :: "nat \<Rightarrow> bool \<Rightarrow> vm \<Rightarrow> bool \<times> vm"
  signal_pending :: "nat \<Rightarrow> bool"
  reschedule :: "nat \<Rightarrow> host_cpu \<Rightarrow> host_cpu"
  fs_base_of :: "u16 \<Rightarrow> u64"

section \<open>Before the entry\<close>

definition kvm_guest_debug_pre :: "vm \<Rightarrow> vm" where
  "kvm_guest_debug_pre s =
     (let dbg = guest_debug (vcpu s);
          s = s\<lparr>host := (host s)\<lparr>h_dr := (h_dr (host s))(0 := dbg_bp dbg 0, 1 := dbg_bp dbg 1,
                2 := dbg_bp dbg 2, 3 := dbg_bp dbg 3)\<rparr>\<rparr>
      in if dbg_singlestep dbg
         then vmcs_writel GUEST_RFLAGS (vmcs_readl s GUEST_RFLAGS OR X86_EFLAGS_TF OR X86_EFLAGS_RF) s
         else s)"

text \<open>The first \<open>n\<close> entries to and from the processor's registers.\<close>

definition load_msrs :: "vmx_msr_entry list \<Rightarrow> nat \<Rightarrow> (u32 \<Rightarrow> u64) \<Rightarrow> u32 \<Rightarrow> u64" where
  "load_msrs e n = fold (\<lambda>x m. m(msr_index x := msr_data x)) (take n e)"

definition save_msrs :: "vmx_msr_entry list \<Rightarrow> nat \<Rightarrow> (u32 \<Rightarrow> u64) \<Rightarrow> vmx_msr_entry list" where
  "save_msrs e n m = map (\<lambda>x. x\<lparr>msr_data := m (msr_index x)\<rparr>) (take n e) @ drop n e"

definition set_host :: "host_cpu \<Rightarrow> vm \<Rightarrow> vm" where
  "set_host h s = s\<lparr>host := h\<rparr>"

definition reload_needed :: "host_cpu \<Rightarrow> bool" where
  "reload_needed h \<longleftrightarrow> (h_fs h AND 7) OR (h_gs h AND 7) OR h_ldt h \<noteq> 0"

definition set_host_segments :: "vm \<Rightarrow> vm" where
  "set_host_segments s =
     (let fs_sel = h_fs (host s);
          gs_sel = h_gs (host s);
          s = (if \<not> reload_needed (host s)
               then vmcs_write16 HOST_GS_SELECTOR gs_sel (vmcs_write16 HOST_FS_SELECTOR fs_sel s)
               else vmcs_write16 HOST_GS_SELECTOR 0 (vmcs_write16 HOST_FS_SELECTOR 0 s));
          s = vmcs_writel HOST_FS_BASE (h_msr (host s) MSR_FS_BASE) s
      in vmcs_writel HOST_GS_BASE (h_msr (host s) MSR_GS_BASE) s)"

definition inject_pending :: "vm \<Rightarrow> vm" where
  "inject_pending s =
     (if irq_summary (vcpu s) \<noteq> 0 \<and>
         vmcs_read32 s VM_ENTRY_INTR_INFO_FIELD AND INTR_INFO_VALID_MASK = 0
      then kvm_try_inject_irq s else s)"

text \<open>\<open>fx_save\<close> and \<open>fx_restore\<close>, and the registers that are switched by hand.\<close>

definition switch_to_guest :: "vm \<Rightarrow> vm" where
  "switch_to_guest s =
     (let s = s\<lparr>vcpu := (vcpu s)\<lparr>host_fx_image := h_fpu (host s)\<rparr>\<rparr>;
          s = set_host ((host s)\<lparr>h_fpu := guest_fx_image (vcpu s)\<rparr>) s;
          s = s\<lparr>vcpu := (vcpu s)\<lparr>host_msrs :=
                save_msrs (host_msrs (vcpu s)) (nmsrs (vcpu s)) (h_msr (host s))\<rparr>\<rparr>
      in set_host ((host s)\<lparr>h_msr :=
           load_msrs (guest_msrs (vcpu s)) NR_BAD_MSRS (h_msr (host s))\<rparr>) s)"

definition before_entry :: "vm \<Rightarrow> vm" where
  "before_entry s =
     (let s = set_host_segments s;
          s = inject_pending s;
          s = (if dbg_enabled (guest_debug (vcpu s)) then kvm_guest_debug_pre s else s)
      in switch_to_guest s)"

section \<open>After the exit\<close>

definition count_exit :: "vm \<Rightarrow> vm" where
  "count_exit s = s\<lparr>kvm_stat := (kvm_stat s)\<lparr>exits := exits (kvm_stat s) + 1\<rparr>\<rparr>"

definition switch_to_host :: "vm \<Rightarrow> vm" where
  "switch_to_host s =
     (let s = s\<lparr>vcpu := (vcpu s)\<lparr>guest_msrs :=
                save_msrs (guest_msrs (vcpu s)) NR_BAD_MSRS (h_msr (host s))\<rparr>\<rparr>;
          s = set_host ((host s)\<lparr>h_msr :=
                load_msrs (host_msrs (vcpu s)) NR_BAD_MSRS (h_msr (host s))\<rparr>) s;
          s = s\<lparr>vcpu := (vcpu s)\<lparr>guest_fx_image := h_fpu (host s)\<rparr>\<rparr>
      in set_host ((host s)\<lparr>h_fpu := host_fx_image (vcpu s)\<rparr>) s)"

text \<open>The selectors are those read before the entry.\<close>

definition reload_segments :: "machine \<Rightarrow> u16 \<Rightarrow> u16 \<Rightarrow> u16 \<Rightarrow> vm \<Rightarrow> vm" where
  "reload_segments m fs_sel gs_sel ldt_sel s =
     set_host ((host s)\<lparr>h_ldt := ldt_sel, h_fs := fs_sel, h_gs := gs_sel,
       h_msr := (h_msr (host s))(MSR_FS_BASE := fs_base_of m fs_sel,
                                 MSR_GS_BASE := vmcs_readl s HOST_GS_BASE)\<rparr>) s"

text \<open>One entry and the switch back: the result \<open>True\<close> is a failed entry.\<close>

definition enter_once :: "machine \<Rightarrow> nat \<Rightarrow> vm \<Rightarrow> bool \<times> vm" where
  "enter_once m n s =
     (let fs_sel = h_fs (host s);
          gs_sel = h_gs (host s);
          ldt_sel = h_ldt (host s);
          needed = reload_needed (host s);
          (fail, s) = enter_guest m n (launched (vcpu s)) (before_entry s);
          s = switch_to_host (count_exit s);
          s = (if \<not> fail \<and> needed then reload_segments m fs_sel gs_sel ldt_sel s else s);
          s = (if \<not> fail then s\<lparr>vcpu := (vcpu s)\<lparr>launched := True\<rparr>\<rparr> else s)
      in (fail, s))"

section \<open>The loop\<close>

definition count_signal_exit :: "vm \<Rightarrow> vm" where
  "count_signal_exit s = s\<lparr>kvm_stat := (kvm_stat s)\<lparr>signal_exits := signal_exits (kvm_stat s) + 1\<rparr>\<rparr>"

text \<open>
  From the label \<open>again\<close>, for the n-th entry: the error number, \<open>None\<close> for 0. The outer \<open>None\<close>
  is for fuel used up by the loop, or by the page fault handler in one of its rounds.
\<close>

fun run_loop ::
  "nat \<Rightarrow> machine \<Rightarrow> memop \<Rightarrow> nat \<Rightarrow> kvm_run \<Rightarrow> vm \<Rightarrow> (errno option \<times> kvm_run \<times> vm) option" where
  "run_loop 0 m memop n run s = None"
| "run_loop (Suc fuel) m memop n run s =
     (let (fail, s) = enter_once m n s
      in if fail then
           Some (None, run\<lparr>exit_type := KVM_EXIT_TYPE_FAIL_ENTRY,
                           exit_reason := vmcs_read32 s VM_INSTRUCTION_ERROR\<rparr>, s)
         else
           let run = run\<lparr>exit_type := KVM_EXIT_TYPE_VM_EXIT\<rparr>
           in (case kvm_handle_exit fuel memop run s of
                 None \<Rightarrow> None
               | Some (False, run, s) \<Rightarrow> Some (None, run, s)
               | Some (True, run, s) \<Rightarrow>
                   if signal_pending m n then Some (Some EINTR, run, count_signal_exit s)
                   else run_loop fuel m memop (Suc n) run
                          (internal_vcpu_load (set_host (reschedule m n (host s)) s))))"

definition complete_requests :: "kvm_run \<Rightarrow> vm \<Rightarrow> kvm_run \<times> vm" where
  "complete_requests run s =
     (let (run, s) = (if emulated run then (run\<lparr>emulated := False\<rparr>, skip_emulated_instruction s)
                      else (run, s));
          s = (if mmio_completed run
               then s\<lparr>vcpu := (vcpu s)\<lparr>mmio_data := rm_data (run_mmio run), mmio_read_completed := True\<rparr>\<rparr>
               else s)
      in (run, s\<lparr>vcpu := (vcpu s)\<lparr>mmio_needed := False\<rparr>\<rparr>))"

definition kvm_dev_ioctl_run ::
  "nat \<Rightarrow> machine \<Rightarrow> memop \<Rightarrow> kvm_run \<Rightarrow> vm \<Rightarrow> (errno option \<times> kvm_run \<times> vm) option" where
  "kvm_dev_ioctl_run fuel m memop run s =
     (if unat (run_vcpu run) \<ge> KVM_MAX_VCPUS then Some (Some EINVAL, run, s)
      else case vcpu_load s of
             None \<Rightarrow> Some (Some ENOENT, run, s)
           | Some s \<Rightarrow>
               let (run, s) = complete_requests run s
               in run_loop fuel m memop 0 run s)"


section \<open>The host keeps its state\<close>

lemma load_msrs_apply:
  "load_msrs e n m r = (if r \<in> msr_index ` set (take n e)
     then msr_data (last (filter (\<lambda>x. msr_index x = r) (take n e))) else m r)"
proof -
  have "fold (\<lambda>x m. m(msr_index x := msr_data x)) xs m r = (if r \<in> msr_index ` set xs
     then msr_data (last (filter (\<lambda>x. msr_index x = r) xs)) else m r)" for xs
    by (induction xs rule: rev_induct) (auto simp: filter_empty_conv)
  then show ?thesis unfolding load_msrs_def .
qed

text \<open>What was saved is restored, whatever happened to the registers in between.\<close>

lemma load_saved_msrs:
  assumes "n \<le> k"
  shows "load_msrs (save_msrs e k m0) n m r = (if r \<in> msr_index ` set (take n e) then m0 r else m r)"
proof -
  let ?f = "\<lambda>x. x\<lparr>msr_data := m0 (msr_index x)\<rparr>"
  have t: "take n (save_msrs e k m0) = map ?f (take n e)"
    using assms by (simp add: save_msrs_def take_map min_def)
  have d: "msr_data (last (filter (\<lambda>x. msr_index x = r) (map ?f xs))) = m0 r"
    if "r \<in> msr_index ` set xs" for xs
  proof -
    have "filter (\<lambda>x. msr_index x = r) (map ?f xs) \<noteq> []"
      using that by (auto simp: filter_empty_conv)
    then have "last (filter (\<lambda>x. msr_index x = r) (map ?f xs)) \<in> set (filter (\<lambda>x. msr_index x = r) (map ?f xs))"
      by (rule last_in_set)
    then show ?thesis by auto
  qed
  show ?thesis
    unfolding load_msrs_apply t using d [of "take n e"] by (simp add: image_image)
qed

text \<open>The switched registers are the first two of the table, in both lists.\<close>

definition bad_msrs :: "u32 list" where
  "bad_msrs = take NR_BAD_MSRS vmx_msr_index"

definition msrs_ok :: "vm \<Rightarrow> bool" where
  "msrs_ok s \<longleftrightarrow> map msr_index (take NR_BAD_MSRS (host_msrs (vcpu s))) = bad_msrs \<and>
     map msr_index (take NR_BAD_MSRS (guest_msrs (vcpu s))) = bad_msrs \<and>
     NR_BAD_MSRS \<le> nmsrs (vcpu s)"

text \<open>
  What the processor and the assembly do at VM entry and exit (sections 22.2 and 23 of the
  manual): the fields of the virtual cpu other than the registers stay, the host fields of the
  VMCS stay, a failed entry leaves the host as it was, and a VM exit loads the selectors and
  bases of FS and GS from the host fields and clears LDTR.
\<close>

definition host_fields :: "nat list" where
  "host_fields = [HOST_FS_SELECTOR, HOST_GS_SELECTOR, HOST_FS_BASE, HOST_GS_BASE]"

definition exit_loads_host :: "machine \<Rightarrow> bool" where
  "exit_loads_host m \<longleftrightarrow> (\<forall>n l s fail t. enter_guest m n l s = (fail, t) \<longrightarrow>
     host_msrs (vcpu t) = host_msrs (vcpu s) \<and> host_fx_image (vcpu t) = host_fx_image (vcpu s) \<and>
     map (vmcs_readl t) host_fields = map (vmcs_readl s) host_fields \<and>
     (fail \<longrightarrow> host t = host s) \<and>
     (\<not> fail \<longrightarrow> h_fs (host t) = vmcs_read16 s HOST_FS_SELECTOR \<and>
        h_gs (host t) = vmcs_read16 s HOST_GS_SELECTOR \<and> h_ldt (host t) = 0 \<and>
        h_msr (host t) MSR_FS_BASE = vmcs_readl s HOST_FS_BASE \<and>
        h_msr (host t) MSR_GS_BASE = vmcs_readl s HOST_GS_BASE))"

text \<open>What the host must find again.\<close>

definition host_state :: "host_cpu \<Rightarrow> (u16 \<times> u16 \<times> u16) \<times> u8 list \<times> u64 list" where
  "host_state h = ((h_fs h, h_gs h, h_ldt h), h_fpu h,
     map (h_msr h) (MSR_FS_BASE # MSR_GS_BASE # bad_msrs))"

lemma write_chunks_frame: "\<exists>m. snd (write_chunks tr a ds s) = s\<lparr>hmem := m\<rparr>"
proof (induction tr a ds s rule: write_chunks.induct)
  case (1 tr a ds s)
  show ?case
  proof (cases "ds = [] \<or> is_error_hpa (tr s a)")
    case True
    then show ?thesis by (subst write_chunks.simps) (auto intro: exI [of _ "hmem s"])
  next
    case False
    let ?now = "min (length ds) (4096 - page_offset a)"
    let ?s = "s\<lparr>hmem := put_bytes (map_page (tr s a) OR (a AND NOT PAGE_MASK)) (take ?now ds) (hmem s)\<rparr>"
    have "\<exists>m. snd (write_chunks tr (a + of_nat ?now) (drop ?now ds) ?s) = ?s\<lparr>hmem := m\<rparr>"
      using 1 False by simp
    then show ?thesis
      using False by (subst write_chunks.simps) (auto simp: Let_def split: prod.split)
  qed
qed

text \<open>What the steps before the switch leave alone.\<close>

definition entry_view ::
  "vm \<Rightarrow> host_cpu \<times> vmx_msr_entry list \<times> vmx_msr_entry list \<times> nat \<times> u64 list" where
  "entry_view s = ((host s)\<lparr>h_dr := \<lambda>_. 0\<rparr>, host_msrs (vcpu s), guest_msrs (vcpu s), nmsrs (vcpu s),
     map (vmcs_readl s) host_fields)"

lemma entry_view_vmcs:
  assumes "f \<notin> set host_fields"
  shows "entry_view (vmcs_writel f v s) = entry_view s" "entry_view (vmcs_write32 f w s) = entry_view s"
    "entry_view (vmcs_write16 f x s) = entry_view s"
  using assms by (auto simp: entry_view_def vmcs_simps)

lemma entry_view_hmem [simp]: "entry_view (s\<lparr>hmem := m\<rparr>) = entry_view s"
  by (simp add: entry_view_def host_fields_def vmcs_simps)

lemma entry_view_write_guest: "kvm_write_guest a ds s = (n, t) \<Longrightarrow> entry_view t = entry_view s"
  using write_chunks_frame [of gva_to_hpa a ds s] by (auto simp: kvm_write_guest_def)

lemma entry_view_inject_rmode: "entry_view (inject_rmode_irq irq s) = entry_view s"
  by (auto simp: inject_rmode_irq_def rmode_irq_regs_def Let_def entry_view_vmcs host_fields_def
      split: prod.split dest!: entry_view_write_guest)

lemma entry_view_clear [simp]: "entry_view (clear_next_irq s) = entry_view s"
  by (simp add: clear_next_irq_def Let_def entry_view_def host_fields_def vmcs_simps)

lemma entry_view_inject_pending: "entry_view (inject_pending s) = entry_view s"
  by (simp add: inject_pending_def kvm_try_inject_irq_def kvm_do_inject_irq_def Let_def
      entry_view_inject_rmode entry_view_vmcs host_fields_def)

lemma entry_view_debug_pre: "entry_view (kvm_guest_debug_pre s) = entry_view s"
proof -
  have "entry_view (s\<lparr>host := (host s)\<lparr>h_dr := d\<rparr>\<rparr>) = entry_view s" for d
    by (simp add: entry_view_def host_fields_def vmcs_simps)
  then show ?thesis by (simp add: kvm_guest_debug_pre_def Let_def entry_view_vmcs host_fields_def)
qed

text \<open>The registers that are switched before the entry.\<close>

definition prepared :: "vm \<Rightarrow> vm" where
  "prepared s = (let t = inject_pending (set_host_segments s)
     in if dbg_enabled (guest_debug (vcpu t)) then kvm_guest_debug_pre t else t)"

lemma before_entry_prepared: "before_entry s = switch_to_guest (prepared s)"
  by (simp add: before_entry_def prepared_def Let_def)

lemma prepared_view: "entry_view (prepared s) = entry_view (set_host_segments s)"
  by (simp add: prepared_def Let_def entry_view_debug_pre entry_view_inject_pending)

lemma set_host_segments_view:
  "entry_view (set_host_segments s) =
     ((host s)\<lparr>h_dr := \<lambda>_. 0\<rparr>, host_msrs (vcpu s), guest_msrs (vcpu s), nmsrs (vcpu s),
      [if reload_needed (host s) then 0 else ucast (h_fs (host s)),
       if reload_needed (host s) then 0 else ucast (h_gs (host s)),
       h_msr (host s) MSR_FS_BASE, h_msr (host s) MSR_GS_BASE])"
  by (simp add: set_host_segments_def entry_view_def host_fields_def Let_def vmcs_simps)

lemma before_entry_effect:
  fixes s :: vm
  defines "b \<equiv> before_entry s"
  shows "(h_fs (host b), h_gs (host b), h_ldt (host b)) = (h_fs (host s), h_gs (host s), h_ldt (host s))"
    and "h_msr (host b) = load_msrs (guest_msrs (vcpu s)) NR_BAD_MSRS (h_msr (host s))"
    and "host_fx_image (vcpu b) = h_fpu (host s)"
    and "host_msrs (vcpu b) = save_msrs (host_msrs (vcpu s)) (nmsrs (vcpu s)) (h_msr (host s))"
    and "map (vmcs_readl b) host_fields =
      [if reload_needed (host s) then 0 else ucast (h_fs (host s)),
       if reload_needed (host s) then 0 else ucast (h_gs (host s)),
       h_msr (host s) MSR_FS_BASE, h_msr (host s) MSR_GS_BASE]"
proof -
  let ?p = "prepared s"
  have v: "entry_view ?p = entry_view (set_host_segments s)" by (rule prepared_view)
  have h: "(host ?p)\<lparr>h_dr := \<lambda>_. 0\<rparr> = (host s)\<lparr>h_dr := \<lambda>_. 0\<rparr>"
    and m: "host_msrs (vcpu ?p) = host_msrs (vcpu s)" "guest_msrs (vcpu ?p) = guest_msrs (vcpu s)"
      "nmsrs (vcpu ?p) = nmsrs (vcpu s)"
    and f: "map (vmcs_readl ?p) host_fields =
      [if reload_needed (host s) then 0 else ucast (h_fs (host s)),
       if reload_needed (host s) then 0 else ucast (h_gs (host s)),
       h_msr (host s) MSR_FS_BASE, h_msr (host s) MSR_GS_BASE]"
    using v [unfolded set_host_segments_view] by (auto simp: entry_view_def)
  have k: "h_fs (host ?p) = h_fs (host s)" "h_gs (host ?p) = h_gs (host s)"
    "h_ldt (host ?p) = h_ldt (host s)" "h_msr (host ?p) = h_msr (host s)" "h_fpu (host ?p) = h_fpu (host s)"
    using arg_cong [OF h, of h_fs] arg_cong [OF h, of h_gs] arg_cong [OF h, of h_ldt]
      arg_cong [OF h, of h_msr] arg_cong [OF h, of h_fpu] by simp_all
  note d = b_def before_entry_prepared switch_to_guest_def Let_def set_host_def
  show "(h_fs (host b), h_gs (host b), h_ldt (host b)) = (h_fs (host s), h_gs (host s), h_ldt (host s))"
    by (simp add: d k)
  show "h_msr (host b) = load_msrs (guest_msrs (vcpu s)) NR_BAD_MSRS (h_msr (host s))"
    by (simp add: d k m)
  show "host_fx_image (vcpu b) = h_fpu (host s)" by (simp add: d k)
  show "host_msrs (vcpu b) = save_msrs (host_msrs (vcpu s)) (nmsrs (vcpu s)) (h_msr (host s))"
    by (simp add: d k m)
  show "map (vmcs_readl b) host_fields =
      [if reload_needed (host s) then 0 else ucast (h_fs (host s)),
       if reload_needed (host s) then 0 else ucast (h_gs (host s)),
       h_msr (host s) MSR_FS_BASE, h_msr (host s) MSR_GS_BASE]"
    unfolding f [symmetric] by (simp add: d host_fields_def vmcs_simps)
qed

text \<open>
  C6: whatever the guest does with them, an entry gives the host back its FS, GS and LDT
  selectors, its floating point state, the bases of FS and GS and the two system call registers
  that the guest shares with it, whether the entry fails or not and whether the selectors can
  be kept in the VMCS or have to be reloaded; with a reload, the base of FS is the one of its
  descriptor.
\<close>

theorem host_preserved:
  assumes m: "exit_loads_host m" and ok: "msrs_ok s"
    and fs: "reload_needed (host s) \<Longrightarrow> fs_base_of m (h_fs (host s)) = h_msr (host s) MSR_FS_BASE"
  shows "host_state (host (snd (enter_once m n s))) = host_state (host s)"
proof -
  let ?b = "before_entry s"
  obtain fail t where e: "enter_guest m n (launched (vcpu s)) ?b = (fail, t)" by fastforce
  note b = before_entry_effect [of s]
  note x = m [unfolded exit_loads_host_def, rule_format, OF e]
  have fx: "host_fx_image (vcpu t) = h_fpu (host s)" using x b(3) by simp
  have hm: "host_msrs (vcpu t) = save_msrs (host_msrs (vcpu s)) (nmsrs (vcpu s)) (h_msr (host s))"
    using x b(4) by simp
  have bad: "set (map msr_index (take NR_BAD_MSRS (host_msrs (vcpu s)))) = set bad_msrs"
    "set (map msr_index (take NR_BAD_MSRS (guest_msrs (vcpu s)))) = set bad_msrs"
    "NR_BAD_MSRS \<le> nmsrs (vcpu s)"
    using ok by (simp_all add: msrs_ok_def)
  then have bad': "msr_index ` set (take NR_BAD_MSRS (host_msrs (vcpu s))) = set bad_msrs"
    "msr_index ` set (take NR_BAD_MSRS (guest_msrs (vcpu s))) = set bad_msrs" by simp_all
  have l: "load_msrs (host_msrs (vcpu t)) NR_BAD_MSRS h r = (if r \<in> set bad_msrs then h_msr (host s) r else h r)"
    for h r unfolding hm load_saved_msrs [OF bad(3)] bad'(1) ..
  have lb: "h_msr (host ?b) r = h_msr (host s) r" if "r \<notin> set bad_msrs" for r
    unfolding b(2) load_msrs_apply bad'(2) using that by simp
  have nb: "MSR_FS_BASE \<notin> set bad_msrs" "MSR_GS_BASE \<notin> set bad_msrs"
    by (simp_all add: bad_msrs_def vmx_msr_index_def NR_BAD_MSRS_def)
  show ?thesis
  proof (cases fail)
    case True
    then have "host t = host ?b" using x by simp
    then show ?thesis
      using b(1) lb nb l fx
      by (simp add: enter_once_def e True host_state_def switch_to_host_def count_exit_def set_host_def Let_def)
  next
    case False
    have f: "map (vmcs_readl t) host_fields = map (vmcs_readl ?b) host_fields" using x by simp
    note d = enter_once_def e host_state_def switch_to_host_def count_exit_def set_host_def Let_def
      reload_segments_def host_fields_def vmcs_simps vmcs_read16_def
    show ?thesis
    proof (cases "reload_needed (host s)")
      case True
      then show ?thesis using f b(5) x False lb nb l fx fs by (simp add: d)
    next
      case keep: False
      then have "h_ldt (host s) = 0" by (simp add: reload_needed_def or_eq_0_iff)
      then show ?thesis using f b(5) x False lb nb l fx keep by (simp add: d)
    qed
  qed
qed

text \<open>A guest that destroys every register it can.\<close>

definition example_machine :: machine where
  "example_machine = \<lparr>enter_guest = (\<lambda>n l s. (False, s\<lparr>host := (host s)\<lparr>
       h_fs := vmcs_read16 s HOST_FS_SELECTOR, h_gs := vmcs_read16 s HOST_GS_SELECTOR, h_ldt := 0,
       h_fpu := [], h_msr := (\<lambda>_. 0)(MSR_FS_BASE := vmcs_readl s HOST_FS_BASE,
                                      MSR_GS_BASE := vmcs_readl s HOST_GS_BASE)\<rparr>\<rparr>)),
     signal_pending = (\<lambda>n. n > 1), reschedule = (\<lambda>_ h. h), fs_base_of = (\<lambda>_. 0x500)\<rparr>"

definition example_host :: vm where
  "example_host = zero_vm\<lparr>
     host := (host zero_vm)\<lparr>h_fs := 0x63, h_gs := 0x10, h_ldt := 8, h_fpu := [1, 2, 3],
       h_msr := (\<lambda>_. 7)(MSR_FS_BASE := 0x500, MSR_GS_BASE := 0xffff8000)\<rparr>,
     vcpu := (vcpu zero_vm)\<lparr>
       host_msrs := map (\<lambda>i. \<lparr>msr_index = i, msr_reserved = 0, msr_data = 0\<rparr>) vmx_msr_index,
       guest_msrs := map (\<lambda>i. \<lparr>msr_index = i, msr_reserved = 0, msr_data = 0x99\<rparr>) vmx_msr_index, nmsrs := 6\<rparr>\<rparr>"

theorem host_preserved_witness:
  "host_state (host (snd (enter_once example_machine 0 example_host))) =
     ((0x63, 0x10, 8), [1, 2, 3], [0x500, 0xffff8000, 7, 7])"
proof -
  have m: "exit_loads_host example_machine"
    by (simp add: exit_loads_host_def example_machine_def host_fields_def vmcs_simps)
  have ok: "msrs_ok example_host"
    by (simp add: msrs_ok_def example_host_def bad_msrs_def NR_BAD_MSRS_def vmx_msr_index_def)
  have "host_state (host example_host) = ((0x63, 0x10, 8), [1, 2, 3], [0x500, 0xffff8000, 7, 7])"
    by (simp add: host_state_def example_host_def bad_msrs_def NR_BAD_MSRS_def vmx_msr_index_def)
  then show ?thesis
    using host_preserved [OF m ok, of 0] by (simp add: example_machine_def example_host_def)
qed

end
