(* ===== verification/Regs.thy ===== *)
theory Regs
  imports Run
begin

text \<open>
  The ioctls that read and write the registers of a virtual cpu, that translate an address and
  that set up the debugging of a guest. The slot of the virtual cpu is part of every argument;
  the padding of the structures is not modelled. An error is the first component of the result.
\<close>

section \<open>General registers\<close>

record kvm_regs =
  gr_vcpu :: u32
  gr_rax :: u64
  gr_rbx :: u64
  gr_rcx :: u64
  gr_rdx :: u64
  gr_rsi :: u64
  gr_rdi :: u64
  gr_rsp :: u64
  gr_rbp :: u64
  gr_r8 :: u64
  gr_r9 :: u64
  gr_r10 :: u64
  gr_r11 :: u64
  gr_r12 :: u64
  gr_r13 :: u64
  gr_r14 :: u64
  gr_r15 :: u64
  gr_rip :: u64
  gr_rflags :: u64

text \<open>The check on the slot and \<open>vcpu_load\<close>, with which every one of them begins.\<close>

definition with_vcpu :: "u32 \<Rightarrow> 'a \<Rightarrow> (vm \<Rightarrow> errno option \<times> 'a \<times> vm) \<Rightarrow> vm \<Rightarrow> errno option \<times> 'a \<times> vm" where
  "with_vcpu slot arg f s =
     (if unat slot \<ge> KVM_MAX_VCPUS then (Some EINVAL, arg, s)
      else case vcpu_load s of None \<Rightarrow> (Some ENOENT, arg, s) | Some s \<Rightarrow> f s)"

definition read_regs :: "kvm_regs \<Rightarrow> vm \<Rightarrow> kvm_regs" where
  "read_regs r s =
     (let g = regs (vcpu s);
          flags = vmcs_readl s GUEST_RFLAGS
      in r\<lparr>gr_rax := g 0, gr_rbx := g 3, gr_rcx := g 1, gr_rdx := g 2, gr_rsi := g 6, gr_rdi := g 7,
           gr_rsp := vmcs_readl s GUEST_RSP, gr_rbp := g 5,
           gr_r8 := g 8, gr_r9 := g 9, gr_r10 := g 10, gr_r11 := g 11,
           gr_r12 := g 12, gr_r13 := g 13, gr_r14 := g 14, gr_r15 := g 15,
           gr_rip := vmcs_readl s GUEST_RIP,
           gr_rflags := (if dbg_enabled (guest_debug (vcpu s)) \<and> dbg_singlestep (guest_debug (vcpu s))
             then flags AND NOT (X86_EFLAGS_TF OR X86_EFLAGS_RF) else flags)\<rparr>)"

definition write_regs :: "kvm_regs \<Rightarrow> vm \<Rightarrow> vm" where
  "write_regs r s =
     (let s = s\<lparr>vcpu := (vcpu s)\<lparr>regs := (regs (vcpu s))(0 := gr_rax r, 3 := gr_rbx r, 1 := gr_rcx r,
            2 := gr_rdx r, 6 := gr_rsi r, 7 := gr_rdi r, 5 := gr_rbp r, 8 := gr_r8 r, 9 := gr_r9 r,
            10 := gr_r10 r, 11 := gr_r11 r, 12 := gr_r12 r, 13 := gr_r13 r, 14 := gr_r14 r,
            15 := gr_r15 r)\<rparr>\<rparr>;
          s = vmcs_writel GUEST_RSP (gr_rsp r) s;
          s = vmcs_writel GUEST_RIP (gr_rip r) s
      in vmcs_writel GUEST_RFLAGS (gr_rflags r) s)"

definition kvm_dev_ioctl_get_regs :: "kvm_regs \<Rightarrow> vm \<Rightarrow> errno option \<times> kvm_regs \<times> vm" where
  "kvm_dev_ioctl_get_regs r = with_vcpu (gr_vcpu r) r (\<lambda>s. (None, read_regs r s, s))"

definition kvm_dev_ioctl_set_regs :: "kvm_regs \<Rightarrow> vm \<Rightarrow> errno option \<times> kvm_regs \<times> vm" where
  "kvm_dev_ioctl_set_regs r = with_vcpu (gr_vcpu r) r (\<lambda>s. (None, r, write_regs r s))"

section \<open>Segments and control registers\<close>

record kvm_segment =
  sg_base :: u64
  sg_limit :: u32
  sg_selector :: u16
  sg_type :: u8
  sg_present :: u8
  sg_dpl :: u8
  sg_db :: u8
  sg_s :: u8
  sg_l :: u8
  sg_g :: u8
  sg_avl :: u8
  sg_unusable :: u8

record kvm_dtable =
  dt_base :: u64
  dt_limit :: u16

record kvm_sregs =
  sr_vcpu :: u32
  sr_cs :: kvm_segment
  sr_ds :: kvm_segment
  sr_es :: kvm_segment
  sr_fs :: kvm_segment
  sr_gs :: kvm_segment
  sr_ss :: kvm_segment
  sr_tr :: kvm_segment
  sr_ldt :: kvm_segment
  sr_gdt :: kvm_dtable
  sr_idt :: kvm_dtable
  sr_cr0 :: u64
  sr_cr2 :: u64
  sr_cr3 :: u64
  sr_cr4 :: u64
  sr_cr8 :: u64
  sr_efer :: u64
  sr_apic_base :: u64
  sr_pending_int :: u32

text \<open>The four VMCS fields of a segment register, as the macros name them.\<close>

record seg_field =
  f_base :: nat
  f_limit :: nat
  f_selector :: nat
  f_ar :: nat

definition CS :: seg_field where
  "CS = \<lparr>f_base = GUEST_CS_BASE, f_limit = GUEST_CS_LIMIT, f_selector = GUEST_CS_SELECTOR, f_ar = GUEST_CS_AR_BYTES\<rparr>"
definition DS :: seg_field where
  "DS = \<lparr>f_base = GUEST_DS_BASE, f_limit = GUEST_DS_LIMIT, f_selector = GUEST_DS_SELECTOR, f_ar = GUEST_DS_AR_BYTES\<rparr>"
definition ES :: seg_field where
  "ES = \<lparr>f_base = GUEST_ES_BASE, f_limit = GUEST_ES_LIMIT, f_selector = GUEST_ES_SELECTOR, f_ar = GUEST_ES_AR_BYTES\<rparr>"
definition FS :: seg_field where
  "FS = \<lparr>f_base = GUEST_FS_BASE, f_limit = GUEST_FS_LIMIT, f_selector = GUEST_FS_SELECTOR, f_ar = GUEST_FS_AR_BYTES\<rparr>"
definition GS :: seg_field where
  "GS = \<lparr>f_base = GUEST_GS_BASE, f_limit = GUEST_GS_LIMIT, f_selector = GUEST_GS_SELECTOR, f_ar = GUEST_GS_AR_BYTES\<rparr>"
definition SS :: seg_field where
  "SS = \<lparr>f_base = GUEST_SS_BASE, f_limit = GUEST_SS_LIMIT, f_selector = GUEST_SS_SELECTOR, f_ar = GUEST_SS_AR_BYTES\<rparr>"
definition TR :: seg_field where
  "TR = \<lparr>f_base = GUEST_TR_BASE, f_limit = GUEST_TR_LIMIT, f_selector = GUEST_TR_SELECTOR, f_ar = GUEST_TR_AR_BYTES\<rparr>"
definition LDTR :: seg_field where
  "LDTR = \<lparr>f_base = GUEST_LDTR_BASE, f_limit = GUEST_LDTR_LIMIT, f_selector = GUEST_LDTR_SELECTOR, f_ar = GUEST_LDTR_AR_BYTES\<rparr>"

definition get_segment :: "seg_field \<Rightarrow> vm \<Rightarrow> kvm_segment" where
  "get_segment f s =
     (let ar = vmcs_read32 s (f_ar f);
          ar = (if ar AND AR_UNUSABLE_MASK \<noteq> 0 then 0 else ar)
      in \<lparr>sg_base = vmcs_readl s (f_base f), sg_limit = vmcs_read32 s (f_limit f),
          sg_selector = vmcs_read16 s (f_selector f), sg_type = ucast (ar AND 15),
          sg_present = ucast (drop_bit 7 ar AND 1), sg_dpl = ucast (drop_bit 5 ar AND 3),
          sg_db = ucast (drop_bit 14 ar AND 1), sg_s = ucast (drop_bit 4 ar AND 1),
          sg_l = ucast (drop_bit 13 ar AND 1), sg_g = ucast (drop_bit 15 ar AND 1),
          sg_avl = ucast (drop_bit 12 ar AND 1), sg_unusable = ucast (drop_bit 16 ar AND 1)\<rparr>)"

definition segment_ar :: "kvm_segment \<Rightarrow> u32" where
  "segment_ar g =
     (if sg_unusable g \<noteq> 0 then push_bit 16 1
      else ucast (sg_type g AND 15) OR push_bit 4 (ucast (sg_s g AND 1)) OR
           push_bit 5 (ucast (sg_dpl g AND 3)) OR push_bit 7 (ucast (sg_present g AND 1)) OR
           push_bit 12 (ucast (sg_avl g AND 1)) OR push_bit 13 (ucast (sg_l g AND 1)) OR
           push_bit 14 (ucast (sg_db g AND 1)) OR push_bit 15 (ucast (sg_g g AND 1)))"

definition set_segment :: "seg_field \<Rightarrow> kvm_segment \<Rightarrow> vm \<Rightarrow> vm" where
  "set_segment f g s =
     (let s = vmcs_writel (f_base f) (sg_base g) s;
          s = vmcs_write32 (f_limit f) (sg_limit g) s;
          s = vmcs_write16 (f_selector f) (sg_selector g) s
      in vmcs_write32 (f_ar f) (segment_ar g) s)"

definition get_dtable :: "nat \<Rightarrow> nat \<Rightarrow> vm \<Rightarrow> kvm_dtable" where
  "get_dtable base limit s = \<lparr>dt_base = vmcs_readl s base, dt_limit = ucast (vmcs_read32 s limit)\<rparr>"

definition set_dtable :: "nat \<Rightarrow> nat \<Rightarrow> kvm_dtable \<Rightarrow> vm \<Rightarrow> vm" where
  "set_dtable base limit d s = vmcs_writel base (dt_base d) (vmcs_write32 limit (ucast (dt_limit d)) s)"

definition read_sregs :: "kvm_sregs \<Rightarrow> vm \<Rightarrow> kvm_sregs" where
  "read_sregs r s =
     r\<lparr>sr_cs := get_segment CS s, sr_ds := get_segment DS s, sr_es := get_segment ES s,
       sr_fs := get_segment FS s, sr_gs := get_segment GS s, sr_ss := get_segment SS s,
       sr_tr := get_segment TR s, sr_ldt := get_segment LDTR s,
       sr_idt := get_dtable GUEST_IDTR_BASE GUEST_IDTR_LIMIT s,
       sr_gdt := get_dtable GUEST_GDTR_BASE GUEST_GDTR_LIMIT s,
       sr_cr0 := guest_cr0 s, sr_cr2 := cr2 (vcpu s), sr_cr3 := cr3 (vcpu s), sr_cr4 := guest_cr4 s,
       sr_cr8 := cr8 (vcpu s), sr_efer := shadow_efer (vcpu s), sr_apic_base := apic_base (vcpu s),
       sr_pending_int := (if irq_summary (vcpu s) \<noteq> 0 then 1 else 0)\<rparr>"

definition write_segments :: "kvm_sregs \<Rightarrow> vm \<Rightarrow> vm" where
  "write_segments r s =
     (let s = set_segment CS (sr_cs r) s; s = set_segment DS (sr_ds r) s;
          s = set_segment ES (sr_es r) s; s = set_segment FS (sr_fs r) s;
          s = set_segment GS (sr_gs r) s; s = set_segment SS (sr_ss r) s;
          s = set_segment TR (sr_tr r) s; s = set_segment LDTR (sr_ldt r) s;
          s = set_dtable GUEST_IDTR_BASE GUEST_IDTR_LIMIT (sr_idt r) s
      in set_dtable GUEST_GDTR_BASE GUEST_GDTR_LIMIT (sr_gdt r) s)"

definition write_sregs :: "kvm_sregs \<Rightarrow> vm \<Rightarrow> vm" where
  "write_sregs r s =
     (let s = write_segments r s;
          s = s\<lparr>vcpu := (vcpu s)\<lparr>cr2 := sr_cr2 r\<rparr>\<rparr>;
          reset = (cr3 (vcpu s) \<noteq> sr_cr3 r);
          s = s\<lparr>vcpu := (vcpu s)\<lparr>cr3 := sr_cr3 r, cr8 := sr_cr8 r\<rparr>\<rparr>;
          reset = (reset \<or> shadow_efer (vcpu s) \<noteq> sr_efer r);
          s = internal_set_efer (sr_efer r) s;
          s = s\<lparr>vcpu := (vcpu s)\<lparr>apic_base := sr_apic_base r\<rparr>\<rparr>;
          reset = (reset \<or> guest_cr0 s \<noteq> sr_cr0 r);
          s = set_rmode ((rmode (vcpu s))\<lparr>rmode_active := sr_cr0 r AND CR0_PE_MASK = 0\<rparr>) s;
          s = update_exception_bitmap s;
          s = vmcs_writel CR0_READ_SHADOW (sr_cr0 r) s;
          s = vmcs_writel GUEST_CR0 (sr_cr0 r OR KVM_VM_CR0_ALWAYS_ON) s;
          reset = (reset \<or> guest_cr4 s \<noteq> sr_cr4 r);
          s = internal_set_cr4 (sr_cr4 r) s
      in if reset then kvm_mmu_reset_context s else s)"

definition kvm_dev_ioctl_get_sregs :: "kvm_sregs \<Rightarrow> vm \<Rightarrow> errno option \<times> kvm_sregs \<times> vm" where
  "kvm_dev_ioctl_get_sregs r = with_vcpu (sr_vcpu r) r (\<lambda>s. (None, read_sregs r s, s))"

definition kvm_dev_ioctl_set_sregs :: "kvm_sregs \<Rightarrow> vm \<Rightarrow> errno option \<times> kvm_sregs \<times> vm" where
  "kvm_dev_ioctl_set_sregs r = with_vcpu (sr_vcpu r) r (\<lambda>s. (None, r, write_sregs r s))"

section \<open>Translation and debugging\<close>

text \<open>
  \<open>KVM_TRANSLATE\<close> does not check the slot: a slot that does not exist is an access outside the
  array of virtual cpus.
\<close>

record kvm_translation =
  tl_linear_address :: u64
  tl_vcpu :: u32
  tl_physical_address :: u64
  tl_valid :: bool
  tl_writeable :: bool
  tl_usermode :: bool

definition kvm_dev_ioctl_translate :: "kvm_translation \<Rightarrow> vm \<Rightarrow> errno option \<times> kvm_translation \<times> vm" where
  "kvm_dev_ioctl_translate tr s =
     (if unat (tl_vcpu tr) \<ge> KVM_MAX_VCPUS then (None, tr, s\<lparr>kernel_bug := True\<rparr>)
      else case vcpu_load s of
             None \<Rightarrow> (Some ENOENT, tr, s)
           | Some s \<Rightarrow>
               let gpa = mmu_gva_to_gpa s (tl_linear_address tr)
               in (None, tr\<lparr>tl_physical_address := gpa, tl_valid := gpa \<noteq> UNMAPPED_GVA,
                            tl_writeable := True, tl_usermode := False\<rparr>, s))"

record kvm_breakpoint =
  bp_enabled :: bool
  bp_address :: u64

record kvm_debug_guest =
  dg_vcpu :: u32
  dg_enabled :: bool
  dg_breakpoints :: "kvm_breakpoint list"
  dg_singlestep :: bool

text \<open>One round of the loop over the breakpoints: the addresses and DR7.\<close>

definition set_breakpoint :: "kvm_breakpoint list \<Rightarrow> nat \<Rightarrow> (nat \<Rightarrow> u64) \<times> u64 \<Rightarrow> (nat \<Rightarrow> u64) \<times> u64" where
  "set_breakpoint bps i bd =
     (let (bp, dr7) = bd
      in if \<not> bp_enabled (bps ! i) then (bp, dr7)
         else (bp(i := bp_address (bps ! i)),
               dr7 OR push_bit (i * 2) 2 OR push_bit (i * 4 + 16) 0))"

definition set_guest_debug :: "kvm_guest_debug \<Rightarrow> vm \<Rightarrow> vm" where
  "set_guest_debug d s = s\<lparr>vcpu := (vcpu s)\<lparr>guest_debug := d\<rparr>\<rparr>"

definition debug_guest_vcpu :: "kvm_debug_guest \<Rightarrow> vm \<Rightarrow> vm" where
  "debug_guest_vcpu dbg s =
     (let exception_bitmap = vmcs_read32 s EXCEPTION_BITMAP;
          old = guest_debug (vcpu s);
          (bp, dr7) =
            (if dg_enabled dbg
             then fold (set_breakpoint (dg_breakpoints dbg)) [0..<4] (dbg_bp old, 0x400 OR 0x200)
             else (dbg_bp old, 0x400));
          new = \<lparr>dbg_enabled = dg_enabled dbg, dbg_bp = bp,
                 dbg_singlestep = dg_enabled dbg \<and> dg_singlestep dbg\<rparr>;
          s = set_guest_debug new s;
          s = (if dbg_singlestep old \<and> \<not> dbg_singlestep new
               then vmcs_writel GUEST_RFLAGS (vmcs_readl s GUEST_RFLAGS AND
                      NOT (X86_EFLAGS_TF OR X86_EFLAGS_RF)) s
               else s);
          s = vmcs_write32 EXCEPTION_BITMAP
                (if dg_enabled dbg then exception_bitmap OR push_bit 1 1
                 else exception_bitmap AND NOT (push_bit 1 1)) s
      in vmcs_writel GUEST_DR7 dr7 s)"

definition kvm_dev_ioctl_debug_guest :: "kvm_debug_guest \<Rightarrow> vm \<Rightarrow> errno option \<times> kvm_debug_guest \<times> vm" where
  "kvm_dev_ioctl_debug_guest dbg = with_vcpu (dg_vcpu dbg) dbg (\<lambda>s. (None, dbg, debug_guest_vcpu dbg s))"

section \<open>What was set is read back\<close>

definition slot_exists :: "u32 \<Rightarrow> vm \<Rightarrow> bool" where
  "slot_exists slot s \<longleftrightarrow> unat slot < KVM_MAX_VCPUS \<and> vcpu_vmcs (vcpu s) \<noteq> None"

lemma with_vcpu_ok:
  "slot_exists slot s \<Longrightarrow> with_vcpu slot arg f s = f (internal_vcpu_load s)"
  by (auto simp: with_vcpu_def slot_exists_def vcpu_load_def)

lemma internal_vcpu_load_frame:
  "regs (vcpu (internal_vcpu_load s)) = regs (vcpu s)"
  "guest_debug (vcpu (internal_vcpu_load s)) = guest_debug (vcpu s)"
  "vcpu_vmcs (vcpu (internal_vcpu_load s)) = vcpu_vmcs (vcpu s)"
  "f \<notin> {HOST_TR_BASE, HOST_GDTR_BASE, HOST_IA32_SYSENTER_ESP} \<Longrightarrow>
     vmcs_readl (internal_vcpu_load s) f = vmcs_readl s f"
  by (auto simp: internal_vcpu_load_def Let_def vmcs_simps)

text \<open>
  The general registers that \<open>KVM_SET_REGS\<close> sets are the ones that \<open>KVM_GET_REGS\<close> returns,
  except that TF and RF are hidden while the guest is single-stepped.
\<close>

theorem regs_roundtrip:
  assumes "slot_exists (gr_vcpu r) s" "gr_vcpu r0 = gr_vcpu r"
    "kvm_dev_ioctl_set_regs r s = (e, r', t)"
  shows "fst (snd (kvm_dev_ioctl_get_regs r0 t)) =
    (if dbg_enabled (guest_debug (vcpu s)) \<and> dbg_singlestep (guest_debug (vcpu s))
     then r\<lparr>gr_rflags := gr_rflags r AND NOT (X86_EFLAGS_TF OR X86_EFLAGS_RF)\<rparr> else r)"
proof -
  have t: "t = write_regs r (internal_vcpu_load s)"
    using assms(3) by (auto simp: kvm_dev_ioctl_set_regs_def with_vcpu_ok [OF assms(1)])
  have v: "vcpu_vmcs (vcpu t) = vcpu_vmcs (vcpu s)" "guest_debug (vcpu t) = guest_debug (vcpu s)"
    by (simp_all add: t write_regs_def Let_def vmcs_simps internal_vcpu_load_frame)
  have "slot_exists (gr_vcpu r0) t" using assms(1,2) v by (simp add: slot_exists_def)
  then have "fst (snd (kvm_dev_ioctl_get_regs r0 t)) = read_regs r0 (internal_vcpu_load t)"
    by (simp add: kvm_dev_ioctl_get_regs_def with_vcpu_ok)
  also have "\<dots> = read_regs r0 t"
    by (simp add: read_regs_def internal_vcpu_load_frame)
  also have "\<dots> = (if dbg_enabled (guest_debug (vcpu s)) \<and> dbg_singlestep (guest_debug (vcpu s))
     then r\<lparr>gr_rflags := gr_rflags r AND NOT (X86_EFLAGS_TF OR X86_EFLAGS_RF)\<rparr> else r)"
    using assms(2) unfolding read_regs_def Let_def v(2)
    by (cases r; cases r0) (simp add: t write_regs_def Let_def vmcs_simps)
  finally show ?thesis .
qed

definition example_regs :: kvm_regs where
  "example_regs = \<lparr>gr_vcpu = 0, gr_rax = 1, gr_rbx = 2, gr_rcx = 3, gr_rdx = 4, gr_rsi = 5, gr_rdi = 6,
     gr_rsp = 0x7c00, gr_rbp = 8, gr_r8 = 9, gr_r9 = 10, gr_r10 = 11, gr_r11 = 12, gr_r12 = 13,
     gr_r13 = 14, gr_r14 = 15, gr_r15 = 16, gr_rip = 0xfff0, gr_rflags = 0x102\<rparr>"

definition example_vcpu :: vm where
  "example_vcpu = zero_vm\<lparr>vcpu := zero_vcpu\<lparr>vcpu_vmcs := Some 0x1000,
     guest_debug := \<lparr>dbg_enabled = True, dbg_bp = \<lambda>_. 0, dbg_singlestep = True\<rparr>\<rparr>\<rparr>"

lemma example_vcpu_slot: "slot_exists 0 example_vcpu"
  by (simp add: slot_exists_def example_vcpu_def KVM_MAX_VCPUS_def)

theorem regs_roundtrip_witness:
  "fst (snd (kvm_dev_ioctl_get_regs example_regs
     (snd (snd (kvm_dev_ioctl_set_regs example_regs example_vcpu))))) = example_regs\<lparr>gr_rflags := 2\<rparr>"
proof -
  obtain e r' t where x: "kvm_dev_ioctl_set_regs example_regs example_vcpu = (e, r', t)"
    by (cases "kvm_dev_ioctl_set_regs example_regs example_vcpu") auto
  have "(0x102 :: u64) AND NOT (X86_EFLAGS_TF OR X86_EFLAGS_RF) = 2"
    by code_simp
  then show ?thesis
    using regs_roundtrip [OF _ _ x, of example_regs] example_vcpu_slot x
    by (simp add: example_regs_def example_vcpu_def)
qed

section \<open>Segments\<close>

text \<open>
  What is left of a segment: the attributes that are wider than their field are cut, and those
  of an unusable segment are lost together with the mark, because the access rights are
  cleared before the mark is read.
\<close>

definition segment_readback :: "kvm_segment \<Rightarrow> kvm_segment" where
  "segment_readback g =
     (if sg_unusable g \<noteq> 0
      then g\<lparr>sg_type := 0, sg_present := 0, sg_dpl := 0, sg_db := 0, sg_s := 0, sg_l := 0, sg_g := 0,
             sg_avl := 0, sg_unusable := 0\<rparr>
      else g\<lparr>sg_type := sg_type g AND 15, sg_present := sg_present g AND 1, sg_dpl := sg_dpl g AND 3,
             sg_db := sg_db g AND 1, sg_s := sg_s g AND 1, sg_l := sg_l g AND 1, sg_g := sg_g g AND 1,
             sg_avl := sg_avl g AND 1\<rparr>)"

lemma bit_field:
  fixes b :: u8
  assumes "k + j \<le> 32"
  shows "bit (push_bit k (ucast (b AND mask j)) :: u32) n \<longleftrightarrow> k \<le> n \<and> n < k + j \<and> bit b (n - k)"
  using assms by (auto simp: bit_push_bit_iff bit_and_iff bit_mask_iff bit_simps dest: bit_imp_le_length)

lemma bit_segment_ar:
  assumes "sg_unusable g = 0"
  shows "bit (segment_ar g) n \<longleftrightarrow>
    0 \<le> n \<and> n < 0 + 4 \<and> bit (sg_type g) (n - 0) \<or> 4 \<le> n \<and> n < 4 + 1 \<and> bit (sg_s g) (n - 4) \<or>
    5 \<le> n \<and> n < 5 + 2 \<and> bit (sg_dpl g) (n - 5) \<or> 7 \<le> n \<and> n < 7 + 1 \<and> bit (sg_present g) (n - 7) \<or>
    12 \<le> n \<and> n < 12 + 1 \<and> bit (sg_avl g) (n - 12) \<or> 13 \<le> n \<and> n < 13 + 1 \<and> bit (sg_l g) (n - 13) \<or>
    14 \<le> n \<and> n < 14 + 1 \<and> bit (sg_db g) (n - 14) \<or> 15 \<le> n \<and> n < 15 + 1 \<and> bit (sg_g g) (n - 15)"
proof -
  have m: "(1 :: u8) = mask 1" "(3 :: u8) = mask 2" "(15 :: u8) = mask 4"
    by (simp_all add: mask_numeral)
  have le: "(0 :: nat) + 4 \<le> 32" "(4 :: nat) + 1 \<le> 32" "(5 :: nat) + 2 \<le> 32" "(7 :: nat) + 1 \<le> 32"
    "(12 :: nat) + 1 \<le> 32" "(13 :: nat) + 1 \<le> 32" "(14 :: nat) + 1 \<le> 32" "(15 :: nat) + 1 \<le> 32"
    by simp_all
  have u: "(sg_unusable g \<noteq> 0) = False" using assms by simp
  have t: "ucast (sg_type g AND mask 4) = (push_bit 0 (ucast (sg_type g AND mask 4)) :: u32)" by simp
  show ?thesis
    unfolding segment_ar_def m u if_False
    by (subst t) (simp only: bit_or_iff le [THEN bit_field] disj_assoc)
qed

lemma field_extract:
  fixes ar :: u32 and b :: u8
  assumes "\<And>n. n < j \<Longrightarrow> bit ar (k + n) \<longleftrightarrow> bit b n" "k + j \<le> 32" "j \<le> 8"
  shows "ucast (drop_bit k ar AND mask j) = b AND mask j"
proof (rule bit_word_eqI)
  fix n assume "n < LENGTH(8)"
  then show "bit (ucast (drop_bit k ar AND mask j) :: u8) n \<longleftrightarrow> bit (b AND mask j) n"
    using assms by (cases "n < j") (auto simp: bit_simps)
qed

lemma segment_ar_fields:
  assumes "sg_unusable g = 0"
  shows "\<not> bit (segment_ar g) 16"
    "ucast (drop_bit 0 (segment_ar g) AND mask 4) = sg_type g AND mask 4"
    "ucast (drop_bit 4 (segment_ar g) AND mask 1) = sg_s g AND mask 1"
    "ucast (drop_bit 5 (segment_ar g) AND mask 2) = sg_dpl g AND mask 2"
    "ucast (drop_bit 7 (segment_ar g) AND mask 1) = sg_present g AND mask 1"
    "ucast (drop_bit 12 (segment_ar g) AND mask 1) = sg_avl g AND mask 1"
    "ucast (drop_bit 13 (segment_ar g) AND mask 1) = sg_l g AND mask 1"
    "ucast (drop_bit 14 (segment_ar g) AND mask 1) = sg_db g AND mask 1"
    "ucast (drop_bit 15 (segment_ar g) AND mask 1) = sg_g g AND mask 1"
    "ucast (drop_bit 16 (segment_ar g) AND mask 1) = (0 :: u8)"
proof -
  note b = bit_segment_ar [OF assms]
  show "\<not> bit (segment_ar g) 16" by (simp add: b)
  show "ucast (drop_bit 16 (segment_ar g) AND mask 1) = (0 :: u8)"
    by (rule bit_word_eqI) (simp add: bit_simps b)
qed (rule field_extract; simp add: bit_segment_ar [OF assms])+

lemma get_set_segment:
  assumes "distinct [f_base f, f_limit f, f_selector f, f_ar f]"
  shows "get_segment f (set_segment f g s) = segment_readback g"
proof -
  have r: "vmcs_read32 (set_segment f g s) (f_ar f) = segment_ar g"
    "vmcs_readl (set_segment f g s) (f_base f) = sg_base g"
    "vmcs_read32 (set_segment f g s) (f_limit f) = sg_limit g"
    "vmcs_read16 (set_segment f g s) (f_selector f) = sg_selector g"
    using assms by (simp_all add: set_segment_def Let_def vmcs_simps)
  show ?thesis
  proof (cases "sg_unusable g = 0")
    case True
    have m: "(3 :: 'a :: len word) = mask 2" "(15 :: 'a word) = mask 4"
      by (simp_all add: mask_numeral)
    show ?thesis
      using segment_ar_fields [OF True] True
      unfolding get_segment_def r segment_readback_def Let_def m
      by (intro kvm_segment.equality) simp_all
  next
    case False
    then have "segment_ar g = push_bit 16 1" by (simp add: segment_ar_def)
    then show ?thesis
      using False unfolding get_segment_def r segment_readback_def Let_def
      by (intro kvm_segment.equality) (simp_all add: bit_push_bit_iff)
  qed
qed

lemma get_segment_cong:
  assumes "\<And>n. n \<in> {f_base f, f_limit f, f_selector f, f_ar f} \<Longrightarrow> vmcs_readl t n = vmcs_readl s n"
  shows "get_segment f t = get_segment f s"
  using assms by (simp add: get_segment_def vmcs_read32_def vmcs_read16_def)

lemma set_segment_readl:
  "n \<notin> {f_base f, f_limit f, f_selector f, f_ar f} \<Longrightarrow> vmcs_readl (set_segment f g s) n = vmcs_readl s n"
  by (simp add: set_segment_def Let_def vmcs_simps)

lemma set_dtable_readl:
  "n \<notin> {base, limit} \<Longrightarrow> vmcs_readl (set_dtable base limit d s) n = vmcs_readl s n"
  by (simp add: set_dtable_def vmcs_simps)

lemmas segment_names = CS_def DS_def ES_def FS_def GS_def SS_def TR_def LDTR_def

lemma get_set_other:
  assumes "{f_base f, f_limit f, f_selector f, f_ar f} \<inter> {f_base f', f_limit f', f_selector f', f_ar f'} = {}"
  shows "get_segment f (set_segment f' g s) = get_segment f s"
  by (rule get_segment_cong) (use assms in \<open>auto intro!: set_segment_readl\<close>)

lemma get_segment_dtable:
  assumes "{f_base f, f_limit f, f_selector f, f_ar f} \<inter> {base, limit} = {}"
  shows "get_segment f (set_dtable base limit d s) = get_segment f s"
  by (rule get_segment_cong) (use assms in \<open>auto intro!: set_dtable_readl\<close>)

lemma get_dtable_set:
  assumes "base \<noteq> limit"
  shows "get_dtable base limit (set_dtable base limit d s) = d"
proof -
  have "ucast (ucast l :: u32) = (l :: u16)" for l by (rule bit_word_eqI) (simp add: bit_simps)
  then show ?thesis using assms by (cases d) (simp add: get_dtable_def set_dtable_def vmcs_simps)
qed

lemma get_dtable_cong:
  assumes "vmcs_readl t base = vmcs_readl s base" "vmcs_readl t limit = vmcs_readl s limit"
  shows "get_dtable base limit t = get_dtable base limit s"
  using assms by (simp add: get_dtable_def vmcs_read32_def)

lemma write_segments_read:
  "get_segment CS (write_segments r s) = segment_readback (sr_cs r)"
  "get_segment DS (write_segments r s) = segment_readback (sr_ds r)"
  "get_segment ES (write_segments r s) = segment_readback (sr_es r)"
  "get_segment FS (write_segments r s) = segment_readback (sr_fs r)"
  "get_segment GS (write_segments r s) = segment_readback (sr_gs r)"
  "get_segment SS (write_segments r s) = segment_readback (sr_ss r)"
  "get_segment TR (write_segments r s) = segment_readback (sr_tr r)"
  "get_segment LDTR (write_segments r s) = segment_readback (sr_ldt r)"
  "get_dtable GUEST_IDTR_BASE GUEST_IDTR_LIMIT (write_segments r s) = sr_idt r"
  "get_dtable GUEST_GDTR_BASE GUEST_GDTR_LIMIT (write_segments r s) = sr_gdt r"
proof -
  note d = write_segments_def Let_def get_segment_dtable get_set_other get_set_segment segment_names
  show "get_segment CS (write_segments r s) = segment_readback (sr_cs r)"
    "get_segment DS (write_segments r s) = segment_readback (sr_ds r)"
    "get_segment ES (write_segments r s) = segment_readback (sr_es r)"
    "get_segment FS (write_segments r s) = segment_readback (sr_fs r)"
    "get_segment GS (write_segments r s) = segment_readback (sr_gs r)"
    "get_segment SS (write_segments r s) = segment_readback (sr_ss r)"
    "get_segment TR (write_segments r s) = segment_readback (sr_tr r)"
    "get_segment LDTR (write_segments r s) = segment_readback (sr_ldt r)"
    by (simp_all add: d)
  show "get_dtable GUEST_IDTR_BASE GUEST_IDTR_LIMIT (write_segments r s) = sr_idt r"
    unfolding write_segments_def Let_def
    by (subst get_dtable_cong [OF set_dtable_readl set_dtable_readl]) (simp_all add: get_dtable_set)
  show "get_dtable GUEST_GDTR_BASE GUEST_GDTR_LIMIT (write_segments r s) = sr_gdt r"
    unfolding write_segments_def Let_def by (simp add: get_dtable_set)
qed

lemma vcpu_sregs_segments [simp]:
  "vcpu (set_segment f g s) = vcpu s" "vcpu (set_dtable b l d s) = vcpu s"
  "vcpu (write_segments r s) = vcpu s"
  by (simp_all add: set_segment_def set_dtable_def write_segments_def Let_def vmcs_simps)

text \<open>The state before the shadow page tables are built again, if they are.\<close>

definition sregs_state :: "kvm_sregs \<Rightarrow> vm \<Rightarrow> vm" where
  "sregs_state r s = internal_set_cr4 (sr_cr4 r) (vmcs_writel GUEST_CR0 (sr_cr0 r OR KVM_VM_CR0_ALWAYS_ON)
     (vmcs_writel CR0_READ_SHADOW (sr_cr0 r) (update_exception_bitmap
       (let s = write_segments r s;
            s = s\<lparr>vcpu := (vcpu s)\<lparr>cr2 := sr_cr2 r, cr3 := sr_cr3 r, cr8 := sr_cr8 r\<rparr>\<rparr>;
            s = internal_set_efer (sr_efer r) s;
            s = s\<lparr>vcpu := (vcpu s)\<lparr>apic_base := sr_apic_base r\<rparr>\<rparr>
        in set_rmode ((rmode (vcpu s))\<lparr>rmode_active := sr_cr0 r AND CR0_PE_MASK = 0\<rparr>) s))))"

lemma write_sregs_view: "cpu_view (write_sregs r s) = cpu_view (sregs_state r s)"
  unfolding write_sregs_def sregs_state_def Let_def by simp

lemma vmcs_read_bug [vmcs_simps]:
  "vmcs_readl (kernel_bug_update b s) f = vmcs_readl s f"
  "vmcs_read32 (kernel_bug_update b s) f = vmcs_read32 s f"
  by (simp_all add: vmcs_readl_def vmcs_read32_def)

lemma internal_set_efer_frame:
  "f \<noteq> VM_ENTRY_CONTROLS \<Longrightarrow> vmcs_readl (internal_set_efer e s) f = vmcs_readl s f"
  "shadow_efer (vcpu (internal_set_efer e s)) = e" "cr2 (vcpu (internal_set_efer e s)) = cr2 (vcpu s)"
  "cr3 (vcpu (internal_set_efer e s)) = cr3 (vcpu s)" "cr8 (vcpu (internal_set_efer e s)) = cr8 (vcpu s)"
  "irq_summary (vcpu (internal_set_efer e s)) = irq_summary (vcpu s)"
  by (simp_all add: internal_set_efer_def update_msr_def set_shadow_efer_def Let_def vmcs_simps
      split: option.split)

lemma sregs_state_reads:
  "f \<notin> {CR0_READ_SHADOW, GUEST_CR0, CR4_READ_SHADOW, GUEST_CR4, EXCEPTION_BITMAP, VM_ENTRY_CONTROLS} \<Longrightarrow>
     vmcs_readl (sregs_state r s) f = vmcs_readl (write_segments r s) f"
  "vmcs_read32 (sregs_state r s) EXCEPTION_BITMAP =
     (if sr_cr0 r AND CR0_PE_MASK = 0 then NOT 0 else push_bit (unat PF_VECTOR) 1)"
  "guest_cr0 (sregs_state r s) = sr_cr0 r" "guest_cr4 (sregs_state r s) = sr_cr4 r"
  "cr2 (vcpu (sregs_state r s)) = sr_cr2 r" "cr3 (vcpu (sregs_state r s)) = sr_cr3 r"
  "cr8 (vcpu (sregs_state r s)) = sr_cr8 r" "shadow_efer (vcpu (sregs_state r s)) = sr_efer r"
  "apic_base (vcpu (sregs_state r s)) = sr_apic_base r"
  "irq_summary (vcpu (sregs_state r s)) = irq_summary (vcpu s)"
proof -
  note d = sregs_state_def update_exception_bitmap_def set_rmode_def Let_def vmcs_simps
    internal_set_efer_frame
  show "guest_cr4 (sregs_state r s) = sr_cr4 r" by (simp add: sregs_state_def internal_set_cr4_reads)
  show "guest_cr0 (sregs_state r s) = sr_cr0 r"
    unfolding sregs_state_def internal_set_cr4_reads
    by (rule bit_word_eqI) (auto simp: bit_guest_cr0 vmcs_simps bit_or_iff mask_bits)
qed (simp_all add: internal_set_cr4_def sregs_state_def update_exception_bitmap_def set_rmode_def
    Let_def vmcs_simps internal_set_efer_frame)

lemma read_sregs_view:
  assumes "cpu_view t = cpu_view s"
  shows "read_sregs r t = read_sregs r s"
  using cpu_viewD [OF assms] by (simp add: read_sregs_def get_segment_def get_dtable_def guest_cr0_def
      guest_cr4_def segment_names)

lemma read_write_sregs:
  "read_sregs r0 (write_sregs r s) = r\<lparr>sr_vcpu := sr_vcpu r0, sr_cs := segment_readback (sr_cs r),
     sr_ds := segment_readback (sr_ds r), sr_es := segment_readback (sr_es r),
     sr_fs := segment_readback (sr_fs r), sr_gs := segment_readback (sr_gs r),
     sr_ss := segment_readback (sr_ss r), sr_tr := segment_readback (sr_tr r),
     sr_ldt := segment_readback (sr_ldt r),
     sr_pending_int := (if irq_summary (vcpu s) \<noteq> 0 then 1 else 0)\<rparr>"
proof -
  have g: "get_segment f (sregs_state r s) = get_segment f (write_segments r s)"
    if "f \<in> {CS, DS, ES, FS, GS, SS, TR, LDTR}" for f
    by (rule get_segment_cong) (use that in \<open>auto intro!: sregs_state_reads(1) simp: segment_names\<close>)
  have t: "get_dtable b l (sregs_state r s) = get_dtable b l (write_segments r s)"
    if "(b, l) \<in> {(GUEST_IDTR_BASE, GUEST_IDTR_LIMIT), (GUEST_GDTR_BASE, GUEST_GDTR_LIMIT)}" for b l
    by (rule get_dtable_cong) (use that in \<open>auto intro!: sregs_state_reads(1)\<close>)
  show ?thesis
    unfolding read_sregs_view [OF write_sregs_view]
    by (intro kvm_sregs.equality) (simp_all add: read_sregs_def g t write_segments_read sregs_state_reads)
qed

lemma vcpu_vmcs_view: "cpu_view t = cpu_view s \<Longrightarrow> vcpu_vmcs (vcpu t) = vcpu_vmcs (vcpu s)"
  by (cases "vcpu t"; cases "vcpu s"; simp add: cpu_view_def)

lemma vcpu_vmcs_sregs_state [simp]: "vcpu_vmcs (vcpu (sregs_state r s)) = vcpu_vmcs (vcpu s)"
  by (simp add: sregs_state_def internal_set_cr4_def update_exception_bitmap_def set_rmode_def Let_def
      vmcs_simps internal_set_efer_def update_msr_def set_shadow_efer_def split: option.split)

lemma read_sregs_load: "read_sregs r (internal_vcpu_load s) = read_sregs r s"
proof -
  have v: "cr2 (vcpu (internal_vcpu_load s)) = cr2 (vcpu s)" "cr3 (vcpu (internal_vcpu_load s)) = cr3 (vcpu s)"
    "cr8 (vcpu (internal_vcpu_load s)) = cr8 (vcpu s)"
    "shadow_efer (vcpu (internal_vcpu_load s)) = shadow_efer (vcpu s)"
    "apic_base (vcpu (internal_vcpu_load s)) = apic_base (vcpu s)"
    "irq_summary (vcpu (internal_vcpu_load s)) = irq_summary (vcpu s)"
    by (simp_all add: internal_vcpu_load_def Let_def vmcs_simps)
  have g: "get_segment f (internal_vcpu_load s) = get_segment f s"
    if "f \<in> {CS, DS, ES, FS, GS, SS, TR, LDTR}" for f
    by (rule get_segment_cong) (use that in \<open>auto intro!: internal_vcpu_load_frame(4) simp: segment_names\<close>)
  show ?thesis
    by (simp add: read_sregs_def g v get_dtable_def guest_cr0_def guest_cr4_def vmcs_read32_def
        internal_vcpu_load_frame)
qed

text \<open>
  C36: the segment, descriptor table and control registers that \<open>KVM_SET_SREGS\<close> sets are the ones
  that \<open>KVM_GET_SREGS\<close> returns, whatever the mode they describe and whether or not the shadow
  page tables are built again; only a segment marked unusable comes back usable, with all its
  attributes 0.
\<close>

theorem sregs_roundtrip:
  assumes "slot_exists (sr_vcpu r) s" "sr_vcpu r0 = sr_vcpu r"
    "kvm_dev_ioctl_set_sregs r s = (e, r', t)"
  shows "fst (snd (kvm_dev_ioctl_get_sregs r0 t)) =
    r\<lparr>sr_cs := segment_readback (sr_cs r), sr_ds := segment_readback (sr_ds r),
      sr_es := segment_readback (sr_es r), sr_fs := segment_readback (sr_fs r),
      sr_gs := segment_readback (sr_gs r), sr_ss := segment_readback (sr_ss r),
      sr_tr := segment_readback (sr_tr r), sr_ldt := segment_readback (sr_ldt r),
      sr_pending_int := (if irq_summary (vcpu s) \<noteq> 0 then 1 else 0)\<rparr>"
proof -
  have t: "t = write_sregs r (internal_vcpu_load s)"
    using assms(3) by (auto simp: kvm_dev_ioctl_set_sregs_def with_vcpu_ok [OF assms(1)])
  have "vcpu_vmcs (vcpu t) = vcpu_vmcs (vcpu s)"
    unfolding t vcpu_vmcs_view [OF write_sregs_view] by (simp add: internal_vcpu_load_frame)
  then have "slot_exists (sr_vcpu r0) t" using assms(1,2) by (simp add: slot_exists_def)
  then have "fst (snd (kvm_dev_ioctl_get_sregs r0 t)) = read_sregs r0 t"
    by (simp add: kvm_dev_ioctl_get_sregs_def with_vcpu_ok read_sregs_load)
  moreover have "irq_summary (vcpu (internal_vcpu_load s)) = irq_summary (vcpu s)"
    by (simp add: internal_vcpu_load_def Let_def vmcs_simps)
  ultimately show ?thesis
    unfolding t by (simp add: read_write_sregs assms(2))
qed

definition flat_segment :: "u8 \<Rightarrow> kvm_segment" where
  "flat_segment ty = \<lparr>sg_base = 0, sg_limit = 0xffffffff, sg_selector = 8, sg_type = ty, sg_present = 1,
     sg_dpl = 0, sg_db = 1, sg_s = 1, sg_l = 0, sg_g = 1, sg_avl = 0, sg_unusable = 0\<rparr>"

definition example_sregs :: kvm_sregs where
  "example_sregs = \<lparr>sr_vcpu = 0, sr_cs = flat_segment 11, sr_ds = flat_segment 3, sr_es = flat_segment 3,
     sr_fs = flat_segment 3, sr_gs = flat_segment 3, sr_ss = flat_segment 3,
     sr_tr = (flat_segment 11)\<lparr>sg_s := 0\<rparr>, sr_ldt = (flat_segment 2)\<lparr>sg_s := 0, sg_unusable := 1\<rparr>,
     sr_gdt = \<lparr>dt_base = 0x2000, dt_limit = 0x2f\<rparr>, sr_idt = \<lparr>dt_base = 0x3000, dt_limit = 0x7ff\<rparr>,
     sr_cr0 = 0x31, sr_cr2 = 7, sr_cr3 = 0x9000, sr_cr4 = 0, sr_cr8 = 0, sr_efer = 0,
     sr_apic_base = 0xfee00900, sr_pending_int = 0\<rparr>"

theorem sregs_roundtrip_witness:
  "fst (snd (kvm_dev_ioctl_get_sregs example_sregs
     (snd (snd (kvm_dev_ioctl_set_sregs example_sregs example_vcpu))))) =
   example_sregs\<lparr>sr_ldt := (flat_segment 0)\<lparr>sg_present := 0, sg_db := 0, sg_s := 0, sg_g := 0\<rparr>\<rparr>"
proof -
  obtain e r' t where x: "kvm_dev_ioctl_set_sregs example_sregs example_vcpu = (e, r', t)"
    by (cases "kvm_dev_ioctl_set_sregs example_sregs example_vcpu") auto
  have "segment_readback (flat_segment n) = flat_segment n" if "n AND 15 = n" for n
    using that by (simp add: segment_readback_def flat_segment_def)
  moreover have "segment_readback ((flat_segment 11)\<lparr>sg_s := 0\<rparr>) = (flat_segment 11)\<lparr>sg_s := 0\<rparr>"
    by (simp add: segment_readback_def flat_segment_def)
  moreover have "segment_readback ((flat_segment 2)\<lparr>sg_s := 0, sg_unusable := 1\<rparr>) =
      (flat_segment 0)\<lparr>sg_present := 0, sg_db := 0, sg_s := 0, sg_g := 0\<rparr>"
    by (simp add: segment_readback_def flat_segment_def)
  moreover have "irq_summary (vcpu example_vcpu) = 0" by (simp add: example_vcpu_def zero_vcpu_def)
  ultimately show ?thesis
    using sregs_roundtrip [OF _ _ x, of example_sregs] example_vcpu_slot x
    by (simp add: example_sregs_def)
qed

section \<open>Debugging\<close>

lemma set_breakpoint_sel:
  "fst (set_breakpoint bps n bd) =
     (if bp_enabled (bps ! n) then (fst bd)(n := bp_address (bps ! n)) else fst bd)"
  "snd (set_breakpoint bps n bd) = (if bp_enabled (bps ! n) then snd bd OR push_bit (n * 2) 2 else snd bd)"
  by (simp_all add: set_breakpoint_def split_beta)

lemma fold_breakpoints:
  "\<forall>k. fst (fold (set_breakpoint bps) [0..<n] bd) k =
      (if k < n \<and> bp_enabled (bps ! k) then bp_address (bps ! k) else fst bd k)"
  "\<forall>k < 64. bit (snd (fold (set_breakpoint bps) [0..<n] bd)) k \<longleftrightarrow>
      bit (snd bd) k \<or> (\<exists>i < n. bp_enabled (bps ! i) \<and> k = 2 * i + 1)"
proof (induction n)
  case (Suc n)
  let ?f = "fold (set_breakpoint bps) [0..<n] bd"
  have step: "fold (set_breakpoint bps) [0..<Suc n] bd = set_breakpoint bps n ?f" by simp
  have two: "(push_bit (n * 2) 2 :: u64) = push_bit (2 * n + 1) 1"
    by (simp add: push_bit_eq_mult mult.commute)
  have b: "bit (push_bit (n * 2) 2 :: u64) k \<longleftrightarrow> k = 2 * n + 1" if "k < 64" for k
    unfolding two using that by (auto simp only: bit_push_bit_iff bit_1_iff) auto
  { case 1
    show ?case using Suc.IH(1) unfolding step
      by (auto simp: set_breakpoint_sel less_Suc_eq)
  next
    case 2
    have IH: "bit (snd ?f) k \<longleftrightarrow> bit (snd bd) k \<or> (\<exists>i < n. bp_enabled (bps ! i) \<and> k = 2 * i + 1)"
      if "k < 64" for k using Suc.IH(2) that by blast
    show ?case
    proof (intro allI impI)
      fix k :: nat assume k: "k < 64"
      show "bit (snd (fold (set_breakpoint bps) [0..<Suc n] bd)) k \<longleftrightarrow>
          bit (snd bd) k \<or> (\<exists>i < Suc n. bp_enabled (bps ! i) \<and> k = 2 * i + 1)"
        unfolding step using IH [OF k] b [OF k]
        by (auto simp: set_breakpoint_sel less_Suc_eq bit_or_iff)
    qed }
qed simp_all

text \<open>
  After \<open>KVM_DEBUG_GUEST\<close> the processor traps exactly the requested breakpoints: DR7 has the
  global enable bit of a breakpoint iff debugging and this breakpoint are enabled, the next
  entry puts its address in its debug register, and debug exceptions exit to the host iff
  debugging is enabled. Single-stepping that is switched off leaves neither TF nor RF.
\<close>

theorem debug_guest_effect:
  assumes "slot_exists (dg_vcpu dbg) s" "kvm_dev_ioctl_debug_guest dbg s = (e, d, t)" "i < 4"
  shows "(bit (vmcs_readl t GUEST_DR7) (2 * i + 1) \<longleftrightarrow> dg_enabled dbg \<and> bp_enabled (dg_breakpoints dbg ! i)) \<and>
    (dg_enabled dbg \<and> bp_enabled (dg_breakpoints dbg ! i) \<longrightarrow>
       h_dr (host (kvm_guest_debug_pre t)) i = bp_address (dg_breakpoints dbg ! i)) \<and>
    (bit (vmcs_read32 t EXCEPTION_BITMAP) 1 \<longleftrightarrow> dg_enabled dbg) \<and>
    (dbg_singlestep (guest_debug (vcpu s)) \<and> \<not> (dg_enabled dbg \<and> dg_singlestep dbg) \<longrightarrow>
       vmcs_readl t GUEST_RFLAGS = vmcs_readl s GUEST_RFLAGS AND NOT (X86_EFLAGS_TF OR X86_EFLAGS_RF))"
proof -
  let ?bp = "dg_breakpoints dbg" and ?s = "internal_vcpu_load s"
  have t: "t = debug_guest_vcpu dbg ?s"
    using assms(2) by (auto simp: kvm_dev_ioctl_debug_guest_def with_vcpu_ok [OF assms(1)])
  have i: "2 * i + 1 < 64" "2 * i + 1 < 9" using assms(3) by auto
  have h: "\<not> bit (0x600 :: u64) n" if "n < 9" for n
  proof -
    have "(0x600 :: u64) = push_bit 9 3" by simp
    then show ?thesis using that by (simp only: bit_push_bit_iff) simp
  qed
  have h': "\<not> bit (0x400 :: u64) n" if "n < 9" for n
  proof -
    have "(0x400 :: u64) = push_bit 10 1" by simp
    then show ?thesis using that by (simp only: bit_push_bit_iff) simp
  qed
  note f = fold_breakpoints [of ?bp 4]
  note d = t debug_guest_vcpu_def Let_def set_guest_debug_def vmcs_simps internal_vcpu_load_frame
    kvm_guest_debug_pre_def split_beta
  have 1: "bit (vmcs_readl t GUEST_DR7) (2 * i + 1) \<longleftrightarrow> dg_enabled dbg \<and> bp_enabled (?bp ! i)"
    using f(2) [rule_format, OF i(1)] assms(3) h [OF i(2)] h' [OF i(2)]
    by (cases "dg_enabled dbg") (auto simp: d)
  have 2: "dg_enabled dbg \<and> bp_enabled (?bp ! i) \<longrightarrow>
      h_dr (host (kvm_guest_debug_pre t)) i = bp_address (?bp ! i)"
  proof (intro impI)
    assume en: "dg_enabled dbg \<and> bp_enabled (?bp ! i)"
    have g: "h_dr (host (kvm_guest_debug_pre t)) i = dbg_bp (guest_debug (vcpu t)) i"
    proof -
      have "i = 0 \<or> i = 1 \<or> i = 2 \<or> i = 3" using assms(3) by auto
      then show ?thesis by (elim disjE) (simp_all add: kvm_guest_debug_pre_def Let_def vmcs_simps)
    qed
    have "dbg_bp (guest_debug (vcpu t)) i = bp_address (?bp ! i)"
      using f(1) assms(3) en by (simp add: d)
    with g show "h_dr (host (kvm_guest_debug_pre t)) i = bp_address (?bp ! i)" by simp
  qed
  have 3: "bit (vmcs_read32 t EXCEPTION_BITMAP) 1 \<longleftrightarrow> dg_enabled dbg"
    by (cases "dg_enabled dbg") (simp_all add: d bit_or_iff bit_and_iff bit_not_iff)
  have 4: "dbg_singlestep (guest_debug (vcpu s)) \<and> \<not> (dg_enabled dbg \<and> dg_singlestep dbg) \<longrightarrow>
      vmcs_readl t GUEST_RFLAGS = vmcs_readl s GUEST_RFLAGS AND NOT (X86_EFLAGS_TF OR X86_EFLAGS_RF)"
    by (auto simp: d)
  show ?thesis using 1 2 3 4 by blast
qed

definition example_debug :: kvm_debug_guest where
  "example_debug = \<lparr>dg_vcpu = 0, dg_enabled = True,
     dg_breakpoints = [\<lparr>bp_enabled = False, bp_address = 0\<rparr>, \<lparr>bp_enabled = True, bp_address = 0x1234\<rparr>,
       \<lparr>bp_enabled = False, bp_address = 0\<rparr>, \<lparr>bp_enabled = False, bp_address = 0\<rparr>],
     dg_singlestep = False\<rparr>"

theorem debug_guest_effect_witness:
  "let t = snd (snd (kvm_dev_ioctl_debug_guest example_debug example_vcpu)) in
    bit (vmcs_readl t GUEST_DR7) 3 \<and> h_dr (host (kvm_guest_debug_pre t)) 1 = 0x1234 \<and>
    bit (vmcs_read32 t EXCEPTION_BITMAP) 1"
proof -
  obtain e d t where x: "kvm_dev_ioctl_debug_guest example_debug example_vcpu = (e, d, t)"
    by (cases "kvm_dev_ioctl_debug_guest example_debug example_vcpu") auto
  show ?thesis
    using debug_guest_effect [OF _ x, of 1] example_vcpu_slot unfolding x
    by (simp add: example_debug_def)
qed

text \<open>
  \<open>KVM_SET_SREGS\<close> undoes a part of \<open>KVM_DEBUG_GUEST\<close>: the exception bitmap is computed from the
  mode alone, so a guest that is set to protected mode no longer exits on debug exceptions,
  although debugging stays enabled.
\<close>

theorem set_sregs_drops_debug_trap:
  assumes "slot_exists (sr_vcpu r) s" "sr_cr0 r AND CR0_PE_MASK \<noteq> 0" "kvm_dev_ioctl_set_sregs r s = (e, r', t)"
  shows "\<not> bit (vmcs_read32 t EXCEPTION_BITMAP) 1"
proof -
  have "t = write_sregs r (internal_vcpu_load s)"
    using assms(3) by (auto simp: kvm_dev_ioctl_set_sregs_def with_vcpu_ok [OF assms(1)])
  then have "vmcs_read32 t EXCEPTION_BITMAP = push_bit (unat PF_VECTOR) 1"
    using cpu_viewD(3) [OF write_sregs_view, of EXCEPTION_BITMAP r "internal_vcpu_load s"] assms(2)
    by (simp add: sregs_state_reads)
  moreover have "\<not> bit (push_bit (unat PF_VECTOR) 1 :: u32) 1"
    by (simp add: PF_VECTOR_def)
  ultimately show ?thesis by simp
qed

theorem set_sregs_drops_debug_trap_witness:
  "\<not> bit (vmcs_read32 (snd (snd (kvm_dev_ioctl_set_sregs example_sregs
      (snd (snd (kvm_dev_ioctl_debug_guest example_debug example_vcpu)))))) EXCEPTION_BITMAP) 1"
proof -
  let ?s = "snd (snd (kvm_dev_ioctl_debug_guest example_debug example_vcpu))"
  obtain e r' t where x: "kvm_dev_ioctl_set_sregs example_sregs ?s = (e, r', t)"
    by (cases "kvm_dev_ioctl_set_sregs example_sregs ?s") auto
  have "slot_exists 0 ?s"
    using example_vcpu_slot
    by (simp add: slot_exists_def kvm_dev_ioctl_debug_guest_def with_vcpu_ok example_debug_def
        debug_guest_vcpu_def set_guest_debug_def Let_def split_beta vmcs_simps internal_vcpu_load_frame)
  moreover have "sr_cr0 example_sregs AND CR0_PE_MASK \<noteq> 0"
    by (simp add: example_sregs_def CR0_PE_MASK_def)
  ultimately show ?thesis
    using set_sregs_drops_debug_trap [OF _ _ x] x by (simp add: example_sregs_def)
qed

end
