(* ===== verification/Memslot_Race.thy ===== *)
theory Memslot_Race
  imports Memslots
begin

text \<open>
  The memory-region ioctl drops the vm's lock while it allocates, and relies on
  \<open>memory_config_version\<close> and \<open>busy\<close> to notice that the slots changed meanwhile. Here any number
  of threads run \<open>KVM_SET_MEMORY_REGION\<close> and \<open>KVM_GET_DIRTY_LOG\<close> at once, as a step relation in
  which each section under the lock is one step; \<open>environment\<close> stands for all other code, which
  leaves the slots alone. The invariant: the slots stay disjoint whatever the interleaving, as
  long as the 32-bit version has not wrapped around, and no commit happens while a dirty log
  is read.
\<close>

section \<open>Threads\<close>

text \<open>\<open>at\<close> is the number of commits there had been when the thread took its version.\<close>

datatype phase =
    Idle
  | Start kvm_memory_region
  | Prepared kvm_memory_region kvm_memory_slot kvm_memory_slot u32 nat
  | Allocated kvm_memory_region kvm_memory_slot kvm_memory_slot u32 nat
  | Cleanup kvm_memory_slot kvm_memory_slot
  | Logging "nat \<Rightarrow> kvm_memory_slot"

record race =
  shared :: vm
  threads :: "nat \<Rightarrow> phase"
  commits :: nat

fun is_logging :: "phase \<Rightarrow> bool" where
  "is_logging (Logging _) = True"
| "is_logging _ = False"

definition loggers :: "race \<Rightarrow> nat set" where
  "loggers c = {t. is_logging (threads c t)}"

section \<open>Steps\<close>

inductive race_step :: "race \<Rightarrow> race \<Rightarrow> bool" where
  call: "threads c t = Idle \<Longrightarrow> region_checks mem = None \<Longrightarrow>
    race_step c (c\<lparr>threads := (threads c)(t := Start mem)\<rparr>)"
| prepare: "threads c t = Start mem \<Longrightarrow> region_prepare mem (shared c) = Inr (old, new, v) \<Longrightarrow>
    race_step c (c\<lparr>threads := (threads c)(t := Prepared mem old new v (commits c))\<rparr>)"
| refuse: "threads c t = Start mem \<Longrightarrow> region_prepare mem (shared c) = Inl e \<Longrightarrow>
    race_step c (c\<lparr>threads := (threads c)(t := Idle)\<rparr>)"
| allocate: "threads c t = Prepared mem old new v k \<Longrightarrow>
    region_alloc new (shared c) = (True, new', s') \<Longrightarrow>
    race_step c (c\<lparr>shared := s', threads := (threads c)(t := Allocated mem old new' v k)\<rparr>)"
| no_memory: "threads c t = Prepared mem old new v k \<Longrightarrow>
    region_alloc new (shared c) = (False, new', s') \<Longrightarrow>
    race_step c (c\<lparr>shared := snd (kvm_free_physmem_slot new' (Some old) s'),
                   threads := (threads c)(t := Idle)\<rparr>)"
| raced: "threads c t = Allocated mem old new v k \<Longrightarrow>
    region_commit mem new v (shared c) = (Raced, s') \<Longrightarrow>
    race_step c (c\<lparr>shared := snd (kvm_free_physmem_slot new (Some old) s'),
                   threads := (threads c)(t := Start mem)\<rparr>)"
| busy: "threads c t = Allocated mem old new v k \<Longrightarrow>
    region_commit mem new v (shared c) = (Busy, s') \<Longrightarrow>
    race_step c (c\<lparr>shared := snd (kvm_free_physmem_slot new (Some old) s'),
                   threads := (threads c)(t := Idle)\<rparr>)"
| commit: "threads c t = Allocated mem old new v k \<Longrightarrow>
    region_commit mem new v (shared c) = (Committed, s') \<Longrightarrow>
    race_step c (c\<lparr>shared := s', threads := (threads c)(t := Cleanup old new),
                   commits := Suc (commits c)\<rparr>)"
| cleanup: "threads c t = Cleanup old new \<Longrightarrow>
    race_step c (c\<lparr>shared := snd (kvm_free_physmem_slot old (Some new) (shared c)),
                   threads := (threads c)(t := Idle)\<rparr>)"
| log_begin: "threads c t = Idle \<Longrightarrow>
    race_step c (c\<lparr>shared := (shared c)\<lparr>busy := busy (shared c) + 1\<rparr>,
                   threads := (threads c)(t := Logging (memslots (shared c)))\<rparr>)"
| log_end: "threads c t = Logging ms \<Longrightarrow>
    race_step c (c\<lparr>shared := (shared c)\<lparr>busy := busy (shared c) - 1\<rparr>,
                   threads := (threads c)(t := Idle)\<rparr>)"
| environment: "same_slots (shared c) s' \<Longrightarrow> race_step c (c\<lparr>shared := s'\<rparr>)"

inductive race_reach :: "race \<Rightarrow> race \<Rightarrow> bool" for c0 where
  start: "race_reach c0 c0"
| steps: "race_reach c0 c \<Longrightarrow> race_step c c' \<Longrightarrow> race_reach c0 c'"

definition race_init :: "race \<Rightarrow> bool" where
  "race_init c \<longleftrightarrow> slots_ok (shared c) \<and> memory_config_version (shared c) = 0 \<and>
     busy (shared c) = 0 \<and> commits c = 0 \<and> (\<forall>t. threads c t = Idle)"

section \<open>The invariant\<close>

text \<open>
  A thread between its check and its commit remembers a region without overlap, as long as no
  commit has happened since.
\<close>

definition pending_ok :: "race \<Rightarrow> kvm_memory_region \<Rightarrow> kvm_memory_slot \<Rightarrow> u32 \<Rightarrow> nat \<Rightarrow> bool" where
  "pending_ok c mem new v k \<longleftrightarrow>
     region_checks mem = None \<and> base_gfn new = region_gfn mem \<and> npages new = region_npages mem \<and>
     v = of_nat k \<and> k \<le> commits c \<and>
     (k = commits c \<longrightarrow> (\<forall>i < KVM_MEMORY_SLOTS. i \<noteq> region_index mem \<longrightarrow>
        \<not> overlaps_slot mem (memslots (shared c) i)))"

fun phase_ok :: "race \<Rightarrow> phase \<Rightarrow> bool" where
  "phase_ok c Idle = True"
| "phase_ok c (Start mem) = (region_checks mem = None)"
| "phase_ok c (Prepared mem old new v k) = pending_ok c mem new v k"
| "phase_ok c (Allocated mem old new v k) = pending_ok c mem new v k"
| "phase_ok c (Cleanup old new) = True"
| "phase_ok c (Logging ms) = (ms = memslots (shared c))"

definition race_inv :: "race \<Rightarrow> bool" where
  "race_inv c \<longleftrightarrow> finite (loggers c) \<and> busy (shared c) = int (card (loggers c)) \<and>
     memory_config_version (shared c) = of_nat (commits c) \<and>
     (commits c < 2 ^ 32 \<longrightarrow> slots_ok (shared c) \<and> (\<forall>t. phase_ok c (threads c t)))"

lemma race_init_inv: "race_init c \<Longrightarrow> race_inv c"
  by (simp add: race_init_def race_inv_def loggers_def)

text \<open>Steps that leave the slots and the number of commits alone keep what the threads know.\<close>

lemma pending_ok_same:
  "memslots (shared c') = memslots (shared c) \<Longrightarrow> commits c' = commits c \<Longrightarrow>
    pending_ok c' mem new v k = pending_ok c mem new v k"
  by (simp add: pending_ok_def)

lemma phase_ok_same:
  "memslots (shared c') = memslots (shared c) \<Longrightarrow> commits c' = commits c \<Longrightarrow>
    phase_ok c' p = phase_ok c p"
  using pending_ok_same [of c' c] by (cases p) simp_all

lemma race_inv_quiet:
  assumes inv: "race_inv c" and same: "same_slots (shared c) s'"
    and old: "\<not> is_logging (threads c t)" and new: "\<not> is_logging p"
    and p: "commits c < 2 ^ 32 \<Longrightarrow> slots_ok (shared c) \<Longrightarrow> phase_ok c (threads c t) \<Longrightarrow> phase_ok c p"
  shows "race_inv (c\<lparr>shared := s', threads := (threads c)(t := p)\<rparr>)"
proof -
  let ?c = "c\<lparr>shared := s', threads := (threads c)(t := p)\<rparr>"
  note s = same_slotsD [OF same]
  have l: "loggers ?c = loggers c"
    using old new by (auto simp: loggers_def)
  have "phase_ok ?c q = phase_ok c q" for q
    by (rule phase_ok_same) (simp_all add: s)
  then show ?thesis
    using inv p slots_ok_cong [OF s(1,2)] by (auto simp: race_inv_def l s)
qed

lemma same_shared: "c\<lparr>threads := f\<rparr> = c\<lparr>shared := shared c, threads := f\<rparr>"
  by simp

lemma region_commit_cases:
  "fst (region_commit mem new v s) \<noteq> Committed \<Longrightarrow> snd (region_commit mem new v s) = s"
  by (simp add: region_commit_def split: if_splits)

lemma committed_version:
  assumes "region_commit mem new v (shared c) = (Committed, s')"
  shows "v = memory_config_version (shared c)" "busy (shared c) = 0"
  using assms by (auto simp: region_commit_def split: if_splits)

lemma of_nat_u32_inject: "m < 2 ^ 32 \<Longrightarrow> n < 2 ^ 32 \<Longrightarrow> (of_nat m :: u32) = of_nat n \<longleftrightarrow> m = n"
  by (simp add: word_unat_eq_iff unat_of_nat)

lemma no_loggers: "race_inv c \<Longrightarrow> busy (shared c) = 0 \<Longrightarrow> loggers c = {}"
  by (auto simp: race_inv_def)

text \<open>The commit: the version equality says that no other commit came between.\<close>

lemma race_inv_commit:
  assumes inv: "race_inv c" and t: "threads c t = Allocated mem old new v k"
    and cm: "region_commit mem new v (shared c) = (Committed, s')"
  shows "race_inv (c\<lparr>shared := s', threads := (threads c)(t := Cleanup old new),
                     commits := Suc (commits c)\<rparr>)"
    (is "race_inv ?c")
proof -
  note v = committed_version [OF cm]
  have nl: "loggers c = {}" using no_loggers [OF inv v(2)] .
  then have l: "loggers ?c = {}" by (auto simp: loggers_def)
  have s': "s' = snd (region_commit mem new v (shared c))" using cm by simp
  have bz: "busy s' = 0" "memory_config_version s' = memory_config_version (shared c) + 1"
    using v by (simp_all add: s' region_commit_def)
  have ver: "memory_config_version s' = of_nat (Suc (commits c))"
    using inv bz by (simp add: race_inv_def)
  have "slots_ok s' \<and> (\<forall>t. phase_ok ?c (threads ?c t))" if lt: "Suc (commits c) < 2 ^ 32"
  proof -
    from lt inv have ok: "slots_ok (shared c)" and ph: "\<And>t. phase_ok c (threads c t)"
      by (auto simp: race_inv_def)
    from ph [of t] t have pd: "pending_ok c mem new v k" by simp
    have "(of_nat k :: u32) = of_nat (commits c)"
      using pd v inv by (simp add: pending_ok_def race_inv_def)
    then have k: "k = commits c"
      using pd lt of_nat_u32_inject [of k "commits c"] by (simp add: pending_ok_def)
    have so: "slots_ok s'"
      unfolding s' by (rule region_commit_slots_ok [OF ok]) (use pd k in \<open>auto simp: pending_ok_def\<close>)
    have "phase_ok ?c (threads ?c u)" for u
    proof (cases "u = t")
      case False
      have "\<not> is_logging (threads c u)" using nl by (auto simp: loggers_def)
      with False ph [of u] show ?thesis
        by (cases "threads c u") (auto simp: pending_ok_def)
    qed simp
    with so show ?thesis by blast
  qed
  then show ?thesis
    by (simp add: race_inv_def l bz(1) ver)
qed

text \<open>The readers of a dirty log count themselves in \<open>busy\<close>.\<close>

lemma race_inv_log_begin:
  assumes inv: "race_inv c" and t: "threads c t = Idle"
  shows "race_inv (c\<lparr>shared := (shared c)\<lparr>busy := busy (shared c) + 1\<rparr>,
                     threads := (threads c)(t := Logging (memslots (shared c)))\<rparr>)"
    (is "race_inv ?c")
proof -
  have l: "loggers (c\<lparr>shared := x, threads := (threads c)(t := Logging ms)\<rparr>) = insert t (loggers c)"
    for x ms by (auto simp: loggers_def)
  have "t \<notin> loggers c" using t by (simp add: loggers_def)
  then have "card (insert t (loggers c)) = Suc (card (loggers c))"
    using inv by (simp add: race_inv_def)
  moreover have "phase_ok ?c q = phase_ok c q" for q
    by (rule phase_ok_same) simp_all
  moreover have "slots_ok (shared ?c) = slots_ok (shared c)"
    by (rule slots_ok_cong) simp_all
  ultimately show ?thesis
    using inv by (auto simp: race_inv_def l)
qed

lemma race_inv_log_end:
  assumes inv: "race_inv c" and t: "threads c t = Logging ms"
  shows "race_inv (c\<lparr>shared := (shared c)\<lparr>busy := busy (shared c) - 1\<rparr>,
                     threads := (threads c)(t := Idle)\<rparr>)"
    (is "race_inv ?c")
proof -
  have l: "loggers (c\<lparr>shared := x, threads := (threads c)(t := Idle)\<rparr>) = loggers c - {t}" for x
    by (auto simp: loggers_def)
  have "t \<in> loggers c" using t by (simp add: loggers_def)
  then have "int (card (loggers c - {t})) = int (card (loggers c)) - 1"
    using inv card_Suc_Diff1 [of "loggers c" t] by (simp add: race_inv_def)
  moreover have "phase_ok ?c q = phase_ok c q" for q
    by (rule phase_ok_same) simp_all
  moreover have "slots_ok (shared ?c) = slots_ok (shared c)"
    by (rule slots_ok_cong) simp_all
  ultimately show ?thesis
    using inv by (auto simp: race_inv_def l)
qed

lemma race_inv_environment:
  "race_inv c \<Longrightarrow> same_slots (shared c) s' \<Longrightarrow> race_inv (c\<lparr>shared := s'\<rparr>)"
proof -
  assume inv: "race_inv c" and same: "same_slots (shared c) s'"
  note s = same_slotsD [OF same]
  have "phase_ok (c\<lparr>shared := s'\<rparr>) q = phase_ok c q" for q
    by (rule phase_ok_same) (simp_all add: s)
  then show "race_inv (c\<lparr>shared := s'\<rparr>)"
    using inv slots_ok_cong [OF s(1,2)] by (auto simp: race_inv_def loggers_def s)
qed

lemma region_alloc_same: "region_alloc sl s = (ok, sl', t) \<Longrightarrow> same_slots s t"
  using same_slots_region_alloc [of s sl] by simp

lemma race_step_inv:
  assumes "race_step c c'" and inv: "race_inv c"
  shows "race_inv c'"
  using assms(1)
proof cases
  case (call t mem)
  then show ?thesis
    using race_inv_quiet [OF inv same_slots_refl, of t "Start mem"] by simp
next
  case (prepare t mem old new v)
  note d = region_prepareD [OF prepare(3)]
  have "pending_ok c mem new v (commits c)" if "region_checks mem = None"
    using that d inv by (auto simp: pending_ok_def race_inv_def)
  then show ?thesis
    using prepare race_inv_quiet [OF inv same_slots_refl, of t "Prepared mem old new v (commits c)"]
    by simp
next
  case (refuse t mem e)
  then show ?thesis
    using race_inv_quiet [OF inv same_slots_refl, of t Idle] by simp
next
  case (allocate t mem old new v k new' s')
  have "pending_ok c mem new' v k = pending_ok c mem new v k"
    using region_alloc_shape [OF allocate(3)] by (simp add: pending_ok_def)
  then show ?thesis
    using allocate race_inv_quiet [OF inv region_alloc_same [OF allocate(3)], of t
        "Allocated mem old new' v k"] by simp
next
  case (no_memory t mem old new v k new' s')
  show ?thesis
    using no_memory race_inv_quiet [OF inv same_slots_trans [OF region_alloc_same [OF no_memory(3)]
          same_slots_free_physmem_slot], of t Idle] by simp
next
  case (raced t mem old new v k s')
  have "s' = shared c" using raced(3) region_commit_cases [of mem new v "shared c"] by simp
  then show ?thesis
    using raced race_inv_quiet [OF inv same_slots_free_physmem_slot, of t "Start mem"]
    by (simp add: pending_ok_def)
next
  case (busy t mem old new v k s')
  have "s' = shared c" using busy(3) region_commit_cases [of mem new v "shared c"] by simp
  then show ?thesis
    using busy race_inv_quiet [OF inv same_slots_free_physmem_slot, of t Idle] by simp
next
  case (commit t mem old new v k s')
  then show ?thesis using race_inv_commit [OF inv] by simp
next
  case (cleanup t old new)
  then show ?thesis
    using race_inv_quiet [OF inv same_slots_free_physmem_slot, of t Idle] by simp
next
  case (log_begin t)
  then show ?thesis using race_inv_log_begin [OF inv] by simp
next
  case (log_end t ms)
  then show ?thesis using race_inv_log_end [OF inv] by simp
next
  case (environment s')
  then show ?thesis using race_inv_environment [OF inv] by simp
qed

lemma race_reach_inv: "race_reach c0 c \<Longrightarrow> race_init c0 \<Longrightarrow> race_inv c"
  by (induction rule: race_reach.induct) (auto intro: race_init_inv race_step_inv)

section \<open>A run of two ioctls\<close>

definition example_region :: kvm_memory_region where
  "example_region = \<lparr>mr_slot = 0, mr_flags = 1, mr_gpa = 0x2000, mr_size = 0x1000\<rparr>"

definition example_race :: race where
  "example_race = \<lparr>shared = zero_vm\<lparr>free_frames := [7], vmalloc_results := [True, True]\<rparr>,
     threads = (\<lambda>_. Idle), commits = 0\<rparr>"

definition example_slot :: kvm_memory_slot where
  "example_slot = \<lparr>base_gfn = 2, npages = 1, slot_flags = 1, phys_mem = 1, dirty_bitmap = 2\<rparr>"

lemma example_init: "race_init example_race"
  by (auto simp: race_init_def example_race_def slots_ok_def zero_vm_def zero_slot_def
      slot_in_range_def slot_frames_def)

lemma example_prepare:
  "region_checks example_region = None"
  "region_prepare example_region (shared example_race) =
    Inr (zero_slot, zero_slot\<lparr>base_gfn := 2, npages := 1, slot_flags := 1\<rparr>, 0)"
  by (simp_all add: region_checks_def region_prepare_def example_region_def example_race_def
      region_index_def region_gfn_def region_npages_def region_flags_def overlaps_slot_def
      zero_vm_def zero_slot_def PAGE_SIZE_val PAGE_SHIFT_def KVM_MEMORY_SLOTS_def
      KVM_MEM_LOG_DIRTY_PAGES_def upt_rec)

definition example_allocated :: vm where
  "example_allocated = snd (snd (region_alloc
     (zero_slot\<lparr>base_gfn := 2, npages := 1, slot_flags := 1\<rparr>) (shared example_race)))"

lemma example_alloc:
  "region_alloc (zero_slot\<lparr>base_gfn := 2, npages := 1, slot_flags := 1\<rparr>) (shared example_race) =
    (True, example_slot, example_allocated)"
  by (simp add: example_allocated_def region_alloc_def region_alloc_pages_def
      region_alloc_bitmap_def vmalloc_zeroed_def example_race_def zero_vm_def zero_slot_def
      KVM_MEM_LOG_DIRTY_PAGES_def example_slot_def alloc_page_def varray_set_def Let_def)

text \<open>Thread 0 commits the region, then thread 1 starts to read a dirty log.\<close>

definition example_committed :: race where
  "example_committed = example_race\<lparr>
     shared := snd (region_commit example_region example_slot 0 example_allocated),
     threads := (\<lambda>_. Idle)(0 := Cleanup zero_slot example_slot), commits := 1\<rparr>"

definition example_logging :: race where
  "example_logging = example_committed\<lparr>
     shared := (shared example_committed)\<lparr>busy := busy (shared example_committed) + 1\<rparr>,
     threads := (threads example_committed)(1 := Logging (memslots (shared example_committed)))\<rparr>"

lemma example_version: "memory_config_version example_allocated = 0" "busy example_allocated = 0"
  using same_slotsD [OF region_alloc_same [OF example_alloc]]
  by (simp_all add: example_race_def zero_vm_def)

lemma example_reach: "race_reach example_race example_committed"
proof -
  let ?m = example_region
  let ?n = "zero_slot\<lparr>base_gfn := 2, npages := 1, slot_flags := 1\<rparr>"
  let ?c1 = "example_race\<lparr>threads := (threads example_race)(0 := Start ?m)\<rparr>"
  let ?c2 = "?c1\<lparr>threads := (threads ?c1)(0 := Prepared ?m zero_slot ?n 0 0)\<rparr>"
  let ?c3 = "?c2\<lparr>shared := example_allocated,
    threads := (threads ?c2)(0 := Allocated ?m zero_slot example_slot 0 0)\<rparr>"
  let ?c4 = "?c3\<lparr>shared := snd (region_commit ?m example_slot 0 example_allocated),
    threads := (threads ?c3)(0 := Cleanup zero_slot example_slot), commits := Suc (commits ?c3)\<rparr>"
  have idle: "threads example_race = (\<lambda>_. Idle)" "commits example_race = 0"
    by (simp_all add: example_race_def)
  have "race_step example_race ?c1"
    by (rule race_step.call) (simp_all add: idle example_prepare)
  moreover have "race_step ?c1 ?c2"
    using race_step.prepare [of ?c1 0 ?m zero_slot ?n 0] example_prepare by (simp add: idle)
  moreover have "race_step ?c2 ?c3"
    by (rule race_step.allocate [of _ _ ?m zero_slot ?n 0 0]) (simp_all add: example_alloc)
  moreover have "race_step ?c3 ?c4"
    by (rule race_step.commit [of _ _ ?m zero_slot example_slot 0 0]) (simp_all add: region_commit_def example_version)
  ultimately have "race_reach example_race ?c4"
    by (intro race_reach.steps [OF race_reach.steps [OF race_reach.steps [OF race_reach.steps
          [OF race_reach.start]]]])
  moreover have "?c4 = example_committed"
    by (simp add: example_committed_def idle)
  ultimately show ?thesis by simp
qed

lemma example_reach_logging: "race_reach example_race example_logging"
  unfolding example_logging_def
  by (rule race_reach.steps [OF example_reach race_step.log_begin])
    (simp add: example_committed_def)

section \<open>Properties\<close>

text \<open>
  C1: however the memory-region and dirty-log ioctls of any number of threads interleave, the
  memory slots stay disjoint intervals of guest frames, as long as fewer than \<open>2 ^ 32\<close> regions
  have been committed (then \<open>memory_config_version\<close> wraps around).
\<close>

theorem race_slots_disjoint:
  assumes "race_reach c0 c" "race_init c0" "commits c < 2 ^ 32"
  shows "slots_ok (shared c)"
  using race_reach_inv [OF assms(1,2)] assms(3) by (simp add: race_inv_def)

lemma race_slots_disjoint_witness:
  "slots_ok (shared example_committed) \<and> npages (memslots (shared example_committed) 0) = 1"
  using race_slots_disjoint [OF example_reach example_init]
  by (simp add: example_committed_def region_commit_def example_version example_slot_def
      region_index_def example_region_def)

text \<open>
  C19: while a thread reads a dirty log (between \<open>++kvm->busy\<close> and \<open>--kvm->busy\<close>), no interleaving of
  the other threads changes the memory slots it started with.
\<close>

theorem race_log_stable:
  assumes "race_reach c0 c" "race_init c0" "commits c < 2 ^ 32" "threads c t = Logging ms"
  shows "memslots (shared c) = ms"
proof -
  have "phase_ok c (threads c t)"
    using race_reach_inv [OF assms(1,2)] assms(3) by (simp add: race_inv_def)
  then show ?thesis using assms(4) by simp
qed

lemma race_log_stable_witness:
  "memslots (shared example_logging) = memslots (shared example_committed)"
  using race_log_stable [OF example_reach_logging example_init, of 1]
  by (simp add: example_logging_def example_committed_def)

end
