(* ===== verification/Memory_Ioctls.thy ===== *)
theory Memory_Ioctls
  imports Regs Memslot_Race
begin

text \<open>
  The two ioctls on guest memory, as one thread runs them: \<open>KVM_SET_MEMORY_REGION\<close>, with its
  retry when the slots changed while the lock was dropped, and \<open>KVM_GET_DIRTY_LOG\<close>. What other
  threads do while the lock is dropped is a parameter of the first. Their interleaving with
  themselves is in \<open>Memslot_Race\<close>.
\<close>

section \<open>KVM_SET_MEMORY_REGION\<close>

text \<open>The contexts of all virtual cpus are built again; there is one.\<close>

definition reset_contexts :: "vm \<Rightarrow> vm" where
  "reset_contexts s = (case vcpu_load s of None \<Rightarrow> s | Some s \<Rightarrow> kvm_mmu_reset_context s)"

text \<open>
  The rounds from the label \<open>raced\<close>; \<open>env n\<close> is what other threads do in the n-th round between
  the two sections under the lock, \<open>None\<close> is for fuel used up. On a refusal \<open>new\<close> still has the
  pointers of \<open>old\<close>, so the release does nothing.
\<close>

fun region_rounds ::
  "nat \<Rightarrow> (nat \<Rightarrow> vm \<Rightarrow> vm) \<Rightarrow> kvm_memory_region \<Rightarrow> nat \<Rightarrow> vm \<Rightarrow> (errno option \<times> vm) option" where
  "region_rounds 0 env mem n s = None"
| "region_rounds (Suc fuel) env mem n s =
     (case region_prepare mem s of
        Inl e \<Rightarrow> Some (Some e, s)
      | Inr (old, new, version) \<Rightarrow>
          (case region_alloc new s of
             (False, new, s) \<Rightarrow> Some (Some ENOMEM, snd (kvm_free_physmem_slot new (Some old) s))
           | (True, new, s) \<Rightarrow>
               (case region_commit mem new version (env n s) of
                  (Raced, s) \<Rightarrow>
                    region_rounds fuel env mem (Suc n) (snd (kvm_free_physmem_slot new (Some old) s))
                | (Busy, s) \<Rightarrow> Some (Some EAGAIN, snd (kvm_free_physmem_slot new (Some old) s))
                | (Committed, s) \<Rightarrow>
                    Some (None, snd (kvm_free_physmem_slot old (Some new) (reset_contexts s))))))"

definition kvm_dev_ioctl_set_memory_region ::
  "nat \<Rightarrow> (nat \<Rightarrow> vm \<Rightarrow> vm) \<Rightarrow> kvm_memory_region \<Rightarrow> vm \<Rightarrow> (errno option \<times> vm) option" where
  "kvm_dev_ioctl_set_memory_region fuel env mem s =
     (case region_checks mem of
        Some e \<Rightarrow> Some (Some e, s)
      | None \<Rightarrow> region_rounds fuel env mem 0 s)"

section \<open>KVM_GET_DIRTY_LOG\<close>

text \<open>
  \<open>n\<close> counts bytes, but the loop that looks for a dirty page reads \<open>n\<close> words: it stops at the
  first word that is not 0 or goes on past the end of the array. A read past the end is an
  access outside the array, recorded as \<open>True\<close>.
\<close>

definition log_bytes :: "kvm_memory_slot \<Rightarrow> nat" where
  "log_bytes memslot = unat ((npages memslot + 7) AND NOT 7) div 8"

fun scan_dirty :: "nat \<Rightarrow> u64 list \<Rightarrow> u64 \<times> bool" where
  "scan_dirty 0 ws = (0, False)"
| "scan_dirty (Suc n) [] = (0, True)"
| "scan_dirty (Suc n) (w # ws) = (if w \<noteq> 0 then (w, False) else scan_dirty n ws)"

text \<open>The bytes of an array of words, in memory order, and the \<open>memset\<close> of its first ones.\<close>

definition word_bytes :: "u64 \<Rightarrow> u8 list" where
  "word_bytes w = map (\<lambda>i. ucast (drop_bit (8 * i) w)) [0..<8]"

definition array_bytes :: "u64 list \<Rightarrow> u8 list" where
  "array_bytes ws = concat (map word_bytes ws)"

definition clear_bytes :: "nat \<Rightarrow> u64 list \<Rightarrow> u64 list" where
  "clear_bytes n ws = map (\<lambda>i. ws ! i AND NOT (mask (8 * (n - 8 * i)))) [0..<length ws]"

text \<open>The user's buffer is the second component; \<open>copied\<close> is the result of \<open>copy_to_user\<close>.\<close>

definition read_dirty_log :: "bool \<Rightarrow> u32 \<Rightarrow> vm \<Rightarrow> errno option \<times> u8 list \<times> vm" where
  "read_dirty_log copied slot s =
     (if unat slot \<ge> KVM_MEMORY_SLOTS then (Some EINVAL, [], s)
      else
        let memslot = memslots s (unat slot);
            p = dirty_bitmap memslot
        in if p = 0 then (Some ENOENT, [], s)
           else
             let n = log_bytes memslot;
                 (any, overrun) = scan_dirty n (varray s p);
                 s = (if overrun then s\<lparr>kernel_bug := True\<rparr> else s);
                 log = take n (array_bytes (varray s p))
             in if \<not> copied then (Some EFAULT, [], s)
                else if any \<noteq> 0 then
                  let s = kvm_mmu_slot_remove_write_access (unat slot) s;
                      s = s\<lparr>vheap := (vheap s)(p \<mapsto> clear_bytes n (varray s p))\<rparr>
                  in (None, log, case vcpu_load s of None \<Rightarrow> s | Some s \<Rightarrow> flush_guest_tlb s)
                else (None, log, s))"

definition kvm_dev_ioctl_get_dirty_log :: "bool \<Rightarrow> u32 \<Rightarrow> vm \<Rightarrow> errno option \<times> u8 list \<times> vm" where
  "kvm_dev_ioctl_get_dirty_log copied slot s =
     (let s = s\<lparr>busy := busy s + 1\<rparr>;
          (r, log, s) = read_dirty_log copied slot s
      in (r, log, s\<lparr>busy := busy s - 1\<rparr>))"

section \<open>The paging code does not touch guest memory's bookkeeping\<close>

definition mem_view ::
  "vm \<Rightarrow> nat \<times> (nat \<Rightarrow> kvm_memory_slot) \<times> u32 \<times> int \<times> (nat \<rightharpoonup> u64 list) \<times> nat \<times> u64 list \<times> bool list" where
  "mem_view s = (nmemslots s, memslots s, memory_config_version s, busy s, vheap s, vnext s,
     free_frames s, vmalloc_results s)"

lemma mem_viewD:
  assumes "mem_view t = mem_view s"
  shows "nmemslots t = nmemslots s" "memslots t = memslots s"
    "memory_config_version t = memory_config_version s" "busy t = busy s" "vheap t = vheap s"
    "vnext t = vnext s" "free_frames t = free_frames s" "vmalloc_results t = vmalloc_results s"
  using assms by (simp_all add: mem_view_def)

lemma mem_view_pool_frame: "pool_frame s t \<Longrightarrow> mem_view t = mem_view s"
  by (auto elim!: pool_frameE simp: mem_view_def)

lemma mem_view_ops [simp]:
  "mem_view (kvm_mmu_free_page p s) = mem_view s"
  "mem_view (snd (kvm_mmu_alloc_page parent s)) = mem_view s"
  "mem_view (release_pt_page_64 l p s) = mem_view s"
  "mem_view (pte_write a v s) = mem_view s"
  "mem_view (zero_table p s) = mem_view s"
  by (rule mem_view_pool_frame, simp)+

lemma mem_view_fields [simp]:
  "mem_view (set_mmu m s) = mem_view s"
  "mem_view (set_root_hpa root s) = mem_view s"
  "mem_view (vmcs_writel f v s) = mem_view s"
  "mem_view (vcpu_update g s) = mem_view s"
  "mem_view (host_update h s) = mem_view s"
  "mem_view (s\<lparr>kernel_bug := b\<rparr>) = mem_view s"
  by (simp_all add: mem_view_def set_mmu_def set_root_hpa_def vmcs_writel_def)

lemma mem_view_alloc: "kvm_mmu_alloc_page parent s = (root, t) \<Longrightarrow> mem_view t = mem_view s"
  using mem_view_ops(2) [of parent s] by simp

lemma mem_view_reset [simp]: "mem_view (kvm_mmu_reset_context s) = mem_view s"
  by (simp add: kvm_mmu_reset_context_def destroy_kvm_mmu_def nonpaging_free_def paging_free_def
      init_kvm_mmu_def nonpaging_init_context_def paging64_init_context_def
      paging32_init_context_def paging32E_init_context_def paging_init_root_def Let_def
      mem_view_alloc split: prod.split option.split mmu_context.split)

lemma mem_view_load [simp]: "mem_view (internal_vcpu_load s) = mem_view s"
  by (simp add: internal_vcpu_load_def Let_def)

lemma mem_view_reset_contexts [simp]: "mem_view (reset_contexts s) = mem_view s"
  by (simp add: reset_contexts_def vcpu_load_def)

section \<open>The retry ends\<close>

lemma region_alloc_same_slots: "region_alloc new s = (ok, new', t) \<Longrightarrow> same_slots s t"
  using same_slots_region_alloc [of s new] by simp

lemma region_rounds_return:
  assumes env: "\<And>n s. k \<le> n \<Longrightarrow> memory_config_version (env n s) = memory_config_version s"
    and "n \<le> k" "k < n + fuel"
  shows "region_rounds fuel env mem n s \<noteq> None"
  using assms(2,3)
proof (induction fuel arbitrary: n s)
  case (Suc fuel)
  show ?case
  proof (cases "region_prepare mem s")
    case (Inr onv)
    then obtain old new v where p: "region_prepare mem s = Inr (old, new, v)" by (cases onv) auto
    obtain ok new' t where a: "region_alloc new s = (ok, new', t)" by (metis prod_cases3)
    obtain c u where c: "region_commit mem new' v (env n t) = (c, u)" by fastforce
    show ?thesis
    proof (cases "ok \<and> c = Raced")
      case True
      have "v = memory_config_version t"
        using region_prepareD(3) [OF p] same_slotsD(3) [OF region_alloc_same_slots [OF a]] by simp
      then have "\<not> k \<le> n"
        using env [of n t] c True by (auto simp: region_commit_def split: if_splits)
      then show ?thesis using Suc.IH [of "Suc n"] Suc.prems True p a c by simp
    next
      case False
      then show ?thesis by (cases ok; cases c) (simp_all add: p a c)
    qed
  qed simp
qed simp

text \<open>
  C9: \<open>KVM_SET_MEMORY_REGION\<close> returns: when the other threads stop changing the slots after \<open>k\<close>
  rounds, round \<open>k + 1\<close> at the latest detects no race.
\<close>

theorem set_memory_region_returns:
  assumes "\<And>n s. k \<le> n \<Longrightarrow> memory_config_version (env n s) = memory_config_version s"
  shows "\<exists>r. kvm_dev_ioctl_set_memory_region (Suc k) env mem s = Some r"
  using region_rounds_return [of k env 0 "Suc k", OF assms]
  by (auto simp: kvm_dev_ioctl_set_memory_region_def split: option.split)

definition example_two_pages :: kvm_memory_region where
  "example_two_pages = \<lparr>mr_slot = 1, mr_flags = 1, mr_gpa = 0x100000, mr_size = 0x2000\<rparr>"

text \<open>Another thread commits during the first round.\<close>

definition example_env :: "nat \<Rightarrow> vm \<Rightarrow> vm" where
  "example_env n s = (if n = 0 then s\<lparr>memory_config_version := memory_config_version s + 1\<rparr> else s)"

theorem set_memory_region_returns_witness:
  "\<exists>r. kvm_dev_ioctl_set_memory_region 2 example_env example_two_pages zero_vm = Some r"
  using set_memory_region_returns [of 1 example_env] by (simp add: example_env_def numeral_2_eq_2)

section \<open>Errors change nothing\<close>

lemma region_rounds_error:
  "region_rounds fuel (\<lambda>_ s. s) mem n s = Some (Some e, t) \<Longrightarrow> same_slots s t"
proof (induction fuel arbitrary: n s)
  case (Suc fuel)
  show ?case
  proof (cases "region_prepare mem s")
    case (Inl e')
    then show ?thesis using Suc.prems by simp
  next
    case (Inr onv)
    then obtain old new v where p: "region_prepare mem s = Inr (old, new, v)" by (cases onv) auto
    obtain ok new' u where a: "region_alloc new s = (ok, new', u)" by (metis prod_cases3)
    obtain c w where c: "region_commit mem new' v u = (c, w)" by fastforce
    have su: "same_slots s u" by (rule region_alloc_same_slots [OF a])
    then have f: "same_slots s (snd (kvm_free_physmem_slot new' (Some old) u))"
      by (rule same_slots_trans) simp
    have v: "v = memory_config_version u"
      using region_prepareD(3) [OF p] same_slotsD(3) [OF su] by simp
    show ?thesis
      using Suc.prems f v c
      by (cases ok; cases c) (auto simp: p a region_commit_def split: if_splits)
  qed
qed simp

text \<open>
  C32: a \<open>KVM_SET_MEMORY_REGION\<close> that reports an error, whichever and at whichever point, leaves the
  slots and their version as they were.
\<close>

theorem set_memory_region_error:
  assumes "kvm_dev_ioctl_set_memory_region fuel (\<lambda>_ s. s) mem s = Some (Some e, t)"
  shows "memslots t = memslots s \<and> nmemslots t = nmemslots s \<and>
    memory_config_version t = memory_config_version s"
proof -
  have "same_slots s t"
    using assms region_rounds_error
    by (auto simp: kvm_dev_ioctl_set_memory_region_def split: option.splits)
  then show ?thesis by (auto dest: same_slotsD)
qed

theorem set_memory_region_error_witness:
  "\<exists>e t. kvm_dev_ioctl_set_memory_region 1 (\<lambda>_ s. s) example_two_pages zero_vm = Some (Some e, t) \<and>
     memslots t = memslots zero_vm"
proof -
  have "\<exists>t. kvm_dev_ioctl_set_memory_region 1 (\<lambda>_ s. s) example_two_pages zero_vm = Some (Some ENOMEM, t)"
    by (simp add: kvm_dev_ioctl_set_memory_region_def region_checks_def example_two_pages_def
        region_prepare_def overlaps_slot_def region_alloc_def region_alloc_pages_def Let_def
        vmalloc_zeroed_def region_npages_def region_gfn_def region_index_def region_flags_def zero_defs
        PAGE_SIZE_def PAGE_SHIFT_def KVM_MEMORY_SLOTS_def KVM_MEM_LOG_DIRTY_PAGES_def upt_rec)
  then show ?thesis using set_memory_region_error by blast
qed

section \<open>A region is created\<close>

text \<open>The loop over the pages takes them from the front of the free frames, in order.\<close>

lemma alloc_slot_pages_ok:
  assumes "alloc_slot_pages n i p s = (True, t)" "i + n \<le> length (varray s p)"
  shows "n \<le> length (free_frames s) \<and> 0 \<notin> set (take n (free_frames s)) \<and>
    free_frames t = drop n (free_frames s) \<and>
    varray t p = take i (varray s p) @ take n (free_frames s) @ drop (i + n) (varray s p) \<and>
    (\<forall>q. q \<noteq> p \<longrightarrow> vheap t q = vheap s q) \<and> vnext t = vnext s"
  using assms
proof (induction n i p s rule: alloc_slot_pages.induct)
  case (2 n i p s)
  obtain page u where a: "alloc_page s = (page, u)" by fastforce
  let ?v = "varray_set p i page u"
  have nz: "page \<noteq> 0" and r: "alloc_slot_pages n (Suc i) p ?v = (True, t)"
    using 2(2) by (auto simp: a Let_def split: if_splits)
  obtain fs where f: "free_frames s = page # fs" and u: "u = s\<lparr>free_frames := fs\<rparr>"
    using a nz by (auto simp: alloc_page_def split: list.splits)
  have v: "varray ?v p = (varray s p)[i := page]" "free_frames ?v = fs" "vnext ?v = vnext s"
    "\<And>q. q \<noteq> p \<Longrightarrow> vheap ?v q = vheap s q"
    by (simp_all add: varray_set_def varray_def u)
  have IH: "n \<le> length fs \<and> 0 \<notin> set (take n fs) \<and> free_frames t = drop n fs \<and>
      varray t p = take (Suc i) (varray ?v p) @ take n fs @ drop (Suc i + n) (varray ?v p) \<and>
      (\<forall>q. q \<noteq> p \<longrightarrow> vheap t q = vheap ?v q) \<and> vnext t = vnext s"
    using 2(1) [OF a [symmetric] refl refl nz r] 2(3) v by simp
  have "take (Suc i) (varray ?v p) = take i (varray s p) @ [page]"
    using 2(3) unfolding v(1) by (simp add: take_Suc_conv_app_nth)
  moreover have "drop (Suc i + n) (varray ?v p) = drop (i + Suc n) (varray s p)"
    unfolding v(1) by (simp add: drop_update_cancel)
  ultimately show ?case using IH v(4) f nz by simp
qed simp

lemma region_alloc_creates:
  assumes a: "region_alloc new s = (True, new', t)"
    and n: "npages new \<noteq> 0" "phys_mem new = 0"
  shows "phys_mem new' = vnext s \<and> vnext s \<noteq> 0 \<and> unat (npages new) \<le> length (free_frames s) \<and>
    0 \<notin> set (take (unat (npages new)) (free_frames s)) \<and>
    varray t (vnext s) = take (unat (npages new)) (free_frames s)"
proof -
  let ?n = "unat (npages new)"
  obtain new1 t1 where p: "region_alloc_pages
        (if slot_flags new AND KVM_MEM_LOG_DIRTY_PAGES = 0 then new\<lparr>dirty_bitmap := 0\<rparr> else new) s = (True, new1, t1)"
    and b: "region_alloc_bitmap new1 t1 = (True, new', t)"
    using a n by (auto simp: region_alloc_def Let_def split: prod.splits if_splits)
  obtain q u where v: "vmalloc_zeroed ?n s = (q, u)" by fastforce
  have q: "q \<noteq> 0" "alloc_slot_pages ?n 0 q u = (True, t1)" "phys_mem new1 = q" "npages new1 = npages new"
    using p n v by (auto simp: region_alloc_pages_def Let_def split: prod.splits if_splits)
  then have u: "q = vnext s" "u = s\<lparr>vheap := (vheap s)(vnext s \<mapsto> replicate ?n 0), vnext := Suc (vnext s),
      vmalloc_results := tl (vmalloc_results s)\<rparr>"
    using v by (auto simp: vmalloc_zeroed_def split: list.splits if_splits)
  have w: "varray u q = replicate ?n 0" "free_frames u = free_frames s" "vnext u = Suc q"
    by (simp_all add: u varray_def)
  note k = alloc_slot_pages_ok [OF q(2), unfolded w(1)]
  have "phys_mem new' = q \<and> varray t q = varray t1 q"
    using b k w(3) q(3)
    by (auto simp: region_alloc_bitmap_def vmalloc_zeroed_def varray_def Let_def
        split: if_splits list.splits)
  with k q u w show ?thesis by simp
qed

lemma free_physmem_empty:
  assumes "phys_mem old = 0" "dirty_bitmap old < q"
  shows "varray (snd (kvm_free_physmem_slot old d s)) q = varray s q"
  using assms by (simp add: kvm_free_physmem_slot_def vfree_def varray_def Let_def)

text \<open>What a successful call has done, when no other thread interferes.\<close>

lemma set_memory_region_success:
  assumes r: "kvm_dev_ioctl_set_memory_region fuel (\<lambda>_ s. s) mem s = Some (None, t)"
  obtains old new new' v u w where "region_checks mem = None" "region_prepare mem s = Inr (old, new, v)"
    "region_alloc new s = (True, new', u)" "region_commit mem new' v u = (Committed, w)"
    "t = snd (kvm_free_physmem_slot old (Some new') (reset_contexts w))"
proof -
  have ck: "region_checks mem = None" and "region_rounds fuel (\<lambda>_ s. s) mem 0 s = Some (None, t)"
    using r by (auto simp: kvm_dev_ioctl_set_memory_region_def split: option.splits)
  then obtain f where r: "region_rounds (Suc f) (\<lambda>_ s. s) mem 0 s = Some (None, t)" by (cases fuel) auto
  obtain old new v where p: "region_prepare mem s = Inr (old, new, v)"
    using r by (auto split: sum.splits)
  obtain new' u where a: "region_alloc new s = (True, new', u)"
    using r p by (auto split: prod.splits bool.splits)
  obtain c w where c: "region_commit mem new' v u = (c, w)" by fastforce
  have "c \<noteq> Raced"
    using c region_prepareD(3) [OF p] same_slotsD(3) [OF region_alloc_same_slots [OF a]]
    by (auto simp: region_commit_def split: if_splits)
  then have "c = Committed \<and> t = snd (kvm_free_physmem_slot old (Some new') (reset_contexts w))"
    using r by (cases c) (simp_all add: p a c)
  with ck p a c show ?thesis by (auto intro: that)
qed


definition example_free :: vm where
  "example_free = zero_vm\<lparr>free_frames := [5, 9], vmalloc_results := [True, True]\<rparr>"

lemma example_two_pages_simps:
  "region_checks example_two_pages = None" "region_gfn example_two_pages = 0x100"
  "region_npages example_two_pages = 2" "region_index example_two_pages = 1"
  "region_flags example_two_pages = 1"
  by (simp_all add: region_checks_def example_two_pages_def PAGE_SIZE_def PAGE_SHIFT_def KVM_MEMORY_SLOTS_def
      region_gfn_def region_npages_def region_index_def region_flags_def)

lemma example_two_prepare:
  assumes "memslots s = (\<lambda>_. zero_slot)"
  shows "region_prepare example_two_pages s = Inr (zero_slot,
    zero_slot\<lparr>base_gfn := 0x100, npages := 2, slot_flags := 1\<rparr>, memory_config_version s)"
  by (simp add: region_prepare_def example_two_pages_simps assms overlaps_slot_def Let_def zero_slot_def)

lemma alloc_slot_pages_two:
  "alloc_slot_pages 2 i p s =
     (let (page, s) = alloc_page s; s = varray_set p i page s
      in if page = 0 then (False, s)
         else let (page, s) = alloc_page s; s = varray_set p (Suc i) page s
              in if page = 0 then (False, s) else (True, s))"
  by (simp add: numeral_2_eq_2 Let_def split: prod.split)


section \<open>Two flaws of the region ioctl\<close>

text \<open>
  A slot that was emptied keeps its old place, and the overlap check still sees it: a new
  region that has this place strictly inside is refused although every frame of it is free.
\<close>

theorem emptied_slot_blocks_region:
  assumes "region_checks mem = None" "i < KVM_MEMORY_SLOTS" "i \<noteq> region_index mem"
    "npages (memslots s i) = 0" "npages (memslots s (region_index mem)) = 0"
    "unat (region_gfn mem) < unat (base_gfn (memslots s i))"
    "unat (base_gfn (memslots s i)) < unat (region_gfn mem) + unat (region_npages mem)"
  shows "kvm_dev_ioctl_set_memory_region (Suc fuel) env mem s = Some (Some EEXIST, s)"
proof -
  have "unat (region_gfn mem + region_npages mem) = unat (region_gfn mem) + unat (region_npages mem)"
    using region_checks_range(1) [OF assms(1)] by (subst unat_add_lem [THEN iffD1]) simp_all
  then have "overlaps_slot mem (memslots s i)"
    using assms(4,6,7) by (simp add: overlaps_slot_def word_le_nat_alt)
  then have "region_prepare mem s = Inl EEXIST"
    using assms(2,3,5) by (auto simp: region_prepare_def Let_def)
  then show ?thesis using assms(1) by (simp add: kvm_dev_ioctl_set_memory_region_def)
qed

theorem emptied_slot_blocks_region_witness:
  "kvm_dev_ioctl_set_memory_region 1 (\<lambda>_ s. s) example_two_pages
     (zero_vm\<lparr>memslots := (\<lambda>_. zero_slot)(0 := zero_slot\<lparr>base_gfn := 0x101\<rparr>)\<rparr>) =
   Some (Some EEXIST, zero_vm\<lparr>memslots := (\<lambda>_. zero_slot)(0 := zero_slot\<lparr>base_gfn := 0x101\<rparr>)\<rparr>)"
proof -
  show ?thesis
    using emptied_slot_blocks_region [of example_two_pages 0
        "zero_vm\<lparr>memslots := (\<lambda>_. zero_slot)(0 := zero_slot\<lparr>base_gfn := 0x101\<rparr>)\<rparr>" 0 "\<lambda>_ s. s"]
    by (simp add: zero_slot_def KVM_MEMORY_SLOTS_def example_two_pages_simps)
qed

text \<open>The pages of an array that was filled only in part: the release reaches a \<open>NULL\<close>.\<close>

lemma free_page_bug: "kernel_bug s \<Longrightarrow> kernel_bug (free_page f s)"
  by (simp add: free_page_def)

lemma free_slot_pages_bug:
  assumes "j < unat (npages sl)" "arr_get (varray s (phys_mem sl)) j = 0"
  shows "kernel_bug (free_slot_pages sl s)"
proof -
  let ?f = "\<lambda>i. free_page (arr_get (varray s (phys_mem sl)) i)"
  have mono: "kernel_bug u \<Longrightarrow> kernel_bug (fold ?f is u)" for "is" u
    by (induction "is" arbitrary: u) (simp_all add: free_page_bug)
  have "[0..<unat (npages sl)] = [0..<j] @ j # [Suc j..<unat (npages sl)]"
    using assms(1) upt_add_eq_append [of 0 j "unat (npages sl) - j"] by (simp add: upt_conv_Cons)
  then show ?thesis
    unfolding free_slot_pages_def by (simp add: assms(2) free_page_def mono)
qed

lemma alloc_slot_pages_fails:
  "alloc_slot_pages n i p s = (False, t) \<Longrightarrow> \<exists>j. i \<le> j \<and> j < i + n \<and> arr_get (varray t p) j = 0"
proof (induction n i p s rule: alloc_slot_pages.induct)
  case (2 n i p s)
  obtain page u where a: "alloc_page s = (page, u)" by fastforce
  show ?case
  proof (cases "page = 0")
    case True
    then have "t = varray_set p i 0 u" using 2(2) by (simp add: a)
    then show ?thesis by (intro exI [of _ i]) (simp add: varray_def varray_set_def arr_get_def)
  next
    case False
    then have "alloc_slot_pages n (Suc i) p (varray_set p i page u) = (False, t)"
      using 2(2) by (simp add: a)
    from 2(1) [OF a [symmetric] refl refl False this] show ?thesis
      by (metis Suc_leD add_Suc_shift)
  qed
qed simp

text \<open>
  When the free pages run out while a region is created, the error path releases the whole
  page array, elements that were never allocated included: \<open>__free_page\<close> gets \<open>NULL\<close>.
\<close>

theorem region_enomem_frees_null:
  assumes ck: "region_checks mem = None" and p: "region_prepare mem s = Inr (old, new, v)"
    and n: "region_npages mem \<noteq> 0" "phys_mem old = 0"
    and few: "vmalloc_results s = True # rest" "vnext s \<noteq> 0" "length (free_frames s) < unat (region_npages mem)"
  shows "\<exists>t. kvm_dev_ioctl_set_memory_region (Suc fuel) env mem s = Some (Some ENOMEM, t) \<and> kernel_bug t"
proof -
  let ?n = "unat (region_npages mem)"
  let ?new = "if slot_flags new AND KVM_MEM_LOG_DIRTY_PAGES = 0 then new\<lparr>dirty_bitmap := 0\<rparr> else new"
  note pr = region_prepareD [OF p]
  have new: "npages new = region_npages mem" "phys_mem new = 0" using pr(2) n by simp_all
  obtain q u where v: "vmalloc_zeroed ?n s = (q, u)" by fastforce
  have q: "q = vnext s" "varray u q = replicate ?n 0" "free_frames u = free_frames s"
    using v few by (auto simp: vmalloc_zeroed_def varray_def)
  obtain ok w where al: "alloc_slot_pages ?n 0 q u = (ok, w)" by fastforce
  have "\<not> ok" using alloc_slot_pages_ok [of ?n 0 q u w] al q few(3) by (cases ok) auto
  then obtain j where j: "j < ?n" "arr_get (varray w q) j = 0"
    using alloc_slot_pages_fails [of ?n 0 q u w] al by auto
  have "region_alloc_pages ?new s = (False, ?new\<lparr>phys_mem := q\<rparr>, w)"
    using n new v al q few(2) \<open>\<not> ok\<close> by (simp add: region_alloc_pages_def Let_def)
  then have a: "region_alloc new s = (False, ?new\<lparr>phys_mem := q\<rparr>, w)"
    using n new by (simp add: region_alloc_def Let_def)
  let ?t = "snd (kvm_free_physmem_slot (?new\<lparr>phys_mem := q\<rparr>) (Some old) w)"
  have b: "kernel_bug (free_slot_pages (?new\<lparr>phys_mem := q\<rparr>) w)"
    by (rule free_slot_pages_bug [of j]) (use j new in simp_all)
  have "kernel_bug ?t"
    using b n(2) q(1) few(2) by (simp add: kvm_free_physmem_slot_def Let_def vfree_def)
  then show ?thesis using ck p a by (simp add: kvm_dev_ioctl_set_memory_region_def)
qed

theorem region_enomem_frees_null_witness:
  "\<exists>t. kvm_dev_ioctl_set_memory_region 1 (\<lambda>_ s. s) example_two_pages (example_free\<lparr>free_frames := [5]\<rparr>) =
     Some (Some ENOMEM, t) \<and> kernel_bug t"
proof -
  let ?s = "example_free\<lparr>free_frames := [5]\<rparr>"
  have p: "region_prepare example_two_pages ?s = Inr (zero_slot,
      zero_slot\<lparr>base_gfn := 0x100, npages := 2, slot_flags := 1\<rparr>, memory_config_version ?s)"
    by (rule example_two_prepare) (simp add: example_free_def zero_vm_def)
  show ?thesis
    using region_enomem_frees_null [OF example_two_pages_simps(1) p, of "[True]" 0]
    by (simp add: example_free_def zero_vm_def zero_slot_def example_two_pages_simps)
qed

section \<open>The bytes of the log\<close>

definition log_bit :: "u8 list \<Rightarrow> nat \<Rightarrow> bool" where
  "log_bit log r = bit (log ! (r div 8)) (r mod 8)"

lemma length_word_bytes [simp]: "length (word_bytes w) = 8"
  by (simp add: word_bytes_def)

lemma length_array_bytes [simp]: "length (array_bytes ws) = 8 * length ws"
  by (induction ws) (simp_all add: array_bytes_def)

lemma array_bytes_nth:
  "k < 8 * length ws \<Longrightarrow> array_bytes ws ! k = word_bytes (ws ! (k div 8)) ! (k mod 8)"
proof (induction ws arbitrary: k)
  case (Cons w ws)
  have c: "array_bytes (w # ws) = word_bytes w @ array_bytes ws" by (simp add: array_bytes_def)
  show ?case
  proof (cases "k < 8")
    case False
    then have "k div 8 = Suc ((k - 8) div 8)" "k mod 8 = (k - 8) mod 8"
      by (simp_all add: le_div_geq le_mod_geq)
    with False Cons show ?thesis by (simp add: c nth_append)
  qed (simp add: c nth_append)
qed simp

lemma bit_u8: "bit (ucast (x :: u64) :: u8) j \<longleftrightarrow> j < 8 \<and> bit x j"
  by (simp add: bit_unsigned_iff possible_bit_def eval_nat_numeral)

lemma log_bit_array:
  assumes "r < 64 * length ws" "r < 8 * n"
  shows "log_bit (take n (array_bytes ws)) r \<longleftrightarrow> test_bit_arr ws r"
proof -
  have k: "r div 8 < n" "r div 8 < 8 * length ws" using assms by (simp_all add: div_less_iff_less_mult mult.commute)
  have d: "r div 8 div 8 = r div 64" by (simp add: div_mult2_eq [symmetric])
  have m: "8 * (r div 8 mod 8) + r mod 8 = r mod 64"
    using mod_mult2_eq [of r 8 8] by simp
  have "bit (word_bytes w ! (r div 8 mod 8)) (r mod 8) \<longleftrightarrow> bit w (r mod 64)" for w
    unfolding word_bytes_def using m by (simp add: bit_u8 bit_drop_bit_eq add.commute)
  then show ?thesis
    using k assms(1) by (simp add: log_bit_def array_bytes_nth d test_bit_arr_def arr_get_def
        div_less_iff_less_mult mult.commute)
qed

lemma length_clear_bytes [simp]: "length (clear_bytes n ws) = length ws"
  by (simp add: clear_bytes_def)

lemma test_bit_clear_bytes:
  assumes "r < 8 * n"
  shows "\<not> test_bit_arr (clear_bytes n ws) r"
proof (cases "r div 64 < length ws")
  case True
  have "r mod 64 < 8 * (n - 8 * (r div 64))"
  proof -
    have r: "r = 64 * (r div 64) + r mod 64" by simp
    with assms have "8 * (r div 64) < n" by linarith
    moreover have "8 * (n - 8 * (r div 64)) = 8 * n - 64 * (r div 64)" by (simp add: diff_mult_distrib2)
    ultimately show ?thesis using r assms by linarith
  qed
  then show ?thesis
    using True by (simp add: test_bit_arr_def arr_get_def clear_bytes_def bit_and_iff bit_not_iff bit_mask_iff)
qed (simp add: test_bit_arr_def arr_get_def)

lemma align_unat:
  assumes "unat (w :: u64) + 2 ^ k \<le> 2 ^ 60" "k < 60"
  shows "unat ((w + mask k) AND NOT (mask k)) = (unat w + 2 ^ k - 1) div 2 ^ k * 2 ^ k"
proof -
  have m: "unat (mask k :: u64) = 2 ^ k - 1"
  proof -
    have "(2 :: nat) ^ k < 2 ^ 60" using assms(2) by (rule power_strict_increasing) simp
    moreover have "(mask k :: u64) = of_nat (2 ^ k - 1)"
      by (simp add: of_nat_mask_eq flip: mask_eq_exp_minus_1)
    ultimately show ?thesis by (simp only: unat_of_nat) simp
  qed
  have s: "unat (w + mask k) = unat w + 2 ^ k - 1"
    using assms by (subst unat_add_lem [THEN iffD1]) (simp_all add: m)
  have "(w + mask k) AND NOT (mask k) = push_bit k (drop_bit k (w + mask k))"
    by (rule bit_word_eqI) (auto simp: bit_simps)
  moreover have "unat (push_bit k (drop_bit k v)) = unat v div 2 ^ k * 2 ^ k" if "unat v < 2 ^ 61" for v :: u64
  proof -
    have "unat v div 2 ^ k * 2 ^ k < 2 ^ 64"
      using that div_times_less_eq_dividend [of "unat v" "2 ^ k"] by (simp del: div_times_less_eq_dividend)
    then show ?thesis
      by (subst unsigned_push_bit_eq, subst unat_drop_bit_eq)
        (simp add: push_bit_eq_mult drop_bit_eq_div take_bit_nat_eq_self)
  qed
  moreover have "unat (w + mask k) < 2 ^ 61" using s assms by simp
  ultimately show ?thesis using s by metis
qed

lemma log_bytes_unat:
  assumes "unat (npages sl) < 2 ^ 52"
  shows "log_bytes sl = (unat (npages sl) + 7) div 8"
proof -
  have m: "(7 :: u64) = mask 3" by (simp add: mask_numeral)
  show ?thesis
    using assms align_unat [of "npages sl" 3] unfolding log_bytes_def m by simp
qed

lemma bytes_enough:
  fixes n :: nat
  shows "n \<le> 8 * ((n + 7) div 8)" "8 < n \<Longrightarrow> (n + 63) div 64 < (n + 7) div 8"
proof -
  define q where "q = (n + 7) div 8"
  have e: "n + 7 = 8 * q + (n + 7) mod 8" "(n + 7) mod 8 < 8" by (simp_all add: q_def)
  then show "n \<le> 8 * ((n + 7) div 8)" unfolding q_def [symmetric] by linarith
  assume "8 < n"
  with e have "2 \<le> q" by linarith
  with e have "n + 63 < q * 64" by linarith
  then show "(n + 63) div 64 < (n + 7) div 8"
    unfolding q_def [symmetric] by (simp add: div_less_iff_less_mult)
qed

lemma scan_dirty_found:
  assumes "j < n" "j < length ws" "ws ! j \<noteq> 0"
  shows "fst (scan_dirty n ws) \<noteq> 0 \<and> \<not> snd (scan_dirty n ws)"
  using assms
proof (induction n ws arbitrary: j rule: scan_dirty.induct)
  case (3 n w ws)
  then show ?case by (cases j) auto
qed simp_all

lemma scan_dirty_none:
  "(\<forall>w \<in> set ws. w = 0) \<Longrightarrow> fst (scan_dirty n ws) = 0 \<and> (snd (scan_dirty n ws) \<longleftrightarrow> length ws < n)"
  by (induction n ws rule: scan_dirty.induct) auto

section \<open>The dirty log\<close>

definition log_view :: "vm \<Rightarrow> (nat \<Rightarrow> kvm_memory_slot) \<times> (nat \<rightharpoonup> u64 list) \<times> int \<times> bool" where
  "log_view s = (memslots s, vheap s, busy s, kernel_bug s)"

lemma varray_frame [simp]:
  "varray (busy_update b s) p = varray s p" "varray (kernel_bug_update k s) p = varray s p"
  by (simp_all add: varray_def)

lemma log_view_protect [simp]: "log_view (kvm_mmu_slot_remove_write_access slot s) = log_view s"
proof -
  have "log_view (protect_page slot h t) = log_view t" for h t
    by (simp add: protect_page_hmem log_view_def)
  then have "log_view (fold (protect_page slot) hs t) = log_view t" for hs t
    by (induction hs arbitrary: t) simp_all
  then show ?thesis by (simp add: kvm_mmu_slot_remove_write_access_def)
qed

lemma log_view_load [simp]: "log_view (internal_vcpu_load s) = log_view s"
  by (simp add: internal_vcpu_load_def Let_def log_view_def vmcs_writel_def)

lemma log_view_flush [simp]: "log_view (flush_guest_tlb s) = log_view s"
  by (simp add: flush_guest_tlb_def log_view_def vmcs_writel_def)

text \<open>A read of a log with a dirty page, in which the scan stops inside the array.\<close>

lemma get_dirty_log_some:
  assumes "unat slot < KVM_MEMORY_SLOTS" and sl: "sl = memslots s (unat slot)" "dirty_bitmap sl \<noteq> 0"
    "fst (scan_dirty (log_bytes sl) (varray s (dirty_bitmap sl))) \<noteq> 0"
    "\<not> snd (scan_dirty (log_bytes sl) (varray s (dirty_bitmap sl)))"
    and r: "kvm_dev_ioctl_get_dirty_log True slot s = (r, log, t)"
  shows "r = None" "log = take (log_bytes sl) (array_bytes (varray s (dirty_bitmap sl)))"
    "memslots t = memslots s" "busy t = busy s" "kernel_bug t = kernel_bug s"
    "vheap t = (vheap s)(dirty_bitmap sl \<mapsto> clear_bytes (log_bytes sl) (varray s (dirty_bitmap sl)))"
proof -
  let ?p = "dirty_bitmap sl" and ?n = "log_bytes sl"
  let ?b = "s\<lparr>busy := busy s + 1\<rparr>"
  let ?w = "kvm_mmu_slot_remove_write_access (unat slot) ?b"
  let ?u = "?w\<lparr>vheap := (vheap ?w)(?p \<mapsto> clear_bytes ?n (varray ?w ?p))\<rparr>"
  let ?v = "case vcpu_load ?u of None \<Rightarrow> ?u | Some s \<Rightarrow> flush_guest_tlb s"
  have w: "memslots ?w = memslots s" "vheap ?w = vheap s" "busy ?w = busy s + 1" "kernel_bug ?w = kernel_bug s"
    using log_view_protect [of "unat slot" ?b] by (simp_all add: log_view_def)
  have v: "log_view ?v = log_view ?u"
    by (simp add: vcpu_load_def)
  have va: "varray ?w ?p = varray s ?p" by (simp add: varray_def w)
  have "read_dirty_log True slot ?b = (None, take ?n (array_bytes (varray s ?p)), ?v)"
    using assms(1) sl(2-4) by (simp add: read_dirty_log_def Let_def split_beta va sl(1) [symmetric])
  then have "r = None \<and> log = take ?n (array_bytes (varray s ?p)) \<and> t = ?v\<lparr>busy := busy ?v - 1\<rparr>"
    using r by (simp add: kvm_dev_ioctl_get_dirty_log_def Let_def)
  moreover have "memslots ?v = memslots s" "busy ?v = busy s + 1" "kernel_bug ?v = kernel_bug s"
    "vheap ?v = (vheap s)(?p \<mapsto> clear_bytes ?n (varray s ?p))"
    using v w va by (simp_all add: log_view_def)
  ultimately show "r = None" "log = take ?n (array_bytes (varray s ?p))" "memslots t = memslots s"
    "busy t = busy s" "kernel_bug t = kernel_bug s"
    "vheap t = (vheap s)(?p \<mapsto> clear_bytes ?n (varray s ?p))"
    by simp_all
qed


text \<open>A slot with 100 pages, of which the second and the last are dirty.\<close>

definition example_log :: vm where
  "example_log = zero_vm\<lparr>nmemslots := 1, vheap := [5 \<mapsto> [2, 0x800000000]],
     memslots := (\<lambda>_. zero_slot)(0 := zero_slot\<lparr>base_gfn := 0x100, npages := 100, dirty_bitmap := 5\<rparr>)\<rparr>"


text \<open>
  C35: a read of the log of a slot with more than eight pages, none of them dirty, reads past the
  end of the bitmap: the bound of the scan counts bytes, its index words.
\<close>

theorem get_dirty_log_overrun:
  assumes slot: "unat slot < KVM_MEMORY_SLOTS" "sl = memslots s (unat slot)" "dirty_bitmap sl \<noteq> 0"
    and n: "8 < unat (npages sl)" "unat (npages sl) < 2 ^ 32"
    and clean: "varray s (dirty_bitmap sl) = replicate (unat (dirty_bytes (npages sl)) div 8) 0"
    and r: "kvm_dev_ioctl_get_dirty_log copied slot s = (r, log, t)"
  shows "kernel_bug t"
proof -
  let ?n = "log_bytes sl" and ?p = "dirty_bitmap sl"
  let ?b = "s\<lparr>busy := busy s + 1\<rparr>"
  have m: "(63 :: u64) = mask 6" by (simp add: mask_numeral)
  have ln: "?n = (unat (npages sl) + 7) div 8"
    using n(2) by (intro log_bytes_unat) simp
  have "unat ((npages sl + 63) AND NOT 63) = (unat (npages sl) + 63) div 64 * 64"
    using align_unat [of "npages sl" 6] n(2) unfolding m by simp
  then have "unat (((npages sl + 63) AND NOT 63) div 8) = (unat (npages sl) + 63) div 64 * 8"
    by (simp add: unat_div)
  moreover have "(unat (npages sl) + 63) div 64 * 8 < 2 ^ 32" using n(2) by simp
  ultimately have "unat (dirty_bytes (npages sl)) div 8 = (unat (npages sl) + 63) div 64"
    by (simp add: dirty_bytes_def unsigned_ucast_eq take_bit_nat_eq_self)
  moreover have "(unat (npages sl) + 63) div 64 < (unat (npages sl) + 7) div 8"
    by (rule bytes_enough(2) [OF n(1)])
  ultimately have "length (varray s ?p) < ?n" unfolding ln clean by simp
  moreover have "\<forall>w \<in> set (varray s ?p). w = 0" unfolding clean by simp
  ultimately have sc: "scan_dirty ?n (varray s ?p) = (0, True)"
    using scan_dirty_none [of "varray s ?p" ?n] by (simp add: prod_eq_iff)
  have "kernel_bug (snd (snd (read_dirty_log copied slot ?b)))"
    using slot(1,3) by (simp add: read_dirty_log_def Let_def split_beta slot(2) [symmetric] sc)
  then show ?thesis
    using r by (auto simp: kvm_dev_ioctl_get_dirty_log_def Let_def split: prod.splits)
qed

definition example_clean_log :: vm where
  "example_clean_log = example_log\<lparr>vheap := [5 \<mapsto> [0, 0]]\<rparr>"

theorem get_dirty_log_overrun_witness:
  "kernel_bug (snd (snd (kvm_dev_ioctl_get_dirty_log True 0 example_clean_log)))"
proof -
  obtain r log t where x: "kvm_dev_ioctl_get_dirty_log True 0 example_clean_log = (r, log, t)"
    by (metis prod_cases3)
  let ?sl = "zero_slot\<lparr>base_gfn := 0x100, npages := 100, dirty_bitmap := 5\<rparr>"
  have "unat (dirty_bytes 100) div 8 = 2" by (simp add: dirty_bytes_def)
  then have "varray example_clean_log 5 = replicate (unat (dirty_bytes 100) div 8) 0"
    by (simp add: varray_def example_clean_log_def numeral_2_eq_2)
  then show ?thesis
    using get_dirty_log_overrun [OF _ _ _ _ _ _ x, of ?sl] x
    by (simp add: example_clean_log_def example_log_def KVM_MEMORY_SLOTS_def)
qed

end
