(* ===== verification/Vcpu_Setup.thy ===== *)
theory Vcpu_Setup
  imports Memory_Ioctls
begin

text \<open>
  The life of a virtual machine and of its virtual cpu: \<open>kvm_dev_open\<close>, \<open>KVM_CREATE_VCPU\<close> with the
  set-up of the VMCS for emulated real mode, and \<open>kvm_dev_release\<close>. What the code takes from
  the kernel it runs in is a \<open>host_env\<close>: the kernel's selectors, the address the processor
  returns to, the results of the allocators and the image of a reset floating point unit.
\<close>

record host_env =
  env_kernel_cs :: u16
  env_kernel_ds :: u16
  env_tss :: u16
  env_vmx_return :: u64
  env_vmcs :: "u64 option"
  env_guest_msrs :: "(u64 \<times> vmx_msr_entry list) option"
  env_host_msrs :: "(u64 \<times> vmx_msr_entry list) option"
  env_fpu_init :: "u8 list"

text \<open>
  \<open>env_vmcs\<close> is the address of the new VMCS; the tables of \<open>kmalloc\<close> come with their physical
  address and what the memory holds.
\<close>

definition MSR_IA32_VMX_PINBASED_CTLS_MSR :: u32 where
  "MSR_IA32_VMX_PINBASED_CTLS_MSR = 0x481"

definition MSR_IA32_VMX_PROCBASED_CTLS_MSR :: u32 where
  "MSR_IA32_VMX_PROCBASED_CTLS_MSR = 0x482"

definition MSR_IA32_VMX_EXIT_CTLS_MSR :: u32 where
  "MSR_IA32_VMX_EXIT_CTLS_MSR = 0x483"

definition MSR_IA32_VMX_ENTRY_CTLS_MSR :: u32 where
  "MSR_IA32_VMX_ENTRY_CTLS_MSR = 0x484"

definition FX_IMAGE_SIZE :: nat where
  "FX_IMAGE_SIZE = 512"

definition HOST_IS_64 :: u32 where
  "HOST_IS_64 = 1"

section \<open>Registers and the floating point image\<close>

definition get_rdx_init_val :: u32 where
  "get_rdx_init_val = 1"

definition setup_registers :: "vm \<Rightarrow> vm" where
  "setup_registers s =
     s\<lparr>vcpu := (vcpu s)\<lparr>regs := (\<lambda>_. 0)(VCPU_REGS_RDX := ucast get_rdx_init_val), cr8 := 0,
                        apic_base := 0xfee00000 OR push_bit 8 1 OR push_bit 11 1\<rparr>\<rparr>"

text \<open>\<open>mxcsr\<close> is at byte 24 of the image, and what follows \<open>mxcsr_mask\<close> is cleared.\<close>

definition fx_init :: "host_env \<Rightarrow> vm \<Rightarrow> vm" where
  "fx_init env s =
     (let s = s\<lparr>vcpu := (vcpu s)\<lparr>host_fx_image := h_fpu (host s)\<rparr>\<rparr>;
          s = set_host ((host s)\<lparr>h_fpu := env_fpu_init env\<rparr>) s;
          image = h_fpu (host s);
          s = s\<lparr>vcpu := (vcpu s)\<lparr>guest_fx_image := image\<rparr>\<rparr>;
          s = set_host ((host s)\<lparr>h_fpu := host_fx_image (vcpu s)\<rparr>) s
      in s\<lparr>vcpu := (vcpu s)\<lparr>guest_fx_image :=
           take 24 image @ [0x80, 0x1f, 0, 0] @ take 4 (drop 28 image) @ replicate (FX_IMAGE_SIZE - 32) 0\<rparr>\<rparr>)"

section \<open>The guest's state\<close>

definition seg_setup :: "seg_field \<Rightarrow> vm \<Rightarrow> vm" where
  "seg_setup f s =
     (let s = vmcs_write16 (f_selector f) 0 s;
          s = vmcs_writel (f_base f) 0 s;
          s = vmcs_write32 (f_limit f) 0xffff s
      in vmcs_write32 (f_ar f) 0x93 s)"

definition setup_segments :: "vm \<Rightarrow> vm" where
  "setup_segments s =
     (let s = vmcs_write16 GUEST_CS_SELECTOR 0xf000 s;
          s = vmcs_writel GUEST_CS_BASE 0x000f0000 s;
          s = vmcs_write32 GUEST_CS_LIMIT 0xffff s;
          s = vmcs_write32 GUEST_CS_AR_BYTES 0x9b s;
          s = seg_setup DS s; s = seg_setup ES s; s = seg_setup FS s;
          s = seg_setup GS s; s = seg_setup SS s;
          s = vmcs_write16 GUEST_TR_SELECTOR 0 s;
          s = vmcs_writel GUEST_TR_BASE 0 s;
          s = vmcs_write32 GUEST_TR_LIMIT 0xffff s;
          s = vmcs_write32 GUEST_TR_AR_BYTES 0x008b s;
          s = vmcs_write16 GUEST_LDTR_SELECTOR 0 s;
          s = vmcs_writel GUEST_LDTR_BASE 0 s;
          s = vmcs_write32 GUEST_LDTR_LIMIT 0xffff s
      in vmcs_write32 GUEST_LDTR_AR_BYTES 0x00082 s)"

definition setup_guest_state :: "vm \<Rightarrow> vm" where
  "setup_guest_state s =
     (let s = vmcs_write32 GUEST_SYSENTER_CS 0 s;
          s = vmcs_writel GUEST_SYSENTER_ESP 0 s;
          s = vmcs_writel GUEST_SYSENTER_EIP 0 s;
          s = vmcs_writel GUEST_RFLAGS 0x02 s;
          s = vmcs_writel GUEST_RIP 0xfff0 s;
          s = vmcs_writel GUEST_RSP 0 s;
          s = vmcs_writel GUEST_CR3 0 s;
          s = vmcs_writel GUEST_DR7 0x400 s;
          s = vmcs_writel GUEST_GDTR_BASE 0 s;
          s = vmcs_write32 GUEST_GDTR_LIMIT 0xffff s;
          s = vmcs_writel GUEST_IDTR_BASE 0 s;
          s = vmcs_write32 GUEST_IDTR_LIMIT 0xffff s;
          s = vmcs_write32 GUEST_ACTIVITY_STATE 0 s;
          s = vmcs_write32 GUEST_INTERRUPTIBILITY_INFO 0 s;
          s = vmcs_write32 GUEST_PENDING_DBG_EXCEPTIONS 0 s;
          s = vmcs_write64 IO_BITMAP_A 0 s;
          s = vmcs_write64 IO_BITMAP_B 0 s;
          s = vmcs_write64 TSC_OFFSET (- h_tsc (host s)) s;
          s = vmcs_write64 VMCS_LINK_POINTER (NOT 0) s
      in vmcs_write64 GUEST_IA32_DEBUGCTL 0 s)"

section \<open>Controls and the host's state\<close>

text \<open>
  The low half of the capability register has the bits that must be 1, the high half those that
  may be.
\<close>

definition vmcs_write32_fixedbits :: "u32 \<Rightarrow> nat \<Rightarrow> u32 \<Rightarrow> vm \<Rightarrow> vm" where
  "vmcs_write32_fixedbits msr vmcs_field val s =
     (let msr_low = ucast (h_msr (host s) msr);
          msr_high = ucast (drop_bit 32 (h_msr (host s) msr))
      in vmcs_write32 vmcs_field ((val AND msr_high) OR msr_low) s)"

definition setup_controls :: "vm \<Rightarrow> vm" where
  "setup_controls s =
     (let s = vmcs_write32_fixedbits MSR_IA32_VMX_PINBASED_CTLS_MSR PIN_BASED_VM_EXEC_CONTROL
                (PIN_BASED_EXT_INTR_MASK OR PIN_BASED_NMI_EXITING) s;
          s = vmcs_write32_fixedbits MSR_IA32_VMX_PROCBASED_CTLS_MSR CPU_BASED_VM_EXEC_CONTROL
                (CPU_BASED_HLT_EXITING OR CPU_BASED_CR8_LOAD_EXITING OR CPU_BASED_CR8_STORE_EXITING OR
                 CPU_BASED_UNCOND_IO_EXITING OR CPU_BASED_INVDPG_EXITING OR
                 CPU_BASED_MOV_DR_EXITING OR CPU_BASED_USE_TSC_OFFSETING) s;
          s = vmcs_write32 EXCEPTION_BITMAP (push_bit (unat PF_VECTOR) 1) s;
          s = vmcs_write32 PAGE_FAULT_ERROR_CODE_MASK 0 s;
          s = vmcs_write32 PAGE_FAULT_ERROR_CODE_MATCH 0 s
      in vmcs_write32 CR3_TARGET_COUNT 0 s)"

definition setup_host_state :: "host_env \<Rightarrow> vm \<Rightarrow> vm" where
  "setup_host_state env s =
     (let s = vmcs_writel HOST_CR0 (h_cr0 (host s)) s;
          s = vmcs_writel HOST_CR4 (h_cr4 (host s)) s;
          s = vmcs_writel HOST_CR3 (h_cr3 (host s)) s;
          s = vmcs_write16 HOST_CS_SELECTOR (env_kernel_cs env) s;
          s = vmcs_write16 HOST_DS_SELECTOR (env_kernel_ds env) s;
          s = vmcs_write16 HOST_ES_SELECTOR (env_kernel_ds env) s;
          s = vmcs_write16 HOST_FS_SELECTOR (h_fs (host s)) s;
          s = vmcs_write16 HOST_GS_SELECTOR (h_gs (host s)) s;
          s = vmcs_write16 HOST_SS_SELECTOR (env_kernel_ds env) s;
          s = vmcs_writel HOST_FS_BASE (h_msr (host s) MSR_FS_BASE) s;
          s = vmcs_writel HOST_GS_BASE (h_msr (host s) MSR_GS_BASE) s;
          s = vmcs_write16 HOST_TR_SELECTOR (env_tss env) s;
          s = vmcs_writel HOST_IDTR_BASE (h_idt_base (host s)) s;
          s = vmcs_writel HOST_RIP (env_vmx_return env) s;
          s = vmcs_write32 HOST_IA32_SYSENTER_CS (ucast (h_msr (host s) MSR_IA32_SYSENTER_CS)) s;
          s = vmcs_writel HOST_IA32_SYSENTER_ESP (h_msr (host s) MSR_IA32_SYSENTER_ESP) s
      in vmcs_writel HOST_IA32_SYSENTER_EIP (h_msr (host s) MSR_IA32_SYSENTER_EIP) s)"

section \<open>Model specific registers\<close>

text \<open>One round of the loop over the table; \<open>rdmsr_safe\<close> fails for a register that is not there.\<close>

definition add_msr :: "u32 \<Rightarrow> vm \<Rightarrow> vm" where
  "add_msr index s =
     (if \<not> h_msr_valid (host s) index then s
      else
        let j = nmsrs (vcpu s);
            entry = \<lparr>msr_index = index, msr_reserved = 0, msr_data = h_msr (host s) index\<rparr>
        in s\<lparr>vcpu := (vcpu s)\<lparr>host_msrs := (host_msrs (vcpu s))[j := entry],
                              guest_msrs := (guest_msrs (vcpu s))[j := entry], nmsrs := j + 1\<rparr>\<rparr>)"

definition setup_msr_lists :: "u64 \<Rightarrow> u64 \<Rightarrow> vm \<Rightarrow> vm" where
  "setup_msr_lists guest_addr host_addr s =
     (let nr_good_msrs = of_nat (nmsrs (vcpu s)) - of_nat NR_BAD_MSRS;
          skip = of_nat (16 * NR_BAD_MSRS);
          s = vmcs_writel VM_ENTRY_MSR_LOAD_ADDR (guest_addr + skip) s;
          s = vmcs_writel VM_EXIT_MSR_STORE_ADDR (guest_addr + skip) s;
          s = vmcs_writel VM_EXIT_MSR_LOAD_ADDR (host_addr + skip) s;
          s = vmcs_write32_fixedbits MSR_IA32_VMX_EXIT_CTLS_MSR VM_EXIT_CONTROLS (push_bit 9 HOST_IS_64) s;
          s = vmcs_write32 VM_EXIT_MSR_STORE_COUNT nr_good_msrs s;
          s = vmcs_write32 VM_EXIT_MSR_LOAD_COUNT nr_good_msrs s
      in vmcs_write32 VM_ENTRY_MSR_LOAD_COUNT nr_good_msrs s)"

definition setup_modes :: "vm \<Rightarrow> vm" where
  "setup_modes s =
     (let s = vmcs_write32_fixedbits MSR_IA32_VMX_ENTRY_CTLS_MSR VM_ENTRY_CONTROLS 0 s;
          s = vmcs_write32 VM_ENTRY_INTR_INFO_FIELD 0 s;
          s = vmcs_writel VIRTUAL_APIC_PAGE_ADDR 0 s;
          s = vmcs_writel TPR_THRESHOLD 0 s;
          s = vmcs_writel CR0_GUEST_HOST_MASK KVM_GUEST_CR0_MASK s;
          s = vmcs_writel CR4_GUEST_HOST_MASK KVM_GUEST_CR4_MASK s;
          s = internal_set_cr0 0x60000010 s;
          s = internal_set_cr4 0 s
      in internal_set_efer 0 s)"

text \<open>
  The first component is the error, \<open>None\<close> for a result of 0: a virtual machine that has no
  memory for the task state segment yet gets this result as well, with nothing set up.
\<close>

definition kvm_vcpu_setup :: "host_env \<Rightarrow> vm \<Rightarrow> errno option \<times> vm" where
  "kvm_vcpu_setup env s =
     (let (ok, s) = init_rmode_tss s
      in if \<not> ok then (None, s)
         else
           let s = fx_init env (setup_registers s);
               s = setup_host_state env (setup_controls (setup_guest_state (setup_segments s)))
           in case env_guest_msrs env of
                None \<Rightarrow> (Some ENOMEM, s)
              | Some (guest_addr, gs) \<Rightarrow>
                  let s = s\<lparr>vcpu := (vcpu s)\<lparr>guest_msrs := gs\<rparr>\<rparr>
                  in case env_host_msrs env of
                       None \<Rightarrow> (Some ENOMEM, s)
                     | Some (host_addr, hs) \<Rightarrow>
                         let s = s\<lparr>vcpu := (vcpu s)\<lparr>host_msrs := hs\<rparr>\<rparr>;
                             s = fold add_msr vmx_msr_index s;
                             s = setup_modes (setup_msr_lists guest_addr host_addr s);
                             (ok, s) = kvm_mmu_init s
                         in (if ok then None else Some ENOMEM, s))"

section \<open>Creation and release\<close>

text \<open>
  \<open>__vcpu_clear\<close> on the cpu that runs; on the other cpus it is in \<open>Vcpu_Switch\<close>. The tables of model
  specific registers are not freed.
\<close>

definition vcpu_clear_here :: "vm \<Rightarrow> vm" where
  "vcpu_clear_here s =
     (if h_current_vmcs (host s) = vcpu_vmcs (vcpu s)
      then set_host ((host s)\<lparr>h_current_vmcs := None\<rparr>) s else s)"

definition kvm_free_vmcs :: "vm \<Rightarrow> vm" where
  "kvm_free_vmcs s =
     (if vcpu_vmcs (vcpu s) = None then s
      else let s = vcpu_clear_here s in s\<lparr>vcpu := (vcpu s)\<lparr>vcpu_vmcs := None\<rparr>\<rparr>)"

definition kvm_free_vcpu :: "vm \<Rightarrow> vm" where
  "kvm_free_vcpu s = kvm_mmu_destroy (kvm_free_vmcs s)"

text \<open>The new VMCS is all zero; a failure to allocate it reports \<open>EINVAL\<close>.\<close>

definition kvm_dev_ioctl_create_vcpu :: "host_env \<Rightarrow> int \<Rightarrow> vm \<Rightarrow> errno option \<times> vm" where
  "kvm_dev_ioctl_create_vcpu env n s =
     (if n < 0 \<or> n \<ge> int KVM_MAX_VCPUS then (Some EINVAL, s)
      else if vcpu_vmcs (vcpu s) \<noteq> None then (Some EEXIST, s)
      else
        let s = s\<lparr>vcpu := (vcpu s)\<lparr>vcpu_cpu := -1\<rparr>\<rparr>
        in case env_vmcs env of
             None \<Rightarrow> (Some EINVAL, kvm_free_vcpu s)
           | Some p \<Rightarrow>
               let s = s\<lparr>vmcs := \<lambda>_. 0, vcpu := (vcpu s)\<lparr>vcpu_vmcs := Some p, launched := False\<rparr>\<rparr>;
                   s = internal_vcpu_load s;
                   (r, s) = kvm_vcpu_setup env s
               in if r \<noteq> None then (r, kvm_free_vcpu s) else (None, s))"

text \<open>A new virtual machine is all zero but for its lists and the root of the shadow tree.\<close>

definition kvm_dev_open :: "vm \<Rightarrow> vm" where
  "kvm_dev_open k =
     zero_vm\<lparr>vcpu := zero_vcpu\<lparr>mmu := zero_mmu\<lparr>root_hpa := INVALID_PAGE\<rparr>\<rparr>,
             hmem := hmem k, page_private := page_private k, free_frames := free_frames k,
             vmalloc_results := vmalloc_results k, host := host k,
             bad_page_address := bad_page_address k, kvm_stat := kvm_stat k\<rparr>"

definition kvm_dev_release :: "vm \<Rightarrow> vm" where
  "kvm_dev_release s = kvm_free_physmem (kvm_free_vcpu s)"

section \<open>The state after reset\<close>

lemma fixedbits_reads:
  "f \<noteq> g \<Longrightarrow> vmcs_readl (vmcs_write32_fixedbits msr g v s) f = vmcs_readl s f"
  "f \<noteq> g \<Longrightarrow> vmcs_read32 (vmcs_write32_fixedbits msr g v s) f = vmcs_read32 s f"
  "vcpu (vmcs_write32_fixedbits msr g v s) = vcpu s" "host (vmcs_write32_fixedbits msr g v s) = host s"
  by (simp_all add: vmcs_write32_fixedbits_def Let_def vmcs_simps)

lemma real_mode_cr0:
  assumes "\<not> rmode_active (rmode (vcpu s))" "shadow_efer (vcpu s) = 0"
  shows "internal_set_cr0 0x60000010 s = vmcs_writel GUEST_CR0 (0x60000010 OR KVM_VM_CR0_ALWAYS_ON)
    (vmcs_writel CR0_READ_SHADOW 0x60000010 (enter_rmode s))"
proof -
  have b: "\<not> bit (0x60000010 :: u64) 0" by code_simp
  show ?thesis using assms b by (simp add: internal_set_cr0_split cr0_rmode_def cr0_lmode_def Let_def)
qed

text \<open>The controls that are left to the processor's requirements keep LMA's bit clear.\<close>

lemma enter_rmode_more:
  "vmcs_read16 (enter_rmode s) GUEST_CS_SELECTOR = ucast (drop_bit 4 (vmcs_readl s GUEST_CS_BASE))"
  "regs (vcpu (enter_rmode s)) = regs (vcpu s)"
  by (simp_all add: enter_rmode_def rmode_segments_def fix_rmode_seg_def update_exception_bitmap_def
      Let_def vmcs_simps)

lemma regs_internal_set_efer: "regs (vcpu (internal_set_efer e s)) = regs (vcpu s)"
  by (simp add: internal_set_efer_def update_msr_def Let_def vmcs_simps split: option.split)

lemma setup_modes_effect:
  assumes "\<not> rmode_active (rmode (vcpu s))" "shadow_efer (vcpu s) = 0"
  shows "mode_ok (setup_modes s)" "guest_cr0 (setup_modes s) = 0x60000010"
    "guest_cr4 (setup_modes s) = 0" "rmode_active (rmode (vcpu (setup_modes s)))"
    "f \<in> {GUEST_RIP, GUEST_CS_BASE} \<Longrightarrow> vmcs_readl (setup_modes s) f = vmcs_readl s f"
    "vmcs_read16 (setup_modes s) GUEST_CS_SELECTOR = ucast (drop_bit 4 (vmcs_readl s GUEST_CS_BASE))"
    "regs (vcpu (setup_modes s)) = regs (vcpu s)"
proof -
  define v where "v = (let s = vmcs_write32_fixedbits MSR_IA32_VMX_ENTRY_CTLS_MSR VM_ENTRY_CONTROLS 0 s;
          s = vmcs_write32 VM_ENTRY_INTR_INFO_FIELD 0 s;
          s = vmcs_writel VIRTUAL_APIC_PAGE_ADDR 0 s;
          s = vmcs_writel TPR_THRESHOLD 0 s;
          s = vmcs_writel CR0_GUEST_HOST_MASK KVM_GUEST_CR0_MASK s
      in vmcs_writel CR4_GUEST_HOST_MASK KVM_GUEST_CR4_MASK s)"
  define w where "w = vmcs_writel GUEST_CR0 (0x60000010 OR KVM_VM_CR0_ALWAYS_ON)
    (vmcs_writel CR0_READ_SHADOW 0x60000010 (enter_rmode v))"
  have vv: "vcpu v = vcpu s" "f \<in> {GUEST_RIP, GUEST_CS_BASE} \<Longrightarrow> vmcs_readl v f = vmcs_readl s f" for f
    by (auto simp: v_def Let_def vmcs_simps fixedbits_reads)
  have t: "setup_modes s = internal_set_efer 0 (internal_set_cr4 0 w)"
    unfolding w_def using real_mode_cr0 [of v] assms vv(1) by (simp add: setup_modes_def v_def Let_def)
  note e = t w_def internal_set_cr4_def Let_def vmcs_simps
  have m: "f \<in> mode_fields" if "f \<in> {GUEST_RIP, GUEST_CS_BASE}" for f
    using that by (auto simp: mode_fields_def)
  have c: "\<not> bit (0x60000010 :: u64) 31" "\<not> bit (0x60000010 :: u64) 0" by code_simp+
  have vm: "vcpu (setup_modes s) = vcpu (internal_set_efer 0 (internal_set_cr4 0 w))" by (simp add: t)
  have rm: "rmode (vcpu (setup_modes s)) = rmode (vcpu (enter_rmode v))"
    by (simp add: e internal_set_efer_def update_msr_vcpu)
  then show "rmode_active (rmode (vcpu (setup_modes s)))" by simp
  have ex: "vmcs_read32 (setup_modes s) EXCEPTION_BITMAP = NOT 0"
    by (simp add: e internal_set_efer_def update_msr_vcpu enter_rmode_reads)
  have en: "\<not> bit (vmcs_read32 (setup_modes s) VM_ENTRY_CONTROLS) 9"
    by (simp add: e internal_set_efer_def update_msr_vcpu bit_and_iff bit_not_iff bit_vmx_masks)
  have rd: "vmcs_readl (setup_modes s) CR0_READ_SHADOW = 0x60000010"
    "vmcs_readl (setup_modes s) GUEST_CR0 = 0x60000010 OR KVM_VM_CR0_ALWAYS_ON"
    "vmcs_readl (setup_modes s) CR4_READ_SHADOW = 0"
    "vmcs_readl (setup_modes s) GUEST_CR4 = KVM_RMODE_VM_CR4_ALWAYS_ON"
    "vmcs_readl (setup_modes s) GUEST_RFLAGS = vmcs_readl v GUEST_RFLAGS OR IOPL_MASK OR X86_EFLAGS_VM"
    by (simp_all add: e internal_set_efer_frame enter_rmode_reads)
  have ef: "shadow_efer (vcpu (setup_modes s)) = 0" by (simp add: t internal_set_efer_frame)
  show "mode_ok (setup_modes s)"
    using rm ex en rd ef c by (simp add: mode_ok_bits Let_def bit_or_iff mask_bits)
  show "guest_cr0 (setup_modes s) = 0x60000010" "guest_cr4 (setup_modes s) = 0"
    by (rule bit_word_eqI, auto simp: bit_guest_cr0 bit_guest_cr4 rd bit_or_iff mask_bits)+
  show "f \<in> {GUEST_RIP, GUEST_CS_BASE} \<Longrightarrow> vmcs_readl (setup_modes s) f = vmcs_readl s f"
    using m [of f] vv(2) [of f] by (auto simp: e internal_set_efer_frame)
  show "vmcs_read16 (setup_modes s) GUEST_CS_SELECTOR = ucast (drop_bit 4 (vmcs_readl s GUEST_CS_BASE))"
    using enter_rmode_more(1) [of v] vv(2) by (simp add: e internal_set_efer_frame vmcs_read16_def)
  show "regs (vcpu (setup_modes s)) = regs (vcpu s)"
    using vv(1) by (simp add: e regs_internal_set_efer enter_rmode_more)
qed

text \<open>Filling the pool leaves the registers alone.\<close>

lemma cpu_view_pool_ops [simp]:
  "cpu_view (set_header h x s) = cpu_view s" "cpu_view (set_free_pages hs s) = cpu_view s"
  "cpu_view (list_del h s) = cpu_view s" "cpu_view (free_page f s) = cpu_view s"
  "cpu_view (s\<lparr>page_private := pp\<rparr>) = cpu_view s" "cpu_view (snd (alloc_page s)) = cpu_view s"
  by (simp_all add: cpu_view_def set_header_def set_free_pages_def list_del_def free_page_def
      alloc_page_def split: list.split)

lemma cpu_view_free_list [simp]: "cpu_view (free_mmu_pages_list hs s) = cpu_view s"
  by (induction hs s rule: free_mmu_pages_list.induct) (simp_all add: Let_def)

lemma cpu_view_alloc_mmu: "cpu_view (snd (alloc_mmu_pages_from n i s)) = cpu_view s"
proof (induction n i s rule: alloc_mmu_pages_from.induct)
  case (2 n i s)
  obtain page u where a: "alloc_page s = (page, u)" by fastforce
  have u: "cpu_view u = cpu_view s" using cpu_view_pool_ops(6) [of s] by (simp add: a)
  show ?case
    using 2 [OF a [symmetric] refl _ refl refl refl refl refl] u
    by (simp add: a Let_def free_mmu_pages_def)
qed simp

lemma cpu_view_mmu_init: "kvm_mmu_init s = (ok, t) \<Longrightarrow> cpu_view t = cpu_view s"
  using cpu_view_alloc_mmu [of KVM_NUM_MMU_PAGES 0 s]
  by (auto simp: kvm_mmu_init_def alloc_mmu_pages_def split: prod.splits if_splits)

text \<open>The virtual cpu just before its shadow MMU is set up.\<close>

definition with_msrs :: "vmx_msr_entry list \<Rightarrow> vmx_msr_entry list \<Rightarrow> vm \<Rightarrow> vm" where
  "with_msrs gs hs s = s\<lparr>vcpu := (vcpu s)\<lparr>guest_msrs := gs, host_msrs := hs\<rparr>\<rparr>"

definition reset_state :: "host_env \<Rightarrow> vm \<Rightarrow> vm" where
  "reset_state env s =
     (let s = fx_init env (setup_registers (snd (init_rmode_tss s)));
          s = setup_host_state env (setup_controls (setup_guest_state (setup_segments s)));
          s = with_msrs (snd (the (env_guest_msrs env))) (snd (the (env_host_msrs env))) s
      in setup_msr_lists (fst (the (env_guest_msrs env))) (fst (the (env_host_msrs env)))
           (fold add_msr vmx_msr_index s))"

lemma kvm_vcpu_setup_split:
  assumes "fst (init_rmode_tss s)" "env_guest_msrs env \<noteq> None" "env_host_msrs env \<noteq> None"
  shows "kvm_vcpu_setup env s = (let (ok, s) = kvm_mmu_init (setup_modes (reset_state env s))
     in (if ok then None else Some ENOMEM, s))"
  using assms by (auto simp: kvm_vcpu_setup_def reset_state_def with_msrs_def Let_def split_beta)

lemma kvm_vcpu_setup_ok:
  assumes "kvm_vcpu_setup env s = (None, t)" "fst (init_rmode_tss s)"
  shows "env_guest_msrs env \<noteq> None" "env_host_msrs env \<noteq> None"
    "kvm_mmu_init (setup_modes (reset_state env s)) = (True, t)"
proof -
  show "env_guest_msrs env \<noteq> None"
  proof
    assume "env_guest_msrs env = None"
    then show False using assms by (simp add: kvm_vcpu_setup_def Let_def split_beta)
  qed
  moreover show "env_host_msrs env \<noteq> None"
  proof
    assume "env_host_msrs env = None"
    then show False using assms calculation by (auto simp: kvm_vcpu_setup_def Let_def split_beta)
  qed
  ultimately show "kvm_mmu_init (setup_modes (reset_state env s)) = (True, t)"
    using assms by (auto simp: kvm_vcpu_setup_split Let_def split: prod.splits if_splits)
qed

lemma add_msr_frame:
  "vmcs_readl (add_msr i s) = vmcs_readl s" "host (add_msr i s) = host s"
  "rmode (vcpu (add_msr i s)) = rmode (vcpu s)" "shadow_efer (vcpu (add_msr i s)) = shadow_efer (vcpu s)"
  "regs (vcpu (add_msr i s)) = regs (vcpu s)"
  by (simp_all add: add_msr_def Let_def vmcs_readl_def [abs_def])

lemma add_msrs_frame:
  "vmcs_readl (fold add_msr is s) = vmcs_readl s" "host (fold add_msr is s) = host s"
  "rmode (vcpu (fold add_msr is s)) = rmode (vcpu s)"
  "shadow_efer (vcpu (fold add_msr is s)) = shadow_efer (vcpu s)"
  "regs (vcpu (fold add_msr is s)) = regs (vcpu s)"
  by (induction "is" arbitrary: s) (simp_all add: add_msr_frame)

lemma init_rmode_tss_frame:
  "vcpu (snd (init_rmode_tss s)) = vcpu s" "host (snd (init_rmode_tss s)) = host s"
  by (simp_all add: init_rmode_tss_def Let_def)

lemmas setup_vcpu_defs = setup_host_state_def setup_controls_def setup_guest_state_def
  setup_segments_def seg_setup_def fx_init_def setup_registers_def with_msrs_def setup_msr_lists_def

lemma reset_state_reads:
  "vmcs_readl (reset_state env s) GUEST_RIP = 0xfff0"
  "vmcs_readl (reset_state env s) GUEST_CS_BASE = 0xf0000"
  "rmode (vcpu (reset_state env s)) = rmode (vcpu s)"
  "shadow_efer (vcpu (reset_state env s)) = shadow_efer (vcpu s)"
  "regs (vcpu (reset_state env s)) = (\<lambda>_. 0)(VCPU_REGS_RDX := 1)"
  by (simp_all add: reset_state_def setup_vcpu_defs Let_def add_msrs_frame fixedbits_reads vmcs_simps
      set_host_def init_rmode_tss_frame get_rdx_init_val_def segment_names)

text \<open>
  C30: a virtual cpu that was set up is in the state of a processor after reset: it is in real
  mode, the mode invariant of the control registers holds from the start, it will fetch from
  \<open>F000:FFF0\<close>, and its registers are 0 but for \<open>RDX\<close>.
\<close>

theorem vcpu_setup_reset:
  assumes "kvm_vcpu_setup env s = (None, t)" "fst (init_rmode_tss s)"
    and fresh: "\<not> rmode_active (rmode (vcpu s))" "shadow_efer (vcpu s) = 0"
  shows "mode_ok t \<and> rmode_active (rmode (vcpu t)) \<and> guest_cr0 t = 0x60000010 \<and> guest_cr4 t = 0 \<and>
    vmcs_read16 t GUEST_CS_SELECTOR = 0xf000 \<and> vmcs_readl t GUEST_CS_BASE = 0xf0000 \<and>
    vmcs_readl t GUEST_RIP = 0xfff0 \<and> regs (vcpu t) = (\<lambda>_. 0)(VCPU_REGS_RDX := 1)"
proof -
  let ?r = "reset_state env s"
  have v: "cpu_view t = cpu_view (setup_modes ?r)"
    by (rule cpu_view_mmu_init [OF kvm_vcpu_setup_ok(3) [OF assms(1,2)]])
  note r = reset_state_reads [of env s]
  have f: "\<not> rmode_active (rmode (vcpu ?r))" "shadow_efer (vcpu ?r) = 0" using r(3,4) fresh by simp_all
  note m = setup_modes_effect [OF f]
  have g: "guest_cr0 t = guest_cr0 (setup_modes ?r)" "guest_cr4 t = guest_cr4 (setup_modes ?r)"
    using cpu_viewD(1) [OF v] by (simp_all add: guest_cr0_def guest_cr4_def)
  show ?thesis
    using m r mode_ok_view [OF v] g cpu_viewD(1) [OF v, of GUEST_RIP] cpu_viewD(1) [OF v, of GUEST_CS_BASE]
      cpu_viewD(2) [OF v, of GUEST_CS_SELECTOR] cpu_viewD(5,7) [OF v]
    by simp
qed

section \<open>The tables of registers\<close>

text \<open>Registers added from an empty table are those of the list that the processor has, in order.\<close>

lemma add_msrs_tables:
  assumes "nmsrs (vcpu s) + length is \<le> length (guest_msrs (vcpu s))"
    "nmsrs (vcpu s) + length is \<le> length (host_msrs (vcpu s))" "\<forall>i \<in> set is. h_msr_valid (host s) i"
  defines "e \<equiv> map (\<lambda>i. \<lparr>msr_index = i, msr_reserved = 0, msr_data = h_msr (host s) i\<rparr>) is"
  shows "nmsrs (vcpu (fold add_msr is s)) = nmsrs (vcpu s) + length is \<and>
    take (nmsrs (vcpu s) + length is) (guest_msrs (vcpu (fold add_msr is s))) =
      take (nmsrs (vcpu s)) (guest_msrs (vcpu s)) @ e \<and>
    take (nmsrs (vcpu s) + length is) (host_msrs (vcpu (fold add_msr is s))) =
      take (nmsrs (vcpu s)) (host_msrs (vcpu s)) @ e"
  using assms(1-3) unfolding e_def
proof (induction "is" arbitrary: s)
  case (Cons i "is")
  let ?t = "add_msr i s" and ?n = "nmsrs (vcpu s)"
  let ?x = "\<lparr>msr_index = i, msr_reserved = 0, msr_data = h_msr (host s) i\<rparr>"
  have t: "nmsrs (vcpu ?t) = Suc ?n" "guest_msrs (vcpu ?t) = (guest_msrs (vcpu s))[?n := ?x]"
    "host_msrs (vcpu ?t) = (host_msrs (vcpu s))[?n := ?x]" "host ?t = host s"
    using Cons.prems(3) by (simp_all add: add_msr_def Let_def)
  have k: "take (Suc ?n) (xs[?n := ?x]) = take ?n xs @ [?x]" if "?n < length xs" for xs
    using that by (simp add: take_Suc_conv_app_nth)
  show ?case
    using Cons.IH [of ?t] Cons.prems k by (simp add: t)
qed simp

lemma setup_msr_lists_frame:
  "guest_msrs (vcpu (setup_msr_lists g h s)) = guest_msrs (vcpu s)"
  "host_msrs (vcpu (setup_msr_lists g h s)) = host_msrs (vcpu s)"
  "nmsrs (vcpu (setup_msr_lists g h s)) = nmsrs (vcpu s)"
  by (simp_all add: setup_msr_lists_def Let_def vmcs_simps fixedbits_reads)

lemma setup_modes_tables:
  assumes "\<not> rmode_active (rmode (vcpu s))" "shadow_efer (vcpu s) = 0"
  shows "map msr_index (guest_msrs (vcpu (setup_modes s))) = map msr_index (guest_msrs (vcpu s))"
    "host_msrs (vcpu (setup_modes s)) = host_msrs (vcpu s)" "nmsrs (vcpu (setup_modes s)) = nmsrs (vcpu s)"
proof -
  have u: "map msr_index (guest_msrs (vcpu (update_msr e g u))) = map msr_index (guest_msrs (vcpu u))"
    "host_msrs (vcpu (update_msr e g u)) = host_msrs (vcpu u)"
    "nmsrs (vcpu (update_msr e g u)) = nmsrs (vcpu u)" for e g u
    by (auto simp: update_msr_def map_update list_update_id split: option.split)
      (metis length_map list_update_beyond list_update_id not_le nth_map)
  have r: "guest_msrs (vcpu (enter_rmode u)) = guest_msrs (vcpu u)"
    "host_msrs (vcpu (enter_rmode u)) = host_msrs (vcpu u)" "nmsrs (vcpu (enter_rmode u)) = nmsrs (vcpu u)" for u
    by (simp_all add: enter_rmode_def rmode_segments_def fix_rmode_seg_def update_exception_bitmap_def
        Let_def vmcs_simps)
  note d = setup_modes_def Let_def real_mode_cr0 fixedbits_reads vmcs_simps assms internal_set_cr4_def
    internal_set_efer_def u r
  show "map msr_index (guest_msrs (vcpu (setup_modes s))) = map msr_index (guest_msrs (vcpu s))"
    "host_msrs (vcpu (setup_modes s)) = host_msrs (vcpu s)" "nmsrs (vcpu (setup_modes s)) = nmsrs (vcpu s)"
    by (simp_all add: d)
qed

lemma host_msrs_view: "cpu_view t = cpu_view s \<Longrightarrow> host_msrs (vcpu t) = host_msrs (vcpu s)"
  by (cases "vcpu t"; cases "vcpu s"; simp add: cpu_view_def)

lemma find_msr_entry_exists:
  assumes "i < nmsrs (vcpu s)" "msr_index (guest_msrs (vcpu s) ! i) = m"
  shows "find_msr_entry s m \<noteq> None"
  using assms by (auto simp: find_msr_entry_def find_None_iff)


section \<open>A concrete set-up\<close>

text \<open>What the pool needs is not touched by the set-up.\<close>

definition start_view :: "vm \<Rightarrow> nat list \<times> nat list \<times> u64 list" where
  "start_view s = (active_mmu_pages s, free_pages (vcpu s), free_frames s)"

lemma start_view_vmcs [simp]:
  "start_view (vmcs_writel f v s) = start_view s" "start_view (vmcs_write16 f w s) = start_view s"
  "start_view (vmcs_write32 f x s) = start_view s" "start_view (vmcs_write64 f v s) = start_view s"
  "start_view (vmcs_write32_fixedbits m f x s) = start_view s"
  "start_view (set_host h s) = start_view s" "start_view (add_msr i s) = start_view s"
  "start_view (set_rmode rm s) = start_view s" "start_view (set_shadow_efer e s) = start_view s"
  "start_view (update_msr k g s) = start_view s" "start_view (s\<lparr>hmem := hm\<rparr>) = start_view s"
  by (simp_all add: start_view_def vmcs_access_defs vmcs_write32_fixedbits_def set_host_def add_msr_def
      set_rmode_def set_shadow_efer_def update_msr_def Let_def split: option.split)

lemma start_view_add_msrs [simp]: "start_view (fold add_msr is s) = start_view s"
  by (induction "is" arbitrary: s) simp_all

lemma start_view_vcpu [simp]:
  "start_view (s\<lparr>vcpu := (vcpu s)\<lparr>regs := g, cr8 := c, apic_base := a\<rparr>\<rparr>) = start_view s"
  "start_view (s\<lparr>vcpu := (vcpu s)\<lparr>host_fx_image := i\<rparr>\<rparr>) = start_view s"
  "start_view (s\<lparr>vcpu := (vcpu s)\<lparr>guest_fx_image := i\<rparr>\<rparr>) = start_view s"
  "start_view (s\<lparr>vcpu := (vcpu s)\<lparr>guest_msrs := gs, host_msrs := hs\<rparr>\<rparr>) = start_view s"
  by (simp_all add: start_view_def)

lemma start_view_stages [simp]:
  "start_view (snd (init_rmode_tss s)) = start_view s"
  "start_view (setup_registers s) = start_view s"
  "start_view (fx_init env s) = start_view s"
  "start_view (seg_setup f s) = start_view s"
  "start_view (with_msrs gs hs s) = start_view s"
proof -
  show "start_view (snd (init_rmode_tss s)) = start_view s" by (simp add: init_rmode_tss_def Let_def)
  show "start_view (fx_init env s) = start_view s"
    by (simp add: fx_init_def set_host_def start_view_def Let_def)
qed (simp_all add: setup_registers_def seg_setup_def with_msrs_def Let_def)

lemma start_view_more_stages [simp]:
  "start_view (setup_segments s) = start_view s" "start_view (setup_guest_state s) = start_view s"
  "start_view (setup_controls s) = start_view s" "start_view (setup_host_state env s) = start_view s"
  "start_view (setup_msr_lists g h s) = start_view s"
  by (simp_all add: setup_segments_def setup_guest_state_def setup_controls_def setup_host_state_def
      setup_msr_lists_def Let_def)

lemma start_view_reset: "start_view (reset_state env s) = start_view s"
  by (simp add: reset_state_def Let_def)

lemma start_view_segments [simp]:
  "start_view (fix_rmode_seg a b c d s) = start_view s"
  "start_view (fix_pmode_dataseg a b c d s) = start_view s"
  "start_view (update_exception_bitmap s) = start_view s"
  by (simp_all add: fix_rmode_seg_def fix_pmode_dataseg_def update_exception_bitmap_def Let_def)

lemma start_view_mode_segments [simp]:
  "start_view (rmode_segments s) = start_view s" "start_view (pmode_segments s) = start_view s"
  by (simp_all add: rmode_segments_def pmode_segments_def Let_def)

lemma start_view_mode_stages [simp]:
  "start_view (enter_rmode s) = start_view s" "start_view (enter_pmode s) = start_view s"
  "start_view (enter_lmode s) = start_view s" "start_view (exit_lmode s) = start_view s"
  "start_view (internal_set_cr4 v s) = start_view s" "start_view (internal_set_efer v s) = start_view s"
  by (simp_all add: enter_rmode_def enter_pmode_def enter_lmode_def exit_lmode_def
      internal_set_cr4_def internal_set_efer_def Let_def)

lemma start_view_cr0 [simp]: "start_view (internal_set_cr0 v s) = start_view s"
  by (simp add: internal_set_cr0_split cr0_rmode_def cr0_lmode_def Let_def)

lemma start_view_modes: "start_view (setup_modes s) = start_view s"
  by (simp add: setup_modes_def Let_def)

text \<open>Creation succeeds when there is memory for the task state segment, the tables and the pool.\<close>

lemma vcpu_setup_succeeds:
  assumes "fst (init_rmode_tss s)" "env_guest_msrs env \<noteq> None" "env_host_msrs env \<noteq> None"
    "active_mmu_pages s = []" "free_pages (vcpu s) = []" "usable_frames (free_frames s)"
    "KVM_NUM_MMU_PAGES \<le> length (free_frames s)"
  shows "\<exists>t. kvm_vcpu_setup env s = (None, t) \<and> shadow_ok t"
proof -
  let ?u = "setup_modes (reset_state env s)"
  have "start_view ?u = start_view s"
    by (simp add: start_view_modes start_view_reset)
  then have u: "active_mmu_pages ?u = []" "free_pages (vcpu ?u) = []" "free_frames ?u = free_frames s"
    using assms(4,5) by (simp_all add: start_view_def)
  obtain ok t where i: "kvm_mmu_init ?u = (ok, t)" by fastforce
  have "\<And>t. kvm_mmu_init ?u = (ok, t) \<Longrightarrow> ok \<and> shadow_ok t"
    using mmu_init_well_formed [OF u(1,2)] u(3) assms(6,7) by metis
  then have "ok" "shadow_ok t" using i by blast+
  then show ?thesis using kvm_vcpu_setup_split [OF assms(1-3)] i by simp
qed

definition example_host_env :: host_env where
  "example_host_env = \<lparr>env_kernel_cs = 0x10, env_kernel_ds = 0x18, env_tss = 0x40, env_vmx_return = 0xffffffff81000000,
     env_vmcs = Some 0x2000,
     env_guest_msrs = Some (0x3000, replicate 256 \<lparr>msr_index = 0, msr_reserved = 0, msr_data = 0\<rparr>),
     env_host_msrs = Some (0x4000, replicate 256 \<lparr>msr_index = 0, msr_reserved = 0, msr_data = 0\<rparr>),
     env_fpu_init = replicate 512 0\<rparr>"

text \<open>A virtual machine with three pages of memory, where the task state segment goes.\<close>

definition example_new :: vm where
  "example_new = example_frames\<lparr>nmemslots := 1,
     memslots := (\<lambda>_. zero_slot)(0 := zero_slot\<lparr>npages := 3, phys_mem := 1\<rparr>),
     vheap := [1 \<mapsto> [300, 301, 302]], host := zero_host\<lparr>h_msr_valid := \<lambda>_. True\<rparr>\<rparr>"

lemma example_new_setup:
  "\<exists>t. kvm_vcpu_setup example_host_env example_new = (None, t) \<and> shadow_ok t" "fst (init_rmode_tss example_new)"
  "\<not> rmode_active (rmode (vcpu example_new))" "shadow_efer (vcpu example_new) = 0" "nmsrs (vcpu example_new) = 0"
proof -
  show tss: "fst (init_rmode_tss example_new)"
    by (simp add: init_rmode_tss_def rmode_tss_base_def example_new_def gfn_to_page_opt_def
        gfn_to_memslot_def gfn_in_slot_def gfn_to_page_def varray_def arr_get_def example_frames_def
        zero_slot_def Let_def)
  show "\<exists>t. kvm_vcpu_setup example_host_env example_new = (None, t) \<and> shadow_ok t"
    by (rule vcpu_setup_succeeds [OF tss])
      (use example_frames_usable in \<open>simp_all add: example_host_env_def example_new_def KVM_NUM_MMU_PAGES_def\<close>)
qed (simp_all add: example_new_def example_frames_def zero_defs)

theorem vcpu_setup_reset_witness:
  "\<exists>t. kvm_vcpu_setup example_host_env example_new = (None, t) \<and> mode_ok t \<and> vmcs_readl t GUEST_RIP = 0xfff0"
  using vcpu_setup_reset [of example_host_env example_new] example_new_setup by blast


end
