(* ===== verification/Kvm_Ioctl.thy ===== *)
theory Kvm_Ioctl
  imports Vcpu_Setup
begin

text \<open>
  \<open>kvm_dev_ioctl\<close>: the requests of user space. A request carries the structure that \<open>arg\<close> points
  to; what the ioctl writes back is the request that is returned. Copying from and to user space
  can fail; a copy that fails leaves the structure as it was. \<open>None\<close> means that the fuel of
  \<open>KVM_RUN\<close> or of the retry loop of \<open>KVM_SET_MEMORY_REGION\<close> is used up.
\<close>

datatype ioctl =
    KVM_CREATE_VCPU int
  | KVM_RUN kvm_run
  | KVM_GET_REGS kvm_regs
  | KVM_SET_REGS kvm_regs
  | KVM_GET_SREGS kvm_sregs
  | KVM_SET_SREGS kvm_sregs
  | KVM_TRANSLATE kvm_translation
  | KVM_INTERRUPT u32 u32
  | KVM_DEBUG_GUEST kvm_debug_guest
  | KVM_SET_MEMORY_REGION kvm_memory_region
  | KVM_GET_DIRTY_LOG u32 "u8 list"
  | KVM_OTHER u32

text \<open>
  \<open>io_machine\<close> is the processor, \<open>io_memop\<close> the instruction emulator and \<open>io_threads\<close> what the
  other threads do while \<open>KVM_SET_MEMORY_REGION\<close> has dropped the lock.
\<close>

record ioctl_env =
  io_copy_in :: bool
  io_copy_out :: bool
  io_host :: host_env
  io_fuel :: nat
  io_machine :: machine
  io_memop :: memop
  io_threads :: "nat \<Rightarrow> vm \<Rightarrow> vm"

text \<open>A request that is copied in, handled and copied back when \<open>back\<close> holds.\<close>

definition ioctl_copies ::
  "ioctl_env \<Rightarrow> ioctl \<Rightarrow> bool \<Rightarrow> vm \<Rightarrow> (errno option \<times> ioctl \<times> vm) option \<Rightarrow>
    (errno option \<times> ioctl \<times> vm) option" where
  "ioctl_copies env request back s result =
     (if \<not> io_copy_in env then Some (Some EFAULT, request, s)
      else case result of
             None \<Rightarrow> None
           | Some (Some e, answer, t) \<Rightarrow> Some (Some e, request, t)
           | Some (None, answer, t) \<Rightarrow>
               if \<not> back then Some (None, request, t)
               else if io_copy_out env then Some (None, answer, t) else Some (Some EFAULT, request, t))"

text \<open>
  \<open>KVM_GET_DIRTY_LOG\<close> copies the log itself; the number of a virtual cpu is not copied at all.
\<close>

definition kvm_dev_ioctl :: "ioctl_env \<Rightarrow> ioctl \<Rightarrow> vm \<Rightarrow> (errno option \<times> ioctl \<times> vm) option" where
  "kvm_dev_ioctl env request s =
     (case request of
        KVM_CREATE_VCPU n \<Rightarrow>
          (let (r, t) = kvm_dev_ioctl_create_vcpu (io_host env) n s in Some (r, request, t))
      | KVM_RUN run \<Rightarrow>
          ioctl_copies env request True s
            (map_option (\<lambda>(r, run, t). (r, KVM_RUN run, t))
               (kvm_dev_ioctl_run (io_fuel env) (io_machine env) (io_memop env) run s))
      | KVM_GET_REGS kregs \<Rightarrow>
          ioctl_copies env request True s
            (let (r, kregs, t) = kvm_dev_ioctl_get_regs kregs s in Some (r, KVM_GET_REGS kregs, t))
      | KVM_SET_REGS kregs \<Rightarrow>
          ioctl_copies env request False s
            (let (r, kregs, t) = kvm_dev_ioctl_set_regs kregs s in Some (r, KVM_SET_REGS kregs, t))
      | KVM_GET_SREGS sregs \<Rightarrow>
          ioctl_copies env request True s
            (let (r, sregs, t) = kvm_dev_ioctl_get_sregs sregs s in Some (r, KVM_GET_SREGS sregs, t))
      | KVM_SET_SREGS sregs \<Rightarrow>
          ioctl_copies env request False s
            (let (r, sregs, t) = kvm_dev_ioctl_set_sregs sregs s in Some (r, KVM_SET_SREGS sregs, t))
      | KVM_TRANSLATE tr \<Rightarrow>
          ioctl_copies env request True s
            (let (r, tr, t) = kvm_dev_ioctl_translate tr s in Some (r, KVM_TRANSLATE tr, t))
      | KVM_INTERRUPT v irq \<Rightarrow>
          ioctl_copies env request False s
            (let (r, t) = kvm_dev_ioctl_interrupt v irq s in Some (r, request, t))
      | KVM_DEBUG_GUEST dbg \<Rightarrow>
          ioctl_copies env request False s
            (let (r, dbg, t) = kvm_dev_ioctl_debug_guest dbg s in Some (r, KVM_DEBUG_GUEST dbg, t))
      | KVM_SET_MEMORY_REGION mem \<Rightarrow>
          ioctl_copies env request False s
            (map_option (\<lambda>(r, t). (r, request, t))
               (kvm_dev_ioctl_set_memory_region (io_fuel env) (io_threads env) mem s))
      | KVM_GET_DIRTY_LOG slot log \<Rightarrow>
          if \<not> io_copy_in env then Some (Some EFAULT, request, s)
          else (let (r, bytes, t) = kvm_dev_ioctl_get_dirty_log (io_copy_out env) slot s
                in Some (r, if r = None then KVM_GET_DIRTY_LOG slot bytes else request, t))
      | KVM_OTHER n \<Rightarrow> Some (Some EINVAL, request, s))"

text \<open>The virtual cpu that a request is about.\<close>

fun vcpu_of :: "ioctl \<Rightarrow> u32 option" where
  "vcpu_of (KVM_RUN run) = Some (run_vcpu run)"
| "vcpu_of (KVM_GET_REGS r) = Some (gr_vcpu r)"
| "vcpu_of (KVM_SET_REGS r) = Some (gr_vcpu r)"
| "vcpu_of (KVM_GET_SREGS r) = Some (sr_vcpu r)"
| "vcpu_of (KVM_SET_SREGS r) = Some (sr_vcpu r)"
| "vcpu_of (KVM_TRANSLATE tr) = Some (tl_vcpu tr)"
| "vcpu_of (KVM_INTERRUPT v irq) = Some v"
| "vcpu_of (KVM_DEBUG_GUEST dbg) = Some (dg_vcpu dbg)"
| "vcpu_of _ = None"

lemma ioctl_without_vcpu:
  assumes "vcpu_of request = Some v" "vcpu_vmcs (vcpu s) = None"
    and "unat v \<ge> KVM_MAX_VCPUS \<longrightarrow> (\<forall>tr. request \<noteq> KVM_TRANSLATE tr)"
  shows "\<exists>e. kvm_dev_ioctl env request s = Some (Some e, request, s)"
proof -
  have l: "vcpu_load s = None" using assms(2) by (simp add: vcpu_load_def)
  show ?thesis
    using assms(1,3)
    by (cases request) (auto simp: kvm_dev_ioctl_def ioctl_copies_def l kvm_dev_ioctl_run_def
        kvm_dev_ioctl_get_regs_def kvm_dev_ioctl_set_regs_def kvm_dev_ioctl_get_sregs_def
        kvm_dev_ioctl_set_sregs_def kvm_dev_ioctl_translate_def kvm_dev_ioctl_interrupt_def
        kvm_dev_ioctl_debug_guest_def with_vcpu_def Let_def)
qed

end
