(* ===== verification/X86_Alu.thy ===== *)
theory X86_Alu
  imports Kvm_Defs
begin

text \<open>
  The instructions that the emulator executes through inline assembly (\<open>emulate_1op\<close>,
  \<open>emulate_2op_SrcV\<close>, \<open>emulate_2op_SrcB\<close>, \<open>emulate_2op_SrcV_nobyte\<close>): the result and the flags
  of the processor's arithmetic, for operands of 1, 2, 4 and 8 bytes. A flag that an instruction
  leaves undefined is taken from a word of its own, so that nothing rests on its value.
\<close>

section \<open>Flags\<close>

definition EFLG_OF :: u64 where "EFLG_OF = push_bit 11 1"
definition EFLG_DF :: u64 where "EFLG_DF = push_bit 10 1"
definition EFLG_SF :: u64 where "EFLG_SF = push_bit 7 1"
definition EFLG_ZF :: u64 where "EFLG_ZF = push_bit 6 1"
definition EFLG_AF :: u64 where "EFLG_AF = push_bit 4 1"
definition EFLG_PF :: u64 where "EFLG_PF = push_bit 2 1"
definition EFLG_CF :: u64 where "EFLG_CF = push_bit 0 1"

definition EFLAGS_MASK :: u64 where
  "EFLAGS_MASK = EFLG_OF OR EFLG_SF OR EFLG_ZF OR EFLG_AF OR EFLG_PF OR EFLG_CF"

definition put_flag :: "nat \<Rightarrow> bool \<Rightarrow> u64 \<Rightarrow> u64" where
  "put_flag n c flags = (if c then set_bit n flags else unset_bit n flags)"

text \<open>PF is set for an even number of ones in the low byte.\<close>

definition parity :: "u64 \<Rightarrow> bool" where
  "parity r = even (length (filter (bit r) [0..<8]))"

definition result_flags :: "nat \<Rightarrow> u64 \<Rightarrow> u64 \<Rightarrow> u64" where
  "result_flags n r flags = put_flag 7 (bit r (n - 1)) (put_flag 6 (r = 0) (put_flag 2 (parity r) flags))"

section \<open>Instructions with two operands\<close>

datatype alu_op = Add | Or | Adc | Sbb | And | Sub | Xor | Cmp | Test
  | Rol | Ror | Rcl | Rcr | Sal | Shr | Sar | Bt | Bts | Btr | Btc

text \<open>
  \<open>n\<close> is the width in bits, \<open>a\<close> the destination, \<open>b\<close> the source, both of this width; \<open>c\<close> is the
  carry that goes in. The result comes with the new flags.
\<close>

definition alu_add :: "nat \<Rightarrow> bool \<Rightarrow> u64 \<Rightarrow> u64 \<Rightarrow> u64 \<Rightarrow> u64 \<times> u64" where
  "alu_add n c a b flags =
     (let r = take_bit n (a + b + of_bool c)
      in (r, put_flag 0 (2 ^ n \<le> unat a + unat b + of_bool c)
             (put_flag 4 (bit (a XOR b XOR r) 4)
             (put_flag 11 (bit ((a XOR r) AND (b XOR r)) (n - 1)) (result_flags n r flags)))))"

definition alu_sub :: "nat \<Rightarrow> bool \<Rightarrow> u64 \<Rightarrow> u64 \<Rightarrow> u64 \<Rightarrow> u64 \<times> u64" where
  "alu_sub n c a b flags =
     (let r = take_bit n (a - b - of_bool c)
      in (r, put_flag 0 (unat a < unat b + of_bool c)
             (put_flag 4 (bit (a XOR b XOR r) 4)
             (put_flag 11 (bit ((a XOR b) AND (a XOR r)) (n - 1)) (result_flags n r flags)))))"

definition alu_logic :: "nat \<Rightarrow> u64 \<Rightarrow> u64 \<Rightarrow> u64 \<Rightarrow> u64 \<times> u64" where
  "alu_logic n undef r flags =
     (r, put_flag 0 False (put_flag 11 False (put_flag 4 (bit undef 4) (result_flags n r flags))))"

text \<open>Rotations change CF and OF only; a count of 0 changes no flag.\<close>

definition rotate_left :: "nat \<Rightarrow> nat \<Rightarrow> u64 \<Rightarrow> u64" where
  "rotate_left n k a = take_bit n (push_bit k a OR drop_bit (n - k) a)"

definition shift_count :: "nat \<Rightarrow> u64 \<Rightarrow> nat" where
  "shift_count n b = unat (b AND (if n = 64 then 63 else 31))"

definition alu_rol :: "nat \<Rightarrow> u64 \<Rightarrow> u64 \<Rightarrow> u64 \<Rightarrow> u64 \<Rightarrow> u64 \<times> u64" where
  "alu_rol n undef a b flags =
     (let count = shift_count n b;
          r = rotate_left n (count mod n) a
      in if count = 0 then (a, flags)
         else (r, put_flag 0 (bit r 0)
                (put_flag 11 (if count = 1 then bit r (n - 1) \<noteq> bit r 0 else bit undef 11) flags)))"

definition alu_ror :: "nat \<Rightarrow> u64 \<Rightarrow> u64 \<Rightarrow> u64 \<Rightarrow> u64 \<Rightarrow> u64 \<times> u64" where
  "alu_ror n undef a b flags =
     (let count = shift_count n b;
          r = rotate_left n ((n - count mod n) mod n) a
      in if count = 0 then (a, flags)
         else (r, put_flag 0 (bit r (n - 1))
                (put_flag 11 (if count = 1 then bit r (n - 1) \<noteq> bit r (n - 2) else bit undef 11) flags)))"

text \<open>One bit through the carry; the count is taken modulo the width plus one.\<close>

definition rcl_step :: "nat \<Rightarrow> u64 \<times> bool \<Rightarrow> u64 \<times> bool" where
  "rcl_step n ac = (take_bit n (push_bit 1 (fst ac) OR of_bool (snd ac)), bit (fst ac) (n - 1))"

definition rcr_step :: "nat \<Rightarrow> u64 \<times> bool \<Rightarrow> u64 \<times> bool" where
  "rcr_step n ac = (drop_bit 1 (fst ac) OR push_bit (n - 1) (of_bool (snd ac)), bit (fst ac) 0)"

definition alu_rcl :: "nat \<Rightarrow> u64 \<Rightarrow> u64 \<Rightarrow> u64 \<Rightarrow> u64 \<Rightarrow> u64 \<times> u64" where
  "alu_rcl n undef a b flags =
     (let count = shift_count n b;
          (r, c) = (rcl_step n ^^ (count mod (n + 1))) (a, bit flags 0)
      in if count = 0 then (a, flags)
         else (r, put_flag 0 c (put_flag 11 (if count = 1 then bit r (n - 1) \<noteq> c else bit undef 11) flags)))"

definition alu_rcr :: "nat \<Rightarrow> u64 \<Rightarrow> u64 \<Rightarrow> u64 \<Rightarrow> u64 \<Rightarrow> u64 \<times> u64" where
  "alu_rcr n undef a b flags =
     (let count = shift_count n b;
          (r, c) = (rcr_step n ^^ (count mod (n + 1))) (a, bit flags 0)
      in if count = 0 then (a, flags)
         else (r, put_flag 0 c
                (put_flag 11 (if count = 1 then bit a (n - 1) \<noteq> bit flags 0 else bit undef 11) flags)))"

definition sign_extend :: "nat \<Rightarrow> u64 \<Rightarrow> u64" where
  "sign_extend n a = (if bit a (n - 1) then take_bit n a OR NOT (mask n) else take_bit n a)"

definition alu_sal :: "nat \<Rightarrow> u64 \<Rightarrow> u64 \<Rightarrow> u64 \<Rightarrow> u64 \<Rightarrow> u64 \<times> u64" where
  "alu_sal n undef a b flags =
     (let count = shift_count n b;
          r = take_bit n (push_bit count a);
          c = (if count < n then bit a (n - count) else bit undef 0)
      in if count = 0 then (a, flags)
         else (r, put_flag 0 c
                (put_flag 11 (if count = 1 then bit r (n - 1) \<noteq> c else bit undef 11)
                (put_flag 4 (bit undef 4) (result_flags n r flags)))))"

definition alu_shr :: "nat \<Rightarrow> u64 \<Rightarrow> u64 \<Rightarrow> u64 \<Rightarrow> u64 \<Rightarrow> u64 \<times> u64" where
  "alu_shr n undef a b flags =
     (let count = shift_count n b;
          r = drop_bit count a;
          c = (if count < n then bit a (count - 1) else bit undef 0)
      in if count = 0 then (a, flags)
         else (r, put_flag 0 c
                (put_flag 11 (if count = 1 then bit a (n - 1) else bit undef 11)
                (put_flag 4 (bit undef 4) (result_flags n r flags)))))"

definition alu_sar :: "nat \<Rightarrow> u64 \<Rightarrow> u64 \<Rightarrow> u64 \<Rightarrow> u64 \<Rightarrow> u64 \<times> u64" where
  "alu_sar n undef a b flags =
     (let count = shift_count n b;
          r = take_bit n (signed_drop_bit count (sign_extend n a))
      in if count = 0 then (a, flags)
         else (r, put_flag 0 (bit (sign_extend n a) (count - 1))
                (put_flag 11 (if count = 1 then False else bit undef 11)
                (put_flag 4 (bit undef 4) (result_flags n r flags)))))"

text \<open>Bit tests: the offset is within the operand; ZF is kept, the other flags but CF are undefined.\<close>

definition alu_bit :: "nat \<Rightarrow> u64 \<Rightarrow> (nat \<Rightarrow> u64 \<Rightarrow> u64) \<Rightarrow> u64 \<Rightarrow> u64 \<Rightarrow> u64 \<Rightarrow> u64 \<times> u64" where
  "alu_bit n undef f a b flags =
     (let i = unat b mod n
      in (f i a, put_flag 0 (bit a i) (put_flag 2 (bit undef 2) (put_flag 4 (bit undef 4)
                   (put_flag 7 (bit undef 7) (put_flag 11 (bit undef 11) flags))))))"

definition alu2 :: "alu_op \<Rightarrow> nat \<Rightarrow> u64 \<Rightarrow> u64 \<Rightarrow> u64 \<Rightarrow> u64 \<Rightarrow> u64 \<times> u64" where
  "alu2 op n undef a b flags =
     (case op of
        Add \<Rightarrow> alu_add n False a b flags
      | Or \<Rightarrow> alu_logic n undef (a OR b) flags
      | Adc \<Rightarrow> alu_add n (bit flags 0) a b flags
      | Sbb \<Rightarrow> alu_sub n (bit flags 0) a b flags
      | And \<Rightarrow> alu_logic n undef (a AND b) flags
      | Sub \<Rightarrow> alu_sub n False a b flags
      | Xor \<Rightarrow> alu_logic n undef (a XOR b) flags
      | Cmp \<Rightarrow> (a, snd (alu_sub n False a b flags))
      | Test \<Rightarrow> (a, snd (alu_logic n undef (a AND b) flags))
      | Rol \<Rightarrow> alu_rol n undef a b flags
      | Ror \<Rightarrow> alu_ror n undef a b flags
      | Rcl \<Rightarrow> alu_rcl n undef a b flags
      | Rcr \<Rightarrow> alu_rcr n undef a b flags
      | Sal \<Rightarrow> alu_sal n undef a b flags
      | Shr \<Rightarrow> alu_shr n undef a b flags
      | Sar \<Rightarrow> alu_sar n undef a b flags
      | Bt \<Rightarrow> alu_bit n undef (\<lambda>i a. a) a b flags
      | Bts \<Rightarrow> alu_bit n undef (\<lambda>i a. set_bit i a) a b flags
      | Btr \<Rightarrow> alu_bit n undef (\<lambda>i a. unset_bit i a) a b flags
      | Btc \<Rightarrow> alu_bit n undef (\<lambda>i a. flip_bit i a) a b flags)"

section \<open>Instructions with one operand\<close>

datatype alu_op1 = Neg | Inc | Dec

text \<open>INC and DEC keep CF.\<close>

definition alu1 :: "alu_op1 \<Rightarrow> nat \<Rightarrow> u64 \<Rightarrow> u64 \<Rightarrow> u64 \<times> u64" where
  "alu1 op n a flags =
     (case op of
        Neg \<Rightarrow> alu_sub n False 0 a flags
      | Inc \<Rightarrow> (let (r, f) = alu_add n False a 1 flags in (r, put_flag 0 (bit flags 0) f))
      | Dec \<Rightarrow> (let (r, f) = alu_sub n False a 1 flags in (r, put_flag 0 (bit flags 0) f)))"

section \<open>The inline assembly\<close>

text \<open>
  \<open>_PRE_EFLAGS\<close> and \<open>_POST_EFLAGS\<close>: the instruction sees the guest's arithmetic flags, and only
  these are written back. The instruction writes the low bytes of the destination.
\<close>

definition merge_flags :: "u64 \<Rightarrow> u64 \<Rightarrow> u64" where
  "merge_flags saved flags = (saved AND NOT EFLAGS_MASK) OR (flags AND EFLAGS_MASK)"

definition merge_value :: "nat \<Rightarrow> u64 \<Rightarrow> u64 \<Rightarrow> u64" where
  "merge_value n old r = (old AND NOT (mask n)) OR (r AND mask n)"

definition emulate_2op :: "alu_op \<Rightarrow> nat \<Rightarrow> u64 \<Rightarrow> u64 \<Rightarrow> u64 \<Rightarrow> u64 \<Rightarrow> u64 \<times> u64" where
  "emulate_2op op bytes undef src dst flags =
     (let (r, f) = alu2 op (8 * bytes) undef (take_bit (8 * bytes) dst) (take_bit (8 * bytes) src) flags
      in (merge_value (8 * bytes) dst r, merge_flags flags f))"

definition emulate_1op :: "alu_op1 \<Rightarrow> nat \<Rightarrow> u64 \<Rightarrow> u64 \<Rightarrow> u64 \<times> u64" where
  "emulate_1op op bytes dst flags =
     (let (r, f) = alu1 op (8 * bytes) (take_bit (8 * bytes) dst) flags
      in (merge_value (8 * bytes) dst r, merge_flags flags f))"

text \<open>What is outside the arithmetic flags is kept.\<close>

lemma merge_flags_keeps [simp]: "merge_flags f g AND NOT EFLAGS_MASK = f AND NOT EFLAGS_MASK"
  by (rule bit_eqI) (auto simp: merge_flags_def bit_simps)

lemma emulate_2op_flags:
  "emulate_2op op bytes undef src dst flags = (v, f) \<Longrightarrow> f AND NOT EFLAGS_MASK = flags AND NOT EFLAGS_MASK"
  by (auto simp: emulate_2op_def split: prod.splits)

lemma emulate_1op_flags:
  "emulate_1op op bytes dst flags = (v, f) \<Longrightarrow> f AND NOT EFLAGS_MASK = flags AND NOT EFLAGS_MASK"
  by (auto simp: emulate_1op_def split: prod.splits)

end
