(* ===== verification/X86_Decode.thy ===== *)
theory X86_Decode
  imports X86_Alu Exit_Handlers
begin

text \<open>
  The decoder of the instruction emulator (\<open>x86_emulate.c\<close>): the opcode tables, the memory
  operations the emulator is given, and the phases of \<open>x86_emulate_memop\<close> that fetch prefixes,
  opcode, ModRM and SIB bytes and the operands. The local variables of the C function are the
  fields of one record; a \<open>goto done\<close> or \<open>goto cannot_emulate\<close> ends the phases.
\<close>

section \<open>Opcode tables\<close>

definition ByteOp :: u8 where "ByteOp = push_bit 0 1"
definition ImplicitOps :: u8 where "ImplicitOps = push_bit 1 1"
definition DstReg :: u8 where "DstReg = push_bit 1 2"
definition DstMem :: u8 where "DstMem = push_bit 1 3"
definition DstMask :: u8 where "DstMask = push_bit 1 3"
definition SrcNone :: u8 where "SrcNone = push_bit 3 0"
definition SrcImplicit :: u8 where "SrcImplicit = push_bit 3 0"
definition SrcReg :: u8 where "SrcReg = push_bit 3 1"
definition SrcMem :: u8 where "SrcMem = push_bit 3 2"
definition SrcMem16 :: u8 where "SrcMem16 = push_bit 3 3"
definition SrcMem32 :: u8 where "SrcMem32 = push_bit 3 4"
definition SrcImm :: u8 where "SrcImm = push_bit 3 5"
definition SrcImmByte :: u8 where "SrcImmByte = push_bit 3 6"
definition SrcMask :: u8 where "SrcMask = push_bit 3 7"
definition ModRM :: u8 where "ModRM = push_bit 6 1"
definition Mov :: u8 where "Mov = push_bit 7 1"

definition opcode_table :: "u8 list" where
  "opcode_table =
     [ByteOp OR DstMem OR SrcReg OR ModRM, DstMem OR SrcReg OR ModRM, ByteOp OR DstReg OR
      SrcMem OR ModRM, DstReg OR SrcMem OR ModRM] @
     replicate 4 0 @
     [ByteOp OR DstMem OR SrcReg OR ModRM, DstMem OR SrcReg OR ModRM, ByteOp OR DstReg OR
      SrcMem OR ModRM, DstReg OR SrcMem OR ModRM] @
     replicate 4 0 @
     [ByteOp OR DstMem OR SrcReg OR ModRM, DstMem OR SrcReg OR ModRM, ByteOp OR DstReg OR
      SrcMem OR ModRM, DstReg OR SrcMem OR ModRM] @
     replicate 4 0 @
     [ByteOp OR DstMem OR SrcReg OR ModRM, DstMem OR SrcReg OR ModRM, ByteOp OR DstReg OR
      SrcMem OR ModRM, DstReg OR SrcMem OR ModRM] @
     replicate 4 0 @
     [ByteOp OR DstMem OR SrcReg OR ModRM, DstMem OR SrcReg OR ModRM, ByteOp OR DstReg OR
      SrcMem OR ModRM, DstReg OR SrcMem OR ModRM] @
     replicate 4 0 @
     [ByteOp OR DstMem OR SrcReg OR ModRM, DstMem OR SrcReg OR ModRM, ByteOp OR DstReg OR
      SrcMem OR ModRM, DstReg OR SrcMem OR ModRM] @
     replicate 4 0 @
     [ByteOp OR DstMem OR SrcReg OR ModRM, DstMem OR SrcReg OR ModRM, ByteOp OR DstReg OR
      SrcMem OR ModRM, DstReg OR SrcMem OR ModRM] @
     replicate 4 0 @
     [ByteOp OR DstMem OR SrcReg OR ModRM, DstMem OR SrcReg OR ModRM, ByteOp OR DstReg OR
      SrcMem OR ModRM, DstReg OR SrcMem OR ModRM] @
     replicate 39 0 @
     [DstReg OR SrcMem32 OR ModRM OR Mov] @
     replicate 28 0 @
     [ByteOp OR DstMem OR SrcImm OR ModRM, DstMem OR SrcImm OR ModRM, ByteOp OR DstMem OR
      SrcImm OR ModRM, DstMem OR SrcImmByte OR ModRM, ByteOp OR DstMem OR SrcReg OR
      ModRM, DstMem OR SrcReg OR ModRM, ByteOp OR DstMem OR SrcReg OR ModRM, DstMem OR
      SrcReg OR ModRM, ByteOp OR DstMem OR SrcReg OR ModRM OR Mov, DstMem OR SrcReg OR
      ModRM OR Mov, ByteOp OR DstReg OR SrcMem OR ModRM OR Mov, DstReg OR SrcMem OR
      ModRM OR Mov] @
     replicate 3 0 @
     [DstMem OR SrcNone OR ModRM OR Mov] @
     replicate 16 0 @
     [ByteOp OR DstReg OR SrcMem OR Mov, DstReg OR SrcMem OR Mov, ByteOp OR DstMem OR SrcReg
      OR Mov, DstMem OR SrcReg OR Mov, ByteOp OR ImplicitOps OR Mov, ImplicitOps OR Mov,
      ByteOp OR ImplicitOps, ImplicitOps] @
     replicate 2 0 @
     [ByteOp OR ImplicitOps OR Mov, ImplicitOps OR Mov, ByteOp OR ImplicitOps OR Mov,
      ImplicitOps OR Mov, ByteOp OR ImplicitOps, ImplicitOps] @
     replicate 16 0 @
     [ByteOp OR DstMem OR SrcImm OR ModRM, DstMem OR SrcImmByte OR ModRM] @
     replicate 4 0 @
     [ByteOp OR DstMem OR SrcImm OR ModRM OR Mov, DstMem OR SrcImm OR ModRM OR Mov] @
     replicate 8 0 @
     [ByteOp OR DstMem OR SrcImplicit OR ModRM, DstMem OR SrcImplicit OR ModRM, ByteOp OR
      DstMem OR SrcImplicit OR ModRM, DstMem OR SrcImplicit OR ModRM] @
     replicate 34 0 @
     [ByteOp OR DstMem OR SrcNone OR ModRM, DstMem OR SrcNone OR ModRM] @
     replicate 6 0 @
     [ByteOp OR DstMem OR SrcNone OR ModRM, DstMem OR SrcNone OR ModRM]"

definition twobyte_table :: "u8 list" where
  "twobyte_table =
     replicate 1 0 @
     [SrcMem OR ModRM OR DstReg OR Mov] @
     replicate 11 0 @
     [ImplicitOps OR ModRM] @
     replicate 10 0 @
     [ImplicitOps OR ModRM] @
     replicate 7 0 @
     [ImplicitOps] @
     replicate 1 0 @
     [ImplicitOps] @
     replicate 29 0 @
     [DstReg OR SrcMem OR ModRM OR Mov, DstReg OR SrcMem OR ModRM OR Mov, DstReg OR SrcMem OR
      ModRM OR Mov, DstReg OR SrcMem OR ModRM OR Mov, DstReg OR SrcMem OR ModRM OR Mov,
      DstReg OR SrcMem OR ModRM OR Mov, DstReg OR SrcMem OR ModRM OR Mov, DstReg OR
      SrcMem OR ModRM OR Mov, DstReg OR SrcMem OR ModRM OR Mov, DstReg OR SrcMem OR
      ModRM OR Mov, DstReg OR SrcMem OR ModRM OR Mov, DstReg OR SrcMem OR ModRM OR Mov,
      DstReg OR SrcMem OR ModRM OR Mov, DstReg OR SrcMem OR ModRM OR Mov, DstReg OR
      SrcMem OR ModRM OR Mov, DstReg OR SrcMem OR ModRM OR Mov] @
     replicate 83 0 @
     [DstMem OR SrcReg OR ModRM] @
     replicate 7 0 @
     [DstMem OR SrcReg OR ModRM] @
     replicate 4 0 @
     [ByteOp OR DstMem OR SrcReg OR ModRM, DstMem OR SrcReg OR ModRM] @
     replicate 1 0 @
     [DstMem OR SrcReg OR ModRM] @
     replicate 2 0 @
     [ByteOp OR DstReg OR SrcMem OR ModRM OR Mov, DstReg OR SrcMem16 OR ModRM OR Mov] @
     replicate 2 0 @
     [DstMem OR SrcImmByte OR ModRM, DstMem OR SrcReg OR ModRM] @
     replicate 2 0 @
     [ByteOp OR DstReg OR SrcMem OR ModRM OR Mov, DstReg OR SrcMem16 OR ModRM OR Mov] @
     replicate 7 0 @
     [ImplicitOps OR ModRM] @
     replicate 56 0"


section \<open>Operands\<close>

text \<open>
  A pointer of an operand is the address of emulated memory, or it points into the shadow
  registers: to a register, or to its second byte for \<open>AH\<close>, \<open>CH\<close>, \<open>DH\<close> and \<open>BH\<close>.
\<close>

datatype optr = RegPtr nat bool | MemPtr u64

datatype optype = OP_REG | OP_MEM | OP_IMM

record operand =
  op_type :: optype
  op_size :: nat
  op_val :: u64
  op_orig :: u64
  op_ptr :: optr

definition decode_register :: "nat \<Rightarrow> bool \<Rightarrow> optr" where
  "decode_register modrm_reg highbyte =
     (if highbyte \<and> 4 \<le> modrm_reg \<and> modrm_reg < 8 then RegPtr (modrm_reg AND 3) True
      else RegPtr modrm_reg False)"

text \<open>Loads and stores of \<open>n\<close> bytes through a pointer into the registers, one after the other in memory.\<close>

definition load_ptr :: "nat \<Rightarrow> optr \<Rightarrow> (nat \<Rightarrow> u64) \<Rightarrow> u64" where
  "load_ptr n p r = (case p of
     RegPtr k high \<Rightarrow> take_bit (8 * n) (if high then drop_bit 8 (r k) OR push_bit 56 (r (k + 1)) else r k)
   | MemPtr a \<Rightarrow> 0)"

definition store_ptr :: "nat \<Rightarrow> u64 \<Rightarrow> optr \<Rightarrow> (nat \<Rightarrow> u64) \<Rightarrow> nat \<Rightarrow> u64" where
  "store_ptr n v p r = (case p of
     RegPtr k high \<Rightarrow>
       if \<not> high then r(k := merge_value (8 * n) (r k) v)
       else if n < 8 then
         r(k := (r k AND NOT (push_bit 8 (mask (8 * n)))) OR push_bit 8 (take_bit (8 * n) v))
       else r(k := (r k AND mask 8) OR push_bit 8 v,
              k + 1 := merge_value 8 (r (k + 1)) (drop_bit 56 v))
   | MemPtr a \<Rightarrow> r)"

text \<open>
  The store of an operand's value: a 4 byte value is stored as 8 bytes, which clears the upper
  half of the register.
\<close>

definition write_operand :: "nat \<Rightarrow> u64 \<Rightarrow> optr \<Rightarrow> (nat \<Rightarrow> u64) \<Rightarrow> nat \<Rightarrow> u64" where
  "write_operand bytes v p r =
     (if bytes = 1 then store_ptr 1 v p r
      else if bytes = 2 then store_ptr 2 v p r
      else if bytes = 4 then store_ptr 8 (take_bit 32 v) p r
      else if bytes = 8 then store_ptr 8 v p r
      else r)"

section \<open>The interface to memory\<close>

text \<open>
  \<open>struct x86_emulate_ops\<close>: a read returns the bytes it stored, the operations return the virtual
  machine they leave. \<open>cmpxchg8b_emulated\<close> is not called on this architecture.
\<close>

record x86_emulate_ops =
  read_std :: "u64 \<Rightarrow> nat \<Rightarrow> vm \<Rightarrow> x86emul \<times> u8 list \<times> vm"
  write_std :: "u64 \<Rightarrow> u64 \<Rightarrow> nat \<Rightarrow> vm \<Rightarrow> x86emul \<times> vm"
  read_emulated :: "u64 \<Rightarrow> nat \<Rightarrow> vm \<Rightarrow> x86emul \<times> u8 list \<times> vm"
  write_emulated :: "u64 \<Rightarrow> u64 \<Rightarrow> nat \<Rightarrow> vm \<Rightarrow> x86emul \<times> vm"
  cmpxchg_emulated :: "u64 \<Rightarrow> u64 \<Rightarrow> u64 \<Rightarrow> nat \<Rightarrow> vm \<Rightarrow> x86emul \<times> vm"

text \<open>The bytes of a read replace the low bytes of the variable; the others keep their value.\<close>

fun bytes_val :: "u8 list \<Rightarrow> u64" where
  "bytes_val [] = 0"
| "bytes_val (x # xs) = ucast x OR push_bit 8 (bytes_val xs)"

definition stored :: "u64 \<Rightarrow> u8 list \<Rightarrow> u64" where
  "stored old xs = merge_value (8 * length xs) old (bytes_val xs)"

section \<open>The state of the emulation\<close>

text \<open>
  \<open>undef\<close> stands for what neither the code nor the processor defines: the flags an instruction
  leaves undefined, and a variable before its first assignment.
\<close>

record undef =
  undef_flags :: u64
  undef_val :: u64

datatype seg_base = CsBase | DsBase | EsBase | SsBase | GsBase | FsBase

definition base_of :: "x86_emulate_ctxt \<Rightarrow> seg_base \<Rightarrow> u64" where
  "base_of ctxt g = (case g of CsBase \<Rightarrow> cs_base ctxt | DsBase \<Rightarrow> ds_base ctxt | EsBase \<Rightarrow> es_base ctxt
     | SsBase \<Rightarrow> ss_base ctxt | GsBase \<Rightarrow> gs_base ctxt | FsBase \<Rightarrow> fs_base ctxt)"

record emu =
  e_vm :: vm
  e_regs :: "nat \<Rightarrow> u64"
  e_eip :: u64
  e_eflags :: u64
  op_bytes :: nat
  ad_bytes :: nat
  lock_prefix :: bool
  rep_prefix :: bool
  rex_prefix :: u8
  override_base :: "seg_base option"
  twobyte :: bool
  e_b :: u8
  e_d :: u8
  modrm_mod :: nat
  modrm_reg :: nat
  modrm_rm :: nat
  index_reg :: nat
  base_reg :: nat
  rip_relative :: bool
  modrm_val :: u64
  modrm_ea :: u64
  e_cr2 :: u64
  e_src :: operand
  e_dst :: operand

text \<open>How a phase ends: it goes on, or with \<open>goto done\<close> and \<open>rc\<close>, or with \<open>goto cannot_emulate\<close>.\<close>

datatype outcome = Go emu | Done x86emul emu | Cannot emu

fun and_then :: "outcome \<Rightarrow> (emu \<Rightarrow> outcome) \<Rightarrow> outcome" where
  "and_then (Go e) f = f e"
| "and_then (Done rc e) f = Done rc e"
| "and_then (Cannot e) f = Cannot e"

definition insn_fetch ::
  "x86_emulate_ops \<Rightarrow> x86_emulate_ctxt \<Rightarrow> nat \<Rightarrow> (u64 \<Rightarrow> emu \<Rightarrow> outcome) \<Rightarrow> emu \<Rightarrow> outcome" where
  "insn_fetch ops ctxt sz k e =
     (let (rc, xs, s) = read_std ops (e_eip e + cs_base ctxt) sz (e_vm e);
          e = e\<lparr>e_vm := s\<rparr>
      in if rc \<noteq> X86EMUL_CONTINUE then Done rc e
         else k (take_bit (8 * sz) (bytes_val xs)) (e\<lparr>e_eip := e_eip e + of_nat sz\<rparr>))"

text \<open>The signed types: a value of \<open>sz\<close> bytes, extended.\<close>

definition fetch_signed ::
  "x86_emulate_ops \<Rightarrow> x86_emulate_ctxt \<Rightarrow> nat \<Rightarrow> (u64 \<Rightarrow> emu \<Rightarrow> outcome) \<Rightarrow> emu \<Rightarrow> outcome" where
  "fetch_signed ops ctxt sz k = insn_fetch ops ctxt sz (\<lambda>x. k (sign_extend (8 * sz) x))"

definition register_address :: "nat \<Rightarrow> u64 \<Rightarrow> u64 \<Rightarrow> u64" where
  "register_address adb base reg = base + (if adb = 8 then reg else reg AND mask (8 * adb))"

definition register_address_increment :: "nat \<Rightarrow> nat \<Rightarrow> u64 \<Rightarrow> emu \<Rightarrow> emu" where
  "register_address_increment adb reg inc e =
     (let v = e_regs e reg
      in e\<lparr>e_regs := (e_regs e)(reg :=
           if adb = 8 then v + inc
           else (v AND NOT (mask (8 * adb))) OR ((v + inc) AND mask (8 * adb)))\<rparr>)"

section \<open>Prefixes and opcode\<close>

definition mode_sizes :: "x86emul_mode \<Rightarrow> nat \<times> nat" where
  "mode_sizes mode = (case mode of
     X86EMUL_MODE_REAL \<Rightarrow> (2, 2) | X86EMUL_MODE_PROT16 \<Rightarrow> (2, 2)
   | X86EMUL_MODE_PROT32 \<Rightarrow> (4, 4) | X86EMUL_MODE_PROT64 \<Rightarrow> (4, 8))"

text \<open>One legacy prefix; \<open>None\<close> when the byte is none.\<close>

definition legacy_prefix :: "x86emul_mode \<Rightarrow> u8 \<Rightarrow> emu \<Rightarrow> emu option" where
  "legacy_prefix mode b e =
     (if b = 0x66 then Some (e\<lparr>op_bytes := op_bytes e XOR 6\<rparr>)
      else if b = 0x67 then
        Some (e\<lparr>ad_bytes := ad_bytes e XOR (if mode = X86EMUL_MODE_PROT64 then 12 else 6)\<rparr>)
      else if b = 0x2e then Some (e\<lparr>override_base := Some CsBase\<rparr>)
      else if b = 0x3e then Some (e\<lparr>override_base := Some DsBase\<rparr>)
      else if b = 0x26 then Some (e\<lparr>override_base := Some EsBase\<rparr>)
      else if b = 0x64 then Some (e\<lparr>override_base := Some FsBase\<rparr>)
      else if b = 0x65 then Some (e\<lparr>override_base := Some GsBase\<rparr>)
      else if b = 0x36 then Some (e\<lparr>override_base := Some SsBase\<rparr>)
      else if b = 0xf0 then Some (e\<lparr>lock_prefix := True\<rparr>)
      else if b = 0xf3 then Some (e\<lparr>rep_prefix := True\<rparr>)
      else if b = 0xf2 then Some e
      else None)"

text \<open>At most eight prefixes are taken; the eighth is then the opcode.\<close>

fun legacy_prefixes :: "nat \<Rightarrow> x86_emulate_ops \<Rightarrow> x86_emulate_ctxt \<Rightarrow> emu \<Rightarrow> outcome" where
  "legacy_prefixes 0 ops ctxt e = Go e"
| "legacy_prefixes (Suc n) ops ctxt e =
     insn_fetch ops ctxt 1 (\<lambda>x e.
       let e = e\<lparr>e_b := ucast x\<rparr>
       in case legacy_prefix (ctxt_mode ctxt) (e_b e) e of
            None \<Rightarrow> Go e
          | Some e \<Rightarrow> legacy_prefixes n ops ctxt e) e"

definition decode_rex :: "x86_emulate_ops \<Rightarrow> x86_emulate_ctxt \<Rightarrow> emu \<Rightarrow> outcome" where
  "decode_rex ops ctxt e =
     (let b = e_b e
      in if ctxt_mode ctxt = X86EMUL_MODE_PROT64 \<and> b AND 0xf0 = 0x40 then
           let e = e\<lparr>rex_prefix := b\<rparr>;
               e = (if b AND 8 \<noteq> 0 then e\<lparr>op_bytes := 8\<rparr> else e);
               e = e\<lparr>modrm_reg := unat (push_bit 1 (b AND 4)), index_reg := unat (push_bit 2 (b AND 2)),
                     modrm_rm := unat (push_bit 3 (b AND 1)), base_reg := unat (push_bit 3 (b AND 1))\<rparr>
           in insn_fetch ops ctxt 1 (\<lambda>x e. Go (e\<lparr>e_b := ucast x\<rparr>)) e
         else Go e)"

definition decode_opcode :: "x86_emulate_ops \<Rightarrow> x86_emulate_ctxt \<Rightarrow> emu \<Rightarrow> outcome" where
  "decode_opcode ops ctxt e =
     (let e = e\<lparr>e_d := opcode_table ! unat (e_b e)\<rparr>
      in if e_d e \<noteq> 0 then Go e
         else
           and_then
             (if e_b e = 0x0f then
                insn_fetch ops ctxt 1 (\<lambda>x e.
                  Go (e\<lparr>e_b := ucast x, e_d := twobyte_table ! unat (ucast x :: u8)\<rparr>)) (e\<lparr>twobyte := True\<rparr>)
              else Go e)
             (\<lambda>e. if e_d e = 0 then Cannot e else Go e))"


section \<open>ModRM and SIB bytes\<close>

text \<open>The displacement and the registers of a 16 bit address; the registers are cut to 32 bits.\<close>

definition disp16 :: "x86_emulate_ops \<Rightarrow> x86_emulate_ctxt \<Rightarrow> emu \<Rightarrow> outcome" where
  "disp16 ops ctxt e =
     (if modrm_mod e = 0 then
        if modrm_rm e = 6 then insn_fetch ops ctxt 2 (\<lambda>x e. Go (e\<lparr>modrm_ea := modrm_ea e + x\<rparr>)) e
        else Go e
      else if modrm_mod e = 1 then fetch_signed ops ctxt 1 (\<lambda>x e. Go (e\<lparr>modrm_ea := modrm_ea e + x\<rparr>)) e
      else if modrm_mod e = 2 then insn_fetch ops ctxt 2 (\<lambda>x e. Go (e\<lparr>modrm_ea := modrm_ea e + x\<rparr>)) e
      else Go e)"

definition regs16 :: "emu \<Rightarrow> u64" where
  "regs16 e =
     (let bx = ucast (e_regs e VCPU_REGS_RBX) :: u32; bp = ucast (e_regs e VCPU_REGS_RBP) :: u32;
          si = ucast (e_regs e VCPU_REGS_RSI) :: u32; di = ucast (e_regs e VCPU_REGS_RDI) :: u32;
          rm = modrm_rm e
      in ucast (if rm = 0 then bx + si else if rm = 1 then bx + di
         else if rm = 2 then bp + si else if rm = 3 then bp + di
         else if rm = 4 then si else if rm = 5 then di
         else if rm = 6 then (if modrm_mod e \<noteq> 0 then bp else 0)
         else if rm = 7 then bx else 0))"

definition modrm16 :: "x86_emulate_ops \<Rightarrow> x86_emulate_ctxt \<Rightarrow> emu \<Rightarrow> outcome" where
  "modrm16 ops ctxt e =
     and_then (disp16 ops ctxt e) (\<lambda>e.
       let e = e\<lparr>modrm_ea := modrm_ea e + regs16 e\<rparr>;
           e = (if (modrm_rm e = 2 \<or> modrm_rm e = 3 \<or> (modrm_rm e = 6 \<and> modrm_mod e \<noteq> 0)) \<and>
                  override_base e = None
                then e\<lparr>override_base := Some SsBase\<rparr> else e)
       in Go (e\<lparr>modrm_ea := take_bit 16 (modrm_ea e)\<rparr>))"

definition sib_base :: "x86_emulate_ops \<Rightarrow> x86_emulate_ctxt \<Rightarrow> emu \<Rightarrow> outcome" where
  "sib_base ops ctxt e =
     (if base_reg e = 5 \<and> modrm_mod e = 0
      then fetch_signed ops ctxt 4 (\<lambda>x e. Go (e\<lparr>modrm_ea := modrm_ea e + x\<rparr>)) e
      else Go (e\<lparr>modrm_ea := modrm_ea e + e_regs e (base_reg e)\<rparr>))"

definition decode_sib :: "x86_emulate_ops \<Rightarrow> x86_emulate_ctxt \<Rightarrow> emu \<Rightarrow> outcome" where
  "decode_sib ops ctxt e =
     insn_fetch ops ctxt 1 (\<lambda>x e.
       let sib = ucast x :: u8;
           e = e\<lparr>index_reg := index_reg e OR unat (drop_bit 3 sib AND 7),
                 base_reg := base_reg e OR unat (sib AND 7)\<rparr>;
           scale = unat (drop_bit 6 sib)
       in and_then (sib_base ops ctxt e) (\<lambda>e.
            Go (if index_reg e = 4 then e
                else e\<lparr>modrm_ea := modrm_ea e + push_bit scale (e_regs e (index_reg e))\<rparr>))) e"

definition disp32 :: "x86_emulate_ops \<Rightarrow> x86_emulate_ctxt \<Rightarrow> emu \<Rightarrow> outcome" where
  "disp32 ops ctxt e =
     (if modrm_mod e = 0 then
        if modrm_rm e = 5 then fetch_signed ops ctxt 4 (\<lambda>x e. Go (e\<lparr>modrm_ea := modrm_ea e + x\<rparr>)) e
        else Go e
      else if modrm_mod e = 1 then fetch_signed ops ctxt 1 (\<lambda>x e. Go (e\<lparr>modrm_ea := modrm_ea e + x\<rparr>)) e
      else if modrm_mod e = 2 then fetch_signed ops ctxt 4 (\<lambda>x e. Go (e\<lparr>modrm_ea := modrm_ea e + x\<rparr>)) e
      else Go e)"

definition modrm32 :: "x86_emulate_ops \<Rightarrow> x86_emulate_ctxt \<Rightarrow> emu \<Rightarrow> outcome" where
  "modrm32 ops ctxt e =
     and_then
       (if modrm_rm e = 4 \<or> modrm_rm e = 12 then decode_sib ops ctxt e
        else if modrm_rm e = 5 then
          Go (if modrm_mod e \<noteq> 0 then e\<lparr>modrm_ea := modrm_ea e + e_regs e (modrm_rm e)\<rparr>
              else if ctxt_mode ctxt = X86EMUL_MODE_PROT64 then e\<lparr>rip_relative := True\<rparr> else e)
        else Go (e\<lparr>modrm_ea := modrm_ea e + e_regs e (modrm_rm e)\<rparr>))
       (disp32 ops ctxt)"

text \<open>The bytes of an immediate that still follow, for an address relative to the next instruction.\<close>

definition immediate_bytes :: "emu \<Rightarrow> u64" where
  "immediate_bytes e =
     (let src = e_d e AND SrcMask
      in if src = SrcImmByte then 1
         else if src = SrcImm then
           if e_d e AND ByteOp \<noteq> 0 then 1
           else if op_bytes e = 8 then 4 else of_nat (op_bytes e)
         else 0)"

text \<open>The segment base, the address relative to the instruction pointer, and the cut to 32 bits.\<close>

definition pick_segment :: "x86_emulate_ctxt \<Rightarrow> emu \<Rightarrow> seg_base option" where
  "pick_segment ctxt e =
     (let g = (if override_base e = None then Some DsBase else override_base e)
      in if ctxt_mode ctxt = X86EMUL_MODE_PROT64 \<and> g \<noteq> Some FsBase \<and> g \<noteq> Some GsBase then None else g)"

definition linear_address :: "x86_emulate_ctxt \<Rightarrow> seg_base option \<Rightarrow> emu \<Rightarrow> u64" where
  "linear_address ctxt g e =
     (let ea = modrm_ea e + (case g of None \<Rightarrow> 0 | Some g \<Rightarrow> base_of ctxt g);
          ea = (if rip_relative e then ea + e_eip e + immediate_bytes e else ea)
      in if ad_bytes e \<noteq> 8 then take_bit 32 ea else ea)"

definition finish_address :: "x86_emulate_ctxt \<Rightarrow> emu \<Rightarrow> emu" where
  "finish_address ctxt e =
     (let g = pick_segment ctxt e; ea = linear_address ctxt g e
      in e\<lparr>override_base := g, modrm_ea := ea, e_cr2 := ea\<rparr>)"

definition modrm_fields :: "u8 \<Rightarrow> emu \<Rightarrow> emu" where
  "modrm_fields modrm e =
     e\<lparr>modrm_mod := modrm_mod e OR unat (drop_bit 6 (modrm AND 0xc0)),
       modrm_reg := modrm_reg e OR unat (drop_bit 3 (modrm AND 0x38)),
       modrm_rm := modrm_rm e OR unat (modrm AND 7), modrm_ea := 0\<rparr>"

definition decode_address :: "x86_emulate_ops \<Rightarrow> x86_emulate_ctxt \<Rightarrow> emu \<Rightarrow> outcome" where
  "decode_address ops ctxt e =
     (if modrm_mod e = 3 then
        Go (e\<lparr>modrm_val := load_ptr 8 (decode_register (modrm_rm e) (e_d e AND ByteOp \<noteq> 0)) (e_regs e)\<rparr>)
      else and_then (if ad_bytes e = 2 then modrm16 ops ctxt e else modrm32 ops ctxt e)
             (\<lambda>e. Go (finish_address ctxt e)))"

definition decode_modrm :: "x86_emulate_ops \<Rightarrow> x86_emulate_ctxt \<Rightarrow> emu \<Rightarrow> outcome" where
  "decode_modrm ops ctxt e =
     (if e_d e AND ModRM = 0 then Go e
      else insn_fetch ops ctxt 1 (\<lambda>x e. decode_address ops ctxt (modrm_fields (ucast x) e)) e)"

section \<open>Operands of an instruction\<close>

text \<open>
  \<open>twobyte_table\<close>, an array, is always true where the code means \<open>twobyte\<close>; the opcodes it is
  about are not in the other table.
\<close>

definition decode_dst :: "x86_emulate_ops \<Rightarrow> x86_emulate_ctxt \<Rightarrow> emu \<Rightarrow> outcome" where
  "decode_dst ops ctxt e =
     (let d = e_d e; dst = e_dst e
      in if d AND DstMask = DstReg then
           if d AND ByteOp \<noteq> 0 \<and> \<not> (e_b e = 0xb6 \<or> e_b e = 0xb7) then
             let p = decode_register (modrm_reg e) (rex_prefix e = 0)
             in Go (e\<lparr>e_dst := dst\<lparr>op_type := OP_REG, op_ptr := p, op_val := load_ptr 1 p (e_regs e), op_size := 1\<rparr>\<rparr>)
           else
             let p = decode_register (modrm_reg e) False
             in Go (e\<lparr>e_dst := dst\<lparr>op_type := OP_REG, op_ptr := p,
                        op_val := load_ptr (op_bytes e) p (e_regs e), op_size := op_bytes e\<rparr>\<rparr>)
         else if d AND DstMask = DstMem then
           let sz = (if d AND ByteOp \<noteq> 0 then 1 else op_bytes e);
               e = e\<lparr>e_dst := dst\<lparr>op_type := OP_MEM, op_ptr := MemPtr (e_cr2 e), op_size := sz\<rparr>\<rparr>
           in if d AND Mov \<noteq> 0 then Go e
              else
                let (rc, xs, s) = read_emulated ops (e_cr2 e) sz (e_vm e);
                    e = e\<lparr>e_vm := s\<rparr>
                in if rc \<noteq> X86EMUL_CONTINUE then Done rc e
                   else Go (e\<lparr>e_dst := (e_dst e)\<lparr>op_val := stored (op_val (e_dst e)) xs\<rparr>\<rparr>)
         else Go e)"

definition fetch_immediate :: "x86_emulate_ops \<Rightarrow> x86_emulate_ctxt \<Rightarrow> emu \<Rightarrow> outcome" where
  "fetch_immediate ops ctxt e =
     (let sz = (if e_d e AND ByteOp \<noteq> 0 then 1 else if op_bytes e = 8 then 4 else op_bytes e)
      in fetch_signed ops ctxt sz (\<lambda>x e'.
           Go (e'\<lparr>e_src := (e_src e')\<lparr>op_type := OP_IMM, op_ptr := MemPtr (e_eip e), op_size := sz,
                                       op_val := x\<rparr>\<rparr>)) e)"

definition src_mem :: "x86_emulate_ops \<Rightarrow> nat \<Rightarrow> emu \<Rightarrow> outcome" where
  "src_mem ops sz e =
     (let (rc, xs, s) = read_emulated ops (e_cr2 e) sz (e_vm e);
          e = e\<lparr>e_vm := s, e_src := (e_src e)\<lparr>op_size := sz, op_type := OP_MEM, op_ptr := MemPtr (e_cr2 e)\<rparr>\<rparr>
      in if rc \<noteq> X86EMUL_CONTINUE then Done rc e
         else let v = stored (op_val (e_src e)) xs
              in Go (e\<lparr>e_src := (e_src e)\<lparr>op_val := v, op_orig := v\<rparr>\<rparr>))"

definition decode_src :: "x86_emulate_ops \<Rightarrow> x86_emulate_ctxt \<Rightarrow> emu \<Rightarrow> outcome" where
  "decode_src ops ctxt e =
     (let src = e_d e AND SrcMask; byte = (e_d e AND ByteOp \<noteq> 0)
      in if src = SrcReg then
           let p = decode_register (modrm_reg e) (byte \<and> rex_prefix e = 0);
               sz = (if byte then 1 else op_bytes e);
               v = load_ptr sz p (e_regs e)
           in Go (e\<lparr>e_src := \<lparr>op_type = OP_REG, op_size = sz, op_val = v, op_orig = v, op_ptr = p\<rparr>\<rparr>)
         else if src = SrcMem16 then src_mem ops 2 e
         else if src = SrcMem32 then src_mem ops 4 e
         else if src = SrcMem then src_mem ops (if byte then 1 else op_bytes e) e
         else if src = SrcImm then fetch_immediate ops ctxt e
         else if src = SrcImmByte then
           fetch_signed ops ctxt 1 (\<lambda>x e'.
             Go (e'\<lparr>e_src := (e_src e')\<lparr>op_type := OP_IMM, op_ptr := MemPtr (e_eip e), op_size := 1,
                                         op_val := x\<rparr>\<rparr>)) e
         else Go e)"

text \<open>The destination, its original value, and the source.\<close>

definition decode_operands :: "x86_emulate_ops \<Rightarrow> x86_emulate_ctxt \<Rightarrow> emu \<Rightarrow> outcome" where
  "decode_operands ops ctxt e =
     and_then (decode_dst ops ctxt e) (\<lambda>e.
       decode_src ops ctxt (e\<lparr>e_dst := (e_dst e)\<lparr>op_orig := op_val (e_dst e)\<rparr>\<rparr>))"

end
