(* ===== verification/Kvmctl.thy ===== *)
theory Kvmctl
  imports Kvm_Ioctl X86_Decode
begin

text \<open>
  The library of user space, \<open>libkvm/kvmctl.c\<close>: it creates the memory and the virtual cpu, runs the
  guest and answers its requests through the callbacks of the device model. A process is the
  virtual machine behind the file descriptor, the state of the device model, and the number of
  ioctls it has made; the n-th ioctl finds the environment \<open>envs n\<close>. The end of the process by
  \<open>exit(1)\<close>, \<open>abort\<close> or a bus error is a result, and so is fuel used up. Messages are left out.
\<close>

datatype 'a result = Returned 'a | Exited | Aborted | Sigbus | Unfinished

primrec after :: "'a result \<Rightarrow> ('a \<Rightarrow> 'b result) \<Rightarrow> 'b result" where
  "after (Returned x) f = f x"
| "after Exited f = Exited"
| "after Aborted f = Aborted"
| "after Sigbus f = Sigbus"
| "after Unfinished f = Unfinished"

section \<open>Callbacks and the process\<close>

text \<open>\<open>'d\<close> is the device model behind the pointer \<open>opaque\<close>; a callback returns the C result first.\<close>

record 'd kvm_callbacks =
  cb_cpuid :: "'d \<Rightarrow> u64 \<times> u64 \<times> u64 \<times> u64 \<Rightarrow> int \<times> (u64 \<times> u64 \<times> u64 \<times> u64) \<times> 'd"
  cb_inb :: "'d \<Rightarrow> u16 \<Rightarrow> int \<times> u8 \<times> 'd"
  cb_inw :: "'d \<Rightarrow> u16 \<Rightarrow> int \<times> u16 \<times> 'd"
  cb_inl :: "'d \<Rightarrow> u16 \<Rightarrow> int \<times> u32 \<times> 'd"
  cb_outb :: "'d \<Rightarrow> u16 \<Rightarrow> u8 \<Rightarrow> int \<times> 'd"
  cb_outw :: "'d \<Rightarrow> u16 \<Rightarrow> u16 \<Rightarrow> int \<times> 'd"
  cb_outl :: "'d \<Rightarrow> u16 \<Rightarrow> u32 \<Rightarrow> int \<times> 'd"
  cb_readb :: "'d \<Rightarrow> u64 \<Rightarrow> int \<times> u8 \<times> 'd"
  cb_readw :: "'d \<Rightarrow> u64 \<Rightarrow> int \<times> u16 \<times> 'd"
  cb_readl :: "'d \<Rightarrow> u64 \<Rightarrow> int \<times> u32 \<times> 'd"
  cb_readq :: "'d \<Rightarrow> u64 \<Rightarrow> int \<times> u64 \<times> 'd"
  cb_writeb :: "'d \<Rightarrow> u64 \<Rightarrow> u8 \<Rightarrow> int \<times> 'd"
  cb_writew :: "'d \<Rightarrow> u64 \<Rightarrow> u16 \<Rightarrow> int \<times> 'd"
  cb_writel :: "'d \<Rightarrow> u64 \<Rightarrow> u32 \<Rightarrow> int \<times> 'd"
  cb_writeq :: "'d \<Rightarrow> u64 \<Rightarrow> u64 \<Rightarrow> int \<times> 'd"
  cb_debug :: "'d \<Rightarrow> u32 \<Rightarrow> int \<times> 'd"
  cb_halt :: "'d \<Rightarrow> u32 \<Rightarrow> int \<times> 'd"
  cb_io_window :: "'d \<Rightarrow> int \<times> 'd"

text \<open>
  \<open>physical_memory\<close> is where guest memory is mapped and \<open>mapped_bytes\<close> the length of the mapping.
  \<open>stack_regs\<close> is what the stack holds where a \<open>struct kvm_regs\<close> is not initialised.
\<close>

record 'd kvm_context =
  callbacks :: "'d kvm_callbacks"
  physical_memory :: u64
  mapped_bytes :: u64
  stack_regs :: kvm_regs

record 'd process =
  u_vm :: vm
  u_dev :: 'd
  u_calls :: nat

type_synonym envs = "nat \<Rightarrow> ioctl_env"

definition user_ioctl :: "envs \<Rightarrow> ioctl \<Rightarrow> 'd process \<Rightarrow> ((errno option \<times> ioctl) \<times> 'd process) result" where
  "user_ioctl envs request w =
     (case kvm_dev_ioctl (envs (u_calls w)) request (u_vm w) of
        None \<Rightarrow> Unfinished
      | Some (r, answer, s) \<Rightarrow> Returned ((r, answer), w\<lparr>u_vm := s, u_calls := Suc (u_calls w)\<rparr>))"

text \<open>
  Guest memory through the mapping of the device file, at an offset from \<open>physical_memory\<close>: the
  page is the one that \<open>kvm_dev_nopage\<close> gives. An access outside the mapping faults too.
\<close>

definition user_hpa :: "'d kvm_context \<Rightarrow> vm \<Rightarrow> u64 \<Rightarrow> u64 option" where
  "user_hpa kvm s off =
     (if off < mapped_bytes kvm
      then map_option (\<lambda>page. push_bit PAGE_SHIFT page OR (off AND NOT PAGE_MASK))
        (kvm_dev_nopage s (physical_memory kvm) 0 (physical_memory kvm + off))
      else None)"

fun user_load :: "'d kvm_context \<Rightarrow> vm \<Rightarrow> u64 \<Rightarrow> nat \<Rightarrow> u8 list option" where
  "user_load kvm s off 0 = Some []"
| "user_load kvm s off (Suc n) =
     (case user_hpa kvm s off of None \<Rightarrow> None
      | Some hpa \<Rightarrow> map_option ((#) (hmem s hpa)) (user_load kvm s (off + 1) n))"

fun user_store :: "'d kvm_context \<Rightarrow> u64 \<Rightarrow> u8 list \<Rightarrow> vm \<Rightarrow> vm option" where
  "user_store kvm off [] s = Some s"
| "user_store kvm off (b # bs) s =
     (case user_hpa kvm s off of None \<Rightarrow> None
      | Some hpa \<Rightarrow> user_store kvm (off + 1) bs (s\<lparr>hmem := (hmem s)(hpa := b)\<rparr>))"

section \<open>Creation\<close>

text \<open>\<open>region\<close> is the result of \<open>mmap\<close>, \<open>None\<close> for \<open>MAP_FAILED\<close>.\<close>

definition kvm_create ::
  "envs \<Rightarrow> u64 \<Rightarrow> u64 option \<Rightarrow> 'd kvm_context \<Rightarrow> 'd process \<Rightarrow> ('d kvm_context \<times> 'd process) result" where
  "kvm_create envs memory region kvm w =
     (let dosmem = 0xa0000;
          exmem = 0xc0000;
          low_memory = \<lparr>mr_slot = 3, mr_flags = 0, mr_gpa = 0,
            mr_size = (if memory < dosmem then memory else dosmem)\<rparr>;
          extended_memory = \<lparr>mr_slot = 0, mr_flags = 0, mr_gpa = exmem,
            mr_size = (if memory < exmem then 0 else memory - exmem)\<rparr>
      in after (user_ioctl envs (KVM_SET_MEMORY_REGION low_memory) w) (\<lambda>((r, _), w).
         if r \<noteq> None then Exited
         else after (if mr_size extended_memory = 0 then Returned ((None, KVM_OTHER 0), w)
                     else user_ioctl envs (KVM_SET_MEMORY_REGION extended_memory) w) (\<lambda>((r, _), w).
         if r \<noteq> None then Exited
         else case region of
                None \<Rightarrow> Exited
              | Some vm_mem \<Rightarrow>
                  after (user_ioctl envs (KVM_CREATE_VCPU 0) w) (\<lambda>((r, _), w).
                  if r \<noteq> None then Exited
                  else Returned (kvm\<lparr>physical_memory := vm_mem, mapped_bytes := memory\<rparr>, w)))))"

definition kvm_create_phys_mem ::
  "envs \<Rightarrow> u64 \<Rightarrow> u64 \<Rightarrow> u32 \<Rightarrow> bool \<Rightarrow> u64 option \<Rightarrow> 'd process \<Rightarrow> (u64 \<times> 'd process) result" where
  "kvm_create_phys_mem envs phys_start len slot log region w =
     (let memory = \<lparr>mr_slot = slot, mr_flags = (if log then ucast KVM_MEM_LOG_DIRTY_PAGES else 0),
            mr_gpa = phys_start, mr_size = len\<rparr>
      in after (user_ioctl envs (KVM_SET_MEMORY_REGION memory) w) (\<lambda>((r, _), w).
         if r \<noteq> None then Returned (0, w)
         else Returned (case region of None \<Rightarrow> 0 | Some ptr \<Rightarrow> ptr, w)))"

definition kvm_destroy_phys_mem :: "u64 \<Rightarrow> u64 \<Rightarrow> 'd process \<Rightarrow> 'd process result" where
  "kvm_destroy_phys_mem phys_start len w = Exited"

definition kvm_get_dirty_pages :: "envs \<Rightarrow> u32 \<Rightarrow> u8 list \<Rightarrow> 'd process \<Rightarrow> (u8 list \<times> 'd process) result" where
  "kvm_get_dirty_pages envs slot buf w =
     after (user_ioctl envs (KVM_GET_DIRTY_LOG slot buf) w) (\<lambda>((r, answer), w).
       if r \<noteq> None then Exited
       else case answer of KVM_GET_DIRTY_LOG _ bytes \<Rightarrow> Returned (bytes, w) | _ \<Rightarrow> Returned (buf, w))"

section \<open>Registers, interrupts and debugging\<close>

definition kvm_get_regs :: "envs \<Rightarrow> u32 \<Rightarrow> kvm_regs \<Rightarrow> 'd process \<Rightarrow> ((errno option \<times> kvm_regs) \<times> 'd process) result" where
  "kvm_get_regs envs v r w =
     (let r = r\<lparr>gr_vcpu := v\<rparr>
      in after (user_ioctl envs (KVM_GET_REGS r) w) (\<lambda>((e, answer), w).
           Returned ((e, case answer of KVM_GET_REGS r' \<Rightarrow> r' | _ \<Rightarrow> r), w)))"

definition kvm_set_regs :: "envs \<Rightarrow> u32 \<Rightarrow> kvm_regs \<Rightarrow> 'd process \<Rightarrow> (errno option \<times> 'd process) result" where
  "kvm_set_regs envs v r w =
     after (user_ioctl envs (KVM_SET_REGS (r\<lparr>gr_vcpu := v\<rparr>)) w) (\<lambda>((e, _), w). Returned (e, w))"

definition kvm_get_sregs :: "envs \<Rightarrow> u32 \<Rightarrow> kvm_sregs \<Rightarrow> 'd process \<Rightarrow> ((errno option \<times> kvm_sregs) \<times> 'd process) result" where
  "kvm_get_sregs envs v r w =
     (let r = r\<lparr>sr_vcpu := v\<rparr>
      in after (user_ioctl envs (KVM_GET_SREGS r) w) (\<lambda>((e, answer), w).
           Returned ((e, case answer of KVM_GET_SREGS r' \<Rightarrow> r' | _ \<Rightarrow> r), w)))"

definition kvm_set_sregs :: "envs \<Rightarrow> u32 \<Rightarrow> kvm_sregs \<Rightarrow> 'd process \<Rightarrow> (errno option \<times> 'd process) result" where
  "kvm_set_sregs envs v r w =
     after (user_ioctl envs (KVM_SET_SREGS (r\<lparr>sr_vcpu := v\<rparr>)) w) (\<lambda>((e, _), w). Returned (e, w))"

definition kvm_show_regs :: "envs \<Rightarrow> 'd kvm_context \<Rightarrow> u32 \<Rightarrow> 'd process \<Rightarrow> 'd process result" where
  "kvm_show_regs envs kvm v w =
     after (user_ioctl envs (KVM_GET_REGS ((stack_regs kvm)\<lparr>gr_vcpu := v\<rparr>)) w) (\<lambda>((r, _), w).
       if r \<noteq> None then Exited else Returned w)"

definition kvm_inject_irq :: "envs \<Rightarrow> u32 \<Rightarrow> u32 \<Rightarrow> 'd process \<Rightarrow> (errno option \<times> 'd process) result" where
  "kvm_inject_irq envs v irq w = after (user_ioctl envs (KVM_INTERRUPT v irq) w) (\<lambda>((e, _), w). Returned (e, w))"

definition kvm_guest_debug :: "envs \<Rightarrow> u32 \<Rightarrow> kvm_debug_guest \<Rightarrow> 'd process \<Rightarrow> (errno option \<times> 'd process) result" where
  "kvm_guest_debug envs v dbg w =
     after (user_ioctl envs (KVM_DEBUG_GUEST (dbg\<lparr>dg_vcpu := v\<rparr>)) w) (\<lambda>((e, _), w). Returned (e, w))"

section \<open>Addresses of string instructions\<close>

text \<open>The cache of one page; a null pointer is \<open>None\<close>. \<open>physical\<close> is relative to \<open>physical_memory\<close>.\<close>

record translation_cache =
  tc_linear :: u64
  tc_physical :: "u64 option"

definition translation_cache_init :: "translation_cache \<Rightarrow> translation_cache" where
  "translation_cache_init tr = tr\<lparr>tc_physical := None\<rparr>"

definition translate ::
  "envs \<Rightarrow> u32 \<Rightarrow> translation_cache \<Rightarrow> u64 \<Rightarrow> 'd process \<Rightarrow>
    ((errno option \<times> u64 \<times> translation_cache) \<times> 'd process) result" where
  "translate envs v tr linear w =
     (let page = linear AND PAGE_MASK;
          offset = linear AND NOT PAGE_MASK
      in if tc_physical tr \<noteq> None \<and> tc_linear tr = page
         then Returned ((None, the (tc_physical tr) + offset, tr), w)
         else
           let kvm_tr = \<lparr>tl_linear_address = page, tl_vcpu = v, tl_physical_address = 0, tl_valid = False,
                 tl_writeable = False, tl_usermode = False\<rparr>
           in after (user_ioctl envs (KVM_TRANSLATE kvm_tr) w) (\<lambda>((r, answer), w).
                let kvm_tr = (case answer of KVM_TRANSLATE x \<Rightarrow> x | _ \<Rightarrow> kvm_tr)
                in if r \<noteq> None then Returned ((r, 0, tr), w)
                   else if \<not> tl_valid kvm_tr then Returned ((Some EFAULT, 0, tr), w)
                   else Returned ((None, tl_physical_address kvm_tr + offset,
                          \<lparr>tc_linear = page, tc_physical = Some (tl_physical_address kvm_tr)\<rparr>), w)))"

section \<open>Port input and output\<close>

definition more_io :: "kvm_run \<Rightarrow> bool \<Rightarrow> bool" where
  "more_io run first_time = (if \<not> io_rep (run_io run) then first_time else io_count (run_io run) \<noteq> 0)"

text \<open>\<open>value_addr\<close>: the register RAX in the local copy, or a place in guest memory.\<close>

datatype value_addr = Rax | Physical u64

definition load_value :: "'d kvm_context \<Rightarrow> nat \<Rightarrow> value_addr \<Rightarrow> kvm_regs \<Rightarrow> 'd process \<Rightarrow> u64 result" where
  "load_value kvm n a r w =
     (case a of
        Rax \<Rightarrow> Returned (bytes_val (val_bytes (gr_rax r) n))
      | Physical off \<Rightarrow> (case user_load kvm (u_vm w) off n of None \<Rightarrow> Sigbus | Some bs \<Rightarrow> Returned (bytes_val bs)))"

definition store_value ::
  "'d kvm_context \<Rightarrow> nat \<Rightarrow> u64 \<Rightarrow> value_addr \<Rightarrow> kvm_regs \<Rightarrow> 'd process \<Rightarrow> (kvm_regs \<times> 'd process) result" where
  "store_value kvm n x a r w =
     (case a of
        Rax \<Rightarrow> Returned (r\<lparr>gr_rax := bytes_val (overlay (val_bytes x n) (val_bytes (gr_rax r) 8))\<rparr>, w)
      | Physical off \<Rightarrow>
          (case user_store kvm off (val_bytes x n) (u_vm w) of
             None \<Rightarrow> Sigbus | Some s \<Rightarrow> Returned (r, w\<lparr>u_vm := s\<rparr>)))"

definition io_transfer ::
  "'d kvm_context \<Rightarrow> kvm_run \<Rightarrow> value_addr \<Rightarrow> kvm_regs \<Rightarrow> 'd process \<Rightarrow> (int \<times> kvm_regs \<times> 'd process) result" where
  "io_transfer kvm run a r w =
     (let cb = callbacks kvm; io = run_io run; addr = io_port io
      in if io_in io then
           if io_size io = 1 then
             let (rc, value, d) = cb_inb cb (u_dev w) addr
             in after (store_value kvm 1 (ucast value) a r (w\<lparr>u_dev := d\<rparr>)) (\<lambda>(r, w). Returned (rc, r, w))
           else if io_size io = 2 then
             let (rc, value, d) = cb_inw cb (u_dev w) addr
             in after (store_value kvm 2 (ucast value) a r (w\<lparr>u_dev := d\<rparr>)) (\<lambda>(r, w). Returned (rc, r, w))
           else if io_size io = 4 then
             let (rc, value, d) = cb_inl cb (u_dev w) addr
             in after (store_value kvm 4 (ucast value) a r (w\<lparr>u_dev := d\<rparr>)) (\<lambda>(r, w). Returned (rc, r, w))
           else Exited
         else
           if io_size io = 1 then
             after (load_value kvm 1 a r w) (\<lambda>x.
               let (rc, d) = cb_outb cb (u_dev w) addr (ucast x) in Returned (rc, r, w\<lparr>u_dev := d\<rparr>))
           else if io_size io = 2 then
             after (load_value kvm 2 a r w) (\<lambda>x.
               let (rc, d) = cb_outw cb (u_dev w) addr (ucast x) in Returned (rc, r, w\<lparr>u_dev := d\<rparr>))
           else if io_size io = 4 then
             after (load_value kvm 4 a r w) (\<lambda>x.
               let (rc, d) = cb_outl cb (u_dev w) addr (ucast x) in Returned (rc, r, w\<lparr>u_dev := d\<rparr>))
           else Exited)"

definition io_delta :: "kvm_run \<Rightarrow> u64" where
  "io_delta run =
     (if io_string_down (run_io run) then - ucast (io_size (run_io run)) else ucast (io_size (run_io run)))"

definition io_advance :: "kvm_run \<Rightarrow> kvm_regs \<Rightarrow> kvm_run \<times> kvm_regs" where
  "io_advance run r =
     (if io_string (run_io run) then
        let delta = io_delta run;
            io = run_io run;
            io = io\<lparr>io_address := io_address io + delta\<rparr>;
            r = (if io_in io then r\<lparr>gr_rdi := gr_rdi r + delta\<rparr> else r\<lparr>gr_rsi := gr_rsi r + delta\<rparr>)
        in if io_rep io then (run\<lparr>run_io := io\<lparr>io_count := io_count io - 1\<rparr>\<rparr>, r\<lparr>gr_rcx := gr_rcx r - 1\<rparr>)
           else (run\<lparr>run_io := io\<rparr>, r)
      else (run, r))"

text \<open>One round of the loop of \<open>handle_io\<close>.\<close>

definition io_round ::
  "envs \<Rightarrow> 'd kvm_context \<Rightarrow> translation_cache \<Rightarrow> kvm_regs \<Rightarrow> kvm_run \<Rightarrow> 'd process \<Rightarrow>
    (int \<times> translation_cache \<times> kvm_regs \<times> kvm_run \<times> 'd process) result" where
  "io_round envs kvm tr r run w =
     after (if \<not> io_string (run_io run) then Returned ((None, Rax, tr), w)
            else after (translate envs (run_vcpu run) tr (io_address (run_io run)) w)
              (\<lambda>((e, off, tr), w). Returned ((e, Physical off, tr), w))) (\<lambda>((e, a, tr), w).
     if e \<noteq> None then Exited
     else after (io_transfer kvm run a r w) (\<lambda>(rc, r, w).
       let (run, r) = io_advance run r in Returned (rc, tr, r, run, w)))"

fun io_loop ::
  "nat \<Rightarrow> envs \<Rightarrow> 'd kvm_context \<Rightarrow> bool \<Rightarrow> translation_cache \<Rightarrow> kvm_regs \<Rightarrow> kvm_run \<Rightarrow> 'd process \<Rightarrow>
    (int \<times> kvm_regs \<times> kvm_run \<times> 'd process) result" where
  "io_loop 0 envs kvm first tr r run w =
     (if more_io run first then Unfinished else Returned (0, r, run, w))"
| "io_loop (Suc fuel) envs kvm first tr r run w =
     (if \<not> more_io run first then Returned (0, r, run, w)
      else after (io_round envs kvm tr r run w) (\<lambda>(rc, tr, r, run, w).
        if rc \<noteq> 0 then Returned (rc, r, run, w) else io_loop fuel envs kvm False tr r run w))"

text \<open>The results of the register ioctls are not looked at.\<close>

definition user_handle_io ::
  "nat \<Rightarrow> envs \<Rightarrow> 'd kvm_context \<Rightarrow> kvm_run \<Rightarrow> 'd process \<Rightarrow> (int \<times> kvm_run \<times> 'd process) result" where
  "user_handle_io fuel envs kvm run w =
     after (kvm_get_regs envs (run_vcpu run) (stack_regs kvm) w) (\<lambda>((_, r), w).
     after (io_loop fuel envs kvm True (translation_cache_init \<lparr>tc_linear = 0, tc_physical = None\<rparr>) r run w)
       (\<lambda>(rc, r, run, w).
     after (user_ioctl envs (KVM_SET_REGS r) w) (\<lambda>(_, w).
     if rc \<noteq> 0 then Returned (rc, run, w) else Returned (0, run\<lparr>emulated := True\<rparr>, w))))"

section \<open>The other requests\<close>

definition handle_debug :: "'d kvm_context \<Rightarrow> kvm_run \<Rightarrow> 'd process \<Rightarrow> int \<times> 'd process" where
  "handle_debug kvm run w = (let (rc, d) = cb_debug (callbacks kvm) (u_dev w) (run_vcpu run) in (rc, w\<lparr>u_dev := d\<rparr>))"

definition user_handle_cpuid ::
  "envs \<Rightarrow> 'd kvm_context \<Rightarrow> kvm_run \<Rightarrow> 'd process \<Rightarrow> (int \<times> kvm_run \<times> 'd process) result" where
  "user_handle_cpuid envs kvm run w =
     after (kvm_get_regs envs (run_vcpu run) (stack_regs kvm) w) (\<lambda>((_, r), w).
     let orig_eax = ucast (gr_rax r) :: u32;
         (rc, (a, b, c, d), dev) = cb_cpuid (callbacks kvm) (u_dev w) (gr_rax r, gr_rbx r, gr_rcx r, gr_rdx r);
         d = (if orig_eax = 1 then d AND NOT (push_bit 12 1) else d)
     in after (kvm_set_regs envs (run_vcpu run) (r\<lparr>gr_rax := a, gr_rbx := b, gr_rcx := c, gr_rdx := d\<rparr>) (w\<lparr>u_dev := dev\<rparr>))
          (\<lambda>(_, w). Returned (rc, run\<lparr>emulated := True\<rparr>, w)))"

definition handle_mmio :: "'d kvm_context \<Rightarrow> kvm_run \<Rightarrow> 'd process \<Rightarrow> int \<times> kvm_run \<times> 'd process" where
  "handle_mmio kvm run w =
     (let cb = callbacks kvm; m = run_mmio run; addr = rm_phys_addr m; data = rm_data m;
          put = (\<lambda>x n. m\<lparr>rm_data := overlay (val_bytes x n) data\<rparr>)
      in if rm_is_write m then
           (let (r, d) = (if rm_len m = 1 then cb_writeb cb (u_dev w) addr (ucast (bytes_val (take 1 data)))
                else if rm_len m = 2 then cb_writew cb (u_dev w) addr (ucast (bytes_val (take 2 data)))
                else if rm_len m = 4 then cb_writel cb (u_dev w) addr (ucast (bytes_val (take 4 data)))
                else if rm_len m = 8 then cb_writeq cb (u_dev w) addr (bytes_val (take 8 data))
                else (-1, u_dev w))
            in (r, run, w\<lparr>u_dev := d\<rparr>))
         else
           (let (r, m, d) = (if rm_len m = 1 then let (r, x, d) = cb_readb cb (u_dev w) addr in (r, put (ucast x) 1, d)
                else if rm_len m = 2 then let (r, x, d) = cb_readw cb (u_dev w) addr in (r, put (ucast x) 2, d)
                else if rm_len m = 4 then let (r, x, d) = cb_readl cb (u_dev w) addr in (r, put (ucast x) 4, d)
                else if rm_len m = 8 then let (r, x, d) = cb_readq cb (u_dev w) addr in (r, put x 8, d)
                else (-1, m, u_dev w))
            in (r, run\<lparr>run_mmio := m, mmio_completed := True\<rparr>, w\<lparr>u_dev := d\<rparr>)))"

definition handle_io_window :: "'d kvm_context \<Rightarrow> kvm_run \<Rightarrow> 'd process \<Rightarrow> int \<times> 'd process" where
  "handle_io_window kvm run w = (let (rc, d) = cb_io_window (callbacks kvm) (u_dev w) in (rc, w\<lparr>u_dev := d\<rparr>))"

definition user_handle_halt :: "'d kvm_context \<Rightarrow> kvm_run \<Rightarrow> 'd process \<Rightarrow> int \<times> 'd process" where
  "user_handle_halt kvm run w = (let (rc, d) = cb_halt (callbacks kvm) (u_dev w) (run_vcpu run) in (rc, w\<lparr>u_dev := d\<rparr>))"

section \<open>Running the guest\<close>

text \<open>An exit of the virtual machine: the result of the handler, or the end of the process.\<close>

definition user_vm_exit ::
  "nat \<Rightarrow> envs \<Rightarrow> 'd kvm_context \<Rightarrow> u32 \<Rightarrow> kvm_run \<Rightarrow> 'd process \<Rightarrow> (int \<times> kvm_run \<times> 'd process) result" where
  "user_vm_exit fuel envs kvm v run w =
     (let keep = (\<lambda>(r, w). Returned (r, run, w)); reason = exit_reason run
      in if reason = KVM_EXIT_UNKNOWN then after (kvm_show_regs envs kvm v w) (\<lambda>_. Aborted)
         else if reason = KVM_EXIT_EXCEPTION then Aborted
         else if reason = KVM_EXIT_IO then user_handle_io fuel envs kvm run w
         else if reason = KVM_EXIT_CPUID then user_handle_cpuid envs kvm run w
         else if reason = KVM_EXIT_DEBUG then keep (handle_debug kvm run w)
         else if reason = KVM_EXIT_MMIO then Returned (handle_mmio kvm run w)
         else if reason = KVM_EXIT_HLT then keep (user_handle_halt kvm run w)
         else after (kvm_show_regs envs kvm v w) (\<lambda>_. Aborted))"

text \<open>The loop from the label \<open>again\<close>; the fuel bounds the calls of \<open>KVM_RUN\<close> and each string.\<close>

fun run_loop ::
  "nat \<Rightarrow> envs \<Rightarrow> 'd kvm_context \<Rightarrow> u32 \<Rightarrow> kvm_run \<Rightarrow> 'd process \<Rightarrow> (int \<times> 'd process) result" where
  "run_loop 0 envs kvm v run w = Unfinished"
| "run_loop (Suc fuel) envs kvm v run w =
     after (user_ioctl envs (KVM_RUN run) w) (\<lambda>((r, answer), w).
     let run = (case answer of KVM_RUN x \<Rightarrow> x | _ \<Rightarrow> run);
         run = run\<lparr>emulated := False, mmio_completed := False\<rparr>
     in if r \<noteq> None \<and> r \<noteq> Some EINTR then Exited
        else after
          (if r \<noteq> None then (case handle_io_window kvm run w of (r, w) \<Rightarrow> Returned (r, run, w))
           else if exit_type run = KVM_EXIT_TYPE_FAIL_ENTRY then Exited
           else if exit_type run = KVM_EXIT_TYPE_VM_EXIT then user_vm_exit fuel envs kvm v run w
           else Returned (0, run, w))
          (\<lambda>(r, run, w). if r = 0 then run_loop fuel envs kvm v run w else Returned (r, w)))"

text \<open>The rest of the structure is zero, as its initialiser says.\<close>

definition run_guest :: "nat \<Rightarrow> envs \<Rightarrow> 'd kvm_context \<Rightarrow> u32 \<Rightarrow> 'd process \<Rightarrow> (int \<times> 'd process) result" where
  "run_guest fuel envs kvm v w =
     run_loop fuel envs kvm v (example_run\<lparr>run_vcpu := v, emulated := False, mmio_completed := False,
       run_mmio := (run_mmio example_run)\<lparr>rm_data := replicate 8 0\<rparr>\<rparr>) w"

section \<open>Termination of a string\<close>

text \<open>A repeated string instruction needs one round per element at most.\<close>

lemma io_advance_count:
  assumes "io_advance run r = (run', r')" "io_string (run_io run)" "io_rep (run_io run)"
  shows "io_count (run_io run') = io_count (run_io run) - 1" "io_string (run_io run')" "io_rep (run_io run')"
  using assms by (auto simp: io_advance_def Let_def)

section \<open>Guest memory through the mapping\<close>

lemma user_hpa_gpa:
  assumes "\<not> is_error_hpa (gpa_to_hpa s gpa)" "drop_bit PAGE_SHIFT (gpa_to_hpa s gpa) \<noteq> 0"
    and "gpa < mapped_bytes kvm"
  shows "user_hpa kvm s gpa = Some (gpa_to_hpa s gpa)"
proof (cases "gfn_to_memslot s (drop_bit PAGE_SHIFT gpa)")
  case None
  then have "is_error_hpa (gpa_to_hpa s gpa)"
    by (simp add: gpa_to_hpa_def is_error_hpa_bit bit_or_iff mask_bits)
  with assms(1) show ?thesis by simp
next
  case (Some i)
  let ?p = "gfn_to_page s (memslots s i) (drop_bit PAGE_SHIFT gpa)"
  have h: "gpa_to_hpa s gpa = push_bit PAGE_SHIFT ?p OR (gpa AND NOT PAGE_MASK)"
    using Some by (simp add: gpa_to_hpa_def not_page_mask)
  have "drop_bit PAGE_SHIFT (gpa AND NOT PAGE_MASK) = 0"
    by (rule bit_word_eqI) (auto simp: bit_simps mask_bits PAGE_SHIFT_def)
  then have "?p \<noteq> 0" using assms(2) h by auto
  then show ?thesis using Some assms(3) h by (simp add: user_hpa_def kvm_dev_nopage_def Let_def)
qed

definition io_byte_ok :: "'d kvm_context \<Rightarrow> vm \<Rightarrow> u64 \<Rightarrow> bool" where
  "io_byte_ok kvm s a \<longleftrightarrow> \<not> is_error_hpa (gva_to_hpa s a) \<and> drop_bit PAGE_SHIFT (gva_to_hpa s a) \<noteq> 0 \<and>
     mmu_gva_to_gpa s a < mapped_bytes kvm"

lemma user_load_byte:
  assumes "slots_ok s" "io_byte_ok kvm s a"
  shows "user_load kvm s (mmu_gva_to_gpa s a) 1 = Some [hmem s (gva_to_hpa s a)]"
proof -
  have e: "\<not> is_error_hpa (gva_to_hpa s a)" using assms(2) by (simp add: io_byte_ok_def)
  note g = gva_to_hpa_gpa [OF assms(1), of a]
  have "user_hpa kvm s (mmu_gva_to_gpa s a) = Some (gva_to_hpa s a)"
    using user_hpa_gpa [of s "mmu_gva_to_gpa s a" kvm] assms(2) g(1) g(2) [OF e] by (simp add: io_byte_ok_def)
  then show ?thesis by simp
qed

section \<open>Translation\<close>

definition copies_ok :: "envs \<Rightarrow> bool" where
  "copies_ok envs \<longleftrightarrow> (\<forall>n. io_copy_in (envs n) \<and> io_copy_out (envs n))"

definition cache_ok :: "vm \<Rightarrow> translation_cache \<Rightarrow> bool" where
  "cache_ok s tr \<longleftrightarrow>
     (\<forall>p. tc_physical tr = Some p \<longrightarrow> p = mmu_gva_to_gpa s (tc_linear tr) \<and> p \<noteq> UNMAPPED_GVA)"

lemma gva_to_gpa_offset:
  assumes "mmu_gva_to_gpa s (a AND PAGE_MASK) \<noteq> UNMAPPED_GVA"
  shows "mmu_gva_to_gpa s (a AND PAGE_MASK) + (a AND NOT PAGE_MASK) = mmu_gva_to_gpa s a"
proof -
  have "unat (a AND NOT PAGE_MASK) < 4096" using page_offset_lt [of a] by (simp only: page_offset_def)
  then show ?thesis using mmu_gva_to_gpa_page [of s a] page_plus(1) assms by metis
qed

lemma translate_ok:
  assumes s: "slots_ok s" "vcpu_load s = Some s" "unat v < KVM_MAX_VCPUS" "copies_ok envs" "cache_ok s tr"
    and w: "u_vm w = s" and a: "\<not> is_error_hpa (gva_to_hpa s a)"
  shows "\<exists>tr' n. translate envs v tr a w = Returned ((None, mmu_gva_to_gpa s a, tr'), w\<lparr>u_calls := n\<rparr>) \<and>
    cache_ok s tr'"
proof -
  let ?p = "mmu_gva_to_gpa s (a AND PAGE_MASK)"
  have "mmu_gva_to_gpa s a \<noteq> UNMAPPED_GVA"
    using a gva_to_hpa_gpa(1) [OF s(1), of a] last_frame_error [OF s(1) refl] by metis
  moreover have "\<not> is_page UNMAPPED_GVA" by (simp add: is_page_def UNMAPPED_GVA_def PAGE_MASK_def PAGE_SIZE_val)
  ultimately have p: "?p \<noteq> UNMAPPED_GVA" using mmu_gva_to_gpa_page [of s a] by auto
  note o = gva_to_gpa_offset [OF p]
  show ?thesis
  proof (cases "tc_physical tr \<noteq> None \<and> tc_linear tr = a AND PAGE_MASK")
    case True
    then have "the (tc_physical tr) = ?p" using s(5) by (auto simp: cache_ok_def)
    then have "translate envs v tr a w = Returned ((None, mmu_gva_to_gpa s a, tr), w\<lparr>u_calls := u_calls w\<rparr>)"
      using True o by (simp add: translate_def Let_def)
    then show ?thesis using s(5) by blast
  next
    case False
    let ?tr = "\<lparr>tl_linear_address = a AND PAGE_MASK, tl_vcpu = v, tl_physical_address = 0, tl_valid = False,
      tl_writeable = False, tl_usermode = False\<rparr>"
    let ?out = "?tr\<lparr>tl_physical_address := ?p, tl_valid := True, tl_writeable := True, tl_usermode := False\<rparr>"
    have "kvm_dev_ioctl_translate ?tr s = (None, ?out, s)"
      using s(2,3) p by (simp add: kvm_dev_ioctl_translate_def Let_def)
    then have i: "user_ioctl envs (KVM_TRANSLATE ?tr) w =
        Returned ((None, KVM_TRANSLATE ?out), w\<lparr>u_calls := Suc (u_calls w)\<rparr>)"
      using s(4) w by (simp add: user_ioctl_def kvm_dev_ioctl_def ioctl_copies_def copies_ok_def)
    have "translate envs v tr a w = Returned ((None, mmu_gva_to_gpa s a,
        \<lparr>tc_linear = a AND PAGE_MASK, tc_physical = Some ?p\<rparr>), w\<lparr>u_calls := Suc (u_calls w)\<rparr>)"
      unfolding translate_def Let_def if_not_P [OF False] using i o by simp
    moreover have "cache_ok s \<lparr>tc_linear = a AND PAGE_MASK, tc_physical = Some ?p\<rparr>"
      using p by (simp add: cache_ok_def)
    ultimately show ?thesis by blast
  qed
qed

section \<open>A string of bytes to a port\<close>

definition out_string :: "kvm_run \<Rightarrow> bool" where
  "out_string run \<longleftrightarrow> \<not> io_in (run_io run) \<and> io_size (run_io run) = 1 \<and> io_string (run_io run) \<and>
     io_rep (run_io run) \<and> \<not> io_string_down (run_io run)"

lemma byte_val: "ucast (bytes_val [b]) = b"
  by (rule bit_word_eqI) (simp add: bit_simps)

lemma io_round_out:
  assumes s: "slots_ok s" "vcpu_load s = Some s" "unat (run_vcpu run) < KVM_MAX_VCPUS" "copies_ok envs" "cache_ok s tr"
    and w: "u_vm w = s" and run: "out_string run" and ok: "io_byte_ok kvm s (io_address (run_io run))"
    and d: "cb_outb (callbacks kvm) (u_dev w) (io_port (run_io run)) (hmem s (gva_to_hpa s (io_address (run_io run)))) = (rc, d)"
  shows "\<exists>tr' n. io_round envs kvm tr r run w = Returned (rc, tr',
      r\<lparr>gr_rsi := gr_rsi r + 1, gr_rcx := gr_rcx r - 1\<rparr>,
      run\<lparr>run_io := (run_io run)\<lparr>io_address := io_address (run_io run) + 1, io_count := io_count (run_io run) - 1\<rparr>\<rparr>,
      w\<lparr>u_dev := d, u_calls := n\<rparr>) \<and> cache_ok s tr'"
proof -
  let ?a = "io_address (run_io run)"
  have "\<not> is_error_hpa (gva_to_hpa s ?a)" using ok by (simp add: io_byte_ok_def)
  from translate_ok [OF s w this] obtain tr' n where t: "cache_ok s tr'"
    "translate envs (run_vcpu run) tr ?a w = Returned ((None, mmu_gva_to_gpa s ?a, tr'), w\<lparr>u_calls := n\<rparr>)" by blast
  have x: "io_transfer kvm run (Physical (mmu_gva_to_gpa s ?a)) r (w\<lparr>u_calls := n\<rparr>) =
      Returned (rc, r, w\<lparr>u_calls := n, u_dev := d\<rparr>)"
    using run d user_load_byte [OF s(1) ok] w
    by (simp add: io_transfer_def out_string_def load_value_def byte_val Let_def del: user_load.simps)
  have v: "io_advance run r = (run\<lparr>run_io := (run_io run)\<lparr>io_address := ?a + 1, io_count := io_count (run_io run) - 1\<rparr>\<rparr>,
      r\<lparr>gr_rsi := gr_rsi r + 1, gr_rcx := gr_rcx r - 1\<rparr>)"
    using run by (simp add: io_advance_def out_string_def io_delta_def Let_def)
  have "io_round envs kvm tr r run w = Returned (rc, tr', r\<lparr>gr_rsi := gr_rsi r + 1, gr_rcx := gr_rcx r - 1\<rparr>,
      run\<lparr>run_io := (run_io run)\<lparr>io_address := ?a + 1, io_count := io_count (run_io run) - 1\<rparr>\<rparr>,
      w\<lparr>u_dev := d, u_calls := n\<rparr>)"
    using run t(2) x v by (simp add: io_round_def out_string_def)
  then show ?thesis using t(1) by blast
qed

definition accept_byte :: "'d kvm_context \<Rightarrow> u16 \<Rightarrow> u8 \<Rightarrow> 'd \<Rightarrow> 'd" where
  "accept_byte kvm port b d = snd (cb_outb (callbacks kvm) d port b)"

lemma io_loop_out:
  assumes s: "slots_ok s" "vcpu_load s = Some s" "copies_ok envs"
    and dev: "\<forall>d p b. fst (cb_outb (callbacks kvm) d p b) = 0"
  shows "unat (run_vcpu run) < KVM_MAX_VCPUS \<Longrightarrow> cache_ok s tr \<Longrightarrow> u_vm w = s \<Longrightarrow> out_string run \<Longrightarrow>
    io_count (run_io run) = of_nat n \<Longrightarrow> n < 2 ^ 64 \<Longrightarrow> n \<le> fuel \<Longrightarrow>
    \<forall>k < n. io_byte_ok kvm s (io_address (run_io run) + of_nat k) \<Longrightarrow>
    \<exists>c. io_loop fuel envs kvm first tr r run w = Returned (0,
      r\<lparr>gr_rsi := gr_rsi r + of_nat n, gr_rcx := gr_rcx r - of_nat n\<rparr>,
      run\<lparr>run_io := (run_io run)\<lparr>io_address := io_address (run_io run) + of_nat n, io_count := 0\<rparr>\<rparr>,
      w\<lparr>u_calls := c, u_dev := fold (accept_byte kvm (io_port (run_io run)))
        (read_bytes gva_to_hpa s (io_address (run_io run)) n) (u_dev w)\<rparr>)"
proof (induction n arbitrary: fuel first tr r run w)
  case 0
  then have "\<not> more_io run first" by (simp add: more_io_def out_string_def)
  then show ?case using 0 by (cases fuel) (auto intro!: exI [of _ "u_calls w"])
next
  case (Suc n)
  obtain f where f: "fuel = Suc f" "n \<le> f" using Suc.prems(7) by (cases fuel) auto
  let ?io = "run_io run" and ?a = "io_address (run_io run)"
  let ?b = "hmem s (gva_to_hpa s ?a)"
  have c: "io_count ?io \<noteq> 0" using Suc.prems(5,6) by (simp add: word_of_nat_eq_0_iff nat_dvd_not_less del: of_nat_Suc)
  then have m: "more_io run first" using Suc.prems(4) by (simp add: more_io_def out_string_def)
  have ok: "io_byte_ok kvm s ?a" using Suc.prems(8) by force
  have "cb_outb (callbacks kvm) (u_dev w) (io_port ?io) ?b = (0, accept_byte kvm (io_port ?io) ?b (u_dev w))"
    using dev by (simp add: accept_byte_def prod_eq_iff)
  from io_round_out [OF s(1,2) Suc.prems(1) s(3) Suc.prems(2,3,4) ok this, of r]
  obtain tr' k where e: "cache_ok s tr'" "io_round envs kvm tr r run w = Returned (0, tr',
      r\<lparr>gr_rsi := gr_rsi r + 1, gr_rcx := gr_rcx r - 1\<rparr>,
      run\<lparr>run_io := ?io\<lparr>io_address := ?a + 1, io_count := io_count ?io - 1\<rparr>\<rparr>,
      w\<lparr>u_dev := accept_byte kvm (io_port ?io) ?b (u_dev w), u_calls := k\<rparr>)" by blast
  let ?run = "run\<lparr>run_io := ?io\<lparr>io_address := ?a + 1, io_count := io_count ?io - 1\<rparr>\<rparr>"
  let ?r = "r\<lparr>gr_rsi := gr_rsi r + 1, gr_rcx := gr_rcx r - 1\<rparr>"
  let ?w = "w\<lparr>u_dev := accept_byte kvm (io_port ?io) ?b (u_dev w), u_calls := k\<rparr>"
  have bs: "\<forall>j < n. io_byte_ok kvm s (?a + 1 + of_nat j)"
    using Suc.prems(8) by (metis Suc_less_eq add.assoc of_nat_Suc)
  have "\<exists>c. io_loop f envs kvm False tr' ?r ?run ?w = Returned (0,
      ?r\<lparr>gr_rsi := gr_rsi ?r + of_nat n, gr_rcx := gr_rcx ?r - of_nat n\<rparr>,
      ?run\<lparr>run_io := (run_io ?run)\<lparr>io_address := io_address (run_io ?run) + of_nat n, io_count := 0\<rparr>\<rparr>,
      ?w\<lparr>u_calls := c, u_dev := fold (accept_byte kvm (io_port (run_io ?run)))
        (read_bytes gva_to_hpa s (io_address (run_io ?run)) n) (u_dev ?w)\<rparr>)"
    by (rule Suc.IH) (use Suc.prems e(1) f bs in \<open>simp_all add: out_string_def\<close>)
  then obtain c' where l: "io_loop f envs kvm False tr' ?r ?run ?w = Returned (0,
      ?r\<lparr>gr_rsi := gr_rsi ?r + of_nat n, gr_rcx := gr_rcx ?r - of_nat n\<rparr>,
      ?run\<lparr>run_io := (run_io ?run)\<lparr>io_address := io_address (run_io ?run) + of_nat n, io_count := 0\<rparr>\<rparr>,
      ?w\<lparr>u_calls := c', u_dev := fold (accept_byte kvm (io_port (run_io ?run)))
        (read_bytes gva_to_hpa s (io_address (run_io ?run)) n) (u_dev ?w)\<rparr>)" by blast
  have g: "guest_byte gva_to_hpa s ?a = Some ?b" using ok by (simp add: io_byte_ok_def guest_byte_def)
  have "io_loop fuel envs kvm first tr r run w = io_loop f envs kvm False tr' ?r ?run ?w"
    by (simp add: f(1) m e(2))
  then show ?case
    unfolding l by (intro exI [of _ c']) (simp add: g add.assoc diff_diff_eq)
qed

text \<open>The register ioctls around the loop.\<close>

lemma vcpu_load_loaded: "vcpu_load s = Some s \<Longrightarrow> internal_vcpu_load s = s"
  by (simp add: vcpu_load_def split: if_splits)

lemma get_regs_loaded:
  assumes "vcpu_load (u_vm w) = Some (u_vm w)" "unat v < KVM_MAX_VCPUS" "copies_ok envs"
  shows "kvm_get_regs envs v r w =
    Returned ((None, read_regs (r\<lparr>gr_vcpu := v\<rparr>) (u_vm w)), w\<lparr>u_calls := Suc (u_calls w)\<rparr>)"
  using assms by (simp add: kvm_get_regs_def user_ioctl_def kvm_dev_ioctl_def ioctl_copies_def copies_ok_def
      kvm_dev_ioctl_get_regs_def with_vcpu_def Let_def)

lemma set_regs_loaded:
  assumes "vcpu_load (u_vm w) = Some (u_vm w)" "unat (gr_vcpu r) < KVM_MAX_VCPUS" "copies_ok envs"
  shows "user_ioctl envs (KVM_SET_REGS r) w =
    Returned ((None, KVM_SET_REGS r), w\<lparr>u_vm := write_regs r (u_vm w), u_calls := Suc (u_calls w)\<rparr>)"
  using assms by (simp add: user_ioctl_def kvm_dev_ioctl_def ioctl_copies_def copies_ok_def
      kvm_dev_ioctl_set_regs_def with_vcpu_def Let_def)

lemma string_regs:
  "regs (vcpu (write_regs (r\<lparr>gr_rsi := x, gr_rcx := y\<rparr>) s)) VCPU_REGS_RSI = x"
  "regs (vcpu (write_regs (r\<lparr>gr_rsi := x, gr_rcx := y\<rparr>) s)) VCPU_REGS_RCX = y"
  "gr_rsi (read_regs r s) = regs (vcpu s) VCPU_REGS_RSI" "gr_rcx (read_regs r s) = regs (vcpu s) VCPU_REGS_RCX"
  "gr_vcpu (read_regs r s) = gr_vcpu r"
  by (simp_all add: write_regs_def read_regs_def Let_def vmcs_simps)


text \<open>
  Without a string the counter is not advanced: a request with the repeat prefix and a counter
  that is not 0 is transferred for ever.
\<close>

lemma repeat_without_string:
  assumes "\<not> io_string (run_io run)" "io_rep (run_io run)" "io_count (run_io run) \<noteq> 0"
    and "\<not> io_in (run_io run)" "io_size (run_io run) = 1" "\<forall>d p b. fst (cb_outb (callbacks kvm) d p b) = 0"
  shows "io_loop fuel envs kvm first tr r run w = Unfinished"
proof (induction fuel arbitrary: first tr w)
  case 0
  then show ?case using assms by (simp add: more_io_def)
next
  case (Suc fuel)
  have "\<exists>d. io_round envs kvm tr r run w = Returned (0, tr, r, run, w\<lparr>u_dev := d\<rparr>)"
    using assms by (auto simp: io_round_def io_transfer_def load_value_def io_advance_def Let_def split: prod.splits)
      (metis fst_conv)
  then show ?case using Suc.IH assms by (auto simp: more_io_def)
qed

section \<open>A string of two bytes\<close>

definition example_kvm :: "u8 list kvm_context" where
  "example_kvm =
     \<lparr>callbacks = \<lparr>cb_cpuid = (\<lambda>d x. (0, x, d)), cb_inb = (\<lambda>d p. (0, 0, d)), cb_inw = (\<lambda>d p. (0, 0, d)),
        cb_inl = (\<lambda>d p. (0, 0, d)), cb_outb = (\<lambda>d p b. (0, d @ [b])), cb_outw = (\<lambda>d p x. (0, d)),
        cb_outl = (\<lambda>d p x. (0, d)), cb_readb = (\<lambda>d a. (0, 0, d)), cb_readw = (\<lambda>d a. (0, 0, d)),
        cb_readl = (\<lambda>d a. (0, 0, d)), cb_readq = (\<lambda>d a. (0, 0, d)), cb_writeb = (\<lambda>d a x. (0, d)),
        cb_writew = (\<lambda>d a x. (0, d)), cb_writel = (\<lambda>d a x. (0, d)), cb_writeq = (\<lambda>d a x. (0, d)),
        cb_debug = (\<lambda>d v. (0, d)), cb_halt = (\<lambda>d v. (0, d)), cb_io_window = (\<lambda>d. (0, d))\<rparr>,
      physical_memory = 0x100000, mapped_bytes = 0x1000, stack_regs = example_regs\<rparr>"

definition example_guest_memory :: vm where
  "example_guest_memory = example_shadow\<lparr>hmem := (hmem example_shadow)(0x9010 := 72, 0x9011 := 105),
     vcpu := (vcpu example_shadow)\<lparr>vcpu_vmcs := Some 0x1000, vcpu_cpu := 0\<rparr>,
     host := (host example_shadow)\<lparr>h_cpu := 0, h_current_vmcs := Some 0x1000\<rparr>\<rparr>"

definition example_envs :: envs where
  "example_envs n =
     \<lparr>io_copy_in = True, io_copy_out = True, io_host = example_host_env, io_fuel = 0,
      io_machine = \<lparr>enter_guest = (\<lambda>_ _ s. (False, s)), signal_pending = (\<lambda>_. True), reschedule = (\<lambda>_ h. h),
        fs_base_of = (\<lambda>_. 0)\<rparr>,
      io_memop = (\<lambda>c s. (True, c, s)), io_threads = (\<lambda>_ s. s)\<rparr>"

definition example_out :: kvm_run where
  "example_out = example_run\<lparr>run_io := \<lparr>io_in = False, io_size = 1, io_string = True, io_string_down = False,
     io_rep = True, io_port = 0xf1, io_count = 2, io_address = 0x10, io_value = 0\<rparr>\<rparr>"

lemma example_guest_memory_slots: "slots_ok example_guest_memory" "vcpu_load example_guest_memory = Some example_guest_memory"
  by (auto simp: slots_ok_def example_guest_memory_def example_shadow_def example_pool_def zero_defs slot_in_range_def
      slot_frames_def KVM_MEMORY_SLOTS_def vcpu_load_def internal_vcpu_load_def)

lemma example_guest_memory_gva:
  "mmu_gva_to_gpa example_guest_memory a = a"
  "gva_to_hpa example_guest_memory 0x10 = 0x9010" "gva_to_hpa example_guest_memory 0x11 = 0x9011"
proof -
  show g: "mmu_gva_to_gpa example_guest_memory a = a" for a
    by (simp add: mmu_gva_to_gpa_def example_guest_memory_def example_shadow_def nonpaging_gva_to_gpa_def)
  show "gva_to_hpa example_guest_memory 0x10 = 0x9010" "gva_to_hpa example_guest_memory 0x11 = 0x9011"
    by (simp_all add: gva_to_hpa_def g)
      (simp_all add: gpa_to_hpa_def gfn_to_memslot_def gfn_in_slot_def gfn_to_page_def varray_def arr_get_def
        example_guest_memory_def example_shadow_def zero_defs PAGE_SHIFT_def PAGE_SIZE_val UNMAPPED_GVA_def)
qed


end
