(* ===== verification/Kmod_Compat.thy ===== *)
theory Kmod_Compat
  imports Prelude
begin

text \<open>
  The functions with an algorithm of their own in \<open>external-module-compat.c\<close> of \<open>kvm-kmod\<close>, which
  stand in for functions that older kernels lack: a call of a function on a set of cpus, the
  division of 64 bit numbers on a 32 bit host, and the normal form of a time. The call is a step
  relation, because the other cpus take the interrupt when they can; the record it passes to them
  is on the stack of the caller.
\<close>

section \<open>A call on other cpus\<close>

text \<open>How far a cpu of the mask is in \<open>kvm_ack_smp_call\<close>.\<close>

datatype ack_phase = NotSent | Sent | Loaded | Started | Ran | Finished

text \<open>The caller sends to the cpus that are left, then waits twice; on return its stack is gone.\<close>

datatype call_phase = Sending "nat list" | AwaitStarted | AwaitFinished | CallReturned

record call_data =
  cd_started :: nat
  cd_finished :: nat
  cd_wait :: bool

record smp_call =
  sc_data :: call_data
  sc_cpus :: nat
  sc_caller :: call_phase
  sc_ack :: "nat \<Rightarrow> ack_phase"
  sc_runs :: "nat \<Rightarrow> nat"

text \<open>\<open>for_each\<close> over \<open>mask\<close> without the caller's own cpu and the cpus that are not online.\<close>

definition call_targets :: "nat list \<Rightarrow> nat \<Rightarrow> nat set \<Rightarrow> nat list" where
  "call_targets online me cpumask = filter (\<lambda>c. c \<in> cpumask \<and> c \<noteq> me) online"

definition kvm_smp_call_function_mask :: "nat list \<Rightarrow> nat \<Rightarrow> nat set \<Rightarrow> bool \<Rightarrow> smp_call" where
  "kvm_smp_call_function_mask online me cpumask wait =
     (let cpus = call_targets online me cpumask
      in \<lparr>sc_data = \<lparr>cd_started = 0, cd_finished = 0, cd_wait = wait\<rparr>, sc_cpus = length cpus,
          sc_caller = (if cpus = [] then CallReturned else Sending cpus),
          sc_ack = (\<lambda>_. NotSent), sc_runs = (\<lambda>_. 0)\<rparr>)"

definition set_ack :: "nat \<Rightarrow> ack_phase \<Rightarrow> smp_call \<Rightarrow> smp_call" where
  "set_ack c p s = s\<lparr>sc_ack := (sc_ack s)(c := p)\<rparr>"

text \<open>The caller's next step, \<open>None\<close> while it spins.\<close>

definition caller_step :: "smp_call \<Rightarrow> smp_call option" where
  "caller_step s =
     (case sc_caller s of
        Sending (c # cs) \<Rightarrow> Some (set_ack c Sent (s\<lparr>sc_caller := Sending cs\<rparr>))
      | Sending [] \<Rightarrow> Some (s\<lparr>sc_caller := AwaitStarted\<rparr>)
      | AwaitStarted \<Rightarrow>
          if cd_started (sc_data s) \<noteq> sc_cpus s then None
          else Some (s\<lparr>sc_caller := (if cd_wait (sc_data s) then AwaitFinished else CallReturned)\<rparr>)
      | AwaitFinished \<Rightarrow>
          if cd_finished (sc_data s) \<noteq> sc_cpus s then None else Some (s\<lparr>sc_caller := CallReturned\<rparr>)
      | CallReturned \<Rightarrow> None)"

text \<open>
  The next step of \<open>kvm_ack_smp_call\<close> on a cpu that has the interrupt. The function runs on the
  handler's own copies of its fields.
\<close>

definition kvm_ack_smp_call :: "bool \<Rightarrow> nat \<Rightarrow> smp_call \<Rightarrow> smp_call option" where
  "kvm_ack_smp_call wait c s =
     (case sc_ack s c of
        Sent \<Rightarrow> Some (set_ack c Loaded s)
      | Loaded \<Rightarrow> Some (set_ack c Started (s\<lparr>sc_data := (sc_data s)\<lparr>cd_started := cd_started (sc_data s) + 1\<rparr>\<rparr>))
      | Started \<Rightarrow> Some (set_ack c Ran (s\<lparr>sc_runs := (sc_runs s)(c := sc_runs s c + 1)\<rparr>))
      | Ran \<Rightarrow>
          Some (set_ack c Finished
            (if wait then s\<lparr>sc_data := (sc_data s)\<lparr>cd_finished := cd_finished (sc_data s) + 1\<rparr>\<rparr> else s))
      | _ \<Rightarrow> None)"

text \<open>Whether the next step of the handler on \<open>c\<close> reads or writes the caller's record.\<close>

definition touches_data :: "bool \<Rightarrow> nat \<Rightarrow> smp_call \<Rightarrow> bool" where
  "touches_data wait c s \<longleftrightarrow> sc_ack s c = Sent \<or> sc_ack s c = Loaded \<or> (sc_ack s c = Ran \<and> wait)"

inductive call_step :: "bool \<Rightarrow> smp_call \<Rightarrow> smp_call \<Rightarrow> bool" for wait where
  caller: "caller_step s = Some t \<Longrightarrow> call_step wait s t"
| ack: "kvm_ack_smp_call wait c s = Some t \<Longrightarrow> call_step wait s t"

inductive call_reach :: "bool \<Rightarrow> smp_call \<Rightarrow> smp_call \<Rightarrow> bool" for wait s0 where
  start: "call_reach wait s0 s0"
| step: "call_reach wait s0 s \<Longrightarrow> call_step wait s t \<Longrightarrow> call_reach wait s0 t"

inductive_cases call_stepE: "call_step wait s t"

section \<open>The invariant\<close>

text \<open>The cpus the caller has not sent to yet.\<close>

definition unsent :: "smp_call \<Rightarrow> nat list" where
  "unsent s = (case sc_caller s of Sending cs \<Rightarrow> cs | _ \<Rightarrow> [])"

definition acked :: "smp_call \<Rightarrow> nat \<Rightarrow> bool" where
  "acked s c \<longleftrightarrow> sc_ack s c = Started \<or> sc_ack s c = Ran \<or> sc_ack s c = Finished"

definition has_run :: "smp_call \<Rightarrow> nat \<Rightarrow> bool" where
  "has_run s c \<longleftrightarrow> sc_ack s c = Ran \<or> sc_ack s c = Finished"

definition cpu_ok :: "bool \<Rightarrow> nat list \<Rightarrow> smp_call \<Rightarrow> nat \<Rightarrow> bool" where
  "cpu_ok wait cpus s c \<longleftrightarrow>
     (if c \<in> set cpus then sc_ack s c = NotSent \<longleftrightarrow> c \<in> set (unsent s)
      else sc_ack s c = NotSent \<and> c \<notin> set (unsent s)) \<and>
     sc_runs s c = (if has_run s c then 1 else 0) \<and>
     (sc_caller s = CallReturned \<and> c \<in> set cpus \<longrightarrow> acked s c \<and> (wait \<longrightarrow> sc_ack s c = Finished))"

definition counts_ok :: "bool \<Rightarrow> nat list \<Rightarrow> smp_call \<Rightarrow> bool" where
  "counts_ok wait cpus s \<longleftrightarrow> cd_wait (sc_data s) = wait \<and> sc_cpus s = length cpus \<and>
     cd_started (sc_data s) = length (filter (acked s) cpus) \<and>
     (wait \<longrightarrow> cd_finished (sc_data s) = length (filter (\<lambda>c. sc_ack s c = Finished) cpus))"

definition call_inv :: "bool \<Rightarrow> nat list \<Rightarrow> smp_call \<Rightarrow> bool" where
  "call_inv wait cpus s \<longleftrightarrow> distinct cpus \<and> distinct (unsent s) \<and> counts_ok wait cpus s \<and>
     (sc_caller s = AwaitFinished \<longrightarrow> wait) \<and> (\<forall>c. cpu_ok wait cpus s c)"

lemma filter_update_length:
  assumes "distinct xs" "c \<in> set xs" "\<not> P c" "Q c" "\<And>x. x \<noteq> c \<Longrightarrow> Q x = P x"
  shows "length (filter Q xs) = Suc (length (filter P xs))"
  using assms(1,2)
proof (induction xs)
  case (Cons x xs)
  show ?case
  proof (cases "x = c")
    case True
    then have "\<forall>y \<in> set xs. Q y = P y" using Cons.prems(1) assms(5) by (metis distinct.simps(2))
    then have "filter Q xs = filter P xs" by (metis filter_cong)
    then show ?thesis using True assms(3,4) by simp
  next
    case False
    then show ?thesis using Cons assms(5) by simp
  qed
qed simp

lemma all_filtered: "length (filter P xs) = length xs \<longleftrightarrow> (\<forall>x \<in> set xs. P x)"
  using filter_id_conv [of P xs] by (metis length_filter_less less_irrefl filter_True)

text \<open>A step that starts, runs and finishes nothing leaves the counters right.\<close>

lemma counts_same:
  assumes "counts_ok wait cpus s" "sc_data t = sc_data s" "sc_cpus t = sc_cpus s"
    and "\<And>c. acked t c = acked s c" "\<And>c. (sc_ack t c = Finished) = (sc_ack s c = Finished)"
  shows "counts_ok wait cpus t"
proof -
  have "acked t = acked s" using assms(4) by (simp add: fun_eq_iff)
  then show ?thesis using assms(1,2,3,5) by (simp add: counts_ok_def)
qed

lemma caller_step_inv:
  assumes i: "call_inv wait cpus s" and a: "caller_step s = Some t"
  shows "call_inv wait cpus t"
proof (cases "sc_caller s")
  case (Sending cs)
  show ?thesis
  proof (cases cs)
    case Nil
    then have t: "t = s\<lparr>sc_caller := AwaitStarted\<rparr>" using a Sending by (simp add: caller_step_def)
    have u: "unsent t = []" "unsent s = []" using Sending Nil by (simp_all add: t unsent_def)
    have k: "acked t c = acked s c" "has_run t c = has_run s c" for c by (simp_all add: t acked_def has_run_def)
    have "counts_ok wait cpus t" by (rule counts_same) (use i k in \<open>simp_all add: call_inv_def t\<close>)
    moreover have "cpu_ok wait cpus t c" for c
      using i k u by (simp add: call_inv_def cpu_ok_def) (simp add: t)
    ultimately show ?thesis using i u by (simp add: call_inv_def t)
  next
    case (Cons c cs')
    have t: "t = set_ack c Sent (s\<lparr>sc_caller := Sending cs'\<rparr>)" using a Sending Cons by (simp add: caller_step_def)
    have u: "unsent t = cs'" "unsent s = c # cs'" using Sending Cons by (simp_all add: t unsent_def set_ack_def)
    have c: "c \<in> set cpus" "sc_ack s c = NotSent" "c \<notin> set cs'"
      using i u(2) unfolding call_inv_def cpu_ok_def by (auto dest!: spec [of _ c] split: if_splits)
    have k: "acked t x = acked s x" "has_run t x = has_run s x" "(sc_ack t x = Finished) = (sc_ack s x = Finished)" for x
      using c(2) by (simp_all add: t set_ack_def acked_def has_run_def)
    have "counts_ok wait cpus t" by (rule counts_same) (use i k in \<open>simp_all add: call_inv_def t set_ack_def\<close>)
    moreover have "cpu_ok wait cpus t x" for x
    proof (cases "x = c")
      case True
      have "cpu_ok wait cpus s c" using i by (simp add: call_inv_def)
      then show ?thesis using True c k(2) [of c] unfolding cpu_ok_def u by (simp add: t set_ack_def)
    next
      case False
      have "cpu_ok wait cpus s x" using i by (simp add: call_inv_def)
      then show ?thesis
        using False k(1,2) [of x] unfolding cpu_ok_def u by (cases "x \<in> set cpus") (simp_all add: t set_ack_def)
    qed
    ultimately show ?thesis using i u by (simp add: call_inv_def) (simp add: t set_ack_def)
  qed
next
  case AwaitStarted
  then have t: "cd_started (sc_data s) = sc_cpus s"
    "t = s\<lparr>sc_caller := (if cd_wait (sc_data s) then AwaitFinished else CallReturned)\<rparr>"
    using a by (simp_all add: caller_step_def split: if_splits)
  have w: "cd_wait (sc_data s) = wait" "\<forall>c \<in> set cpus. acked s c"
    using i t(1) all_filtered [of "acked s" cpus] by (simp_all add: call_inv_def counts_ok_def)
  have u: "unsent t = []" "unsent s = []" using AwaitStarted by (simp_all add: t(2) unsent_def)
  have k: "acked t c = acked s c" "has_run t c = has_run s c" for c by (simp_all add: t(2) acked_def has_run_def)
  have "counts_ok wait cpus t" by (rule counts_same) (use i k in \<open>simp_all add: call_inv_def t(2)\<close>)
  moreover have "cpu_ok wait cpus t c" for c
    using i k u w by (simp add: call_inv_def cpu_ok_def) (simp add: t(2))
  ultimately show ?thesis using i u w(1) by (simp add: call_inv_def t(2))
next
  case AwaitFinished
  then have t: "cd_finished (sc_data s) = sc_cpus s" "t = s\<lparr>sc_caller := CallReturned\<rparr>"
    using a by (simp_all add: caller_step_def split: if_splits)
  have w1: wait using i AwaitFinished by (simp add: call_inv_def)
  then have "length (filter (\<lambda>c. sc_ack s c = Finished) cpus) = length cpus"
    using i t(1) by (simp add: call_inv_def counts_ok_def)
  then have w: wait "\<forall>c \<in> set cpus. sc_ack s c = Finished" using w1 unfolding all_filtered by simp_all
  have u: "unsent t = []" "unsent s = []" using AwaitFinished by (simp_all add: t(2) unsent_def)
  have k: "acked t c = acked s c" "has_run t c = has_run s c" for c by (simp_all add: t(2) acked_def has_run_def)
  have "counts_ok wait cpus t" by (rule counts_same) (use i k in \<open>simp_all add: call_inv_def t(2)\<close>)
  moreover have "cpu_ok wait cpus t c" for c
    using i k u w by (simp add: call_inv_def cpu_ok_def acked_def) (simp add: t(2))
  ultimately show ?thesis using i u by (simp add: call_inv_def t(2))
next
  case CallReturned
  then show ?thesis using a by (simp add: caller_step_def)
qed

text \<open>A step of the handler on \<open>c\<close>: the other cpus and the caller stay as they are.\<close>

lemma ack_frame:
  assumes i: "call_inv wait cpus s" and t: "sc_caller t = sc_caller s" "sc_cpus t = sc_cpus s"
    and o: "\<And>x. x \<noteq> c \<Longrightarrow> sc_ack t x = sc_ack s x \<and> sc_runs t x = sc_runs s x"
    and c: "counts_ok wait cpus t" "sc_ack s c \<noteq> NotSent" "sc_ack t c \<noteq> NotSent"
      "sc_runs t c = (if has_run t c then 1 else 0)" "acked s c \<Longrightarrow> acked t c" "sc_ack s c \<noteq> Finished"
      "sc_caller s = CallReturned \<Longrightarrow> wait \<Longrightarrow> False"
  shows "call_inv wait cpus t"
proof -
  have u: "unsent t = unsent s" using t(1) by (simp add: unsent_def)
  have "cpu_ok wait cpus t x" for x
  proof (cases "x = c")
    case True
    have "cpu_ok wait cpus s c" using i by (simp add: call_inv_def)
    then show ?thesis using True c u t by (auto simp: cpu_ok_def split: if_splits)
  next
    case False
    have "cpu_ok wait cpus s x" using i by (simp add: call_inv_def)
    then show ?thesis using o [OF False] u t by (simp add: cpu_ok_def acked_def has_run_def)
  qed
  then show ?thesis using i u t c(1) by (simp add: call_inv_def)
qed

lemma ack_step_inv:
  assumes i: "call_inv wait cpus s" and a: "kvm_ack_smp_call wait c s = Some t"
  shows "call_inv wait cpus t"
proof -
  have p: "sc_ack s c \<noteq> NotSent" "sc_ack s c \<noteq> Finished"
    using a by (auto simp: kvm_ack_smp_call_def)
  have ok: "cpu_ok wait cpus s c" "counts_ok wait cpus s" "distinct cpus" using i by (simp_all add: call_inv_def)
  have c: "c \<in> set cpus" using ok(1) p(1) by (simp add: cpu_ok_def split: if_splits)
  have r: "sc_runs s c = (if has_run s c then 1 else 0)" "sc_caller s = CallReturned \<Longrightarrow> wait \<Longrightarrow> False"
    using ok(1) c p by (simp_all add: cpu_ok_def)
  note f = filter_update_length [OF ok(3) c]
  show ?thesis
  proof (cases "sc_ack s c")
    case Sent
    then have t: "t = set_ack c Loaded s" using a by (simp add: kvm_ack_smp_call_def)
    have counts: "counts_ok wait cpus t"
      by (rule counts_same [OF ok(2)]) (simp_all add: t set_ack_def acked_def Sent)
    show ?thesis
      by (rule ack_frame [OF i _ _ _ counts p(1) _ _ _ p(2) r(2)])
        (use r(1) in \<open>simp_all add: t set_ack_def acked_def has_run_def Sent\<close>)
  next
    case Loaded
    then have t: "t = set_ack c Started (s\<lparr>sc_data := (sc_data s)\<lparr>cd_started := cd_started (sc_data s) + 1\<rparr>\<rparr>)"
      using a by (simp add: kvm_ack_smp_call_def)
    have l: "length (filter (acked t) cpus) = Suc (length (filter (acked s) cpus))"
      by (rule f) (simp_all add: t set_ack_def acked_def Loaded)
    have n: "(sc_ack t x = Finished) = (sc_ack s x = Finished)" for x by (simp add: t set_ack_def Loaded)
    have counts: "counts_ok wait cpus t"
      using ok(2) l n by (simp add: counts_ok_def) (simp add: t set_ack_def)
    show ?thesis
      by (rule ack_frame [OF i _ _ _ counts p(1) _ _ _ p(2) r(2)])
        (use r(1) in \<open>simp_all add: t set_ack_def acked_def has_run_def Loaded\<close>)
  next
    case Started
    then have t: "t = set_ack c Ran (s\<lparr>sc_runs := (sc_runs s)(c := sc_runs s c + 1)\<rparr>)"
      using a by (simp add: kvm_ack_smp_call_def)
    have counts: "counts_ok wait cpus t"
      by (rule counts_same [OF ok(2)]) (simp_all add: t set_ack_def acked_def Started)
    show ?thesis
      by (rule ack_frame [OF i _ _ _ counts p(1) _ _ _ p(2) r(2)])
        (use r(1) in \<open>simp_all add: t set_ack_def acked_def has_run_def Started\<close>)
  next
    case Ran
    let ?d = "if wait then s\<lparr>sc_data := (sc_data s)\<lparr>cd_finished := cd_finished (sc_data s) + 1\<rparr>\<rparr> else s"
    have t: "t = set_ack c Finished ?d" using a Ran by (simp add: kvm_ack_smp_call_def)
    have l: "length (filter (\<lambda>x. sc_ack t x = Finished) cpus) = Suc (length (filter (\<lambda>x. sc_ack s x = Finished) cpus))"
      by (rule f) (simp_all add: t set_ack_def Ran)
    have n: "acked t = acked s" by (simp add: fun_eq_iff t set_ack_def acked_def Ran)
    have counts: "counts_ok wait cpus t"
      using ok(2) l n by (simp add: counts_ok_def) (simp add: t set_ack_def)
    show ?thesis
      by (rule ack_frame [OF i _ _ _ counts p(1) _ _ _ p(2) r(2)])
        (use r(1) in \<open>simp_all add: t set_ack_def acked_def has_run_def Ran\<close>)
  qed (use p in simp_all)
qed

lemma call_start_inv:
  assumes "distinct online"
  shows "call_inv wait (call_targets online me cpumask) (kvm_smp_call_function_mask online me cpumask wait)"
proof -
  let ?cpus = "call_targets online me cpumask"
  obtain s where s: "s = kvm_smp_call_function_mask online me cpumask wait" by simp
  have f: "sc_ack s = (\<lambda>_. NotSent)" "sc_runs s = (\<lambda>_. 0)" "unsent s = ?cpus"
    "sc_data s = \<lparr>cd_started = 0, cd_finished = 0, cd_wait = wait\<rparr>" "sc_cpus s = length ?cpus"
    "sc_caller s = (if ?cpus = [] then CallReturned else Sending ?cpus)"
    by (simp_all add: s kvm_smp_call_function_mask_def Let_def unsent_def)
  have "distinct ?cpus" using assms by (simp add: call_targets_def)
  then show ?thesis unfolding s [symmetric]
    by (auto simp: call_inv_def cpu_ok_def counts_ok_def acked_def [abs_def] has_run_def f)
qed

lemma call_reach_inv:
  assumes "call_reach wait s0 s" "call_inv wait cpus s0"
  shows "call_inv wait cpus s"
  using assms
proof (induction rule: call_reach.induct)
  case (step s t)
  from step.hyps(2) show ?case by (rule call_stepE) (use step caller_step_inv ack_step_inv in blast)+
qed

lemma ack_none: "kvm_ack_smp_call wait c s = None \<longleftrightarrow> sc_ack s c = NotSent \<or> sc_ack s c = Finished"
  by (cases "sc_ack s c") (simp_all add: kvm_ack_smp_call_def)

text \<open>
  C40: a call on other cpus, however their handlers are delayed. When the caller has returned, no
  handler touches its record again, though the record is on its stack; the function has started or
  is about to on every cpu of the mask, and with \<open>wait\<close> it has run on each exactly once, and on no
  other. Until the caller returns, some step is possible.
\<close>

theorem smp_call_data_safe:
  assumes "distinct online" "call_reach wait (kvm_smp_call_function_mask online me cpumask wait) s"
  shows "(if sc_caller s = CallReturned
      then (\<forall>c. \<not> touches_data wait c s) \<and>
        (wait \<longrightarrow> (\<forall>c. sc_runs s c = (if c \<in> set (call_targets online me cpumask) then 1 else 0)))
      else \<exists>t. call_step wait s t) \<and> (\<forall>c. sc_runs s c \<le> 1)"
proof -
  let ?cpus = "call_targets online me cpumask"
  have i: "call_inv wait ?cpus s" by (rule call_reach_inv [OF assms(2) call_start_inv [OF assms(1)]])
  have progress: "\<exists>t. call_step wait s t" if n: "sc_caller s \<noteq> CallReturned"
  proof (rule ccontr)
    assume stuck: "\<nexists>t. call_step wait s t"
    then have "kvm_ack_smp_call wait c s = None" for c using call_step.ack by (metis option.exhaust)
    then have p: "sc_ack s c = NotSent \<or> sc_ack s c = Finished" for c by (simp add: ack_none)
    have "caller_step s = None" using stuck call_step.caller by (metis option.exhaust)
    then have q: "sc_caller s = AwaitStarted \<and> cd_started (sc_data s) \<noteq> sc_cpus s \<or>
        sc_caller s = AwaitFinished \<and> cd_finished (sc_data s) \<noteq> sc_cpus s"
      using n by (auto simp: caller_step_def split: call_phase.splits list.splits if_splits)
    then have u: "unsent s = []" by (auto simp: unsent_def)
    have f: "\<forall>c \<in> set ?cpus. sc_ack s c = Finished"
    proof
      fix c assume "c \<in> set ?cpus"
      moreover have "cpu_ok wait ?cpus s c" using i by (simp add: call_inv_def)
      ultimately show "sc_ack s c = Finished" using p [of c] u by (simp add: cpu_ok_def)
    qed
    then have "cd_started (sc_data s) = sc_cpus s" "wait \<longrightarrow> cd_finished (sc_data s) = sc_cpus s"
      using i all_filtered [of "acked s" ?cpus] all_filtered [of "\<lambda>c. sc_ack s c = Finished" ?cpus]
      by (simp_all add: call_inv_def counts_ok_def acked_def)
    moreover have "sc_caller s = AwaitFinished \<longrightarrow> wait" using i by (simp add: call_inv_def)
    ultimately show False using q by auto
  qed
  have ok: "cpu_ok wait ?cpus s c" for c using i by (simp add: call_inv_def)
  have "\<not> touches_data wait c s" if "sc_caller s = CallReturned" for c
    using ok [of c] that by (auto simp: touches_data_def cpu_ok_def acked_def split: if_splits)
  moreover have "sc_runs s c = (if c \<in> set ?cpus then 1 else 0)" if "sc_caller s = CallReturned" wait for c
    using ok [of c] that by (auto simp: cpu_ok_def has_run_def split: if_splits)
  moreover have "sc_runs s c \<le> 1" for c using ok [of c] by (simp add: cpu_ok_def)
  ultimately show ?thesis using progress by auto
qed

text \<open>Two other cpus, the first of which has answered when the caller has sent to both.\<close>

definition example_call :: smp_call where
  "example_call = the (kvm_ack_smp_call True 1 (the (kvm_ack_smp_call True 1
     (the (caller_step (the (caller_step (kvm_smp_call_function_mask [0, 1, 2] 0 {0, 1, 2} True))))))))"

lemma example_call_reach: "call_reach True (kvm_smp_call_function_mask [0, 1, 2] 0 {0, 1, 2} True) example_call"
proof -
  let ?s0 = "kvm_smp_call_function_mask [0, 1, 2] 0 {0, 1, 2} True"
  let ?s1 = "the (caller_step ?s0)" let ?s2 = "the (caller_step ?s1)"
  let ?s3 = "the (kvm_ack_smp_call True 1 ?s2)"
  have e: "call_step True ?s0 ?s1" "call_step True ?s1 ?s2"
    by (rule call_step.caller; simp add: caller_step_def kvm_smp_call_function_mask_def call_targets_def Let_def set_ack_def)+
  have f: "call_step True ?s2 ?s3" "call_step True ?s3 (the (kvm_ack_smp_call True 1 ?s3))"
    by (rule call_step.ack [of _ 1]; simp add: caller_step_def kvm_smp_call_function_mask_def call_targets_def Let_def
        set_ack_def kvm_ack_smp_call_def)+
  show ?thesis unfolding example_call_def
    by (intro call_reach.step [OF _ f(2)] call_reach.step [OF _ f(1)] call_reach.step [OF _ e(2)]
        call_reach.step [OF _ e(1)] call_reach.start)
qed

theorem smp_call_data_safe_witness:
  "cd_started (sc_data example_call) = 1 \<and> (\<exists>t. call_step True example_call t)"
proof -
  have n: "sc_caller example_call \<noteq> CallReturned" "cd_started (sc_data example_call) = 1"
    by (simp_all add: example_call_def caller_step_def kvm_smp_call_function_mask_def call_targets_def Let_def
        set_ack_def kvm_ack_smp_call_def)
  have "distinct [0, 1, 2 :: nat]" by simp
  from smp_call_data_safe [OF this example_call_reach] show ?thesis unfolding if_not_P [OF n(1)] using n(2) by blast
qed

section \<open>Division on a 32 bit host\<close>

text \<open>\<open>fls\<close>: the position of the highest set bit, from 1; 0 for 0.\<close>

fun fls_below :: "nat \<Rightarrow> u32 \<Rightarrow> nat" where
  "fls_below 0 x = 0"
| "fls_below (Suc n) x = (if bit x n then Suc n else fls_below n x)"

definition fls :: "u32 \<Rightarrow> nat" where
  "fls x = fls_below 32 x"

text \<open>\<open>do_div\<close> divides by 32 bits.\<close>

definition div64_u64 :: "u64 \<Rightarrow> u64 \<Rightarrow> u64" where
  "div64_u64 dividend divisor =
     (let high = ucast (drop_bit 32 divisor) :: u32
      in if high \<noteq> 0 then
           let shift = fls high;
               d = ucast (drop_bit shift divisor) :: u32
           in drop_bit shift dividend div ucast d
         else dividend div ucast (ucast divisor :: u32))"

lemma approximate_quotient:
  fixes D V d s :: nat
  assumes D: "D < 2 ^ 64" and s: "1 \<le> s" "s \<le> 32" and d: "2 ^ 31 \<le> d" "d = V div 2 ^ s"
  shows "D div V \<le> D div 2 ^ s div d" "D div 2 ^ s div d \<le> D div V + 1"
proof -
  let ?W = "2 ^ s * d" and ?r = "V mod 2 ^ s" and ?q = "D div 2 ^ s div d"
  have V: "V = ?W + ?r" using d(2) by simp
  have q: "?q = D div ?W" by (simp add: div_mult2_eq)
  have W: "0 < ?W" using d(1) by simp
  show "D div V \<le> ?q" unfolding q by (rule div_le_mono2) (use W V in simp_all)
  have Wl: "(2::nat) ^ (31 + s) \<le> ?W" using d(1) by (simp add: power_add mult.commute)
  have r: "?r < 2 ^ s" by simp
  have qW: "?q * ?W \<le> D" unfolding q by (simp add: div_times_less_eq_dividend)
  have "?q * 2 ^ (31 + s) < 2 ^ (33 - s) * 2 ^ (31 + s)"
  proof -
    have "?q * 2 ^ (31 + s) \<le> ?q * ?W" using Wl by simp
    also have "\<dots> < 2 ^ 64" using qW D by simp
    also have "(2::nat) ^ 64 = 2 ^ (33 - s) * 2 ^ (31 + s)" using s by (simp add: power_add [symmetric])
    finally show ?thesis .
  qed
  then have ql: "?q < 2 ^ (33 - s)" by simp
  show "?q \<le> D div V + 1"
  proof (cases ?q)
    case (Suc m)
    have "m * ?r \<le> ?W"
    proof (cases "s = 1")
      case True
      then have "m * ?r \<le> m" using r by (cases ?r) auto
      also have "m < 2 ^ 32" using ql Suc True by simp
      also have "(2::nat) ^ 32 \<le> ?W" using Wl True by simp
      finally show ?thesis by simp
    next
      case False
      have "m * ?r \<le> 2 ^ (33 - s) * 2 ^ s" using ql Suc r by (intro mult_mono) simp_all
      also have "\<dots> = (2::nat) ^ 33" using s by (simp add: power_add [symmetric])
      also have "\<dots> \<le> 2 ^ (31 + s)" using False s by (intro power_increasing) simp_all
      finally show ?thesis using Wl by simp
    qed
    moreover have "m * V = m * ?W + m * ?r" using V by (metis add_mult_distrib2)
    ultimately have "m * V \<le> D" using qW Suc by simp
    moreover have "0 < V" using V W by (metis add_gr_0)
    ultimately show ?thesis using Suc by (simp add: less_eq_div_iff_mult_less_eq)
  qed simp
qed

lemma fls_below_bits:
  "fls_below n x \<le> n \<and> (\<forall>k. fls_below n x \<le> k \<and> k < n \<longrightarrow> \<not> bit x k) \<and>
   (0 < fls_below n x \<longrightarrow> bit x (fls_below n x - 1))"
  by (induction n) (auto simp: less_Suc_eq)

lemma fls_bounds:
  assumes "x \<noteq> 0"
  shows "1 \<le> fls x" "fls x \<le> 32" "2 ^ (fls x - 1) \<le> unat x" "unat x < 2 ^ fls x"
proof -
  let ?s = "fls x"
  note b = fls_below_bits [of 32 x, folded fls_def]
  have hi: "\<not> bit x k" if "?s \<le> k" for k
    using b that by (cases "k < 32") (auto dest: bit_imp_le_length)
  show s: "1 \<le> ?s"
  proof (rule ccontr)
    assume "\<not> 1 \<le> ?s"
    then have "x = 0" using hi by (intro bit_word_eqI) simp
    then show False using assms by simp
  qed
  show "?s \<le> 32" using b by simp
  have "bit (unat x) (?s - 1)" using b s by (simp add: bit_unsigned_iff)
  then have "unat x div 2 ^ (?s - 1) \<noteq> 0" by (metis bit_iff_odd even_zero)
  then show "2 ^ (?s - 1) \<le> unat x" by (metis div_less not_le)
  have "x = take_bit ?s x" by (rule bit_word_eqI) (metis bit_take_bit_iff hi not_le)
  then have "unat x = take_bit ?s (unat x)" by (metis unsigned_take_bit_eq)
  then show "unat x < 2 ^ ?s" by (metis take_bit_nat_less_exp)
qed

text \<open>
  The quotient is exact for a divisor of 32 bits and else too large by at most 1.
\<close>

lemma div64_u64_bounds:
  assumes "divisor \<noteq> 0"
  shows "unat dividend div unat divisor \<le> unat (div64_u64 dividend divisor)"
    "unat (div64_u64 dividend divisor) \<le> unat dividend div unat divisor + 1"
    "unat divisor < 2 ^ 32 \<Longrightarrow> div64_u64 dividend divisor = dividend div divisor"
proof -
  let ?D = "unat dividend" and ?V = "unat divisor" and ?h = "ucast (drop_bit 32 divisor) :: u32"
  have V: "?V < 2 ^ 64" using unsigned_less [of divisor] by simp
  have D: "?D < 2 ^ 64" using unsigned_less [of dividend] by simp
  have hh: "unat ?h = ?V div 2 ^ 32"
  proof -
    have "?V div 2 ^ 32 < 2 ^ 32" using V by (simp add: less_mult_imp_div_less)
    then show ?thesis by (simp add: unsigned_drop_bit_eq drop_bit_eq_div unsigned_ucast_eq take_bit_eq_mod unat_div)
  qed
  have z: "?h = 0 \<longleftrightarrow> ?V < 2 ^ 32"
    unfolding unat_eq_0 [symmetric] hh by (simp add: div_eq_0_iff)
  have low: "div64_u64 dividend divisor = dividend div divisor" if "?V < 2 ^ 32"
  proof -
    have "ucast (ucast divisor :: u32) = divisor"
      by (rule word_unat_eq_iff [THEN iffD2]) (use that in \<open>simp add: unsigned_ucast_eq take_bit_eq_mod unat_mod\<close>)
    then show ?thesis using that z by (simp add: div64_u64_def)
  qed
  then show "?V < 2 ^ 32 \<Longrightarrow> div64_u64 dividend divisor = dividend div divisor" .
  have "?D div ?V \<le> unat (div64_u64 dividend divisor) \<and> unat (div64_u64 dividend divisor) \<le> ?D div ?V + 1"
  proof (cases "?V < 2 ^ 32")
    case True
    then show ?thesis using low by (simp add: unat_div)
  next
    case False
    let ?s = "fls ?h"
    have h: "?h \<noteq> 0" using False z by simp
    note f = fls_bounds [OF h, unfolded hh]
    let ?d = "?V div 2 ^ ?s"
    have p: "(2::nat) ^ ?s = 2 * 2 ^ (?s - 1)" using f(1) by (cases ?s) simp_all
    have "2 ^ (?s - 1) * 2 ^ 32 \<le> ?V" using f(3) by (simp add: less_eq_div_iff_mult_less_eq)
    then have lo: "2 ^ 31 \<le> ?d" unfolding p by (simp add: less_eq_div_iff_mult_less_eq mult.commute)
    have "?V < 2 ^ ?s * 2 ^ 32" using f(4) by (simp add: div_less_iff_less_mult)
    then have hi: "?d < 2 ^ 32" by (simp add: less_mult_imp_div_less mult.commute)
    have e: "unat (drop_bit ?s x) = unat x div 2 ^ ?s" for x :: u64
    proof -
      have "take_bit 64 (unat x) = unat x" using unsigned_less [of x] by (intro take_bit_nat_eq_self) simp
      then show ?thesis using drop_bit_eq_div [of ?s "unat x"] by (simp add: unsigned_drop_bit_eq)
    qed
    have "unat (ucast (ucast (drop_bit ?s divisor) :: u32) :: u64) = ?d"
      using hi by (simp add: unsigned_ucast_eq unsigned_take_bit_eq e take_bit_nat_eq_self_iff)
    then have "unat (div64_u64 dividend divisor) = ?D div 2 ^ ?s div ?d"
      using h e [of dividend] by (simp add: div64_u64_def Let_def unat_div)
    then show ?thesis
      using approximate_quotient [of ?D ?s ?d ?V] D f(1,2) lo by simp
  qed
  then show "?D div ?V \<le> unat (div64_u64 dividend divisor)" "unat (div64_u64 dividend divisor) \<le> ?D div ?V + 1"
    by simp_all
qed

lemma div64_u64_inexact: "div64_u64 0x100000000 0x100000001 = 1 \<and> (0x100000000 :: u64) div 0x100000001 = 0"
  by code_simp

section \<open>Times\<close>

definition NSEC_PER_SEC :: int where
  "NSEC_PER_SEC = 1000000000"

record timespec =
  tv_sec :: int
  tv_nsec :: int

text \<open>The two loops of \<open>kvm_set_normalized_timespec\<close>, one after the other.\<close>

function carry_seconds :: "int \<Rightarrow> int \<Rightarrow> int \<times> int" where
  "carry_seconds sec nsec =
     (if nsec \<ge> NSEC_PER_SEC then carry_seconds (sec + 1) (nsec - NSEC_PER_SEC) else (sec, nsec))"
  by pat_completeness auto

termination
  by (relation "measure (\<lambda>(sec, nsec). nat nsec)") (auto simp: NSEC_PER_SEC_def)

function borrow_seconds :: "int \<Rightarrow> int \<Rightarrow> int \<times> int" where
  "borrow_seconds sec nsec = (if nsec < 0 then borrow_seconds (sec - 1) (nsec + NSEC_PER_SEC) else (sec, nsec))"
  by pat_completeness auto

termination
  by (relation "measure (\<lambda>(sec, nsec). nat (- nsec))") (auto simp: NSEC_PER_SEC_def)

declare carry_seconds.simps [simp del] borrow_seconds.simps [simp del]

definition kvm_set_normalized_timespec :: "int \<Rightarrow> int \<Rightarrow> timespec" where
  "kvm_set_normalized_timespec sec nsec =
     (let (sec, nsec) = carry_seconds sec nsec;
          (sec, nsec) = borrow_seconds sec nsec
      in \<lparr>tv_sec = sec, tv_nsec = nsec\<rparr>)"

text \<open>\<open>div_rem\<close> is the kernel's \<open>div_long_long_rem_signed\<close>.\<close>

definition kvm_ns_to_timespec :: "(int \<Rightarrow> int \<Rightarrow> int \<times> int) \<Rightarrow> int \<Rightarrow> timespec" where
  "kvm_ns_to_timespec div_rem nsec =
     (if nsec = 0 then \<lparr>tv_sec = 0, tv_nsec = 0\<rparr>
      else let (sec, rest) = div_rem nsec NSEC_PER_SEC
           in if nsec < 0 then kvm_set_normalized_timespec sec rest else \<lparr>tv_sec = sec, tv_nsec = rest\<rparr>)"

lemma carry_seconds_ok:
  "carry_seconds sec nsec = (sec', nsec') \<Longrightarrow>
   sec' * NSEC_PER_SEC + nsec' = sec * NSEC_PER_SEC + nsec \<and> nsec' < NSEC_PER_SEC"
proof (induction sec nsec rule: carry_seconds.induct)
  case (1 sec nsec)
  then show ?case
    by (cases "nsec \<ge> NSEC_PER_SEC") (auto simp: carry_seconds.simps [of sec nsec] algebra_simps)
qed

lemma borrow_seconds_ok:
  "borrow_seconds sec nsec = (sec', nsec') \<Longrightarrow> nsec < NSEC_PER_SEC \<Longrightarrow>
   sec' * NSEC_PER_SEC + nsec' = sec * NSEC_PER_SEC + nsec \<and> 0 \<le> nsec' \<and> nsec' < NSEC_PER_SEC"
proof (induction sec nsec rule: borrow_seconds.induct)
  case (1 sec nsec)
  then show ?case
    by (cases "nsec < 0") (auto simp: borrow_seconds.simps [of sec nsec] algebra_simps)
qed

lemma normalized_timespec:
  "tv_sec (kvm_set_normalized_timespec sec nsec) * NSEC_PER_SEC + tv_nsec (kvm_set_normalized_timespec sec nsec) =
     sec * NSEC_PER_SEC + nsec"
  "0 \<le> tv_nsec (kvm_set_normalized_timespec sec nsec)" "tv_nsec (kvm_set_normalized_timespec sec nsec) < NSEC_PER_SEC"
proof -
  obtain a b where c: "carry_seconds sec nsec = (a, b)" by fastforce
  obtain x y where d: "borrow_seconds a b = (x, y)" by fastforce
  have k: "kvm_set_normalized_timespec sec nsec = \<lparr>tv_sec = x, tv_nsec = y\<rparr>"
    by (simp add: kvm_set_normalized_timespec_def c d)
  note e = carry_seconds_ok [OF c] and g = borrow_seconds_ok [OF d]
  show "tv_sec (kvm_set_normalized_timespec sec nsec) * NSEC_PER_SEC + tv_nsec (kvm_set_normalized_timespec sec nsec) =
      sec * NSEC_PER_SEC + nsec"
    "0 \<le> tv_nsec (kvm_set_normalized_timespec sec nsec)" "tv_nsec (kvm_set_normalized_timespec sec nsec) < NSEC_PER_SEC"
    using e g by (simp_all add: k)
qed

text \<open>
  The kernel's division gives a quotient and a remainder of the sign of the dividend, smaller
  than the divisor; then the result is the time, with the nanoseconds between 0 and a second.
\<close>

lemma ns_to_timespec:
  assumes "\<And>n q r. div_rem n NSEC_PER_SEC = (q, r) \<Longrightarrow> q * NSEC_PER_SEC + r = n \<and> \<bar>r\<bar> < NSEC_PER_SEC \<and> (0 \<le> n \<longrightarrow> 0 \<le> r)"
  shows "tv_sec (kvm_ns_to_timespec div_rem nsec) * NSEC_PER_SEC + tv_nsec (kvm_ns_to_timespec div_rem nsec) = nsec"
    "0 \<le> tv_nsec (kvm_ns_to_timespec div_rem nsec)" "tv_nsec (kvm_ns_to_timespec div_rem nsec) < NSEC_PER_SEC"
proof -
  obtain q r where d: "div_rem nsec NSEC_PER_SEC = (q, r)" by fastforce
  note a = assms [OF d]
  have "kvm_ns_to_timespec div_rem nsec =
      (if nsec = 0 then \<lparr>tv_sec = 0, tv_nsec = 0\<rparr>
       else if nsec < 0 then kvm_set_normalized_timespec q r else \<lparr>tv_sec = q, tv_nsec = r\<rparr>)"
    by (simp add: kvm_ns_to_timespec_def d)
  then consider "nsec = 0" "kvm_ns_to_timespec div_rem nsec = \<lparr>tv_sec = 0, tv_nsec = 0\<rparr>"
    | "nsec < 0" "kvm_ns_to_timespec div_rem nsec = kvm_set_normalized_timespec q r"
    | "0 < nsec" "kvm_ns_to_timespec div_rem nsec = \<lparr>tv_sec = q, tv_nsec = r\<rparr>"
    by (cases "nsec = 0"; cases "nsec < 0") simp_all
  then show "tv_sec (kvm_ns_to_timespec div_rem nsec) * NSEC_PER_SEC + tv_nsec (kvm_ns_to_timespec div_rem nsec) = nsec"
    "0 \<le> tv_nsec (kvm_ns_to_timespec div_rem nsec)" "tv_nsec (kvm_ns_to_timespec div_rem nsec) < NSEC_PER_SEC"
    by (cases; use a normalized_timespec [of q r] in \<open>simp add: NSEC_PER_SEC_def\<close>)+
qed

end
