(* ===== verification/Vm_Release.thy ===== *)
theory Vm_Release
  imports Vcpu_Setup "HOL-Library.Multiset"
begin

text \<open>
  What \<open>kvm_dev_release\<close> gives back to the kernel: the pages of the shadow pool and the pages of
  every memory slot, each once, and no \<open>NULL\<close> page. The VMCS page and the arrays of \<open>vmalloc\<close> are
  not page frames of this model.
\<close>

definition frame_of :: "vm \<Rightarrow> nat \<Rightarrow> u64" where
  "frame_of s h = drop_bit PAGE_SHIFT (page_hpa (header s h))"

definition slot_page_list :: "vm \<Rightarrow> nat \<Rightarrow> u64 list" where
  "slot_page_list s i =
     (if phys_mem (memslots s i) = 0 then []
      else map (arr_get (varray s (phys_mem (memslots s i)))) [0..<unat (npages (memslots s i))])"

text \<open>The slots own their arrays, and every page is there.\<close>

definition slot_arrays_ok :: "vm \<Rightarrow> bool" where
  "slot_arrays_ok s \<longleftrightarrow>
     (\<forall>i < nmemslots s. 0 \<notin> set (slot_page_list s i)) \<and>
     (\<forall>i < nmemslots s. \<forall>j < nmemslots s. i \<noteq> j \<longrightarrow> phys_mem (memslots s i) \<noteq> 0 \<longrightarrow>
        phys_mem (memslots s i) \<noteq> phys_mem (memslots s j) \<and>
        phys_mem (memslots s i) \<noteq> dirty_bitmap (memslots s j))"

section \<open>The shadow pool\<close>

lemma free_page_effect:
  "f \<noteq> 0 \<Longrightarrow> free_page f s = s\<lparr>free_frames := f # free_frames s\<rparr>"
  by (simp add: free_page_def)

lemma free_list_frames:
  assumes "distinct hs" "\<forall>h \<in> set hs. frame_of s h \<noteq> 0"
  shows "mset (free_frames (free_mmu_pages_list hs s)) = mset (free_frames s) + mset (map (frame_of s) hs) \<and>
    kernel_bug (free_mmu_pages_list hs s) = kernel_bug s"
  using assms
proof (induction hs arbitrary: s)
  case (Cons h hs)
  let ?d = "list_del h s"
  let ?t = "set_header h ((header ?d h)\<lparr>page_hpa := INVALID_PAGE\<rparr>) (free_page (frame_of ?d h) ?d)"
  have n: "frame_of ?d h \<noteq> 0" "frame_of ?d h = frame_of s h"
    using Cons.prems by (simp_all add: frame_of_def list_del_def set_free_pages_def header_def)
  have s: "free_mmu_pages_list (h # hs) s = free_mmu_pages_list hs ?t"
    using n by (simp add: Let_def frame_of_def free_page_effect header_def)
  have k: "frame_of ?t k = frame_of s k" if "k \<noteq> h" for k
    using that n by (simp add: frame_of_def free_page_effect header_def set_header_def list_del_def set_free_pages_def)
  have f: "free_frames ?t = frame_of s h # free_frames s" "kernel_bug ?t = kernel_bug s"
    using n by (simp_all add: free_page_effect set_header_def list_del_def set_free_pages_def)
  have h: "h \<notin> set hs" "distinct hs" using Cons.prems(1) by simp_all
  have h3: "\<forall>k \<in> set hs. frame_of ?t k \<noteq> 0" using Cons.prems(2) k h(1) by (metis list.set_intros(2))
  have m: "map (frame_of ?t) hs = map (frame_of s) hs" by (rule map_cong [OF refl]) (metis k h(1))
  show ?case unfolding s using Cons.IH [OF h(2) h3] m f by simp
qed simp

section \<open>The memory slots\<close>

lemma free_slot_frames:
  assumes "0 \<notin> set (map g is)"
  shows "fold (\<lambda>i. free_page (g i)) is s = s\<lparr>free_frames := rev (map g is) @ free_frames s\<rparr>"
  using assms by (induction "is" arbitrary: s) (simp_all add: free_page_effect)

lemma free_physmem_slot_effect:
  assumes "0 \<notin> set (slot_page_list s i)"
  shows "snd (kvm_free_physmem_slot (memslots s i) None s) =
    s\<lparr>free_frames := rev (slot_page_list s i) @ free_frames s,
      vheap := (if phys_mem (memslots s i) = 0 then vheap s else (vheap s)(phys_mem (memslots s i) := None))
        (dirty_bitmap (memslots s i) := None)\<rparr>"
  using assms free_slot_frames [of "arr_get (varray s (phys_mem (memslots s i)))" "[0..<unat (npages (memslots s i))]" s]
  by (auto simp: kvm_free_physmem_slot_def slot_page_list_def free_slot_pages_def vfree_def Let_def)

definition free_slot_step :: "nat \<Rightarrow> vm \<Rightarrow> vm" where
  "free_slot_step i s =
     (let (slot, s) = kvm_free_physmem_slot (memslots s i) None s in s\<lparr>memslots := (memslots s)(i := slot)\<rparr>)"

lemma kvm_free_physmem_steps: "kvm_free_physmem s = fold free_slot_step [0..<nmemslots s] s"
  by (simp add: kvm_free_physmem_def free_slot_step_def [abs_def])

lemma free_slot_step_effect:
  assumes "0 \<notin> set (slot_page_list s i)"
  shows "free_frames (free_slot_step i s) = rev (slot_page_list s i) @ free_frames s"
    "kernel_bug (free_slot_step i s) = kernel_bug s"
    "j \<noteq> i \<Longrightarrow> memslots (free_slot_step i s) j = memslots s j"
    "p \<noteq> phys_mem (memslots s i) \<Longrightarrow> p \<noteq> dirty_bitmap (memslots s i) \<Longrightarrow>
      varray (free_slot_step i s) p = varray s p"
  using free_physmem_slot_effect [OF assms]
  by (simp_all add: free_slot_step_def split_beta varray_def)

lemma free_slots_frames:
  assumes "distinct is" "\<forall>i \<in> set is. 0 \<notin> set (slot_page_list s i)"
    and "\<forall>i \<in> set is. \<forall>j \<in> set is. i \<noteq> j \<longrightarrow> phys_mem (memslots s i) \<noteq> 0 \<longrightarrow>
      phys_mem (memslots s i) \<noteq> phys_mem (memslots s j) \<and> phys_mem (memslots s i) \<noteq> dirty_bitmap (memslots s j)"
  shows "mset (free_frames (fold free_slot_step is s)) =
      mset (free_frames s) + mset (concat (map (slot_page_list s) is)) \<and>
    kernel_bug (fold free_slot_step is s) = kernel_bug s"
  using assms
proof (induction "is" arbitrary: s)
  case (Cons i "is")
  let ?t = "free_slot_step i s"
  have z: "0 \<notin> set (slot_page_list s i)" using Cons.prems(2) by simp
  note e = free_slot_step_effect [OF z]
  have k: "memslots ?t j = memslots s j" "slot_page_list ?t j = slot_page_list s j" if "j \<in> set is" for j
  proof -
    have n: "j \<noteq> i" using that Cons.prems(1) by auto
    then show m: "memslots ?t j = memslots s j" by (rule e(3))
    show "slot_page_list ?t j = slot_page_list s j"
      using Cons.prems(3) that n e(4) [of "phys_mem (memslots s j)"] by (auto simp: slot_page_list_def m)
  qed
  have "mset (free_frames (fold free_slot_step is ?t)) =
      mset (free_frames ?t) + mset (concat (map (slot_page_list ?t) is)) \<and>
    kernel_bug (fold free_slot_step is ?t) = kernel_bug ?t"
    by (rule Cons.IH) (use Cons.prems k in auto)
  moreover have "map (slot_page_list ?t) is = map (slot_page_list s) is" using k by (intro map_cong) auto
  ultimately show ?case using e(1,2) by simp
qed simp

section \<open>Release\<close>


lemma destroy_kvm_mmu_pool:
  assumes ok: "shadow_ok s" and ctx: "mmu_ctx (mmu (vcpu s)) \<noteq> None"
  shows "free_frames (destroy_kvm_mmu s) = free_frames s" "kernel_bug (destroy_kvm_mmu s) = kernel_bug s"
    "frame_of (destroy_kvm_mmu s) = frame_of s" "memslots (destroy_kvm_mmu s) = memslots s"
    "nmemslots (destroy_kvm_mmu s) = nmemslots s" "vheap (destroy_kvm_mmu s) = vheap s"
    "distinct (free_pages (vcpu (destroy_kvm_mmu s)))"
    "mset (free_pages (vcpu (destroy_kvm_mmu s))) = mset (pool_pages s)"
proof -
  let ?r = "release_pt_page_64 (shadow_levels s) (shadow_root s) s"
  note d = shadow_okD [OF ok]
  have r: "released (set (table_tree (shadow_levels s) s (shadow_root s))) {} s ?r"
    by (rule release_pt_page_64_released) (use d in simp_all)
  obtain m ac fr hb where f: "?r = s\<lparr>hmem := m, active_mmu_pages := ac,
      vcpu := (vcpu s)\<lparr>free_pages := fr, page_header_buf := hb\<rparr>\<rparr>"
    by (rule pool_frameE [OF releasedD(1) [OF r]])
  note p = release_shadow [OF ok]
  have e: "destroy_kvm_mmu s = set_root_hpa INVALID_PAGE (set_root_hpa INVALID_PAGE ?r)"
    using ctx d(3) by (auto simp: destroy_kvm_mmu_def nonpaging_free_def paging_free_def Let_def
        shadow_root_def shadow_levels_def split: option.split mmu_context.split)
  show "free_frames (destroy_kvm_mmu s) = free_frames s" "kernel_bug (destroy_kvm_mmu s) = kernel_bug s"
    "memslots (destroy_kvm_mmu s) = memslots s" "nmemslots (destroy_kvm_mmu s) = nmemslots s"
    "vheap (destroy_kvm_mmu s) = vheap s"
    by (simp_all add: e set_root_hpa_def set_mmu_def f)
  show "frame_of (destroy_kvm_mmu s) = frame_of s"
    using releasedD(2) [OF r] by (simp add: frame_of_def fun_eq_iff e set_root_hpa_def set_mmu_def header_def)
  have "free_pages (vcpu (destroy_kvm_mmu s)) = pool_pages ?r"
    using p(2) by (simp add: e set_root_hpa_def set_mmu_def pool_pages_def)
  moreover have "distinct (pool_pages ?r)" "distinct (pool_pages s)" using p(1) d(1) by (simp_all add: pool_ok_def)
  ultimately show "distinct (free_pages (vcpu (destroy_kvm_mmu s)))"
    "mset (free_pages (vcpu (destroy_kvm_mmu s))) = mset (pool_pages s)"
    using p(3) by (simp_all add: set_eq_iff_mset_eq_distinct)
qed

lemma free_list_slots:
  "memslots (free_mmu_pages_list hs s) = memslots s \<and> nmemslots (free_mmu_pages_list hs s) = nmemslots s \<and>
   vheap (free_mmu_pages_list hs s) = vheap s"
  by (induction hs arbitrary: s)
    (simp_all add: Let_def free_page_def set_header_def list_del_def set_free_pages_def)

lemma kvm_free_vcpu_effect:
  assumes ok: "shadow_ok s" "mmu_ctx (mmu (vcpu s)) \<noteq> None" and z: "\<forall>h \<in> set (pool_pages s). frame_of s h \<noteq> 0"
  shows "mset (free_frames (kvm_free_vcpu s)) = mset (free_frames s) + mset (map (frame_of s) (pool_pages s))"
    "kernel_bug (kvm_free_vcpu s) = kernel_bug s" "memslots (kvm_free_vcpu s) = memslots s"
    "nmemslots (kvm_free_vcpu s) = nmemslots s" "vheap (kvm_free_vcpu s) = vheap s"
proof -
  let ?v = "kvm_free_vmcs s"
  have v: "same_tables s ?v" "mmu (vcpu ?v) = mmu (vcpu s)" "frame_of ?v = frame_of s" "pool_pages ?v = pool_pages s"
    "free_frames ?v = free_frames s" "kernel_bug ?v = kernel_bug s" "memslots ?v = memslots s"
    "nmemslots ?v = nmemslots s" "vheap ?v = vheap s"
    by (simp_all add: kvm_free_vmcs_def vcpu_clear_here_def Let_def set_host_def same_tables_def frame_of_def
        header_def fun_eq_iff pool_pages_def pte_read_def page_header_def)
  have ok': "shadow_ok ?v" using ok(1) shadow_ok_same [OF v(1,2)] by simp
  note d = destroy_kvm_mmu_pool [OF ok' ok(2) [folded v(2)]]
  let ?d = "destroy_kvm_mmu ?v"
  have n: "\<forall>h \<in> set (free_pages (vcpu ?d)). frame_of ?d h \<noteq> 0"
    using z d(8) v by (metis d(3) mset_eq_setD)
  note f = free_list_frames [OF d(7) n] and l = free_list_slots [of "free_pages (vcpu ?d)" ?d]
  have e: "kvm_free_vcpu s = free_mmu_pages_list (free_pages (vcpu ?d)) ?d"
    by (simp add: kvm_free_vcpu_def kvm_mmu_destroy_def free_mmu_pages_def)
  have "mset (map (frame_of ?d) (free_pages (vcpu ?d))) = mset (map (frame_of s) (pool_pages s))"
    using d(3,8) v(3,4) by (simp add: mset_map)
  then show "mset (free_frames (kvm_free_vcpu s)) = mset (free_frames s) + mset (map (frame_of s) (pool_pages s))"
    using f d(1) v(5) by (simp add: e)
  show "kernel_bug (kvm_free_vcpu s) = kernel_bug s" "memslots (kvm_free_vcpu s) = memslots s"
    "nmemslots (kvm_free_vcpu s) = nmemslots s" "vheap (kvm_free_vcpu s) = vheap s"
    using f l d v by (simp_all add: e)
qed

text \<open>
  C16: releasing a virtual machine gives back every page of the shadow pool and of the memory slots
  exactly once, and frees no page that is not there.
\<close>

theorem release_returns_pages:
  assumes "shadow_ok s" "mmu_ctx (mmu (vcpu s)) \<noteq> None" "slot_arrays_ok s"
    and "\<forall>h \<in> set (pool_pages s). frame_of s h \<noteq> 0"
  shows "mset (free_frames (kvm_dev_release s)) = mset (free_frames s) +
      mset (map (frame_of s) (pool_pages s)) + mset (concat (map (slot_page_list s) [0..<nmemslots s])) \<and>
    kernel_bug (kvm_dev_release s) = kernel_bug s"
proof -
  note v = kvm_free_vcpu_effect [OF assms(1,2,4)]
  have p: "slot_page_list (kvm_free_vcpu s) = slot_page_list s"
    by (simp add: slot_page_list_def varray_def v fun_eq_iff)
  have "mset (free_frames (fold free_slot_step [0..<nmemslots s] (kvm_free_vcpu s))) =
      mset (free_frames (kvm_free_vcpu s)) + mset (concat (map (slot_page_list (kvm_free_vcpu s)) [0..<nmemslots s])) \<and>
    kernel_bug (fold free_slot_step [0..<nmemslots s] (kvm_free_vcpu s)) = kernel_bug (kvm_free_vcpu s)"
    by (rule free_slots_frames) (use assms(3) in \<open>auto simp: slot_arrays_ok_def p v\<close>)
  then show ?thesis
    using v by (simp add: kvm_dev_release_def kvm_free_physmem_steps p)
qed

theorem release_returns_pages_witness:
  "mset (free_frames (kvm_dev_release example_shadow)) = {#5, 6, 7, 9#}"
proof -
  have p: "pool_pages example_shadow = [1, 2, 0]" "frame_of example_shadow 0 = 5"
    "frame_of example_shadow 1 = 6" "frame_of example_shadow 2 = 7"
    by (simp_all add: pool_pages_def frame_of_def example_shadow_def example_pool_def zero_defs header_def PAGE_SHIFT_def)
  have s: "slot_page_list example_shadow 0 = [9]" "nmemslots example_shadow = 1" "free_frames example_shadow = []"
    by (simp_all add: slot_page_list_def varray_def arr_get_def example_shadow_def example_pool_def zero_defs)
  have "slot_arrays_ok example_shadow" by (simp add: slot_arrays_ok_def s)
  then show ?thesis
    using release_returns_pages [OF example_shadow_ok(1)] p s by (simp add: example_shadow_slots)
qed

end
