(* ===== verification/Vmentry_Check.thy ===== *)
theory Vmentry_Check
  imports Vcpu_Setup
begin

text \<open>
  The checks of \<open>debug.c\<close> (built with \<open>KVM_DEBUG\<close>): the guest and host state of the VMCS are
  compared with what the processor requires at a VM entry. The messages are not modelled; each
  function is its result, and the tests come in the order of the code. The theorem: the state
  that \<open>kvm_vcpu_setup\<close> builds passes the checks of the guest state if and only if the root of the
  shadow tree is below 1 TB. The checks of the host state never succeed, because their result
  starts at 0.
\<close>

section \<open>Tests of single registers\<close>

definition IA32_DEBUGCTL_RESERVED_BITS :: u64 where
  "IA32_DEBUGCTL_RESERVED_BITS = 0xfffffffffffffe3c"

definition RFLAGS_VM :: u64 where
  "RFLAGS_VM = push_bit 17 1"

definition RFLAGS_RF :: u64 where
  "RFLAGS_RF = push_bit 9 1"

definition RFLAGS_RESEVED_CLEAR_BITS :: u64 where
  "RFLAGS_RESEVED_CLEAR_BITS = NOT (push_bit 22 1 - 1) OR push_bit 15 1 OR push_bit 5 1 OR push_bit 3 1"

definition RFLAGS_RESEVED_SET_BITS :: u64 where
  "RFLAGS_RESEVED_SET_BITS = push_bit 1 1"

definition AR_DPL :: "u32 \<Rightarrow> u32" where
  "AR_DPL ar = drop_bit 5 ar AND 3"

text \<open>The shifts are those of a signed 64-bit value.\<close>

definition is_canonical :: "u64 \<Rightarrow> bool" where
  "is_canonical addr \<longleftrightarrow> addr = signed_drop_bit 16 (push_bit 16 addr)"

definition upper_half :: u64 where
  "upper_half = NOT (push_bit 32 1 - 1)"

text \<open>\<open>WP\<close> and \<open>PAE\<close> only give a message.\<close>

definition guest_cr_test :: "vm \<Rightarrow> bool" where
  "guest_cr_test s \<longleftrightarrow>
     vmcs_readl s GUEST_CR0 AND CR0_PG_MASK \<noteq> 0 \<and>
     vmcs_readl s GUEST_CR0 AND CR0_PE_MASK \<noteq> 0 \<and>
     vmcs_readl s GUEST_CR0 AND CR0_NE_MASK \<noteq> 0 \<and>
     vmcs_readl s GUEST_CR4 AND CR4_VMXE_MASK \<noteq> 0 \<and>
     vmcs_read64 s GUEST_IA32_DEBUGCTL AND IA32_DEBUGCTL_RESERVED_BITS = 0 \<and>
     \<not> (is_long_mode s \<and> vmcs_readl s GUEST_CR4 AND CR4_PAE_MASK = 0) \<and>
     vmcs_readl s GUEST_CR3 AND CR3_L_MODE_RESEVED_BITS = 0"

text \<open>The four entries of the page directory pointer table, read from the host's memory.\<close>

definition guest_pdpte_test :: "vm \<Rightarrow> bool" where
  "guest_pdpte_test s \<longleftrightarrow>
     \<not> is_long_mode s \<and> vmcs_readl s GUEST_CR4 AND CR4_PAE_MASK \<noteq> 0 \<longrightarrow>
     (let cr3 = vmcs_readl s GUEST_CR3;
          pdpt = push_bit PAGE_SHIFT (drop_bit PAGE_SHIFT cr3)
      in \<forall>i \<in> set [0..<4].
           let pdpte = pte_read s (pdpte_address pdpt cr3 i)
           in \<not> (pdpte AND 1 \<noteq> 0 \<and> pdpte AND 0xfffffff0000001e6 \<noteq> 0))"

definition guest_msr_test :: "vm \<Rightarrow> bool" where
  "guest_msr_test s \<longleftrightarrow>
     vmcs_readl s GUEST_DR7 AND upper_half = 0 \<and>
     is_canonical (vmcs_readl s GUEST_SYSENTER_ESP) \<and>
     is_canonical (vmcs_readl s GUEST_SYSENTER_EIP)"

section \<open>Selectors and bases\<close>

definition virtual8086 :: "vm \<Rightarrow> bool" where
  "virtual8086 s \<longleftrightarrow> vmcs_readl s GUEST_RFLAGS AND RFLAGS_VM \<noteq> 0"

definition usable :: "seg_field \<Rightarrow> vm \<Rightarrow> bool" where
  "usable f s \<longleftrightarrow> vmcs_read32 s (f_ar f) AND AR_UNUSABLE_MASK = 0"

definition guest_selector_test :: "vm \<Rightarrow> bool" where
  "guest_selector_test s \<longleftrightarrow>
     vmcs_read16 s GUEST_TR_SELECTOR AND SELECTOR_TI_MASK = 0 \<and>
     \<not> (usable LDTR s \<and> vmcs_read16 s GUEST_LDTR_SELECTOR AND SELECTOR_TI_MASK \<noteq> 0) \<and>
     (\<not> virtual8086 s \<longrightarrow>
        vmcs_read16 s GUEST_SS_SELECTOR AND SELECTOR_RPL_MASK =
        vmcs_read16 s GUEST_CS_SELECTOR AND SELECTOR_RPL_MASK)"

definition VIR8086_SEG_BASE_TEST :: "seg_field \<Rightarrow> vm \<Rightarrow> bool" where
  "VIR8086_SEG_BASE_TEST f s \<longleftrightarrow>
     vmcs_readl s (f_base f) = push_bit 4 (ucast (vmcs_read16 s (f_selector f)))"

definition VIR8086_SEG_LIMIT_TEST :: "seg_field \<Rightarrow> vm \<Rightarrow> bool" where
  "VIR8086_SEG_LIMIT_TEST f s \<longleftrightarrow> vmcs_readl s (f_limit f) = 0xffff"

definition VIR8086_SEG_AR_TEST :: "seg_field \<Rightarrow> vm \<Rightarrow> bool" where
  "VIR8086_SEG_AR_TEST f s \<longleftrightarrow> vmcs_read32 s (f_ar f) = 0xf3"

definition SEG_BASE_TEST :: "seg_field \<Rightarrow> vm \<Rightarrow> bool" where
  "SEG_BASE_TEST f s \<longleftrightarrow> \<not> (usable f s \<and> vmcs_readl s (f_base f) AND upper_half \<noteq> 0)"

definition code_and_data :: "seg_field list" where
  "code_and_data = [CS, SS, DS, ES, FS, GS]"

definition guest_base_test :: "vm \<Rightarrow> bool" where
  "guest_base_test s \<longleftrightarrow>
     (virtual8086 s \<longrightarrow> (\<forall>f \<in> set code_and_data. VIR8086_SEG_BASE_TEST f s)) \<and>
     is_canonical (vmcs_readl s GUEST_TR_BASE) \<and> is_canonical (vmcs_readl s GUEST_FS_BASE) \<and>
     is_canonical (vmcs_readl s GUEST_GS_BASE) \<and>
     \<not> (usable LDTR s \<and> \<not> is_canonical (vmcs_readl s GUEST_LDTR_BASE)) \<and>
     vmcs_readl s GUEST_CS_BASE AND upper_half = 0 \<and>
     SEG_BASE_TEST SS s \<and> SEG_BASE_TEST DS s \<and> SEG_BASE_TEST ES s"

section \<open>Access rights\<close>

definition SEG_G_TEST :: "seg_field \<Rightarrow> vm \<Rightarrow> bool" where
  "SEG_G_TEST f s \<longleftrightarrow>
     (let lim = vmcs_read32 s (f_limit f); ar = vmcs_read32 s (f_ar f)
      in \<not> (lim AND 0xfff \<noteq> 0xfff \<and> ar AND AR_G_MASK \<noteq> 0) \<and>
         \<not> (lim AND NOT (push_bit 20 1 - 1) \<noteq> 0 \<and> ar AND AR_G_MASK = 0))"

text \<open>
  The test of \<open>L\<close> and \<open>DB\<close> combines the result of \<open>is_long_mode\<close>, which is bit 9, with bit 13 by a
  bitwise and.
\<close>

definition rpl :: "seg_field \<Rightarrow> vm \<Rightarrow> u32" where
  "rpl f s = ucast (vmcs_read16 s (f_selector f) AND SELECTOR_RPL_MASK)"

definition guest_cs_test :: "vm \<Rightarrow> bool" where
  "guest_cs_test s \<longleftrightarrow>
     (let cs_ar = vmcs_read32 s GUEST_CS_AR_BYTES;
          long_mode = vmcs_read32 s VM_ENTRY_CONTROLS AND VM_ENTRY_CONTROLS_IA32E_MASK
      in cs_ar AND AR_TYPE_ACCESSES_MASK \<noteq> 0 \<and>
         cs_ar AND AR_TYPE_CODE_MASK \<noteq> 0 \<and>
         cs_ar AND AR_S_MASK \<noteq> 0 \<and>
         \<not> (cs_ar AND AR_TYPE_MASK \<ge> 8 \<and> cs_ar AND AR_TYPE_MASK < 12 \<and> AR_DPL cs_ar \<noteq> rpl CS s) \<and>
         \<not> (cs_ar AND AR_TYPE_MASK \<ge> 13 \<and> cs_ar AND AR_TYPE_MASK < 16 \<and> AR_DPL cs_ar > rpl CS s) \<and>
         cs_ar AND AR_P_MASK \<noteq> 0 \<and>
         cs_ar AND AR_RESERVD_MASK = 0 \<and>
         \<not> (long_mode AND (cs_ar AND AR_L_MASK) \<noteq> 0 \<and> cs_ar AND AR_DB_MASK \<noteq> 0) \<and>
         SEG_G_TEST CS s)"

definition guest_ss_test :: "vm \<Rightarrow> bool" where
  "guest_ss_test s \<longleftrightarrow>
     (let ss_ar = vmcs_read32 s GUEST_SS_AR_BYTES
      in (ss_ar AND AR_UNUSABLE_MASK = 0 \<longrightarrow>
            (ss_ar AND AR_TYPE_MASK = 3 \<or> ss_ar AND AR_TYPE_MASK = 7) \<and>
            ss_ar AND AR_S_MASK \<noteq> 0 \<and> ss_ar AND AR_P_MASK \<noteq> 0 \<and> ss_ar AND AR_RESERVD_MASK = 0 \<and>
            SEG_G_TEST SS s) \<and>
         AR_DPL ss_ar = rpl SS s)"

definition SEG_AR_TEST :: "seg_field \<Rightarrow> vm \<Rightarrow> bool" where
  "SEG_AR_TEST f s \<longleftrightarrow>
     (let ar = vmcs_read32 s (f_ar f)
      in ar AND AR_UNUSABLE_MASK = 0 \<longrightarrow>
           ar AND AR_TYPE_ACCESSES_MASK \<noteq> 0 \<and>
           \<not> (ar AND AR_TYPE_CODE_MASK \<noteq> 0 \<and> ar AND AR_TYPE_READABLE_MASK = 0) \<and>
           ar AND AR_S_MASK \<noteq> 0 \<and>
           \<not> (ar AND AR_TYPE_MASK < 12 \<and> AR_DPL ar < rpl f s) \<and>
           ar AND AR_P_MASK \<noteq> 0 \<and> ar AND AR_RESERVD_MASK = 0 \<and> SEG_G_TEST f s)"

definition guest_tr_test :: "vm \<Rightarrow> bool" where
  "guest_tr_test s \<longleftrightarrow>
     (let tr_ar = vmcs_read32 s GUEST_TR_AR_BYTES
      in (if is_long_mode s then tr_ar AND AR_TYPE_MASK = AR_TYPE_BUSY_64_TSS
          else tr_ar AND AR_TYPE_MASK = AR_TYPE_BUSY_32_TSS \<or> tr_ar AND AR_TYPE_MASK = AR_TYPE_BUSY_16_TSS) \<and>
         tr_ar AND AR_S_MASK = 0 \<and> tr_ar AND AR_P_MASK \<noteq> 0 \<and>
         tr_ar AND (AR_RESERVD_MASK OR AR_UNUSABLE_MASK) = 0 \<and> SEG_G_TEST TR s)"

definition guest_ldtr_test :: "vm \<Rightarrow> bool" where
  "guest_ldtr_test s \<longleftrightarrow>
     (let ldtr_ar = vmcs_read32 s GUEST_LDTR_AR_BYTES
      in ldtr_ar AND AR_UNUSABLE_MASK = 0 \<longrightarrow>
           ldtr_ar AND AR_TYPE_MASK = AR_TYPE_LDT \<and> ldtr_ar AND AR_S_MASK = 0 \<and>
           ldtr_ar AND AR_P_MASK \<noteq> 0 \<and> ldtr_ar AND AR_RESERVD_MASK = 0 \<and> SEG_G_TEST LDTR s)"

definition guest_segment_test :: "vm \<Rightarrow> bool" where
  "guest_segment_test s \<longleftrightarrow>
     (if virtual8086 s then
        (\<forall>f \<in> set code_and_data. VIR8086_SEG_LIMIT_TEST f s) \<and>
        (\<forall>f \<in> set code_and_data. VIR8086_SEG_AR_TEST f s)
      else guest_cs_test s \<and> guest_ss_test s \<and>
           SEG_AR_TEST DS s \<and> SEG_AR_TEST ES s \<and> SEG_AR_TEST FS s \<and> SEG_AR_TEST GS s \<and>
           guest_tr_test s \<and> guest_ldtr_test s)"

section \<open>Descriptor tables, the instruction pointer and the flags\<close>

definition IDT_GDT_TEST :: "nat \<Rightarrow> nat \<Rightarrow> vm \<Rightarrow> bool" where
  "IDT_GDT_TEST base limit s \<longleftrightarrow>
     is_canonical (vmcs_readl s base) \<and> drop_bit 16 (vmcs_read32 s limit) = 0"

definition guest_rip_test :: "vm \<Rightarrow> bool" where
  "guest_rip_test s \<longleftrightarrow>
     \<not> ((\<not> is_long_mode s \<or> vmcs_read32 s GUEST_CS_AR_BYTES AND AR_L_MASK = 0) \<and>
        vmcs_readl s GUEST_RIP AND upper_half \<noteq> 0) \<and>
     is_canonical (vmcs_readl s GUEST_RIP)"

definition guest_rflags_test :: "vm \<Rightarrow> bool" where
  "guest_rflags_test s \<longleftrightarrow>
     (let rflags = vmcs_readl s GUEST_RFLAGS; info = vmcs_read32 s VM_ENTRY_INTR_INFO_FIELD
      in \<not> (rflags AND RFLAGS_RESEVED_CLEAR_BITS \<noteq> 0 \<or> rflags AND RFLAGS_RESEVED_SET_BITS = 0) \<and>
         \<not> (is_long_mode s \<and> virtual8086 s) \<and>
         \<not> (rflags AND RFLAGS_RF = 0 \<and> info AND INTR_INFO_VALID_MASK \<noteq> 0 \<and>
            info AND INTR_INFO_INTR_TYPE_MASK = INTR_TYPE_EXT_INTR))"

definition vm_entry_test_guest :: "vm \<Rightarrow> bool" where
  "vm_entry_test_guest s \<longleftrightarrow>
     guest_cr_test s \<and> guest_pdpte_test s \<and> guest_msr_test s \<and> guest_selector_test s \<and>
     guest_base_test s \<and> guest_segment_test s \<and>
     IDT_GDT_TEST GUEST_GDTR_BASE GUEST_GDTR_LIMIT s \<and> IDT_GDT_TEST GUEST_IDTR_BASE GUEST_IDTR_LIMIT s \<and>
     guest_rip_test s \<and> guest_rflags_test s"


section \<open>The host's state\<close>

text \<open>
  \<open>width\<close> is the width of a physical address that \<open>cpuid\<close> reports. Every check is 0 or 1 and
  is combined with the result so far by a bitwise and.
\<close>

definition MSR_IA32_VMX_CR0_FIXED0 :: u32 where
  "MSR_IA32_VMX_CR0_FIXED0 = 0x486"

definition MSR_IA32_VMX_CR0_FIXED1 :: u32 where
  "MSR_IA32_VMX_CR0_FIXED1 = 0x487"

definition MSR_IA32_VMX_CR4_FIXED0 :: u32 where
  "MSR_IA32_VMX_CR4_FIXED0 = 0x488"

definition MSR_IA32_VMX_CR4_FIXED1 :: u32 where
  "MSR_IA32_VMX_CR4_FIXED1 = 0x489"

definition check_fixed_bits :: "vm \<Rightarrow> u64 \<Rightarrow> u32 \<Rightarrow> u32 \<Rightarrow> bool" where
  "check_fixed_bits s cr msr_fixed_0 msr_fixed_1 \<longleftrightarrow>
     (let fixed_bits_0 = h_msr (host s) msr_fixed_0; fixed_bits_1 = h_msr (host s) msr_fixed_1
      in cr AND fixed_bits_0 = fixed_bits_0 \<and> NOT cr AND NOT fixed_bits_1 = NOT fixed_bits_1)"

definition check_canonical :: "u64 \<Rightarrow> bool" where
  "check_canonical reg \<longleftrightarrow> signed_drop_bit 48 reg = 0 \<or> signed_drop_bit 48 reg = NOT 0"

definition check_selector :: "bool \<Rightarrow> bool \<Rightarrow> u16 \<Rightarrow> bool" where
  "check_selector rpl_ti null sel \<longleftrightarrow> \<not> (rpl_ti \<and> sel AND 7 \<noteq> 0) \<and> \<not> (null \<and> sel = 0)"

definition host_cr_test :: "nat \<Rightarrow> vm \<Rightarrow> bool \<Rightarrow> bool" where
  "host_cr_test width s r =
     (let cr0 = vmcs_readl s HOST_CR0; cr4 = vmcs_readl s HOST_CR4; cr3 = vmcs_readl s HOST_CR3;
          r = (r \<and> check_fixed_bits s cr0 MSR_IA32_VMX_CR0_FIXED0 MSR_IA32_VMX_CR0_FIXED1);
          r = (r \<and> check_fixed_bits s cr4 MSR_IA32_VMX_CR4_FIXED0 MSR_IA32_VMX_CR4_FIXED1);
          r = (if drop_bit width cr3 \<noteq> 0 then False else r);
          r = (r \<and> check_canonical (vmcs_readl s HOST_IA32_SYSENTER_EIP))
      in r \<and> check_canonical (vmcs_readl s HOST_IA32_SYSENTER_ESP))"

definition host_selector_test :: "vm \<Rightarrow> bool \<Rightarrow> bool" where
  "host_selector_test s r =
     (let host_64 = vmcs_read32 s VM_EXIT_CONTROLS AND VM_EXIT_HOST_ADD_SPACE_SIZE \<noteq> 0;
          r = (r \<and> check_selector True True (vmcs_read16 s HOST_CS_SELECTOR));
          r = (r \<and> check_selector True (\<not> host_64) (vmcs_read16 s HOST_SS_SELECTOR));
          r = (r \<and> check_selector True False (vmcs_read16 s HOST_DS_SELECTOR));
          r = (r \<and> check_selector True False (vmcs_read16 s HOST_ES_SELECTOR));
          r = (r \<and> check_selector True False (vmcs_read16 s HOST_FS_SELECTOR));
          r = (r \<and> check_selector True False (vmcs_read16 s HOST_GS_SELECTOR))
      in r \<and> check_selector True True (vmcs_read16 s HOST_TR_SELECTOR))"

definition host_base_test :: "vm \<Rightarrow> bool \<Rightarrow> bool" where
  "host_base_test s r =
     (let host_64 = vmcs_read32 s VM_EXIT_CONTROLS AND VM_EXIT_HOST_ADD_SPACE_SIZE \<noteq> 0;
          r = (r \<and> check_canonical (vmcs_readl s HOST_FS_BASE));
          r = (r \<and> check_canonical (vmcs_readl s HOST_GS_BASE));
          r = (r \<and> check_canonical (vmcs_readl s HOST_GDTR_BASE));
          r = (r \<and> check_canonical (vmcs_readl s HOST_IDTR_BASE));
          r = (if \<not> host_64 then False else r);
          r = (if vmcs_readl s HOST_CR4 AND CR4_PAE_MASK = 0 then False else r)
      in r \<and> check_canonical (vmcs_readl s HOST_RIP))"

definition vm_entry_test_host :: "nat \<Rightarrow> vm \<Rightarrow> bool" where
  "vm_entry_test_host width s = host_base_test s (host_selector_test s (host_cr_test width s False))"

definition vm_entry_test :: "nat \<Rightarrow> vm \<Rightarrow> bool" where
  "vm_entry_test width s \<longleftrightarrow> vm_entry_test_guest s \<and> vm_entry_test_host width s"

lemma vm_entry_test_fails: "\<not> vm_entry_test width s"
  by (simp add: vm_entry_test_def vm_entry_test_host_def host_base_test_def host_selector_test_def
      host_cr_test_def Let_def)

section \<open>The state of a new virtual cpu\<close>

lemma is_canonical_scast: "is_canonical (scast (w :: 32 word))"
  unfolding is_canonical_def
  by (rule bit_word_eqI) (auto simp: bit_signed_drop_bit_iff bit_push_bit_iff bit_signed_iff min_def)

lemma upper_half_mask: "upper_half = NOT (mask 32)"
  by code_simp

lemma is_canonical_small: "is_canonical x" if "x AND upper_half = 0"
proof -
  have "\<not> bit x n" if "32 \<le> n" for n
  proof
    assume "bit x n"
    then have "bit (x AND upper_half) n" using \<open>32 \<le> n\<close>
      using bit_imp_le_length [of x n] by (simp add: upper_half_mask bit_simps)
    then show False using \<open>x AND upper_half = 0\<close> by simp
  qed
  then show ?thesis unfolding is_canonical_def
    by (intro bit_word_eqI) (auto simp: bit_signed_drop_bit_iff bit_push_bit_iff)
qed

text \<open>What \<open>setup_modes\<close> does to the VMCS after it has entered real mode.\<close>

lemma setup_modes_rmode:
  assumes "\<not> rmode_active (rmode (vcpu s))" "shadow_efer (vcpu s) = 0"
  obtains v where
    "setup_modes s = internal_set_efer 0 (internal_set_cr4 0
       (vmcs_writel GUEST_CR0 (0x60000010 OR KVM_VM_CR0_ALWAYS_ON)
         (vmcs_writel CR0_READ_SHADOW 0x60000010 (enter_rmode v))))"
    "vcpu v = vcpu s" "vmcs_read32 v VM_ENTRY_INTR_INFO_FIELD = 0"
    "\<And>f. f \<notin> {VM_ENTRY_CONTROLS, VM_ENTRY_INTR_INFO_FIELD, VIRTUAL_APIC_PAGE_ADDR, TPR_THRESHOLD,
      CR0_GUEST_HOST_MASK, CR4_GUEST_HOST_MASK} \<Longrightarrow> vmcs_readl v f = vmcs_readl s f"
proof -
  define v where "v = (let s = vmcs_write32_fixedbits MSR_IA32_VMX_ENTRY_CTLS_MSR VM_ENTRY_CONTROLS 0 s;
          s = vmcs_write32 VM_ENTRY_INTR_INFO_FIELD 0 s;
          s = vmcs_writel VIRTUAL_APIC_PAGE_ADDR 0 s;
          s = vmcs_writel TPR_THRESHOLD 0 s;
          s = vmcs_writel CR0_GUEST_HOST_MASK KVM_GUEST_CR0_MASK s
      in vmcs_writel CR4_GUEST_HOST_MASK KVM_GUEST_CR4_MASK s)"
  have vv: "vcpu v = vcpu s" by (simp add: v_def Let_def vmcs_simps fixedbits_reads)
  have "setup_modes s = internal_set_efer 0 (internal_set_cr4 0
       (vmcs_writel GUEST_CR0 (0x60000010 OR KVM_VM_CR0_ALWAYS_ON)
         (vmcs_writel CR0_READ_SHADOW 0x60000010 (enter_rmode v))))"
    using real_mode_cr0 [of v] assms vv by (simp add: setup_modes_def v_def Let_def)
  then show thesis
    by (rule that [OF _ vv]) (simp_all add: v_def Let_def vmcs_simps fixedbits_reads)
qed


lemma efer_off_reads:
  "f \<noteq> VM_ENTRY_CONTROLS \<Longrightarrow> vmcs_readl (internal_set_efer 0 s) f = vmcs_readl s f"
  "f \<noteq> VM_ENTRY_CONTROLS \<Longrightarrow> vmcs_read16 (internal_set_efer 0 s) f = vmcs_read16 s f"
  "f \<noteq> VM_ENTRY_CONTROLS \<Longrightarrow> vmcs_read32 (internal_set_efer 0 s) f = vmcs_read32 s f"
  "\<not> is_long_mode (internal_set_efer 0 s)"
proof -
  show a: "vmcs_readl (internal_set_efer 0 s) f = vmcs_readl s f" if "f \<noteq> VM_ENTRY_CONTROLS" for f
    using that by (simp add: internal_set_efer_def update_msr_def Let_def vmcs_simps split: option.split)
  show "f \<noteq> VM_ENTRY_CONTROLS \<Longrightarrow> vmcs_read16 (internal_set_efer 0 s) f = vmcs_read16 s f"
    "f \<noteq> VM_ENTRY_CONTROLS \<Longrightarrow> vmcs_read32 (internal_set_efer 0 s) f = vmcs_read32 s f"
    using a [of f] by (simp_all add: vmcs_read16_def vmcs_read32_def vmcs_readl_def)
  show "\<not> is_long_mode (internal_set_efer 0 s)"
    by (simp add: internal_set_efer_def update_msr_def Let_def vmcs_simps is_long_mode_bit bit_simps mask_bits
        split: option.split)
qed

text \<open>The registers that \<open>setup_modes\<close> leaves as the earlier stages set them.\<close>

lemma setup_modes_reads:
  assumes "\<not> rmode_active (rmode (vcpu s))" "shadow_efer (vcpu s) = 0"
  shows "\<not> is_long_mode (setup_modes s)"
    "vmcs_readl (setup_modes s) GUEST_CR0 = 0x60000010 OR KVM_VM_CR0_ALWAYS_ON"
    "vmcs_readl (setup_modes s) GUEST_CR4 = KVM_RMODE_VM_CR4_ALWAYS_ON"
    "vmcs_readl (setup_modes s) GUEST_RFLAGS = vmcs_readl s GUEST_RFLAGS OR IOPL_MASK OR X86_EFLAGS_VM"
    "vmcs_read32 (setup_modes s) VM_ENTRY_INTR_INFO_FIELD = 0"
    "\<exists>w :: 32 word. vmcs_readl (setup_modes s) GUEST_TR_BASE = scast w"
    "f \<in> {GUEST_IA32_DEBUGCTL, GUEST_DR7, GUEST_SYSENTER_ESP, GUEST_SYSENTER_EIP, GUEST_GDTR_BASE, GUEST_IDTR_BASE,
      GUEST_GDTR_LIMIT, GUEST_IDTR_LIMIT, GUEST_RIP, GUEST_CS_BASE, GUEST_SS_BASE, GUEST_DS_BASE, GUEST_ES_BASE,
      GUEST_FS_BASE, GUEST_GS_BASE, GUEST_LDTR_BASE, GUEST_LDTR_AR_BYTES, GUEST_LDTR_SELECTOR, GUEST_TR_SELECTOR,
      GUEST_CS_LIMIT} \<Longrightarrow> vmcs_readl (setup_modes s) f = vmcs_readl s f"
    "g \<in> {SS, DS, ES, FS, GS} \<Longrightarrow> vmcs_readl (setup_modes s) (f_limit g) = 0xffff"
    "g \<in> set code_and_data \<Longrightarrow> vmcs_read32 (setup_modes s) (f_ar g) = 0xf3 \<and>
      vmcs_read16 (setup_modes s) (f_selector g) = ucast (drop_bit 4 (vmcs_readl s (f_base g)))"
proof -
  from setup_modes_rmode [OF assms] obtain v where m: "setup_modes s = internal_set_efer 0 (internal_set_cr4 0
       (vmcs_writel GUEST_CR0 (0x60000010 OR KVM_VM_CR0_ALWAYS_ON)
         (vmcs_writel CR0_READ_SHADOW 0x60000010 (enter_rmode v))))"
    and vc: "vcpu v = vcpu s" and i: "vmcs_read32 v VM_ENTRY_INTR_INFO_FIELD = 0"
    and f: "\<And>f. f \<notin> {VM_ENTRY_CONTROLS, VM_ENTRY_INTR_INFO_FIELD, VIRTUAL_APIC_PAGE_ADDR, TPR_THRESHOLD,
      CR0_GUEST_HOST_MASK, CR4_GUEST_HOST_MASK} \<Longrightarrow> vmcs_readl v f = vmcs_readl s f" by blast
  note d = efer_off_reads internal_set_cr4_def Let_def vmcs_simps f
  note e = d enter_rmode_def rmode_segments_def fix_rmode_seg_def update_exception_bitmap_reads
  show "\<not> is_long_mode (setup_modes s)" by (simp add: m efer_off_reads)
  show "vmcs_readl (setup_modes s) GUEST_CR0 = 0x60000010 OR KVM_VM_CR0_ALWAYS_ON" by (simp add: m d)
  show "vmcs_readl (setup_modes s) GUEST_CR4 = KVM_RMODE_VM_CR4_ALWAYS_ON" by (simp add: m d enter_rmode_reads)
  show "vmcs_readl (setup_modes s) GUEST_RFLAGS = vmcs_readl s GUEST_RFLAGS OR IOPL_MASK OR X86_EFLAGS_VM"
    by (simp add: m d enter_rmode_reads)
  show "vmcs_read32 (setup_modes s) VM_ENTRY_INTR_INFO_FIELD = 0" by (simp add: m e i)
  show "\<exists>w :: 32 word. vmcs_readl (setup_modes s) GUEST_TR_BASE = scast w" by (auto simp add: m e)
  show "vmcs_readl (setup_modes s) f = vmcs_readl s f" if "f \<in> {GUEST_IA32_DEBUGCTL, GUEST_DR7, GUEST_SYSENTER_ESP, GUEST_SYSENTER_EIP, GUEST_GDTR_BASE, GUEST_IDTR_BASE,
      GUEST_GDTR_LIMIT, GUEST_IDTR_LIMIT, GUEST_RIP, GUEST_CS_BASE, GUEST_SS_BASE, GUEST_DS_BASE, GUEST_ES_BASE,
      GUEST_FS_BASE, GUEST_GS_BASE, GUEST_LDTR_BASE, GUEST_LDTR_AR_BYTES, GUEST_LDTR_SELECTOR, GUEST_TR_SELECTOR,
      GUEST_CS_LIMIT}"
    using that by (auto simp add: m e)
  show "vmcs_readl (setup_modes s) (f_limit g) = 0xffff" if "g \<in> {SS, DS, ES, FS, GS}"
    using that by (auto simp add: m e segment_names)
  show "vmcs_read32 (setup_modes s) (f_ar g) = 0xf3 \<and>
      vmcs_read16 (setup_modes s) (f_selector g) = ucast (drop_bit 4 (vmcs_readl s (f_base g)))"
    if "g \<in> set code_and_data"
    using that by (auto simp add: m e segment_names code_and_data_def)
qed


lemma reset_guest_reads:
  "f \<in> {GUEST_IA32_DEBUGCTL, GUEST_SYSENTER_ESP, GUEST_SYSENTER_EIP, GUEST_GDTR_BASE, GUEST_IDTR_BASE,
    GUEST_SS_BASE, GUEST_DS_BASE, GUEST_ES_BASE, GUEST_FS_BASE, GUEST_GS_BASE, GUEST_LDTR_BASE,
    GUEST_LDTR_SELECTOR, GUEST_TR_SELECTOR} \<Longrightarrow> vmcs_readl (reset_state env s) f = 0"
  "f \<in> {GUEST_GDTR_LIMIT, GUEST_IDTR_LIMIT, GUEST_CS_LIMIT} \<Longrightarrow> vmcs_readl (reset_state env s) f = 0xffff"
  "vmcs_readl (reset_state env s) GUEST_DR7 = 0x400" "vmcs_readl (reset_state env s) GUEST_RFLAGS = 2"
  "vmcs_readl (reset_state env s) GUEST_LDTR_AR_BYTES = 0x82"
  by (auto simp: reset_state_def setup_vcpu_defs Let_def add_msrs_frame fixedbits_reads vmcs_simps
      set_host_def init_rmode_tss_frame segment_names)

text \<open>The root of the new shadow tree is an empty page of the pool, and \<open>CR3\<close> points to it.\<close>

lemma mmu_init_root:
  assumes "active_mmu_pages s = []" "free_pages (vcpu s) = []" "usable_frames (free_frames s)"
    "KVM_NUM_MMU_PAGES \<le> length (free_frames s)" "kvm_mmu_init s = (ok, t)" "\<not> is_paging s"
  shows "vmcs_readl t GUEST_CR3 = shadow_root t" "is_page (shadow_root t)"
    "shadow_root t AND PT64_BASE_ADDR_MASK = shadow_root t" "table_empty t (shadow_root t)"
proof -
  obtain b u where al: "alloc_mmu_pages s = (b, u)" by fastforce
  have "filling 0 s" using assms by (simp add: filling_def pool_ok_def pool_pages_def)
  from alloc_mmu_pages_from_fill [OF this _ assms(4) al [unfolded alloc_mmu_pages_def]]
  have b: b and f: "filling 256 u" by (simp_all add: KVM_NUM_MMU_PAGES_def)
  have u: "pool_ok u" "free_pages (vcpu u) \<noteq> []" using f by (auto simp: filling_def pool_pages_def)
  have t: "t = init_kvm_mmu u" using assms(5) al b by (simp add: kvm_mmu_init_def)
  have "cpu_view u = cpu_view s"
    using cpu_view_alloc_mmu [of KVM_NUM_MMU_PAGES 0 s] al unfolding alloc_mmu_pages_def by (metis snd_conv)
  then have p: "\<not> is_paging u" using assms(6) by (simp add: is_paging_def guest_cr0_def cpu_viewD(1) [of u s])
  obtain root w m v where e: "kvm_mmu_alloc_page None u = (root, w)" "same_tables w t"
    "shadow_root t = root" "vmcs t = (vmcs w)(GUEST_CR3 := v)" "v = (if is_paging u then x else root)" for x
    by (rule init_kvm_mmu_effect [of u]) (use p t in auto)
  note a = kvm_mmu_alloc_page_ok(4) [OF u(1) e(1) u(2)]
  show "vmcs_readl t GUEST_CR3 = shadow_root t" using e p by (simp add: vmcs_readl_def)
  show "is_page (shadow_root t)" "shadow_root t AND PT64_BASE_ADDR_MASK = shadow_root t"
    "table_empty t (shadow_root t)"
    using a e(3) same_tablesD(6) [OF e(2)] by auto
qed


lemma root_below_1TB:
  assumes "is_page p"
  shows "p AND CR3_L_MODE_RESEVED_BITS = 0 \<longleftrightarrow> unat p < 2 ^ 40"
proof -
  have l: "\<not> bit p n" if "n < 12" for n
    using assms that by (rule is_page_bit)
  have m: "CR3_L_MODE_RESEVED_BITS = NOT (mask 40) OR 0xfe7" by code_simp
  have "(0xfe7 :: u64) = take_bit 12 0xfe7" by code_simp
  then have f: "\<not> bit (0xfe7 :: u64) n" if "12 \<le> n" for n
    using that by (metis bit_take_bit_iff not_less)
  have "p AND CR3_L_MODE_RESEVED_BITS = p AND NOT (mask 40)"
    unfolding m by (rule bit_word_eqI) (use l f not_le in \<open>auto simp: bit_simps\<close>)
  also have "\<dots> = 0 \<longleftrightarrow> take_bit 40 p = p"
  proof
    assume a: "p AND NOT (mask 40) = 0"
    have "\<not> (bit p n \<and> 40 \<le> n)" for n
      using arg_cong [OF a, of "\<lambda>x. bit x n"] bit_imp_le_length [of p n] by (auto simp: bit_simps)
    then show "take_bit 40 p = p" by (intro bit_word_eqI) (auto simp: bit_take_bit_iff not_le)
  next
    assume a: "take_bit 40 p = p"
    have "bit p n \<Longrightarrow> n < 40" for n using arg_cong [OF a, of "\<lambda>x. bit x n"] by (simp add: bit_take_bit_iff)
    then show "p AND NOT (mask 40) = 0" by (intro bit_word_eqI) (auto simp: bit_simps)
  qed
  also have "\<dots> \<longleftrightarrow> unat p < 2 ^ 40"
    by (metis take_bit_nat_eq_self_iff unsigned_take_bit_eq word_unat_eq_iff)
  finally show ?thesis .
qed


lemma reset_guest_passes:
  assumes fresh: "\<not> rmode_active (rmode (vcpu s))" "shadow_efer (vcpu s) = 0"
  shows "guest_msr_test (setup_modes (reset_state env s))" "guest_selector_test (setup_modes (reset_state env s))"
    "guest_base_test (setup_modes (reset_state env s))" "guest_segment_test (setup_modes (reset_state env s))"
    "IDT_GDT_TEST GUEST_GDTR_BASE GUEST_GDTR_LIMIT (setup_modes (reset_state env s))"
    "IDT_GDT_TEST GUEST_IDTR_BASE GUEST_IDTR_LIMIT (setup_modes (reset_state env s))"
    "guest_rip_test (setup_modes (reset_state env s))" "guest_rflags_test (setup_modes (reset_state env s))"
proof -
  let ?r = "reset_state env s"
  let ?u = "setup_modes ?r"
  have f: "\<not> rmode_active (rmode (vcpu ?r))" "shadow_efer (vcpu ?r) = 0"
    using fresh reset_state_reads(3,4) by simp_all
  note m = setup_modes_reads [OF f] and R = reset_guest_reads reset_state_reads(1,2) [of env s]
  have "vmcs_readl ?u GUEST_RFLAGS = 2 OR IOPL_MASK OR X86_EFLAGS_VM" using m(4) R by simp
  moreover have "(2 :: u64) OR IOPL_MASK OR X86_EFLAGS_VM = 0x23002" by code_simp
  ultimately have fl: "vmcs_readl ?u GUEST_RFLAGS = 0x23002" by simp
  have "(0x23002 :: u64) AND RFLAGS_VM \<noteq> 0" by code_simp
  then have v: "virtual8086 ?u" by (simp add: virtual8086_def fl)
  note w = vmcs_read16_def vmcs_read32_def vmcs_read64_def
  have z: "is_canonical 0" by code_simp
  show "guest_msr_test ?u" by (simp add: guest_msr_test_def m(7) R z) code_simp
  have sel: "vmcs_read16 ?u GUEST_TR_SELECTOR = 0" "vmcs_read16 ?u GUEST_LDTR_SELECTOR = 0"
    by (simp_all add: w m(7) R)
  show "guest_selector_test ?u" by (simp add: guest_selector_test_def sel v)
  have tr: "is_canonical (vmcs_readl ?u GUEST_TR_BASE)" using m(6) is_canonical_scast by auto
  have b: "(0xf0000 :: u64) = push_bit 4 (ucast (ucast (drop_bit 4 (0xf0000 :: u64)) :: u16))"
    "(0xf0000 :: u64) AND upper_half = 0" by code_simp+
  have s: "VIR8086_SEG_BASE_TEST g ?u" if "g \<in> set code_and_data" for g
    using m(9) [OF that] that b(1)
    by (auto simp: VIR8086_SEG_BASE_TEST_def code_and_data_def segment_names m(7) R)
  have e: "SEG_BASE_TEST g ?u" if "g \<in> {SS, DS, ES}" for g
    using that by (auto simp: SEG_BASE_TEST_def segment_names m(7) R)
  show "guest_base_test ?u" using s by (simp add: guest_base_test_def tr m(7) R z e b(2))
  have l: "VIR8086_SEG_LIMIT_TEST g ?u" if "g \<in> set code_and_data" for g
    using that m(8) [of g] by (auto simp: VIR8086_SEG_LIMIT_TEST_def code_and_data_def segment_names m(7) R)
  show "guest_segment_test ?u" using l m(9) by (simp add: guest_segment_test_def v VIR8086_SEG_AR_TEST_def)
  have h: "drop_bit 16 (ucast (0xffff :: u64) :: u32) = 0" by code_simp
  show "IDT_GDT_TEST GUEST_GDTR_BASE GUEST_GDTR_LIMIT ?u" "IDT_GDT_TEST GUEST_IDTR_BASE GUEST_IDTR_LIMIT ?u"
    using h by (simp_all add: IDT_GDT_TEST_def w m(7) R z)
  have i: "(0xfff0 :: u64) AND upper_half = 0" by code_simp
  show "guest_rip_test ?u" by (simp add: guest_rip_test_def m(7) R i is_canonical_small)
  have k: "(0x23002 :: u64) AND RFLAGS_RESEVED_CLEAR_BITS = 0" "(0x23002 :: u64) AND RFLAGS_RESEVED_SET_BITS \<noteq> 0"
    by code_simp+
  show "guest_rflags_test ?u" by (simp add: guest_rflags_test_def Let_def fl k m(1,5))
qed

text \<open>Apart from \<open>CR0\<close> to \<open>CR4\<close> the tests depend on fields other than \<open>CR3\<close> only.\<close>

lemma entry_tests_same:
  assumes "\<And>f. f \<noteq> GUEST_CR3 \<Longrightarrow> vmcs_readl t f = vmcs_readl s f"
  shows "guest_msr_test t = guest_msr_test s" "guest_selector_test t = guest_selector_test s"
    "guest_base_test t = guest_base_test s" "guest_segment_test t = guest_segment_test s"
    "IDT_GDT_TEST GUEST_GDTR_BASE GUEST_GDTR_LIMIT t = IDT_GDT_TEST GUEST_GDTR_BASE GUEST_GDTR_LIMIT s"
    "IDT_GDT_TEST GUEST_IDTR_BASE GUEST_IDTR_LIMIT t = IDT_GDT_TEST GUEST_IDTR_BASE GUEST_IDTR_LIMIT s"
    "guest_rip_test t = guest_rip_test s" "guest_rflags_test t = guest_rflags_test s"
proof -
  have w: "vmcs_read16 t f = vmcs_read16 s f" "vmcs_read32 t f = vmcs_read32 s f" if "f \<noteq> GUEST_CR3" for f
    using assms [OF that] by (simp_all add: vmcs_read16_def vmcs_read32_def)
  have v: "virtual8086 t = virtual8086 s" "is_long_mode t = is_long_mode s"
    by (simp_all add: virtual8086_def is_long_mode_def assms w)
  have u: "usable LDTR t = usable LDTR s" "usable SS t = usable SS s" "usable DS t = usable DS s" "usable ES t = usable ES s"
    by (simp_all add: usable_def segment_names w)
  note d = assms w v u segment_names
  have g: "SEG_G_TEST f t = SEG_G_TEST f s" "rpl f t = rpl f s" if "f \<in> {CS, SS, DS, ES, FS, GS, TR, LDTR}" for f
    using that by (auto simp: SEG_G_TEST_def rpl_def d)
  have a: "SEG_AR_TEST f t = SEG_AR_TEST f s" if "f \<in> {DS, ES, FS, GS}" for f
  proof -
    have m: "f \<in> {CS, SS, DS, ES, FS, GS, TR, LDTR}" using that by blast
    have "vmcs_read32 t (f_ar f) = vmcs_read32 s (f_ar f)" using that by (auto simp: segment_names w)
    then show ?thesis by (simp only: SEG_AR_TEST_def g [OF m])
  qed
  show "guest_msr_test t = guest_msr_test s" "guest_selector_test t = guest_selector_test s"
    "IDT_GDT_TEST GUEST_GDTR_BASE GUEST_GDTR_LIMIT t = IDT_GDT_TEST GUEST_GDTR_BASE GUEST_GDTR_LIMIT s"
    "IDT_GDT_TEST GUEST_IDTR_BASE GUEST_IDTR_LIMIT t = IDT_GDT_TEST GUEST_IDTR_BASE GUEST_IDTR_LIMIT s"
    "guest_rip_test t = guest_rip_test s" "guest_rflags_test t = guest_rflags_test s"
    by (simp_all add: guest_msr_test_def guest_selector_test_def IDT_GDT_TEST_def guest_rip_test_def
        guest_rflags_test_def assms w v u)
  show "guest_base_test t = guest_base_test s"
  proof -
    have b: "VIR8086_SEG_BASE_TEST f t = VIR8086_SEG_BASE_TEST f s" if "f \<in> set code_and_data" for f
      using that by (auto simp: VIR8086_SEG_BASE_TEST_def code_and_data_def segment_names assms w)
    have c: "vmcs_readl t (f_base f) = vmcs_readl s (f_base f)" if "f \<in> {SS, DS, ES}" for f
      using that by (auto simp: segment_names assms)
    show ?thesis by (simp add: guest_base_test_def SEG_BASE_TEST_def b c v u assms)
  qed
  have c: "guest_cs_test t = guest_cs_test s" "guest_ss_test t = guest_ss_test s" "guest_tr_test t = guest_tr_test s"
    "guest_ldtr_test t = guest_ldtr_test s"
    unfolding guest_cs_test_def guest_ss_test_def guest_tr_test_def guest_ldtr_test_def v
    using g [of CS] g [of SS] g [of TR] g [of LDTR]
      w(2) [of GUEST_CS_AR_BYTES] w(2) [of GUEST_SS_AR_BYTES] w(2) [of GUEST_TR_AR_BYTES]
      w(2) [of GUEST_LDTR_AR_BYTES] w(2) [of VM_ENTRY_CONTROLS]
    by (simp_all del: not_less)
  show "guest_segment_test t = guest_segment_test s"
    by (simp add: a c guest_segment_test_def VIR8086_SEG_LIMIT_TEST_def VIR8086_SEG_AR_TEST_def code_and_data_def d)
qed

text \<open>
  C39: the state that \<open>kvm_vcpu_setup\<close> builds passes the checks of the guest state at VM entry, up
  to one: with the root of the shadow tree at or above 1 TB, \<open>CR3\<close> is taken to have reserved bits
  set.
\<close>

theorem vcpu_setup_entry_test:
  assumes "kvm_vcpu_setup env s = (None, t)" "fst (init_rmode_tss s)"
    and fresh: "\<not> rmode_active (rmode (vcpu s))" "shadow_efer (vcpu s) = 0"
    and pool: "active_mmu_pages s = []" "free_pages (vcpu s) = []" "usable_frames (free_frames s)"
      "KVM_NUM_MMU_PAGES \<le> length (free_frames s)"
  shows "vm_entry_test_guest t \<longleftrightarrow> unat (root_hpa (mmu (vcpu t))) < 2 ^ 40"
proof -
  let ?r = "reset_state env s"
  let ?u = "setup_modes ?r"
  have f: "\<not> rmode_active (rmode (vcpu ?r))" "shadow_efer (vcpu ?r) = 0"
    using fresh reset_state_reads(3,4) by simp_all
  have i: "kvm_mmu_init ?u = (True, t)" by (rule kvm_vcpu_setup_ok(3) [OF assms(1,2)])
  have "start_view ?u = start_view s" by (simp add: start_view_modes start_view_reset)
  then have p: "active_mmu_pages ?u = []" "free_pages (vcpu ?u) = []" "usable_frames (free_frames ?u)"
    "KVM_NUM_MMU_PAGES \<le> length (free_frames ?u)" using pool by (simp_all add: start_view_def)
  have np: "\<not> is_paging ?u" unfolding is_paging_def setup_modes_effect(2) [OF f] by code_simp
  note root = mmu_init_root [OF p i np]
  note view = cpu_viewD [OF cpu_view_mmu_init [OF i]] and m = setup_modes_reads [OF f]
  have l: "\<not> is_long_mode t" using m(1) view(3) by (simp add: is_long_mode_def)
  have u: "vm_entry_test_guest t \<longleftrightarrow> guest_cr_test t \<and> guest_pdpte_test t"
    using reset_guest_passes [OF fresh, of env]
    by (simp add: vm_entry_test_guest_def entry_tests_same [OF view(1)])
  have cr: "guest_cr_test t \<longleftrightarrow> unat (shadow_root t) < 2 ^ 40"
  proof -
    have c0: "vmcs_readl t GUEST_CR0 = 0x60000010 OR KVM_VM_CR0_ALWAYS_ON" using view(1) m(2) by simp
    have c4: "vmcs_readl t GUEST_CR4 = KVM_RMODE_VM_CR4_ALWAYS_ON" using view(1) m(3) by simp
    have dc: "vmcs_read64 t GUEST_IA32_DEBUGCTL = 0" using view(1) m(7) reset_guest_reads(1) by (simp add: vmcs_read64_def)
    have n: "(0x60000010 OR KVM_VM_CR0_ALWAYS_ON) AND CR0_PG_MASK \<noteq> 0"
      "(0x60000010 OR KVM_VM_CR0_ALWAYS_ON) AND CR0_PE_MASK \<noteq> 0"
      "(0x60000010 OR KVM_VM_CR0_ALWAYS_ON) AND CR0_NE_MASK \<noteq> 0"
      "KVM_RMODE_VM_CR4_ALWAYS_ON AND CR4_VMXE_MASK \<noteq> 0" by code_simp+
    show ?thesis
      unfolding guest_cr_test_def c0 c4 dc root(1) root_below_1TB [OF root(2)] using n l by simp
  qed
  have "guest_pdpte_test t"
  proof -
    have e: "drop_bit 5 (shadow_root t AND (PAGE_SIZE - 1)) = 0"
    proof -
      have "PAGE_SIZE - 1 = mask 12" by code_simp
      then show ?thesis using root(2) by (intro bit_word_eqI) (auto simp: bit_simps is_page_bit)
    qed
    have a: "pdpte_address (shadow_root t) (shadow_root t) i = pt_entry (shadow_root t) i" for i
      unfolding pdpte_address_def e by simp
    have "pte_read t (pt_entry (shadow_root t) i) = 0" if "i < 4" for i
      using root(4) that by (simp add: table_empty_def)
    then show ?thesis
      using e by (simp add: guest_pdpte_test_def root(1) is_page_shift [OF root(2)] a Let_def del: upt_rec_numeral)
  qed
  then show ?thesis using u cr by (simp add: shadow_root_def)
qed


lemma vcpu_setup_entry_test_witness:
  "\<exists>t. kvm_vcpu_setup example_host_env example_new = (None, t) \<and>
    (vm_entry_test_guest t \<longleftrightarrow> unat (root_hpa (mmu (vcpu t))) < 2 ^ 40)"
proof -
  obtain t where t: "kvm_vcpu_setup example_host_env example_new = (None, t)" using example_new_setup(1) by blast
  have "active_mmu_pages example_new = []" "free_pages (vcpu example_new) = []"
    "usable_frames (free_frames example_new)" "KVM_NUM_MMU_PAGES \<le> length (free_frames example_new)"
    using example_frames_usable by (simp_all add: example_new_def KVM_NUM_MMU_PAGES_def)
  then show ?thesis using vcpu_setup_entry_test [OF t example_new_setup(2-4)] t by blast
qed

end
