(* ===== verification/Vcpu_Switch.thy ===== *)
theory Vcpu_Switch
  imports Vcpu_Load
begin

text \<open>
  Virtual cpus that move between the physical cpus of an SMP host. \<open>__vcpu_load\<close> first has every
  other cpu give up the VMCS (\<open>smp_call_function\<close> of \<open>__vcpu_clear\<close>), then makes it current on the
  new one; \<open>kvm_free_vmcs\<close> has all cpus give it up before the page is freed. The interrupts that
  carry out the calls arrive one by one while the other cpus load, run and free virtual cpus of
  their own, so the code is split where another cpu can act: each rule of the step relation is
  one section of the source. What the processor promises of \<open>vmclear\<close>, \<open>vmptrld\<close>, \<open>vmlaunch\<close>
  and \<open>vmresume\<close> is modelled by the set of VMCSs that are active on a cpu, its current VMCS, and
  the launch state of each VMCS.

  The invariant: a VMCS is active on at most one cpu; a virtual cpu that is loaded has its VMCS
  current, with the host state of the cpu it runs on, and in the launch state that the choice
  between \<open>vmlaunch\<close> and \<open>vmresume\<close> assumes; a VMCS that is freed is active nowhere. It needs
  that no creation of a virtual cpu fails: the error path frees the VMCS without the mutex.
\<close>

section \<open>State\<close>

text \<open>
  A virtual cpu is a number, over all virtual machines. The phase says how far the thread that
  holds its mutex has come: \<open>Created\<close> before \<open>get_cpu\<close> in \<open>kvm_dev_ioctl_create_vcpu\<close>,
  then the cpu it is bound to and the cpus that have not answered the call yet.
\<close>

type_synonym vcpu_id = nat

datatype load_phase =
    Unlocked
  | Created
  | Calling int "int list"
  | Selecting int
  | Pointing int
  | Moving int
  | Loaded int

fun bound_to :: "load_phase \<Rightarrow> int option" where
  "bound_to Unlocked = None"
| "bound_to Created = None"
| "bound_to (Calling c cs) = Some c"
| "bound_to (Selecting c) = Some c"
| "bound_to (Pointing c) = Some c"
| "bound_to (Moving c) = Some c"
| "bound_to (Loaded c) = Some c"

text \<open>
  \<open>sw_cpu\<close>, \<open>sw_vmcs\<close>, \<open>sw_launched\<close> are fields of \<open>struct kvm_vcpu\<close>, \<open>sw_current\<close> is the per-cpu
  \<open>current_vmcs\<close>; the \<open>hw_\<close> fields belong to the processors. \<open>sw_calls\<close> is the list of the cpus
  that \<open>on_each_cpu\<close> in \<open>kvm_free_vmcs\<close> still waits for, \<open>sw_new\<close> the virtual cpus that are being
  created, \<open>sw_failed\<close> those whose creation failed, \<open>sw_closed\<close> those whose file is closed.
\<close>

record switch =
  sw_cpu :: "vcpu_id \<Rightarrow> int"
  sw_vmcs :: "vcpu_id \<Rightarrow> u64 option"
  sw_launched :: "vcpu_id \<Rightarrow> bool"
  sw_current :: "int \<Rightarrow> u64 option"
  hw_current :: "int \<Rightarrow> u64 option"
  hw_active :: "int \<Rightarrow> u64 set"
  hw_launched :: "u64 \<Rightarrow> bool"
  hw_fields :: "u64 \<Rightarrow> nat \<Rightarrow> u64"
  sw_phase :: "vcpu_id \<Rightarrow> load_phase"
  sw_new :: "vcpu_id \<Rightarrow> bool"
  sw_failed :: "vcpu_id \<Rightarrow> bool"
  sw_closed :: "vcpu_id \<Rightarrow> bool"
  sw_calls :: "vcpu_id \<Rightarrow> int list option"

definition set_phase :: "vcpu_id \<Rightarrow> load_phase \<Rightarrow> switch \<Rightarrow> switch" where
  "set_phase v p s = s\<lparr>sw_phase := (sw_phase s)(v := p)\<rparr>"

section \<open>The instructions\<close>

definition vmcs_clear :: "int \<Rightarrow> u64 \<Rightarrow> switch \<Rightarrow> switch" where
  "vmcs_clear cpu p s =
     s\<lparr>hw_active := (hw_active s)(cpu := hw_active s cpu - {p}),
       hw_current := (if hw_current s cpu = Some p then (hw_current s)(cpu := None) else hw_current s),
       hw_launched := (hw_launched s)(p := False)\<rparr>"

definition vmptrld :: "int \<Rightarrow> u64 \<Rightarrow> switch \<Rightarrow> switch" where
  "vmptrld cpu p s =
     s\<lparr>hw_active := (hw_active s)(cpu := insert p (hw_active s cpu)),
       hw_current := (hw_current s)(cpu := Some p)\<rparr>"

text \<open>A write goes to the VMCS that is current on the cpu, whichever that is.\<close>

definition vmwrite :: "int \<Rightarrow> nat \<Rightarrow> u64 \<Rightarrow> switch \<Rightarrow> switch" where
  "vmwrite cpu f x s =
     (case hw_current s cpu of
        None \<Rightarrow> s
      | Some p \<Rightarrow> s\<lparr>hw_fields := (hw_fields s)(p := (hw_fields s p)(f := x))\<rparr>)"

text \<open>
  An entry succeeds only with \<open>vmlaunch\<close> on a VMCS in the clear state or \<open>vmresume\<close> on a launched
  one; \<open>None\<close> is the failure that \<open>kvm_dev_ioctl_run\<close> reports as \<open>KVM_EXIT_TYPE_FAIL_ENTRY\<close>.
\<close>

definition vm_entry :: "int \<Rightarrow> vcpu_id \<Rightarrow> switch \<Rightarrow> switch option" where
  "vm_entry cpu v s =
     (case hw_current s cpu of
        None \<Rightarrow> None
      | Some p \<Rightarrow>
          if hw_launched s p = sw_launched s v
          then Some (s\<lparr>hw_launched := (hw_launched s)(p := True), sw_launched := (sw_launched s)(v := True)\<rparr>)
          else None)"

section \<open>The sections of the code\<close>

definition internal_vcpu_clear :: "vcpu_id \<Rightarrow> int \<Rightarrow> switch \<Rightarrow> switch" where
  "internal_vcpu_clear v cpu s =
     (let s = (case sw_vmcs s v of
                 Some p \<Rightarrow> if sw_cpu s v = cpu then vmcs_clear cpu p s else s
               | None \<Rightarrow> s)
      in if sw_current s cpu = sw_vmcs s v then s\<lparr>sw_current := (sw_current s)(cpu := None)\<rparr> else s)"

definition load_begin :: "int list \<Rightarrow> int \<Rightarrow> vcpu_id \<Rightarrow> switch \<Rightarrow> switch" where
  "load_begin online cpu v s =
     set_phase v (if sw_cpu s v \<noteq> cpu then Calling cpu (filter (\<lambda>c. c \<noteq> cpu) online) else Selecting cpu) s"

definition load_called :: "int \<Rightarrow> vcpu_id \<Rightarrow> switch \<Rightarrow> switch" where
  "load_called cpu v s = set_phase v (Selecting cpu) (s\<lparr>sw_launched := (sw_launched s)(v := False)\<rparr>)"

definition load_select :: "int \<Rightarrow> vcpu_id \<Rightarrow> switch \<Rightarrow> switch" where
  "load_select cpu v s =
     (if sw_current s cpu \<noteq> sw_vmcs s v
      then set_phase v (Pointing cpu) (s\<lparr>sw_current := (sw_current s)(cpu := sw_vmcs s v)\<rparr>)
      else set_phase v (Moving cpu) s)"

definition load_point :: "int \<Rightarrow> vcpu_id \<Rightarrow> switch \<Rightarrow> switch" where
  "load_point cpu v s =
     set_phase v (Moving cpu) (case sw_vmcs s v of None \<Rightarrow> s | Some p \<Rightarrow> vmptrld cpu p s)"

text \<open>\<open>bases\<close> gives the TSS and GDT bases and the SYSENTER stack of each cpu, by VMCS field.\<close>

definition load_move :: "(int \<Rightarrow> nat \<Rightarrow> u64) \<Rightarrow> int \<Rightarrow> vcpu_id \<Rightarrow> switch \<Rightarrow> switch" where
  "load_move bases cpu v s =
     set_phase v (Loaded cpu)
       (if sw_cpu s v \<noteq> cpu then
          let s = s\<lparr>sw_cpu := (sw_cpu s)(v := cpu)\<rparr>;
              s = vmwrite cpu HOST_TR_BASE (bases cpu HOST_TR_BASE) s;
              s = vmwrite cpu HOST_GDTR_BASE (bases cpu HOST_GDTR_BASE) s
          in vmwrite cpu HOST_IA32_SYSENTER_ESP (bases cpu HOST_IA32_SYSENTER_ESP) s
        else s)"

definition switch_put :: "vcpu_id \<Rightarrow> switch \<Rightarrow> switch" where
  "switch_put v s = set_phase v Unlocked (s\<lparr>sw_new := (sw_new s)(v := False)\<rparr>)"

text \<open>\<open>kvm_dev_ioctl_create_vcpu\<close> up to its call of \<open>__vcpu_load\<close>, on cpu \<open>cpu\<close>, with the new VMCS \<open>p\<close>.\<close>

definition switch_create :: "int \<Rightarrow> u64 \<Rightarrow> vcpu_id \<Rightarrow> switch \<Rightarrow> switch" where
  "switch_create cpu p v s =
     (let s = s\<lparr>sw_cpu := (sw_cpu s)(v := -1), hw_fields := (hw_fields s)(p := \<lambda>_. 0)\<rparr>;
          s = vmcs_clear cpu p s;
          s = s\<lparr>sw_vmcs := (sw_vmcs s)(v := Some p), sw_launched := (sw_launched s)(v := False)\<rparr>
      in set_phase v Created (s\<lparr>sw_new := (sw_new s)(v := True)\<rparr>))"

definition switch_freed :: "vcpu_id \<Rightarrow> switch \<Rightarrow> switch" where
  "switch_freed v s =
     s\<lparr>sw_vmcs := (sw_vmcs s)(v := None), sw_calls := (sw_calls s)(v := None),
       sw_failed := (sw_failed s)(v := False), sw_closed := (sw_closed s)(v := False)\<rparr>"

section \<open>Steps\<close>

text \<open>
  \<open>idle\<close>: no thread on the cpu is between \<open>get_cpu\<close> and \<open>put_cpu\<close>. \<open>failing\<close> says whether
  \<open>kvm_vcpu_setup\<close> may fail; then the VMCS is freed after \<open>vcpu_put\<close>, when another thread may
  have loaded it. A file is closed only when no ioctl on it runs, and none can start afterwards.
\<close>

definition idle :: "int \<Rightarrow> switch \<Rightarrow> bool" where
  "idle cpu s \<longleftrightarrow> (\<forall>v. bound_to (sw_phase s v) \<noteq> Some cpu)"

inductive switch_step :: "(int \<Rightarrow> nat \<Rightarrow> u64) \<Rightarrow> int list \<Rightarrow> bool \<Rightarrow> switch \<Rightarrow> switch \<Rightarrow> bool"
  for bases online failing where
  create: "cpu \<in> set online \<Longrightarrow> sw_phase s v = Unlocked \<Longrightarrow> sw_vmcs s v = None \<Longrightarrow>
    \<forall>w. sw_vmcs s w \<noteq> Some p \<Longrightarrow> switch_step bases online failing s (switch_create cpu p v s)"
| begin_new: "cpu \<in> set online \<Longrightarrow> idle cpu s \<Longrightarrow> sw_phase s v = Created \<Longrightarrow>
    switch_step bases online failing s (load_begin online cpu v s)"
| begin_load: "cpu \<in> set online \<Longrightarrow> idle cpu s \<Longrightarrow> sw_phase s v = Unlocked \<Longrightarrow> sw_vmcs s v \<noteq> None \<Longrightarrow>
    \<not> sw_closed s v \<Longrightarrow> switch_step bases online failing s (load_begin online cpu v s)"
| answer: "sw_phase s v = Calling cpu cs \<Longrightarrow> c \<in> set cs \<Longrightarrow>
    switch_step bases online failing s
      (set_phase v (Calling cpu (filter (\<lambda>d. d \<noteq> c) cs)) (internal_vcpu_clear v c s))"
| called: "sw_phase s v = Calling cpu [] \<Longrightarrow> switch_step bases online failing s (load_called cpu v s)"
| select: "sw_phase s v = Selecting cpu \<Longrightarrow> switch_step bases online failing s (load_select cpu v s)"
| point: "sw_phase s v = Pointing cpu \<Longrightarrow> switch_step bases online failing s (load_point cpu v s)"
| move: "sw_phase s v = Moving cpu \<Longrightarrow> switch_step bases online failing s (load_move bases cpu v s)"
| enter: "sw_phase s v = Loaded cpu \<Longrightarrow> vm_entry cpu v s = Some t \<Longrightarrow> switch_step bases online failing s t"
| put: "sw_phase s v = Loaded cpu \<Longrightarrow> switch_step bases online failing s (switch_put v s)"
| put_failed: "failing \<Longrightarrow> sw_phase s v = Loaded cpu \<Longrightarrow> sw_new s v \<Longrightarrow>
    switch_step bases online failing s (switch_put v (s\<lparr>sw_failed := (sw_failed s)(v := True)\<rparr>))"
| close: "sw_phase s v = Unlocked \<Longrightarrow> sw_vmcs s v \<noteq> None \<Longrightarrow> \<not> sw_failed s v \<Longrightarrow>
    switch_step bases online failing s (s\<lparr>sw_closed := (sw_closed s)(v := True)\<rparr>)"
| free: "sw_failed s v \<or> sw_closed s v \<Longrightarrow> sw_calls s v = None \<Longrightarrow> sw_vmcs s v \<noteq> None \<Longrightarrow>
    switch_step bases online failing s (s\<lparr>sw_calls := (sw_calls s)(v := Some online)\<rparr>)"
| free_answer: "sw_calls s v = Some cs \<Longrightarrow> c \<in> set cs \<Longrightarrow>
    switch_step bases online failing s
      (internal_vcpu_clear v c (s\<lparr>sw_calls := (sw_calls s)(v := Some (filter (\<lambda>d. d \<noteq> c) cs))\<rparr>))"
| freed: "sw_calls s v = Some [] \<Longrightarrow> switch_step bases online failing s (switch_freed v s)"

text \<open>At first no virtual cpu exists.\<close>

definition switch_init :: switch where
  "switch_init =
     \<lparr>sw_cpu = \<lambda>_. 0, sw_vmcs = \<lambda>_. None, sw_launched = \<lambda>_. False, sw_current = \<lambda>_. None,
      hw_current = \<lambda>_. None, hw_active = \<lambda>_. {}, hw_launched = \<lambda>_. False, hw_fields = \<lambda>_ _. 0,
      sw_phase = \<lambda>_. Unlocked, sw_new = \<lambda>_. False, sw_failed = \<lambda>_. False, sw_closed = \<lambda>_. False, sw_calls = \<lambda>_. None\<rparr>"

section \<open>The invariant\<close>

text \<open>What holds of a virtual cpu \<open>v\<close> with the VMCS \<open>p\<close>.\<close>

fun phase_ok :: "int list \<Rightarrow> switch \<Rightarrow> vcpu_id \<Rightarrow> u64 \<Rightarrow> load_phase \<Rightarrow> bool" where
  "phase_ok online s v p Unlocked = True"
| "phase_ok online s v p Created = True"
| "phase_ok online s v p (Calling c cs) \<longleftrightarrow>
     sw_cpu s v \<noteq> c \<and>
     (sw_cpu s v \<notin> set cs \<longrightarrow> p \<notin> hw_active s (sw_cpu s v) \<and> \<not> hw_launched s p)"
| "phase_ok online s v p (Selecting c) \<longleftrightarrow>
     (sw_cpu s v \<noteq> c \<longrightarrow> p \<notin> hw_active s (sw_cpu s v))"
| "phase_ok online s v p (Pointing c) \<longleftrightarrow>
     (sw_cpu s v \<noteq> c \<longrightarrow> p \<notin> hw_active s (sw_cpu s v)) \<and> sw_current s c = Some p"
| "phase_ok online s v p (Moving c) \<longleftrightarrow>
     (sw_cpu s v \<noteq> c \<longrightarrow> p \<notin> hw_active s (sw_cpu s v)) \<and> sw_current s c = Some p \<and> hw_current s c = Some p"
| "phase_ok online s v p (Loaded c) \<longleftrightarrow>
     sw_cpu s v = c \<and> sw_current s c = Some p \<and> hw_current s c = Some p"

fun calling :: "load_phase \<Rightarrow> bool" where
  "calling (Calling c cs) = True"
| "calling p = False"

definition base_fields :: "nat set" where
  "base_fields = {HOST_TR_BASE, HOST_GDTR_BASE, HOST_IA32_SYSENTER_ESP}"

definition vmcs_ok :: "(int \<Rightarrow> nat \<Rightarrow> u64) \<Rightarrow> int list \<Rightarrow> switch \<Rightarrow> vcpu_id \<Rightarrow> u64 \<Rightarrow> bool" where
  "vmcs_ok bases online s v p \<longleftrightarrow>
     phase_ok online s v p (sw_phase s v) \<and>
     (\<forall>c. p \<in> hw_active s c \<longrightarrow> c \<in> set online \<and> (c = sw_cpu s v \<or> sw_phase s v = Moving c)) \<and>
     (\<forall>c. sw_current s c = Some p \<longrightarrow> hw_current s c = Some p \<or> sw_phase s v = Pointing c) \<and>
     (\<not> calling (sw_phase s v) \<and> sw_calls s v = None \<longrightarrow> sw_launched s v = hw_launched s p) \<and>
     (sw_cpu s v \<notin> set online \<longrightarrow> \<not> hw_launched s p) \<and>
     (sw_cpu s v \<in> set online \<longrightarrow> (\<forall>f\<in>base_fields. hw_fields s p f = bases (sw_cpu s v) f)) \<and>
     (\<forall>cs. sw_calls s v = Some cs \<longrightarrow> sw_closed s v \<and>
       (sw_cpu s v \<notin> set cs \<longrightarrow> p \<notin> hw_active s (sw_cpu s v)))"

definition switch_ok :: "(int \<Rightarrow> nat \<Rightarrow> u64) \<Rightarrow> int list \<Rightarrow> switch \<Rightarrow> bool" where
  "switch_ok bases online s \<longleftrightarrow>
     (\<forall>v p. sw_vmcs s v = Some p \<longrightarrow> vmcs_ok bases online s v p) \<and>
     (\<forall>v. sw_vmcs s v = None \<longrightarrow> sw_phase s v = Unlocked \<and> sw_calls s v = None \<and> \<not> sw_closed s v) \<and>
     (\<forall>v. sw_closed s v \<longrightarrow> sw_phase s v = Unlocked) \<and>
     (\<forall>v. \<not> sw_failed s v) \<and>
     (\<forall>v w p. sw_vmcs s v = Some p \<and> sw_vmcs s w = Some p \<longrightarrow> v = w) \<and>
     (\<forall>v w c. bound_to (sw_phase s v) = Some c \<and> bound_to (sw_phase s w) = Some c \<longrightarrow> v = w) \<and>
     (\<forall>v c. bound_to (sw_phase s v) = Some c \<longrightarrow> c \<in> set online) \<and>
     (\<forall>c p. hw_current s c = Some p \<longrightarrow> p \<in> hw_active s c) \<and>
     (\<forall>c p. p \<in> hw_active s c \<longrightarrow> (\<exists>v. sw_vmcs s v = Some p)) \<and>
     (\<forall>c p. sw_current s c = Some p \<longrightarrow> (\<exists>v. sw_vmcs s v = Some p))"

lemma switch_okI:
  assumes "\<And>v p. sw_vmcs s v = Some p \<Longrightarrow> vmcs_ok bases online s v p"
    and "\<And>v. sw_vmcs s v = None \<Longrightarrow> sw_phase s v = Unlocked \<and> sw_calls s v = None \<and> \<not> sw_closed s v"
    and "\<And>v. sw_closed s v \<Longrightarrow> sw_phase s v = Unlocked" "\<And>v. \<not> sw_failed s v"
    and "\<And>v w p. sw_vmcs s v = Some p \<Longrightarrow> sw_vmcs s w = Some p \<Longrightarrow> v = w"
    and "\<And>v w c. bound_to (sw_phase s v) = Some c \<Longrightarrow> bound_to (sw_phase s w) = Some c \<Longrightarrow> v = w"
    and "\<And>v c. bound_to (sw_phase s v) = Some c \<Longrightarrow> c \<in> set online"
    and "\<And>c p. hw_current s c = Some p \<Longrightarrow> p \<in> hw_active s c"
    and "\<And>p c. p \<in> hw_active s c \<Longrightarrow> \<exists>v. sw_vmcs s v = Some p"
    and "\<And>p c. sw_current s c = Some p \<Longrightarrow> \<exists>v. sw_vmcs s v = Some p"
  shows "switch_ok bases online s"
  using assms unfolding switch_ok_def by blast

lemma switch_init_ok: "switch_ok bases online switch_init"
  by (simp add: switch_ok_def switch_init_def)

text \<open>The parts of the state that a step of another virtual cpu leaves to \<open>v\<close>.\<close>

lemma vmcs_ok_frame:
  assumes "vmcs_ok bases online s v p"
    and "sw_cpu t v = sw_cpu s v" "sw_launched t v = sw_launched s v" "sw_phase t v = sw_phase s v"
    and "sw_calls t v = sw_calls s v" "sw_closed t v = sw_closed s v"
    and "\<And>c. p \<in> hw_active t c \<longleftrightarrow> p \<in> hw_active s c"
    and "hw_launched t p = hw_launched s p" "hw_fields t p = hw_fields s p"
    and "\<And>c. sw_current t c = Some p \<Longrightarrow> sw_current s c = Some p"
    and "\<And>c. sw_current t c = Some p \<Longrightarrow> hw_current s c = Some p \<Longrightarrow> hw_current t c = Some p"
    and "\<And>c. bound_to (sw_phase s v) = Some c \<Longrightarrow> sw_current s c = Some p \<Longrightarrow> sw_current t c = Some p"
    and "\<And>c. bound_to (sw_phase s v) = Some c \<Longrightarrow> hw_current s c = Some p \<Longrightarrow> hw_current t c = Some p"
  shows "vmcs_ok bases online t v p"
proof -
  have "phase_ok online t v p (sw_phase s v)"
    using assms by (cases "sw_phase s v") (simp_all add: vmcs_ok_def)
  moreover have "sw_current t c = Some p \<Longrightarrow> hw_current t c = Some p \<or> sw_phase s v = Pointing c" for c
    using assms(1) assms(10) [of c] assms(11) [of c] unfolding vmcs_ok_def by blast
  ultimately show ?thesis
    using assms(1) unfolding vmcs_ok_def assms(2-9) by blast
qed

lemma switch_okD:
  assumes "switch_ok bases online s"
  shows "sw_vmcs s v = Some p \<Longrightarrow> vmcs_ok bases online s v p"
    and "sw_vmcs s v = None \<Longrightarrow> sw_phase s v = Unlocked \<and> sw_calls s v = None \<and> \<not> sw_closed s v"
    and "sw_closed s v \<Longrightarrow> sw_phase s v = Unlocked" and "\<not> sw_failed s v"
    and "sw_vmcs s v = Some p \<Longrightarrow> sw_vmcs s w = Some p \<Longrightarrow> v = w"
    and "bound_to (sw_phase s v) = Some c \<Longrightarrow> bound_to (sw_phase s w) = Some c \<Longrightarrow> v = w"
    and "bound_to (sw_phase s v) = Some c \<Longrightarrow> c \<in> set online"
    and "hw_current s c = Some p \<Longrightarrow> p \<in> hw_active s c"
    and "p \<in> hw_active s c \<Longrightarrow> \<exists>v. sw_vmcs s v = Some p"
    and "sw_current s c = Some p \<Longrightarrow> \<exists>v. sw_vmcs s v = Some p"
  using assms unfolding switch_ok_def by blast+

lemma switch_ok_update:
  assumes ok: "switch_ok bases online s" and v: "sw_vmcs s v = Some p"
    and same: "sw_vmcs t = sw_vmcs s" "sw_failed t = sw_failed s"
    and others: "\<And>w. w \<noteq> v \<Longrightarrow> sw_cpu t w = sw_cpu s w \<and> sw_launched t w = sw_launched s w \<and>
      sw_phase t w = sw_phase s w \<and> sw_calls t w = sw_calls s w \<and> sw_closed t w = sw_closed s w"
    and me: "vmcs_ok bases online t v p"
    and vmcs: "\<And>q c. q \<noteq> p \<Longrightarrow> (q \<in> hw_active t c \<longleftrightarrow> q \<in> hw_active s c) \<and>
      hw_launched t q = hw_launched s q \<and> hw_fields t q = hw_fields s q \<and>
      (sw_current t c = Some q \<longrightarrow> sw_current s c = Some q) \<and>
      (sw_current t c = Some q \<and> hw_current s c = Some q \<longrightarrow> hw_current t c = Some q)"
    and cur: "\<And>q c. q \<noteq> p \<Longrightarrow> bound_to (sw_phase s v) \<noteq> Some c \<Longrightarrow>
      (sw_current s c = Some q \<longrightarrow> sw_current t c = Some q) \<and> (hw_current s c = Some q \<longrightarrow> hw_current t c = Some q)"
    and bound: "\<And>c. bound_to (sw_phase t v) = Some c \<Longrightarrow>
      bound_to (sw_phase s v) = Some c \<or> idle c s \<and> c \<in> set online"
    and closed: "sw_closed t v \<Longrightarrow> sw_phase t v = Unlocked"
    and hw: "\<And>c q. hw_current t c = Some q \<Longrightarrow> q \<in> hw_active t c"
  shows "switch_ok bases online t"
proof -
  note D = switch_okD [OF ok]
  have frame: "vmcs_ok bases online t w q" if w: "w \<noteq> v" "sw_vmcs s w = Some q" for w q
  proof -
    have q: "q \<noteq> p" using w v D(5) by blast
    have b: "bound_to (sw_phase s v) \<noteq> Some c" if "bound_to (sw_phase s w) = Some c" for c
      using that w(1) D(6) by blast
    note V = vmcs [OF q] and O = others [OF w(1)]
    show ?thesis
      by (rule vmcs_ok_frame [OF D(1) [OF w(2)]]) (use O V cur [OF q] b in blast)+
  qed
  have a: "vmcs_ok bases online t w q" if "sw_vmcs t w = Some q" for w q
    using frame [of w q] me v that same(1) by (cases "w = v") auto
  have n: "sw_phase t w = Unlocked \<and> sw_calls t w = None \<and> \<not> sw_closed t w" if "sw_vmcs t w = None" for w
    using D(2) [of w] others [of w] v that same(1) by (cases "w = v") auto
  have c: "sw_phase t w = Unlocked" if "sw_closed t w" for w
    using D(3) [of w] others [of w] closed that by (cases "w = v") auto
  have b: "bound_to (sw_phase s w) = Some c" if "bound_to (sw_phase t w) = Some c" "w \<noteq> v" for w c
    using others [OF that(2)] that(1) by simp
  have u: "w = x" if "bound_to (sw_phase t w) = Some c" "bound_to (sw_phase t x) = Some c" for w x c
    using b [of w c] b [of x c] that D(6) bound [of c] unfolding idle_def by (cases "w = v"; cases "x = v") blast+
  have o: "c \<in> set online" if "bound_to (sw_phase t w) = Some c" for w c
    using b [of w c] that D(7) bound [of c] by (cases "w = v") blast+
  have e: "\<exists>w. sw_vmcs t w = Some q" if "q \<in> hw_active t c" for c q
    using D(9) [of q c] vmcs [of q c] v that unfolding same(1) by (cases "q = p") blast+
  have f: "\<exists>w. sw_vmcs t w = Some q" if "sw_current t c = Some q" for c q
    using D(10) [of c q] vmcs [of q c] v that unfolding same(1) by (cases "q = p") blast+
  have i: "w = x" if "sw_vmcs t w = Some q" "sw_vmcs t x = Some q" for w x q
    using D(5) that unfolding same(1) by blast
  have j: "\<not> sw_failed t w" for w using D(4) unfolding same(2) by blast
  show ?thesis unfolding switch_ok_def using a n c u o e f i j hw by blast
qed


section \<open>Every step keeps the invariant\<close>

lemmas vmcs_okD = vmcs_ok_def [THEN iffD1]

lemma vmwrite_fields:
  "sw_cpu (vmwrite c f x s) = sw_cpu s" "sw_vmcs (vmwrite c f x s) = sw_vmcs s"
  "sw_launched (vmwrite c f x s) = sw_launched s" "sw_current (vmwrite c f x s) = sw_current s"
  "hw_current (vmwrite c f x s) = hw_current s" "hw_active (vmwrite c f x s) = hw_active s"
  "hw_launched (vmwrite c f x s) = hw_launched s" "sw_phase (vmwrite c f x s) = sw_phase s"
  "sw_failed (vmwrite c f x s) = sw_failed s" "sw_closed (vmwrite c f x s) = sw_closed s"
  "sw_calls (vmwrite c f x s) = sw_calls s" "sw_new (vmwrite c f x s) = sw_new s"
  "hw_fields (vmwrite c f x s) =
     (case hw_current s c of None \<Rightarrow> hw_fields s | Some p \<Rightarrow> (hw_fields s)(p := (hw_fields s p)(f := x)))"
  by (simp_all add: vmwrite_def split: option.split)

lemma load_begin_ok:
  assumes ok: "switch_ok bases online s" and c: "cpu \<in> set online" "idle cpu s"
    and p: "sw_phase s v = Unlocked \<or> sw_phase s v = Created" "sw_vmcs s v = Some p" "\<not> sw_closed s v"
  shows "switch_ok bases online (load_begin online cpu v s)"
proof (rule switch_ok_update [OF ok p(2)])
  have m: "vmcs_ok bases online s v p" using switch_okD(1) [OF ok p(2)] .
  then show "vmcs_ok bases online (load_begin online cpu v s) v p"
    using p by (auto simp: vmcs_ok_def load_begin_def set_phase_def)
qed (use c p switch_okD(8) [OF ok] in \<open>auto simp: load_begin_def set_phase_def split: if_splits\<close>)

lemma load_called_ok:
  assumes ok: "switch_ok bases online s" and p: "sw_phase s v = Calling cpu []"
  shows "switch_ok bases online (load_called cpu v s)"
proof -
  obtain p' where v: "sw_vmcs s v = Some p'" using switch_okD(2) [OF ok, of v] p by (cases "sw_vmcs s v") auto
  have m: "vmcs_ok bases online s v p'" using switch_okD(1) [OF ok v] .
  show ?thesis
  proof (rule switch_ok_update [OF ok v])
    show "vmcs_ok bases online (load_called cpu v s) v p'"
      using m p by (auto simp: vmcs_ok_def load_called_def set_phase_def)
  qed (use p switch_okD(3, 8) [OF ok] in \<open>auto simp: load_called_def set_phase_def\<close>)
qed

lemma load_select_ok:
  assumes ok: "switch_ok bases online s" and p: "sw_phase s v = Selecting cpu"
  shows "switch_ok bases online (load_select cpu v s)"
proof -
  obtain p' where v: "sw_vmcs s v = Some p'" using switch_okD(2) [OF ok, of v] p by (cases "sw_vmcs s v") auto
  have k: "\<not> sw_closed s v" using p switch_okD(3) [OF ok, of v] by auto
  have m: "vmcs_ok bases online s v p'" using switch_okD(1) [OF ok v] .
  show ?thesis
  proof (rule switch_ok_update [OF ok v])
    show "vmcs_ok bases online (load_select cpu v s) v p'"
      using m p v k by (auto simp: vmcs_ok_def load_select_def set_phase_def)
  qed (use p v switch_okD(8) [OF ok] k in \<open>auto simp: load_select_def set_phase_def split: if_splits\<close>)
qed

lemma load_point_ok:
  assumes ok: "switch_ok bases online s" and p: "sw_phase s v = Pointing cpu"
  shows "switch_ok bases online (load_point cpu v s)"
proof -
  obtain p' where v: "sw_vmcs s v = Some p'" using switch_okD(2) [OF ok, of v] p by (cases "sw_vmcs s v") auto
  have k: "\<not> sw_closed s v" using p switch_okD(3) [OF ok, of v] by auto
  have m: "vmcs_ok bases online s v p'" using switch_okD(1) [OF ok v] .
  have o: "cpu \<in> set online" using switch_okD(7) [OF ok, of v cpu] p by simp
  have a: "c \<in> set online \<and> c = sw_cpu s v" if "p' \<in> hw_active s c" for c
    using m p that by (auto simp: vmcs_ok_def)
  have b: "sw_current s c = Some p' \<Longrightarrow> hw_current s c = Some p' \<or> c = cpu" for c
    using m p by (auto simp: vmcs_ok_def)
  have q: "sw_current s cpu = Some p'" "sw_calls s v = None" "sw_cpu s v \<noteq> cpu \<Longrightarrow> p' \<notin> hw_active s (sw_cpu s v)"
    using m p k by (cases "sw_calls s v"; simp add: vmcs_ok_def)+
  have e: "load_point cpu v s = set_phase v (Moving cpu) (vmptrld cpu p' s)" by (simp add: load_point_def v)
  show ?thesis
  proof (rule switch_ok_update [OF ok v])
    show "vmcs_ok bases online (load_point cpu v s) v p'"
      using m p o q a b unfolding vmcs_ok_def e by (simp add: set_phase_def vmptrld_def) blast
    show "hw_current (load_point cpu v s) c = Some x \<Longrightarrow> x \<in> hw_active (load_point cpu v s) c" for c x
      using switch_okD(8) [OF ok, of c x] by (auto simp: e set_phase_def vmptrld_def split: if_splits)
  qed (use p v k q in \<open>auto simp: e set_phase_def vmptrld_def split: if_splits\<close>)
qed

lemma load_move_ok:
  assumes ok: "switch_ok bases online s" and p: "sw_phase s v = Moving cpu"
  shows "switch_ok bases online (load_move bases cpu v s)"
proof -
  obtain p' where v: "sw_vmcs s v = Some p'" using switch_okD(2) [OF ok, of v] p by (cases "sw_vmcs s v") auto
  have k: "\<not> sw_closed s v" using p switch_okD(3) [OF ok, of v] by auto
  have m: "vmcs_ok bases online s v p'" using switch_okD(1) [OF ok v] .
  have h: "hw_current s cpu = Some p'" using m p by (simp add: vmcs_ok_def)
  have o: "cpu \<in> set online" using switch_okD(7) [OF ok, of v cpu] p by simp
  have l: "sw_calls s v = None" using m k by (cases "sw_calls s v") (auto simp: vmcs_ok_def)
  show ?thesis
  proof (rule switch_ok_update [OF ok v])
    show "vmcs_ok bases online (load_move bases cpu v s) v p'"
      using m p v o h l by (auto simp: vmcs_ok_def load_move_def set_phase_def Let_def vmwrite_fields base_fields_def)
  qed (use p v h k switch_okD(8) [OF ok] in
      \<open>auto simp: load_move_def set_phase_def Let_def vmwrite_fields split: if_splits\<close>)
qed

lemma vm_entry_ok:
  assumes ok: "switch_ok bases online s" and p: "sw_phase s v = Loaded cpu" and t: "vm_entry cpu v s = Some t"
  shows "switch_ok bases online t"
proof -
  obtain p' where v: "sw_vmcs s v = Some p'" using switch_okD(2) [OF ok, of v] p by (cases "sw_vmcs s v") auto
  have k: "\<not> sw_closed s v" using p switch_okD(3) [OF ok, of v] by auto
  have m: "vmcs_ok bases online s v p'" using switch_okD(1) [OF ok v] .
  have h: "hw_current s cpu = Some p'" using m p by (simp add: vmcs_ok_def)
  have o: "cpu \<in> set online" using switch_okD(7) [OF ok, of v cpu] p by simp
  have e: "t = s\<lparr>hw_launched := (hw_launched s)(p' := True), sw_launched := (sw_launched s)(v := True)\<rparr>"
    using t h by (simp add: vm_entry_def split: if_splits)
  show ?thesis
  proof (rule switch_ok_update [OF ok v])
    show "vmcs_ok bases online t v p'"
      using m p v o by (auto simp: vmcs_ok_def e)
  qed (use p v k switch_okD(8) [OF ok] in \<open>auto simp: e\<close>)
qed

lemma switch_put_ok:
  assumes ok: "switch_ok bases online s" and p: "sw_phase s v = Loaded cpu"
  shows "switch_ok bases online (switch_put v s)"
proof -
  obtain p' where v: "sw_vmcs s v = Some p'" using switch_okD(2) [OF ok, of v] p by (cases "sw_vmcs s v") auto
  have m: "vmcs_ok bases online s v p'" using switch_okD(1) [OF ok v] .
  show ?thesis
  proof (rule switch_ok_update [OF ok v])
    show "vmcs_ok bases online (switch_put v s) v p'"
      using m p v by (auto simp: vmcs_ok_def switch_put_def set_phase_def)
  qed (use p v switch_okD(3, 8) [OF ok] in \<open>auto simp: switch_put_def set_phase_def\<close>)
qed


text \<open>\<open>__vcpu_clear\<close> on the cpu \<open>c\<close> takes the VMCS away from it, and from no other cpu.\<close>

lemma internal_vcpu_clear_fields:
  "sw_cpu (internal_vcpu_clear v c s) = sw_cpu s" "sw_vmcs (internal_vcpu_clear v c s) = sw_vmcs s"
  "sw_launched (internal_vcpu_clear v c s) = sw_launched s" "hw_fields (internal_vcpu_clear v c s) = hw_fields s"
  "sw_phase (internal_vcpu_clear v c s) = sw_phase s" "sw_failed (internal_vcpu_clear v c s) = sw_failed s"
  "sw_closed (internal_vcpu_clear v c s) = sw_closed s" "sw_calls (internal_vcpu_clear v c s) = sw_calls s"
  "sw_new (internal_vcpu_clear v c s) = sw_new s"
  by (simp_all add: internal_vcpu_clear_def vmcs_clear_def Let_def split: option.split)

lemma internal_vcpu_clear_hw:
  assumes "sw_vmcs s v = Some p"
  shows "q \<in> hw_active (internal_vcpu_clear v c s) d \<longleftrightarrow> q \<in> hw_active s d \<and> \<not> (q = p \<and> d = c \<and> sw_cpu s v = c)"
    and "hw_current (internal_vcpu_clear v c s) d = Some q \<longleftrightarrow>
      hw_current s d = Some q \<and> \<not> (q = p \<and> d = c \<and> sw_cpu s v = c)"
    and "sw_current (internal_vcpu_clear v c s) d = Some q \<longleftrightarrow> sw_current s d = Some q \<and> \<not> (q = p \<and> d = c)"
    and "hw_launched (internal_vcpu_clear v c s) q \<longleftrightarrow> hw_launched s q \<and> \<not> (q = p \<and> sw_cpu s v = c)"
  using assms by (auto simp: internal_vcpu_clear_def vmcs_clear_def Let_def)

lemma answer_ok:
  assumes ok: "switch_ok bases online s" and p: "sw_phase s v = Calling cpu cs" and c: "c \<in> set cs"
  shows "switch_ok bases online (set_phase v (Calling cpu (filter (\<lambda>d. d \<noteq> c) cs)) (internal_vcpu_clear v c s))"
    (is "switch_ok _ _ ?t")
proof -
  obtain p' where v: "sw_vmcs s v = Some p'" using switch_okD(2) [OF ok, of v] p by (cases "sw_vmcs s v") auto
  have k: "\<not> sw_closed s v" using p switch_okD(3) [OF ok, of v] by auto
  have m: "vmcs_ok bases online s v p'" using switch_okD(1) [OF ok v] .
  have l: "sw_calls s v = None" using m k by (cases "sw_calls s v") (auto simp: vmcs_ok_def)
  have a: "d \<in> set online \<and> d = sw_cpu s v" if "p' \<in> hw_active s d" for d
    using m p that by (auto simp: vmcs_ok_def)
  have b: "sw_current s d = Some p' \<Longrightarrow> hw_current s d = Some p'" for d
    using m p by (auto simp: vmcs_ok_def)
  have g: "sw_cpu s v \<notin> set cs \<Longrightarrow> p' \<notin> hw_active s (sw_cpu s v)" "sw_cpu s v \<notin> set online \<Longrightarrow> \<not> hw_launched s p'"
    "f \<in> base_fields \<Longrightarrow> sw_cpu s v \<in> set online \<Longrightarrow> hw_fields s p' f = bases (sw_cpu s v) f" for f
    using m p by (auto simp: vmcs_ok_def)
  have h: "sw_cpu s v \<noteq> cpu" "sw_cpu s v \<notin> set cs \<Longrightarrow> \<not> hw_launched s p'"
    using m p by (auto simp: vmcs_ok_def)
  note E = internal_vcpu_clear_fields internal_vcpu_clear_hw [OF v]
  show ?thesis
  proof (rule switch_ok_update [OF ok v])
    show "vmcs_ok bases online ?t v p'"
      unfolding vmcs_ok_def by (simp add: set_phase_def E l) (use a b g h in blast)
  qed (use p k switch_okD(8) [OF ok] in \<open>auto simp: set_phase_def E\<close>)
qed

lemma close_ok:
  assumes ok: "switch_ok bases online s" and p: "sw_phase s v = Unlocked" "sw_vmcs s v \<noteq> None"
  shows "switch_ok bases online (s\<lparr>sw_closed := (sw_closed s)(v := True)\<rparr>)"
proof -
  obtain p' where v: "sw_vmcs s v = Some p'" using p by auto
  have m: "vmcs_ok bases online s v p'" using switch_okD(1) [OF ok v] .
  show ?thesis
  proof (rule switch_ok_update [OF ok v])
    show "vmcs_ok bases online (s\<lparr>sw_closed := (sw_closed s)(v := True)\<rparr>) v p'"
      using m p by (auto simp: vmcs_ok_def)
  qed (use p switch_okD(8) [OF ok] in auto)
qed

lemma free_ok:
  assumes ok: "switch_ok bases online s" and p: "sw_closed s v" "sw_vmcs s v \<noteq> None"
  shows "switch_ok bases online (s\<lparr>sw_calls := (sw_calls s)(v := Some online)\<rparr>)"
proof -
  obtain p' where v: "sw_vmcs s v = Some p'" using p by auto
  have m: "vmcs_ok bases online s v p'" using switch_okD(1) [OF ok v] .
  have u: "sw_phase s v = Unlocked" using switch_okD(3) [OF ok p(1)] .
  show ?thesis
  proof (rule switch_ok_update [OF ok v])
    show "vmcs_ok bases online (s\<lparr>sw_calls := (sw_calls s)(v := Some online)\<rparr>) v p'"
      using m p u by (auto simp: vmcs_ok_def)
  qed (use u switch_okD(8) [OF ok] in auto)
qed

lemma free_answer_ok:
  assumes ok: "switch_ok bases online s" and p: "sw_calls s v = Some cs" and c: "c \<in> set cs"
  shows "switch_ok bases online
    (internal_vcpu_clear v c (s\<lparr>sw_calls := (sw_calls s)(v := Some (filter (\<lambda>d. d \<noteq> c) cs))\<rparr>))"
    (is "switch_ok _ _ (internal_vcpu_clear v c ?s)")
proof -
  obtain p' where v: "sw_vmcs s v = Some p'" using switch_okD(2) [OF ok, of v] p by (cases "sw_vmcs s v") auto
  have m: "vmcs_ok bases online s v p'" using switch_okD(1) [OF ok v] .
  have cl: "sw_closed s v" using m p by (simp add: vmcs_ok_def)
  have u: "sw_phase s v = Unlocked" using switch_okD(3) [OF ok cl] .
  have v': "sw_vmcs ?s v = Some p'" using v by simp
  have a: "d \<in> set online \<and> d = sw_cpu s v" if "p' \<in> hw_active s d" for d
    using m p u that by (auto simp: vmcs_ok_def)
  have b: "sw_current s d = Some p' \<Longrightarrow> hw_current s d = Some p'" for d
    using m p u by (auto simp: vmcs_ok_def)
  have g: "sw_cpu s v \<notin> set cs \<Longrightarrow> p' \<notin> hw_active s (sw_cpu s v)" "sw_cpu s v \<notin> set online \<Longrightarrow> \<not> hw_launched s p'"
    "f \<in> base_fields \<Longrightarrow> sw_cpu s v \<in> set online \<Longrightarrow> hw_fields s p' f = bases (sw_cpu s v) f" for f
    using m p by (auto simp: vmcs_ok_def)
  note E = internal_vcpu_clear_fields internal_vcpu_clear_hw [OF v']
  show ?thesis
  proof (rule switch_ok_update [OF ok v])
    show "vmcs_ok bases online (internal_vcpu_clear v c ?s) v p'"
      unfolding vmcs_ok_def by (simp add: E u cl) (use a b g in blast)
  qed (use p u switch_okD(8) [OF ok] in \<open>auto simp: E\<close>)
qed

text \<open>When all cpus have answered, the VMCS is nowhere in use.\<close>

lemma calls_answered:
  assumes ok: "switch_ok bases online s" and p: "sw_calls s v = Some []" and v: "sw_vmcs s v = Some p'"
  shows "p' \<notin> hw_active s c" "sw_current s c \<noteq> Some p'" "hw_current s c \<noteq> Some p'"
proof -
  have m: "vmcs_ok bases online s v p'" using switch_okD(1) [OF ok v] .
  have cl: "sw_closed s v" using m p by (simp add: vmcs_ok_def)
  have u: "sw_phase s v = Unlocked" using switch_okD(3) [OF ok cl] .
  show a: "p' \<notin> hw_active s c" using m p u by (auto simp: vmcs_ok_def)
  show h: "hw_current s c \<noteq> Some p'" using a switch_okD(8) [OF ok, of c p'] by blast
  show "sw_current s c \<noteq> Some p'" using m u h by (auto simp: vmcs_ok_def)
qed

lemma freed_ok:
  assumes ok: "switch_ok bases online s" and p: "sw_calls s v = Some []"
  shows "switch_ok bases online (switch_freed v s)"
proof -
  obtain p' where v: "sw_vmcs s v = Some p'" using switch_okD(2) [OF ok, of v] p by (cases "sw_vmcs s v") auto
  have m: "vmcs_ok bases online s v p'" using switch_okD(1) [OF ok v] .
  have cl: "sw_closed s v" using m p by (simp add: vmcs_ok_def)
  have u: "sw_phase s v = Unlocked" using switch_okD(3) [OF ok cl] .
  note D = switch_okD [OF ok] and A = calls_answered [OF ok p v]
  have f: "vmcs_ok bases online (switch_freed v s) w q" if "w \<noteq> v" "sw_vmcs s w = Some q" for w q
    by (rule vmcs_ok_frame [OF D(1) [OF that(2)]]) (use that(1) in \<open>simp_all add: switch_freed_def\<close>)
  have o: "\<exists>w. w \<noteq> v \<and> sw_vmcs s w = Some q" if "q \<in> hw_active s c" for q c
    using D(9) [OF that] A(1) [of c] that v by (metis option.inject)
  have o': "\<exists>w. w \<noteq> v \<and> sw_vmcs s w = Some q" if "sw_current s c = Some q" for q c
    using D(10) [OF that] A(2) [of c] that v by (metis option.inject)
  show ?thesis
  proof (rule switch_okI)
    show "\<exists>w. sw_vmcs (switch_freed v s) w = Some q" if "q \<in> hw_active (switch_freed v s) c" for q c
      using o [of q c] that by (auto simp: switch_freed_def)
    show "\<exists>w. sw_vmcs (switch_freed v s) w = Some q" if "sw_current (switch_freed v s) c = Some q" for q c
      using o' [of c q] that by (auto simp: switch_freed_def)
  qed (use f D(2-8) u in \<open>auto simp: switch_freed_def split: if_splits\<close>)
qed

lemma switch_create_ok:
  assumes ok: "switch_ok bases online s" and v: "sw_phase s v = Unlocked" "sw_vmcs s v = None"
    and new: "\<forall>w. sw_vmcs s w \<noteq> Some p" and neg: "-1 \<notin> set online"
  shows "switch_ok bases online (switch_create cpu p v s)"
proof -
  note D = switch_okD [OF ok]
  have n: "p \<notin> hw_active s c" "hw_current s c \<noteq> Some p" "sw_current s c \<noteq> Some p" for c
    using D(8) [of c p] D(9) [of p c] D(10) [of c p] new by auto
  have n': "hw_active s c - {p} = hw_active s c" for c using n(1) by blast
  note E = switch_create_def Let_def set_phase_def vmcs_clear_def
  have f: "vmcs_ok bases online (switch_create cpu p v s) w q" if "w \<noteq> v" "sw_vmcs s w = Some q" for w q
  proof -
    have "q \<noteq> p" using that new by auto
    then show ?thesis
      by - (rule vmcs_ok_frame [OF D(1) [OF that(2)]], use that(1) n in \<open>simp_all add: E\<close>)
  qed
  have me: "vmcs_ok bases online (switch_create cpu p v s) v p"
    using n neg D(2) [OF v(2)] by (auto simp: vmcs_ok_def E)
  have o: "\<exists>w. w \<noteq> v \<and> sw_vmcs s w = Some q" if "q \<in> hw_active s c" for q c
    using D(9) [OF that] v(2) by (metis option.distinct(1))
  have o': "\<exists>w. w \<noteq> v \<and> sw_vmcs s w = Some q" if "sw_current s c = Some q" for c q
    using D(10) [OF that] v(2) by (metis option.distinct(1))
  show ?thesis
  proof (rule switch_okI)
    show "\<exists>w. sw_vmcs (switch_create cpu p v s) w = Some q" if "q \<in> hw_active (switch_create cpu p v s) c" for q c
      using o [of q c] that by (auto simp: E n')
    show "\<exists>w. sw_vmcs (switch_create cpu p v s) w = Some q" if "sw_current (switch_create cpu p v s) c = Some q" for q c
      using o' [of c q] that by (auto simp: E n')
  qed (use f me n new v D(2-8) in \<open>auto simp: E n' split: if_splits\<close>)
qed


lemma switch_step_ok:
  assumes "switch_step bases online False s t" "switch_ok bases online s" "-1 \<notin> set online"
  shows "switch_ok bases online t"
  using assms(1)
proof cases
  case (create cpu v p)
  then show ?thesis using switch_create_ok [OF assms(2) _ _ _ assms(3)] by blast
next
  case (begin_new cpu v)
  then obtain p where "sw_vmcs s v = Some p"
    using switch_okD(2) [OF assms(2), of v] by (cases "sw_vmcs s v") auto
  moreover have "\<not> sw_closed s v" using begin_new switch_okD(3) [OF assms(2), of v] by auto
  ultimately show ?thesis using begin_new load_begin_ok [OF assms(2)] by blast
next
  case (begin_load cpu v)
  then obtain p where "sw_vmcs s v = Some p" by blast
  then show ?thesis using begin_load load_begin_ok [OF assms(2)] by blast
next
  case (answer v cpu cs c)
  then show ?thesis using answer_ok [OF assms(2)] by blast
next
  case (called v cpu)
  then show ?thesis using load_called_ok [OF assms(2)] by blast
next
  case (select v cpu)
  then show ?thesis using load_select_ok [OF assms(2)] by blast
next
  case (point v cpu)
  then show ?thesis using load_point_ok [OF assms(2)] by blast
next
  case (move v cpu)
  then show ?thesis using load_move_ok [OF assms(2)] by blast
next
  case (enter v cpu)
  then show ?thesis using vm_entry_ok [OF assms(2)] by blast
next
  case (put v cpu)
  then show ?thesis using switch_put_ok [OF assms(2)] by blast
next
  case (close v)
  then show ?thesis using close_ok [OF assms(2)] by blast
next
  case (free v)
  then show ?thesis using free_ok [OF assms(2)] switch_okD(4) [OF assms(2)] by blast
next
  case (free_answer v cs c)
  then show ?thesis using free_answer_ok [OF assms(2)] by blast
next
  case (freed v)
  then show ?thesis using freed_ok [OF assms(2)] by blast
qed simp

lemma switch_reachable_ok:
  assumes "(switch_step bases online False)\<^sup>*\<^sup>* switch_init s" "-1 \<notin> set online"
  shows "switch_ok bases online s"
  using assms(1)
  by (induction rule: rtranclp_induct) (auto intro: switch_init_ok switch_step_ok [OF _ _ assms(2)])

lemma active_once:
  assumes "switch_ok bases online s" "p \<in> hw_active s c" "p \<in> hw_active s d"
  shows "c = d"
proof -
  obtain v where v: "sw_vmcs s v = Some p" using switch_okD(9) [OF assms(1, 2)] by blast
  have "vmcs_ok bases online s v p" by (rule switch_okD(1) [OF assms(1) v])
  note m = this [unfolded vmcs_ok_def]
  have a: "e = sw_cpu s v \<or> sw_phase s v = Moving e" if "p \<in> hw_active s e" for e
    using m that by blast
  have b: "phase_ok online s v p (sw_phase s v)" using m by blast
  show ?thesis using a [OF assms(2)] a [OF assms(3)] assms(2, 3) b by auto
qed

lemma loaded_ready:
  assumes "switch_ok bases online s" "sw_phase s v = Loaded cpu"
  shows "\<exists>p. sw_vmcs s v = Some p \<and> hw_current s cpu = Some p \<and>
    (\<forall>f\<in>base_fields. hw_fields s p f = bases cpu f) \<and> vm_entry cpu v s \<noteq> None"
proof -
  obtain p where v: "sw_vmcs s v = Some p"
    using switch_okD(2) [OF assms(1), of v] assms(2) by (cases "sw_vmcs s v") auto
  have m: "vmcs_ok bases online s v p" by (rule switch_okD(1) [OF assms(1) v])
  have o: "cpu \<in> set online" using switch_okD(7) [OF assms(1), of v cpu] assms(2) by simp
  have "\<not> sw_closed s v" using switch_okD(3) [OF assms(1), of v] assms(2) by auto
  then have "sw_calls s v = None" using m by (cases "sw_calls s v") (auto simp: vmcs_ok_def)
  then show ?thesis using m v o assms(2) by (auto simp: vmcs_ok_def vm_entry_def)
qed

text \<open>
  C2: However loads, entries, creations and releases of virtual cpus interleave on the cpus of the
  host, no VMCS is ever active on two cpus; a loaded virtual cpu has its own VMCS current on its
  cpu, with the TSS, GDT and SYSENTER stack of that cpu, and the choice of \<open>vmlaunch\<close> or
  \<open>vmresume\<close> fits its launch state; a VMCS about to be freed is active and current nowhere.
\<close>

theorem vmcs_switch_safe:
  assumes "(switch_step bases online False)\<^sup>*\<^sup>* switch_init s" "-1 \<notin> set online"
  shows "(\<forall>p c d. p \<in> hw_active s c \<and> p \<in> hw_active s d \<longrightarrow> c = d) \<and>
    (\<forall>v cpu. sw_phase s v = Loaded cpu \<longrightarrow> (\<exists>p. sw_vmcs s v = Some p \<and> hw_current s cpu = Some p \<and>
       (\<forall>f\<in>base_fields. hw_fields s p f = bases cpu f) \<and> vm_entry cpu v s \<noteq> None)) \<and>
    (\<forall>v p c. sw_calls s v = Some [] \<and> sw_vmcs s v = Some p \<longrightarrow>
       p \<notin> hw_active s c \<and> sw_current s c \<noteq> Some p \<and> hw_current s c \<noteq> Some p)"
  using active_once [OF switch_reachable_ok [OF assms]] loaded_ready [OF switch_reachable_ok [OF assms]]
    calls_answered [OF switch_reachable_ok [OF assms]] by (intro conjI) blast+


section \<open>A load without interruption\<close>

text \<open>\<open>__vcpu_load\<close> run to its end on one cpu, the calls answered in order.\<close>

fun answer_all :: "vcpu_id \<Rightarrow> int \<Rightarrow> int list \<Rightarrow> switch \<Rightarrow> switch" where
  "answer_all v cpu [] s = s"
| "answer_all v cpu (c # cs) s =
     answer_all v cpu cs (set_phase v (Calling cpu cs) (internal_vcpu_clear v c s))"

definition load_calls :: "int list \<Rightarrow> int \<Rightarrow> vcpu_id \<Rightarrow> switch \<Rightarrow> switch" where
  "load_calls online cpu v s =
     (if sw_cpu s v \<noteq> cpu
      then load_called cpu v (answer_all v cpu (filter (\<lambda>c. c \<noteq> cpu) online) (load_begin online cpu v s))
      else load_begin online cpu v s)"

definition load_current :: "int \<Rightarrow> vcpu_id \<Rightarrow> switch \<Rightarrow> switch" where
  "load_current cpu v s =
     (if sw_current s cpu \<noteq> sw_vmcs s v then load_point cpu v (load_select cpu v s) else load_select cpu v s)"

definition switch_load :: "(int \<Rightarrow> nat \<Rightarrow> u64) \<Rightarrow> int list \<Rightarrow> int \<Rightarrow> vcpu_id \<Rightarrow> switch \<Rightarrow> switch" where
  "switch_load bases online cpu v s = load_move bases cpu v (load_current cpu v (load_calls online cpu v s))"

lemma answer_all_run:
  assumes "sw_phase s v = Calling cpu cs" "distinct cs"
  shows "(switch_step bases online failing)\<^sup>*\<^sup>* s (answer_all v cpu cs s) \<and>
    sw_phase (answer_all v cpu cs s) v = Calling cpu []"
  using assms
proof (induction cs arbitrary: s)
  case (Cons c cs)
  let ?t = "set_phase v (Calling cpu cs) (internal_vcpu_clear v c s)"
  have "filter (\<lambda>d. d \<noteq> c) (c # cs) = cs" using Cons.prems(2) by (auto simp: filter_id_conv)
  then have s: "switch_step bases online failing s ?t"
    using switch_step.answer [OF Cons.prems(1), of c bases online failing] by simp
  have p: "sw_phase ?t v = Calling cpu cs" "distinct cs" using Cons.prems(2) by (simp_all add: set_phase_def)
  show ?case using converse_rtranclp_into_rtranclp [of "switch_step bases online failing", OF s] Cons.IH [OF p] by simp
qed simp

lemmas answer_all_steps = answer_all_run [THEN conjunct1] answer_all_run [THEN conjunct2]

lemma load_calls_steps:
  assumes "cpu \<in> set online" "distinct online" "idle cpu s" "sw_vmcs s v \<noteq> None"
    and "sw_phase s v = Unlocked \<and> \<not> sw_closed s v \<or> sw_phase s v = Created"
  shows "(switch_step bases online failing)\<^sup>*\<^sup>* s (load_calls online cpu v s)"
    and "sw_phase (load_calls online cpu v s) v = Selecting cpu"
proof -
  let ?b = "load_begin online cpu v s" and ?cs = "filter (\<lambda>c. c \<noteq> cpu) online"
  have b: "switch_step bases online failing s ?b"
    using assms switch_step.begin_load [of cpu online s v] switch_step.begin_new [of cpu online s v] by blast
  have "(switch_step bases online failing)\<^sup>*\<^sup>* s (load_calls online cpu v s) \<and>
    sw_phase (load_calls online cpu v s) v = Selecting cpu"
  proof (cases "sw_cpu s v = cpu")
    case True
    then show ?thesis using b by (auto simp: load_calls_def load_begin_def set_phase_def)
  next
    case False
    then have p: "sw_phase ?b v = Calling cpu ?cs" by (simp add: load_begin_def set_phase_def)
    have d: "distinct ?cs" using assms(2) by simp
    note a = answer_all_steps [OF p d]
    have "(switch_step bases online failing)\<^sup>*\<^sup>* ?b (load_called cpu v (answer_all v cpu ?cs ?b))"
      by (rule rtranclp.rtrancl_into_rtrancl [OF a(1) switch_step.called [OF a(2)]])
    then show ?thesis
      using converse_rtranclp_into_rtranclp [of "switch_step bases online failing", OF b] False by (simp add: load_calls_def load_called_def set_phase_def)
  qed
  then show "(switch_step bases online failing)\<^sup>*\<^sup>* s (load_calls online cpu v s)"
    and "sw_phase (load_calls online cpu v s) v = Selecting cpu" by blast+
qed

lemma load_current_steps:
  assumes "sw_phase s v = Selecting cpu"
  shows "(switch_step bases online failing)\<^sup>*\<^sup>* s (load_current cpu v s)"
    and "sw_phase (load_current cpu v s) v = Moving cpu"
proof -
  have l: "switch_step bases online failing s (load_select cpu v s)" by (rule switch_step.select [OF assms])
  have p: "sw_phase (load_select cpu v s) v = Pointing cpu" if "sw_current s cpu \<noteq> sw_vmcs s v"
    using that by (simp add: load_select_def set_phase_def)
  show "(switch_step bases online failing)\<^sup>*\<^sup>* s (load_current cpu v s)"
    unfolding load_current_def using l switch_step.point [OF p, of bases online failing] by auto
  show "sw_phase (load_current cpu v s) v = Moving cpu"
    by (auto simp: load_current_def load_select_def load_point_def set_phase_def)
qed

lemma switch_load_steps:
  assumes "cpu \<in> set online" "distinct online" "idle cpu s" "sw_vmcs s v \<noteq> None"
    and "sw_phase s v = Unlocked \<and> \<not> sw_closed s v \<or> sw_phase s v = Created"
  shows "(switch_step bases online failing)\<^sup>*\<^sup>* s (load_current cpu v (load_calls online cpu v s))"
    and "(switch_step bases online failing)\<^sup>*\<^sup>* s (switch_load bases online cpu v s)"
    and "sw_phase (switch_load bases online cpu v s) v = Loaded cpu"
proof -
  note a = load_calls_steps [OF assms] and b = load_current_steps [OF load_calls_steps(2) [OF assms]]
  show c: "(switch_step bases online failing)\<^sup>*\<^sup>* s (load_current cpu v (load_calls online cpu v s))"
    by (rule rtranclp_trans [OF a(1) b(1)])
  show "(switch_step bases online failing)\<^sup>*\<^sup>* s (switch_load bases online cpu v s)"
    unfolding switch_load_def by (rule rtranclp.rtrancl_into_rtrancl [OF c switch_step.move [OF b(2)]])
  show "sw_phase (switch_load bases online cpu v s) v = Loaded cpu"
    by (simp add: switch_load_def load_move_def set_phase_def)
qed


section \<open>Refinement of the sequential model\<close>

text \<open>
  The handlers are verified with \<open>internal_vcpu_load\<close>, which sees one virtual cpu and one cpu. \<open>same_view\<close>
  relates its state to that of the whole host; the VMCS that \<open>vmcs_readl\<close> reads is the one of \<open>v\<close>.
\<close>

definition same_view :: "int \<Rightarrow> vcpu_id \<Rightarrow> u64 \<Rightarrow> switch \<Rightarrow> vm \<Rightarrow> bool" where
  "same_view cpu v p s m \<longleftrightarrow>
     sw_vmcs s v = Some p \<and> vcpu_vmcs (vcpu m) = Some p \<and> vcpu_cpu (vcpu m) = sw_cpu s v \<and>
     launched (vcpu m) = sw_launched s v \<and> h_current_vmcs (host m) = sw_current s cpu \<and>
     h_cpu (host m) = cpu \<and> vmcs m = hw_fields s p"

definition same_bases :: "(int \<Rightarrow> nat \<Rightarrow> u64) \<Rightarrow> vm \<Rightarrow> bool" where
  "same_bases bases m \<longleftrightarrow>
     bases (h_cpu (host m)) HOST_TR_BASE = read_tr_base m \<and>
     bases (h_cpu (host m)) HOST_GDTR_BASE = h_gdt_base (host m) \<and>
     bases (h_cpu (host m)) HOST_IA32_SYSENTER_ESP = h_msr (host m) MSR_IA32_SYSENTER_ESP"

lemma answer_all_fields:
  assumes "cpu \<notin> set cs"
  shows "sw_cpu (answer_all v cpu cs s) = sw_cpu s \<and> sw_vmcs (answer_all v cpu cs s) = sw_vmcs s \<and>
    sw_launched (answer_all v cpu cs s) = sw_launched s \<and> hw_fields (answer_all v cpu cs s) = hw_fields s \<and>
    sw_current (answer_all v cpu cs s) cpu = sw_current s cpu"
  using assms
proof (induction cs arbitrary: s)
  case (Cons c cs)
  then show ?case
    by (auto simp: set_phase_def internal_vcpu_clear_fields internal_vcpu_clear_def vmcs_clear_def Let_def
        split: option.splits)
qed simp

lemma load_calls_fields:
  "sw_cpu (load_calls online cpu v s) = sw_cpu s" "sw_vmcs (load_calls online cpu v s) = sw_vmcs s"
  "hw_fields (load_calls online cpu v s) = hw_fields s"
  "sw_current (load_calls online cpu v s) cpu = sw_current s cpu"
  "sw_launched (load_calls online cpu v s) v = (sw_cpu s v = cpu \<and> sw_launched s v)"
proof -
  have b: "sw_cpu (load_begin online cpu v s) = sw_cpu s" "sw_vmcs (load_begin online cpu v s) = sw_vmcs s"
    "hw_fields (load_begin online cpu v s) = hw_fields s" "sw_current (load_begin online cpu v s) = sw_current s"
    "sw_launched (load_begin online cpu v s) = sw_launched s"
    by (simp_all add: load_begin_def set_phase_def)
  note a = answer_all_fields [of cpu "filter (\<lambda>c. c \<noteq> cpu) online" v "load_begin online cpu v s", unfolded b]
  show "sw_cpu (load_calls online cpu v s) = sw_cpu s" "sw_vmcs (load_calls online cpu v s) = sw_vmcs s"
    "hw_fields (load_calls online cpu v s) = hw_fields s"
    "sw_current (load_calls online cpu v s) cpu = sw_current s cpu"
    "sw_launched (load_calls online cpu v s) v = (sw_cpu s v = cpu \<and> sw_launched s v)"
    using a by (simp_all add: load_calls_def load_called_def set_phase_def b)
qed

lemma load_current_fields:
  "sw_cpu (load_current cpu v s) = sw_cpu s" "sw_vmcs (load_current cpu v s) = sw_vmcs s"
  "hw_fields (load_current cpu v s) = hw_fields s" "sw_launched (load_current cpu v s) = sw_launched s"
  "sw_current (load_current cpu v s) cpu = sw_vmcs s v"
  by (simp_all add: load_current_def load_point_def load_select_def set_phase_def vmptrld_def split: option.split)


section \<open>A creation that fails\<close>

text \<open>
  With a \<open>kvm_vcpu_setup\<close> that fails: the creating thread on cpu 0 puts the virtual cpu, another
  thread loads it on cpu 1, then the first one frees the VMCS.
\<close>

definition race_created :: switch where
  "race_created = switch_load (\<lambda>_ _. 0) [0, 1] 0 0 (switch_create 0 0x1000 0 switch_init)"

definition race_loaded :: switch where
  "race_loaded = switch_load (\<lambda>_ _. 0) [0, 1] 1 0
     (switch_put 0 (race_created\<lparr>sw_failed := (sw_failed race_created)(0 := True)\<rparr>))"

definition race_freed :: switch where
  "race_freed =
     (let s = race_loaded\<lparr>sw_calls := (sw_calls race_loaded)(0 := Some [0, 1])\<rparr>;
          s = internal_vcpu_clear 0 0 (s\<lparr>sw_calls := (sw_calls s)(0 := Some [1])\<rparr>);
          s = internal_vcpu_clear 0 1 (s\<lparr>sw_calls := (sw_calls s)(0 := Some [])\<rparr>)
      in switch_freed 0 s)"


lemma answer_all_phase:
  "sw_phase s v = Calling cpu cs \<Longrightarrow> sw_phase (answer_all v cpu cs s) = (sw_phase s)(v := Calling cpu [])"
  by (induction cs arbitrary: s) (auto simp: set_phase_def internal_vcpu_clear_fields)

lemma switch_load_phase: "sw_phase (switch_load bases online cpu v s) = (sw_phase s)(v := Loaded cpu)"
  by (auto simp: switch_load_def load_move_def load_current_def load_select_def load_point_def load_calls_def
      load_called_def load_begin_def set_phase_def Let_def vmwrite_fields vmptrld_def answer_all_phase
      split: option.split)

lemma answer_all_more:
  "sw_new (answer_all v cpu cs s) = sw_new s \<and> sw_failed (answer_all v cpu cs s) = sw_failed s \<and>
   sw_closed (answer_all v cpu cs s) = sw_closed s \<and> sw_calls (answer_all v cpu cs s) = sw_calls s \<and>
   sw_vmcs (answer_all v cpu cs s) = sw_vmcs s \<and> sw_cpu (answer_all v cpu cs s) = sw_cpu s"
  by (induction cs arbitrary: s) (simp_all add: set_phase_def internal_vcpu_clear_fields)

lemma switch_load_fields:
  "sw_new (switch_load bases online cpu v s) = sw_new s"
  "sw_failed (switch_load bases online cpu v s) = sw_failed s"
  "sw_closed (switch_load bases online cpu v s) = sw_closed s"
  "sw_calls (switch_load bases online cpu v s) = sw_calls s"
  "sw_vmcs (switch_load bases online cpu v s) = sw_vmcs s"
  "sw_cpu (switch_load bases online cpu v s) v = cpu"
  by (auto simp: switch_load_def load_move_def load_current_def load_select_def load_point_def load_calls_def
      load_called_def load_begin_def set_phase_def Let_def vmwrite_fields vmptrld_def answer_all_more
      split: option.split)

lemma switch_load_current:
  "sw_current (switch_load bases online cpu v s) cpu = sw_vmcs s v"
  "sw_vmcs s v = Some p \<Longrightarrow> sw_current s cpu \<noteq> Some p \<Longrightarrow>
    hw_current (switch_load bases online cpu v s) cpu = Some p"
proof -
  have m: "sw_current (load_move bases cpu v t) = sw_current t" "hw_current (load_move bases cpu v t) = hw_current t" for t
    by (simp_all add: load_move_def set_phase_def Let_def vmwrite_fields)
  show "sw_current (switch_load bases online cpu v s) cpu = sw_vmcs s v"
    by (simp add: switch_load_def m load_current_fields load_calls_fields)
  show "hw_current (switch_load bases online cpu v s) cpu = Some p" if "sw_vmcs s v = Some p" "sw_current s cpu \<noteq> Some p"
    using that load_calls_fields [of online cpu v s]
    by (simp add: switch_load_def m load_current_def load_point_def load_select_def set_phase_def vmptrld_def)
qed

lemma race_created_steps:
  "(switch_step (\<lambda>_ _. 0) [0, 1] failing)\<^sup>*\<^sup>* switch_init race_created"
  "sw_phase race_created = (\<lambda>_. Unlocked)(0 := Loaded 0)"
proof -
  let ?s = "switch_create 0 0x1000 0 switch_init"
  have c: "switch_step (\<lambda>_ _. 0) [0, 1] failing switch_init ?s"
    by (rule switch_step.create) (simp_all add: switch_init_def)
  have p: "sw_phase ?s = (\<lambda>_. Unlocked)(0 := Created)" and v: "sw_vmcs ?s 0 \<noteq> None"
    by (simp_all add: switch_create_def Let_def set_phase_def vmcs_clear_def switch_init_def)
  have i: "idle 0 ?s" by (simp add: idle_def p)
  have d: "(0::int) \<in> set [0, 1]" "distinct [0, 1 :: int]" by simp_all
  have u: "sw_phase ?s 0 = Unlocked \<and> \<not> sw_closed ?s 0 \<or> sw_phase ?s 0 = Created" by (simp add: p)
  show "(switch_step (\<lambda>_ _. 0) [0, 1] failing)\<^sup>*\<^sup>* switch_init race_created"
    unfolding race_created_def
    using converse_rtranclp_into_rtranclp [of "switch_step (\<lambda>_ _. 0) [0, 1] failing", OF c
        switch_load_steps(2) [OF d i v u]] .
  show "sw_phase race_created = (\<lambda>_. Unlocked)(0 := Loaded 0)"
    by (auto simp: race_created_def switch_load_phase p)
qed

lemma race_created_fields:
  "sw_new race_created 0" "\<not> sw_closed race_created 0" "sw_calls race_created 0 = None"
  "sw_vmcs race_created 0 = Some 0x1000" "sw_cpu race_created 0 = 0" "sw_current race_created 1 = None"
  "\<not> sw_launched race_created 0"
  by (simp_all add: race_created_def switch_load_fields)
    (simp_all add: switch_create_def Let_def set_phase_def vmcs_clear_def switch_init_def switch_load_def
      load_calls_def load_begin_def load_called_def load_current_def load_select_def load_point_def vmptrld_def
      internal_vcpu_clear_def load_move_def vmwrite_fields)

lemma race_loaded_steps:
  "(switch_step (\<lambda>_ _. 0) [0, 1] True)\<^sup>*\<^sup>* switch_init race_loaded"
  "sw_vmcs race_loaded 0 = Some 0x1000" "sw_failed race_loaded 0" "sw_calls race_loaded 0 = None"
  "sw_cpu race_loaded 0 = 1" "sw_phase race_loaded 0 = Loaded 1" "hw_current race_loaded 1 = Some 0x1000"
proof -
  let ?step = "switch_step (\<lambda>_ _. 0) [0, 1] True"
  let ?p = "switch_put 0 (race_created\<lparr>sw_failed := (sw_failed race_created)(0 := True)\<rparr>)"
  have "?step race_created ?p"
    by (rule switch_step.put_failed) (simp_all add: race_created_steps race_created_fields)
  then have a: "?step\<^sup>*\<^sup>* switch_init ?p" using race_created_steps(1) by (rule rtranclp.rtrancl_into_rtrancl [rotated])
  have p: "sw_phase ?p = (\<lambda>_. Unlocked)"
    by (auto simp: switch_put_def set_phase_def race_created_steps)
  have i: "idle 1 ?p" by (simp add: idle_def p)
  have q: "sw_vmcs ?p 0 = Some 0x1000" "\<not> sw_closed ?p 0" "sw_calls ?p 0 = None" "sw_failed ?p 0"
    "sw_current ?p 1 = None"
    by (simp_all add: switch_put_def set_phase_def race_created_fields)
  have v: "sw_vmcs ?p 0 \<noteq> None" and u: "sw_phase ?p 0 = Unlocked \<and> \<not> sw_closed ?p 0 \<or> sw_phase ?p 0 = Created"
    using p q by simp_all
  have d: "(1::int) \<in> set [0, 1]" "distinct [0, 1 :: int]" by simp_all
  show "?step\<^sup>*\<^sup>* switch_init race_loaded"
    unfolding race_loaded_def using rtranclp_trans [OF a switch_load_steps(2) [OF d i v u]] .
  show "sw_vmcs race_loaded 0 = Some 0x1000" "sw_failed race_loaded 0" "sw_calls race_loaded 0 = None"
    "sw_cpu race_loaded 0 = 1" "sw_phase race_loaded 0 = Loaded 1" "hw_current race_loaded 1 = Some 0x1000"
    using q unfolding race_loaded_def
    by (simp_all add: switch_load_fields switch_load_phase switch_load_current(2) [of ?p 0 "0x1000" 1])
qed

lemma race_freed_steps: "(switch_step (\<lambda>_ _. 0) [0, 1] True)\<^sup>*\<^sup>* race_loaded race_freed"
proof -
  let ?step = "switch_step (\<lambda>_ _. 0) [0, 1] True"
  let ?f = "race_loaded\<lparr>sw_calls := (sw_calls race_loaded)(0 := Some [0, 1])\<rparr>"
  let ?g = "internal_vcpu_clear 0 0 (?f\<lparr>sw_calls := (sw_calls ?f)(0 := Some [1])\<rparr>)"
  let ?h = "internal_vcpu_clear 0 1 (?g\<lparr>sw_calls := (sw_calls ?g)(0 := Some [])\<rparr>)"
  have f: "?step race_loaded ?f" by (rule switch_step.free) (simp_all add: race_loaded_steps)
  have g: "?step ?f ?g"
    using switch_step.free_answer [of ?f 0 "[0, 1]" 0 "\<lambda>_ _. 0" "[0, 1]" True] by simp
  have h: "?step ?g ?h"
    using switch_step.free_answer [of ?g 0 "[1]" 1 "\<lambda>_ _. 0" "[0, 1]" True]
    by (simp add: internal_vcpu_clear_fields)
  have "?step ?h race_freed"
    using switch_step.freed [of ?h 0 "\<lambda>_ _. 0" "[0, 1]" True]
    by (simp add: internal_vcpu_clear_fields race_freed_def Let_def)
  then have "?step\<^sup>*\<^sup>* ?h race_freed" by (rule r_into_rtranclp)
  then have "?step\<^sup>*\<^sup>* ?g race_freed" by (rule converse_rtranclp_into_rtranclp [of ?step, OF h])
  then have "?step\<^sup>*\<^sup>* ?f race_freed" by (rule converse_rtranclp_into_rtranclp [of ?step, OF g])
  then show ?thesis by (rule converse_rtranclp_into_rtranclp [of ?step, OF f])
qed

text \<open>
  C38: When the creation of a virtual cpu fails, the VMCS is freed without the mutex held: another
  thread that has loaded the virtual cpu meanwhile is left with a VMCS that does not exist any
  more, and no VMCS is current on its cpu.
\<close>

theorem failed_creation_race:
  "(switch_step (\<lambda>_ _. 0) [0, 1] True)\<^sup>*\<^sup>* switch_init race_freed \<and>
   sw_phase race_freed 0 = Loaded 1 \<and> sw_vmcs race_freed 0 = None \<and> hw_current race_freed 1 = None"
proof -
  define u where "u = internal_vcpu_clear 0 0 (race_loaded\<lparr>sw_calls := (sw_calls race_loaded)(0 := Some [1])\<rparr>)"
  define w where "w = internal_vcpu_clear 0 1 (u\<lparr>sw_calls := (sw_calls u)(0 := Some [])\<rparr>)"
  have e: "race_freed = switch_freed 0 w" by (simp add: race_freed_def Let_def u_def w_def)
  have u: "sw_vmcs u 0 = Some 0x1000" "sw_cpu u 0 = 1" "sw_phase u 0 = Loaded 1" "hw_current u 1 = Some 0x1000"
    using race_loaded_steps(2-) by (simp_all add: u_def internal_vcpu_clear_fields internal_vcpu_clear_hw)
  have "hw_current w 1 \<noteq> Some q" for q unfolding w_def using u by (simp add: internal_vcpu_clear_hw)
  then have "hw_current w 1 = None" by blast
  moreover have "sw_phase w 0 = Loaded 1" using u by (simp add: w_def internal_vcpu_clear_fields)
  ultimately show ?thesis
    using rtranclp_trans [OF race_loaded_steps(1) race_freed_steps] by (simp add: e switch_freed_def)
qed

text \<open>The theorems at work: a virtual cpu that was created is loaded, and can be entered.\<close>

lemma vmcs_switch_safe_witness:
  "\<exists>p. sw_vmcs race_created 0 = Some p \<and> hw_current race_created 0 = Some p \<and> vm_entry 0 0 race_created \<noteq> None"
proof -
  have l: "sw_phase race_created 0 = Loaded 0" by (simp add: race_created_steps)
  show ?thesis
    using vmcs_switch_safe [OF race_created_steps(1), THEN conjunct2, THEN conjunct1, rule_format, OF _ l] by auto
qed


definition example_moving :: vm where
  "example_moving =
     zero_vm\<lparr>vcpu := zero_vcpu\<lparr>vcpu_vmcs := Some 0x1000\<rparr>, host := zero_host\<lparr>h_cpu := 1\<rparr>,
             vmcs := hw_fields race_created 0x1000\<rparr>"


end
