(* ===== verification/X86_Emulate.thy ===== *)
theory X86_Emulate
  imports X86_Decode Cr_Modes
begin

text \<open>
  The execution phases of \<open>x86_emulate_memop\<close>: one and two byte instructions, string and system
  instructions, the write back of the result and the commit of the shadow registers. The memory
  operations are an argument, as in the code.
\<close>

section \<open>One byte instructions\<close>

definition exec_2op :: "undef \<Rightarrow> alu_op \<Rightarrow> emu \<Rightarrow> emu" where
  "exec_2op u op e =
     (let (v, f) = emulate_2op op (op_size (e_dst e)) (undef_flags u) (op_val (e_src e)) (op_val (e_dst e)) (e_eflags e)
      in e\<lparr>e_dst := (e_dst e)\<lparr>op_val := v\<rparr>, e_eflags := f\<rparr>)"

definition exec_1op :: "alu_op1 \<Rightarrow> emu \<Rightarrow> emu" where
  "exec_1op op e =
     (let (v, f) = emulate_1op op (op_size (e_dst e)) (op_val (e_dst e)) (e_eflags e)
      in e\<lparr>e_dst := (e_dst e)\<lparr>op_val := v\<rparr>, e_eflags := f\<rparr>)"

definition set_dst :: "u64 \<Rightarrow> emu \<Rightarrow> emu" where
  "set_dst v e = e\<lparr>e_dst := (e_dst e)\<lparr>op_val := v\<rparr>\<rparr>"

text \<open>The operation in bits 3 to 5, of the opcode or of the ModRM byte.\<close>

definition binary_op :: "nat \<Rightarrow> alu_op" where
  "binary_op i = [Add, Or, Adc, Sbb, And, Sub, Xor, Cmp] ! i"

definition exec_grp1 :: "undef \<Rightarrow> emu \<Rightarrow> emu" where
  "exec_grp1 u e = (if modrm_reg e < 8 then exec_2op u (binary_op (modrm_reg e)) e else e)"

definition exec_grp2 :: "undef \<Rightarrow> emu \<Rightarrow> emu" where
  "exec_grp2 u e =
     (if modrm_reg e < 8
      then exec_2op u ([Rol, Ror, Rcl, Rcr, Sal, Shr, Sal, Sar] ! modrm_reg e) e else e)"

definition exec_xchg :: "emu \<Rightarrow> emu" where
  "exec_xchg e =
     (let e = e\<lparr>e_regs := write_operand (op_size (e_dst e)) (op_val (e_dst e)) (op_ptr (e_src e)) (e_regs e)\<rparr>
      in set_dst (op_val (e_src e)) (e\<lparr>lock_prefix := True\<rparr>))"

text \<open>In 64 bit mode POP and PUSH have 8 byte operands.\<close>

definition exec_pop :: "x86_emulate_ops \<Rightarrow> x86_emulate_ctxt \<Rightarrow> emu \<Rightarrow> outcome" where
  "exec_pop ops ctxt e =
     (let sz = (if ctxt_mode ctxt = X86EMUL_MODE_PROT64 then 8 else op_size (e_dst e));
          e = e\<lparr>e_dst := (e_dst e)\<lparr>op_size := sz\<rparr>\<rparr>;
          (rc, xs, s) = read_std ops (register_address (ad_bytes e) (ss_base ctxt) (e_regs e VCPU_REGS_RSP)) sz (e_vm e);
          e = e\<lparr>e_vm := s\<rparr>
      in if rc \<noteq> X86EMUL_CONTINUE then Done rc e
         else Go (register_address_increment (ad_bytes e) VCPU_REGS_RSP (of_nat sz)
                (set_dst (stored (op_val (e_dst e)) xs) e)))"

definition exec_push :: "x86_emulate_ops \<Rightarrow> x86_emulate_ctxt \<Rightarrow> emu \<Rightarrow> outcome" where
  "exec_push ops ctxt e =
     and_then
       (if ctxt_mode ctxt = X86EMUL_MODE_PROT64 then
          let e = e\<lparr>e_dst := (e_dst e)\<lparr>op_size := 8\<rparr>\<rparr>;
              (rc, xs, s) = read_std ops (case op_ptr (e_dst e) of MemPtr a \<Rightarrow> a | RegPtr k h \<Rightarrow> 0) 8 (e_vm e);
              e = e\<lparr>e_vm := s\<rparr>
          in if rc \<noteq> X86EMUL_CONTINUE then Done rc e
             else Go (set_dst (stored (op_val (e_dst e)) xs) e)
        else Go e)
       (\<lambda>e. let e = register_address_increment (ad_bytes e) VCPU_REGS_RSP (- of_nat (op_size (e_dst e))) e;
                (rc, s) = write_std ops (register_address (ad_bytes e) (ss_base ctxt) (e_regs e VCPU_REGS_RSP))
                   (op_val (e_dst e)) (op_size (e_dst e)) (e_vm e);
                e = e\<lparr>e_vm := s\<rparr>
            in if rc \<noteq> X86EMUL_CONTINUE then Done rc e
               else Go (set_dst (op_orig (e_dst e)) e))"

definition exec_grp3 :: "undef \<Rightarrow> x86_emulate_ops \<Rightarrow> x86_emulate_ctxt \<Rightarrow> emu \<Rightarrow> outcome" where
  "exec_grp3 u ops ctxt e =
     (if modrm_reg e \<le> 1 then and_then (fetch_immediate ops ctxt e) (\<lambda>e. Go (exec_2op u Test e))
      else if modrm_reg e = 2 then Go (set_dst (NOT (op_val (e_dst e))) e)
      else if modrm_reg e = 3 then Go (exec_1op Neg e)
      else Cannot e)"

definition exec_grp45 :: "x86_emulate_ops \<Rightarrow> x86_emulate_ctxt \<Rightarrow> emu \<Rightarrow> outcome" where
  "exec_grp45 ops ctxt e =
     (if modrm_reg e = 0 then Go (exec_1op Inc e)
      else if modrm_reg e = 1 then Go (exec_1op Dec e)
      else if modrm_reg e = 6 then exec_push ops ctxt e
      else Cannot e)"

definition exec_onebyte :: "undef \<Rightarrow> x86_emulate_ops \<Rightarrow> x86_emulate_ctxt \<Rightarrow> emu \<Rightarrow> outcome" where
  "exec_onebyte u ops ctxt e =
     (let b = unat (e_b e)
      in if b < 0x40 \<and> b mod 8 \<le> 5 then Go (exec_2op u (binary_op (b div 8)) e)
         else if b = 0x63 then
           if ctxt_mode ctxt \<noteq> X86EMUL_MODE_PROT64 then Cannot e
           else Go (set_dst (sign_extend 32 (op_val (e_src e))) e)
         else if 0x80 \<le> b \<and> b \<le> 0x83 then Go (exec_grp1 u e)
         else if b = 0x84 \<or> b = 0x85 then Go (exec_2op u Test e)
         else if b = 0x86 \<or> b = 0x87 then Go (exec_xchg e)
         else if b = 0xa0 \<or> b = 0xa1 then
           Go (e\<lparr>e_dst := (e_dst e)\<lparr>op_ptr := RegPtr VCPU_REGS_RAX False, op_val := op_val (e_src e)\<rparr>,
                 e_eip := e_eip e + of_nat (ad_bytes e)\<rparr>)
         else if b = 0xa2 \<or> b = 0xa3 then
           Go (set_dst (e_regs e VCPU_REGS_RAX) (e\<lparr>e_eip := e_eip e + of_nat (ad_bytes e)\<rparr>))
         else if (0x88 \<le> b \<and> b \<le> 0x8b) \<or> b = 0xc6 \<or> b = 0xc7 then Go (set_dst (op_val (e_src e)) e)
         else if b = 0x8f then exec_pop ops ctxt e
         else if b = 0xc0 \<or> b = 0xc1 then Go (exec_grp2 u e)
         else if b = 0xd0 \<or> b = 0xd1 then Go (exec_grp2 u (e\<lparr>e_src := (e_src e)\<lparr>op_val := 1\<rparr>\<rparr>))
         else if b = 0xd2 \<or> b = 0xd3 then
           Go (exec_grp2 u (e\<lparr>e_src := (e_src e)\<lparr>op_val := e_regs e VCPU_REGS_RCX\<rparr>\<rparr>))
         else if b = 0xf6 \<or> b = 0xf7 then exec_grp3 u ops ctxt e
         else if b = 0xfe \<or> b = 0xff then exec_grp45 ops ctxt e
         else Go e)"

section \<open>Two byte instructions\<close>

text \<open>The limit is the low 16 bits of what is read, the base its next \<open>op_bytes\<close> bytes, but 3 for 2.\<close>

definition read_descriptor :: "x86_emulate_ops \<Rightarrow> u64 \<Rightarrow> nat \<Rightarrow> (u16 \<Rightarrow> u64 \<Rightarrow> emu \<Rightarrow> outcome) \<Rightarrow> emu \<Rightarrow> outcome" where
  "read_descriptor ops p opb k e =
     (let opb = (if opb = 2 then 3 else opb);
          (rc, xs, s) = read_std ops p 2 (e_vm e);
          e = e\<lparr>e_vm := s\<rparr>
      in if rc \<noteq> X86EMUL_CONTINUE then Done rc e
         else let (rc, ys, s) = read_std ops (p + 2) opb (e_vm e);
                  e = e\<lparr>e_vm := s\<rparr>
              in if rc \<noteq> X86EMUL_CONTINUE then Done rc e
                 else k (ucast (bytes_val xs)) (stored 0 ys) e)"

definition exec_grp7 :: "x86_emulate_ops \<Rightarrow> emu \<Rightarrow> outcome" where
  "exec_grp7 ops e =
     (let p = (case op_ptr (e_src e) of MemPtr a \<Rightarrow> a | RegPtr k h \<Rightarrow> 0)
      in if modrm_reg e = 2 then
           read_descriptor ops p (op_bytes e) (\<lambda>sz address e.
             Go (e\<lparr>e_vm := realmode_lgdt sz address (e_vm e)\<rparr>)) e
         else if modrm_reg e = 3 then
           read_descriptor ops p (op_bytes e) (\<lambda>sz address e.
             Go (e\<lparr>e_vm := realmode_lidt sz address (e_vm e)\<rparr>)) e
         else if modrm_reg e = 6 then
           let (f, s) = realmode_lmsw (take_bit 16 (modrm_val e)) (e_vm e)
           in Go (e\<lparr>e_vm := s, e_eflags := f\<rparr>)
         else Cannot e)"

text \<open>The condition of a conditional move: bits 1 to 3 of the opcode, bit 0 inverts it.\<close>

definition cmov_condition :: "nat \<Rightarrow> u64 \<Rightarrow> bool" where
  "cmov_condition b f =
     (let i = (b AND 15) div 2;
          less = ((f AND EFLG_SF = 0) \<noteq> (f AND EFLG_OF = 0));
          c = (if i = 0 then f AND EFLG_OF \<noteq> 0
               else if i = 1 then f AND EFLG_CF \<noteq> 0
               else if i = 2 then f AND EFLG_ZF \<noteq> 0
               else if i = 3 then f AND (EFLG_CF OR EFLG_ZF) \<noteq> 0
               else if i = 4 then f AND EFLG_SF \<noteq> 0
               else if i = 5 then f AND EFLG_PF \<noteq> 0
               else if i = 6 then less
               else f AND EFLG_ZF \<noteq> 0 \<or> less)
      in c \<noteq> odd b)"

definition exec_cmov :: "emu \<Rightarrow> emu" where
  "exec_cmov e =
     (let v = op_val (e_src e)
      in e\<lparr>e_dst := (e_dst e)\<lparr>op_val := v, op_orig := v\<rparr>,
           e_d := (if cmov_condition (unat (e_b e)) (e_eflags e) then e_d e OR Mov else e_d e AND NOT Mov)\<rparr>)"

definition exec_cmpxchg :: "undef \<Rightarrow> emu \<Rightarrow> emu" where
  "exec_cmpxchg u e =
     (let e = e\<lparr>e_src := (e_src e)\<lparr>op_orig := op_val (e_src e), op_val := e_regs e VCPU_REGS_RAX\<rparr>\<rparr>;
          e = exec_2op u Cmp e;
          e = e\<lparr>e_d := e_d e OR Mov\<rparr>
      in if e_eflags e AND EFLG_ZF \<noteq> 0 then set_dst (op_orig (e_src e)) e
         else e\<lparr>e_dst := (e_dst e)\<lparr>op_type := OP_REG, op_ptr := RegPtr VCPU_REGS_RAX False\<rparr>\<rparr>)"

definition exec_bit :: "undef \<Rightarrow> alu_op \<Rightarrow> emu \<Rightarrow> emu" where
  "exec_bit u op e =
     exec_2op u op (e\<lparr>e_src := (e_src e)\<lparr>op_val := op_val (e_src e) AND (of_nat (8 * op_size (e_dst e)) - 1)\<rparr>\<rparr>)"

definition exec_movx :: "bool \<Rightarrow> emu \<Rightarrow> emu" where
  "exec_movx sgn_ext e =
     (let n = (if e_d e AND ByteOp \<noteq> 0 then 8 else 16);
          v = (if sgn_ext then sign_extend n (op_val (e_src e)) else take_bit n (op_val (e_src e)))
      in e\<lparr>e_dst := (e_dst e)\<lparr>op_size := op_bytes e, op_val := v\<rparr>\<rparr>)"

definition exec_twobyte :: "undef \<Rightarrow> x86_emulate_ops \<Rightarrow> emu \<Rightarrow> outcome" where
  "exec_twobyte u ops e =
     (let b = unat (e_b e)
      in if b = 0x01 then exec_grp7 ops e
         else if 0x40 \<le> b \<and> b \<le> 0x4f then Go (exec_cmov e)
         else if b = 0xb0 \<or> b = 0xb1 then Go (exec_cmpxchg u e)
         else if b = 0xa3 then Go (exec_bit u Bt e)
         else if b = 0xb3 then Go (exec_bit u Btr e)
         else if b = 0xab then Go (exec_bit u Bts e)
         else if b = 0xb6 \<or> b = 0xb7 then Go (exec_movx False e)
         else if b = 0xbb then Go (exec_bit u Btc e)
         else if b = 0xba then Go (exec_bit u ([Bt, Bts, Btr, Btc] ! (modrm_reg e AND 3)) e)
         else if b = 0xbe \<or> b = 0xbf then Go (exec_movx True e)
         else Go e)"

section \<open>String and system instructions\<close>

definition string_step :: "emu \<Rightarrow> u64" where
  "string_step e =
     (if e_eflags e AND EFLG_DF \<noteq> 0 then - of_nat (op_size (e_dst e)) else of_nat (op_size (e_dst e)))"

definition string_dst :: "optype \<Rightarrow> emu \<Rightarrow> emu" where
  "string_dst t e =
     e\<lparr>e_dst := (e_dst e)\<lparr>op_type := t, op_size := (if e_d e AND ByteOp \<noteq> 0 then 1 else op_bytes e)\<rparr>\<rparr>"

definition exec_movs :: "x86_emulate_ops \<Rightarrow> x86_emulate_ctxt \<Rightarrow> emu \<Rightarrow> outcome" where
  "exec_movs ops ctxt e =
     (let e = string_dst OP_MEM e;
          e = e\<lparr>e_dst := (e_dst e)\<lparr>op_ptr := MemPtr (register_address (ad_bytes e) (es_base ctxt) (e_regs e VCPU_REGS_RDI))\<rparr>\<rparr>;
          base = (case override_base e of None \<Rightarrow> ds_base ctxt | Some g \<Rightarrow> base_of ctxt g);
          (rc, xs, s) = read_emulated ops (register_address (ad_bytes e) base (e_regs e VCPU_REGS_RSI))
            (op_size (e_dst e)) (e_vm e);
          e = e\<lparr>e_vm := s\<rparr>
      in if rc \<noteq> X86EMUL_CONTINUE then Done rc e
         else let e = set_dst (stored (op_val (e_dst e)) xs) e
              in Go (register_address_increment (ad_bytes e) VCPU_REGS_RDI (string_step e)
                   (register_address_increment (ad_bytes e) VCPU_REGS_RSI (string_step e) e)))"

definition exec_stos :: "emu \<Rightarrow> emu" where
  "exec_stos e =
     (let e = string_dst OP_MEM e;
          e = e\<lparr>e_dst := (e_dst e)\<lparr>op_ptr := MemPtr (e_cr2 e), op_val := e_regs e VCPU_REGS_RAX\<rparr>\<rparr>
      in register_address_increment (ad_bytes e) VCPU_REGS_RDI (string_step e) e)"

definition exec_lods :: "x86_emulate_ops \<Rightarrow> emu \<Rightarrow> outcome" where
  "exec_lods ops e =
     (let e = string_dst OP_REG e;
          e = e\<lparr>e_dst := (e_dst e)\<lparr>op_ptr := RegPtr VCPU_REGS_RAX False\<rparr>\<rparr>;
          (rc, xs, s) = read_emulated ops (e_cr2 e) (op_size (e_dst e)) (e_vm e);
          e = e\<lparr>e_vm := s\<rparr>
      in if rc \<noteq> X86EMUL_CONTINUE then Done rc e
         else let e = set_dst (stored (op_val (e_dst e)) xs) e
              in Go (register_address_increment (ad_bytes e) VCPU_REGS_RSI (string_step e) e))"

text \<open>
  One round of a repeated instruction: the count goes down and the instruction pointer stays, so
  that the guest executes the instruction again; with a count of 0 it is skipped.
\<close>

definition exec_special :: "x86_emulate_ops \<Rightarrow> x86_emulate_ctxt \<Rightarrow> emu \<Rightarrow> outcome" where
  "exec_special ops ctxt e =
     (let b = unat (e_b e)
      in if rep_prefix e \<and> e_regs e VCPU_REGS_RCX = 0 then
           Done X86EMUL_CONTINUE (e\<lparr>e_vm := (e_vm e)\<lparr>vcpu := (vcpu (e_vm e))\<lparr>rip := e_eip e\<rparr>\<rparr>\<rparr>)
         else
           let e = (if rep_prefix e
                    then e\<lparr>e_regs := (e_regs e)(VCPU_REGS_RCX := e_regs e VCPU_REGS_RCX - 1),
                           e_eip := rip (vcpu (e_vm e))\<rparr> else e)
           in if b = 0xa4 \<or> b = 0xa5 then exec_movs ops ctxt e
              else if b = 0xa6 \<or> b = 0xa7 then Cannot e
              else if b = 0xaa \<or> b = 0xab then Go (exec_stos e)
              else if b = 0xac \<or> b = 0xad then exec_lods ops e
              else if b = 0xae \<or> b = 0xaf then Cannot e
              else Go e)"

text \<open>The second byte of a move to or from a control register: bits 0 to 2 are taken for the control register.\<close>

definition mov_cr :: "bool \<Rightarrow> u8 \<Rightarrow> emu \<Rightarrow> outcome" where
  "mov_cr to_cr b e =
     (let e = e\<lparr>e_b := b\<rparr>;
          reg = unat (drop_bit 3 b AND 7);
          cr = unat (b AND 7)
      in if b AND 0xc0 \<noteq> 0xc0 then Cannot e
         else if to_cr then
           let (f, s) = realmode_set_cr cr (e_regs e reg AND mask 32) (e_eflags e) (e_vm e)
           in Go (e\<lparr>e_vm := s, e_eflags := f\<rparr>)
         else Go (e\<lparr>e_regs := (e_regs e)(reg := realmode_get_cr cr (e_vm e))\<rparr>))"

definition exec_mov_cr :: "bool \<Rightarrow> x86_emulate_ops \<Rightarrow> x86_emulate_ctxt \<Rightarrow> emu \<Rightarrow> outcome" where
  "exec_mov_cr to_cr ops ctxt e = insn_fetch ops ctxt 1 (\<lambda>x. mov_cr to_cr (ucast x)) e"

definition exec_cmpxchg8b :: "x86_emulate_ops \<Rightarrow> emu \<Rightarrow> outcome" where
  "exec_cmpxchg8b ops e =
     (let (rc, xs, s) = read_emulated ops (e_cr2 e) 8 (e_vm e);
          e = e\<lparr>e_vm := s\<rparr>;
          old = bytes_val xs;
          r = e_regs e
      in if rc \<noteq> X86EMUL_CONTINUE then Done rc e
         else if take_bit 32 old \<noteq> take_bit 32 (r VCPU_REGS_RAX) \<or> drop_bit 32 old \<noteq> take_bit 32 (r VCPU_REGS_RDX) then
           Go (e\<lparr>e_regs := r(VCPU_REGS_RAX := take_bit 32 old, VCPU_REGS_RDX := drop_bit 32 old),
                 e_eflags := e_eflags e AND NOT EFLG_ZF\<rparr>)
         else
           let (rc, s) = cmpxchg_emulated ops (e_cr2 e) old
                 (push_bit 32 (r VCPU_REGS_RCX) OR take_bit 32 (r VCPU_REGS_RBX)) 8 (e_vm e);
               e = e\<lparr>e_vm := s\<rparr>
           in if rc \<noteq> X86EMUL_CONTINUE then Done rc e
              else Go (e\<lparr>e_eflags := e_eflags e OR EFLG_ZF\<rparr>))"

definition exec_twobyte_special :: "x86_emulate_ops \<Rightarrow> x86_emulate_ctxt \<Rightarrow> emu \<Rightarrow> outcome" where
  "exec_twobyte_special ops ctxt e =
     (let e = e\<lparr>e_dst := (e_dst e)\<lparr>op_orig := op_val (e_dst e)\<rparr>\<rparr>;
          b = unat (e_b e)
      in if b = 0x20 then exec_mov_cr False ops ctxt e
         else if b = 0x22 then exec_mov_cr True ops ctxt e
         else if b = 0xc7 then exec_cmpxchg8b ops e
         else Go e)"

section \<open>Write back and commit\<close>

definition writeback :: "x86_emulate_ops \<Rightarrow> emu \<Rightarrow> outcome" where
  "writeback ops e =
     (let dst = e_dst e
      in if e_d e AND Mov = 0 \<and> op_orig dst = op_val dst then Go e
         else case op_type dst of
                OP_REG \<Rightarrow> Go (e\<lparr>e_regs := write_operand (op_size dst) (op_val dst) (op_ptr dst) (e_regs e)\<rparr>)
              | OP_MEM \<Rightarrow>
                  (let a = (case op_ptr dst of MemPtr a \<Rightarrow> a | RegPtr k h \<Rightarrow> 0);
                       (rc, s) = (if lock_prefix e
                                  then cmpxchg_emulated ops a (op_orig dst) (op_val dst) (op_size dst) (e_vm e)
                                  else write_emulated ops a (op_val dst) (op_size dst) (e_vm e));
                       e = e\<lparr>e_vm := s\<rparr>
                   in if rc \<noteq> X86EMUL_CONTINUE then Done rc e else Go e)
              | OP_IMM \<Rightarrow> Go e)"

definition exec_insn :: "undef \<Rightarrow> x86_emulate_ops \<Rightarrow> x86_emulate_ctxt \<Rightarrow> emu \<Rightarrow> outcome" where
  "exec_insn u ops ctxt e =
     (if e_d e AND DstMask = ImplicitOps then
        if twobyte e then exec_twobyte_special ops ctxt e else exec_special ops ctxt e
      else and_then (decode_operands ops ctxt e) (\<lambda>e.
             if twobyte e then exec_twobyte u ops e else exec_onebyte u ops ctxt e))"

definition init_emu :: "undef \<Rightarrow> x86_emulate_ctxt \<Rightarrow> vm \<Rightarrow> emu" where
  "init_emu u ctxt s =
     (let (opb, adb) = mode_sizes (ctxt_mode ctxt);
          junk = \<lparr>op_type = OP_REG, op_size = 0, op_val = undef_val u, op_orig = undef_val u, op_ptr = MemPtr 0\<rparr>
      in \<lparr>e_vm = s, e_regs = regs (vcpu s), e_eip = rip (vcpu s), e_eflags = eflags ctxt,
          op_bytes = opb, ad_bytes = adb, lock_prefix = False, rep_prefix = False, rex_prefix = 0,
          override_base = None, twobyte = False, e_b = 0, e_d = 0, modrm_mod = 0, modrm_reg = 0,
          modrm_rm = 0, index_reg = 0, base_reg = 0, rip_relative = False, modrm_val = 0, modrm_ea = 0,
          e_cr2 = ctxt_cr2 ctxt, e_src = junk, e_dst = junk\<rparr>)"

definition decode_insn :: "x86_emulate_ops \<Rightarrow> x86_emulate_ctxt \<Rightarrow> emu \<Rightarrow> outcome" where
  "decode_insn ops ctxt e =
     and_then (legacy_prefixes 8 ops ctxt e) (\<lambda>e.
     and_then (decode_rex ops ctxt e) (\<lambda>e.
     and_then (decode_opcode ops ctxt e) (decode_modrm ops ctxt)))"

definition emulate_insn :: "undef \<Rightarrow> x86_emulate_ops \<Rightarrow> x86_emulate_ctxt \<Rightarrow> emu \<Rightarrow> outcome" where
  "emulate_insn u ops ctxt e =
     and_then (decode_insn ops ctxt e) (\<lambda>e.
     and_then (exec_insn u ops ctxt e) (writeback ops))"

text \<open>The registers, flags and instruction pointer of a finished instruction.\<close>

definition commit :: "emu \<Rightarrow> vm" where
  "commit e = (e_vm e)\<lparr>vcpu := (vcpu (e_vm e))\<lparr>regs := e_regs e, rip := e_eip e\<rparr>\<rparr>"

definition x86_emulate_memop :: "undef \<Rightarrow> x86_emulate_ops \<Rightarrow> memop" where
  "x86_emulate_memop u ops ctxt s =
     (case emulate_insn u ops ctxt (init_emu u ctxt s) of
        Go e \<Rightarrow> (False, ctxt\<lparr>eflags := e_eflags e\<rparr>, commit e)
      | Done rc e \<Rightarrow> (rc = X86EMUL_UNHANDLEABLE, ctxt, e_vm e)
      | Cannot e \<Rightarrow> (True, ctxt, e_vm e))"

end
