(* ===== verification/Emulator_Frame.thy ===== *)
theory Emulator_Frame
  imports X86_Emulate
begin

text \<open>
  What an emulated instruction can do to the virtual machine, whatever the instruction: a
  property \<open>I\<close> that the memory operations keep holds until the instruction commits, and a
  property \<open>J\<close> of flags and virtual machine holds afterwards, if the system instructions
  establish it. The clients choose the memory operations and the two properties.
\<close>

lemma twobyte_special_entries:
  "twobyte_table ! 1 AND DstMask = DstReg"
  "twobyte_table ! 0x20 AND Mov = 0" "twobyte_table ! 0x22 AND Mov = 0"
  by code_simp+

definition no_mem :: "emu \<Rightarrow> bool" where
  "no_mem e \<longleftrightarrow> (e_d e AND Mov = 0 \<and> op_orig (e_dst e) = op_val (e_dst e)) \<or> op_type (e_dst e) = OP_REG"

definition same_flags :: "u64 \<Rightarrow> u64 \<Rightarrow> bool" where
  "same_flags f g \<longleftrightarrow> f AND NOT EFLAGS_MASK = g AND NOT EFLAGS_MASK"

locale emulator_frame =
  fixes ops :: x86_emulate_ops
    and I :: "vm \<Rightarrow> bool"
    and J :: "u64 \<Rightarrow> vm \<Rightarrow> bool"
    and f0 :: u64
  assumes read_std_I: "I s \<Longrightarrow> read_std ops a n s = (rc, xs, t) \<Longrightarrow> I t"
    and write_std_I: "I s \<Longrightarrow> write_std ops a v n s = (rc, t) \<Longrightarrow> I t"
    and read_emulated_I: "I s \<Longrightarrow> read_emulated ops a n s = (rc, xs, t) \<Longrightarrow> I t"
    and write_emulated_I: "I s \<Longrightarrow> write_emulated ops a v n s = (rc, t) \<Longrightarrow> I t"
    and cmpxchg_emulated_I: "I s \<Longrightarrow> cmpxchg_emulated ops a old v n s = (rc, t) \<Longrightarrow> I t"
    and I_J: "I s \<Longrightarrow> same_flags f f0 \<Longrightarrow> J f s"
    and lgdt_J: "I s \<Longrightarrow> same_flags f f0 \<Longrightarrow> J f (realmode_lgdt l b s)"
    and lidt_J: "I s \<Longrightarrow> same_flags f f0 \<Longrightarrow> J f (realmode_lidt l b s)"
    and lmsw_J: "I s \<Longrightarrow> same_flags f f0 \<Longrightarrow> realmode_lmsw m s = (g, t) \<Longrightarrow> J g t"
    and set_cr_J: "I s \<Longrightarrow> same_flags f f0 \<Longrightarrow> realmode_set_cr c v f s = (g, t) \<Longrightarrow> J g t"
    and regs_J: "J f s \<Longrightarrow> J f (s\<lparr>vcpu := (vcpu s)\<lparr>regs := r, rip := p\<rparr>\<rparr>)"
begin

definition fine :: "emu \<Rightarrow> bool" where
  "fine e \<longleftrightarrow> I (e_vm e) \<and> same_flags (e_eflags e) f0"

definition decoded :: "emu \<Rightarrow> bool" where
  "decoded e \<longleftrightarrow> fine e \<and> (twobyte e \<longrightarrow> e_d e = twobyte_table ! unat (e_b e))"

definition ready :: "emu \<Rightarrow> bool" where
  "ready e \<longleftrightarrow> fine e \<and> (twobyte e \<and> e_b e = 1 \<longrightarrow> op_type (e_dst e) = OP_REG)"

definition executed :: "emu \<Rightarrow> bool" where
  "executed e \<longleftrightarrow> fine e \<or> J (e_eflags e) (e_vm e) \<and> no_mem e"

definition ended :: "(emu \<Rightarrow> bool) \<Rightarrow> outcome \<Rightarrow> bool" where
  "ended P r = (case r of Go e \<Rightarrow> P e
     | Done rc e \<Rightarrow> (rc = X86EMUL_UNHANDLEABLE \<longrightarrow> I (e_vm e)) \<and> J f0 (e_vm e)
     | Cannot e \<Rightarrow> I (e_vm e))"

lemma ended_simps [simp]:
  "ended P (Go e) = P e"
  "ended P (Done rc e) = ((rc = X86EMUL_UNHANDLEABLE \<longrightarrow> I (e_vm e)) \<and> J f0 (e_vm e))"
  "ended P (Cannot e) = I (e_vm e)"
  by (simp_all add: ended_def)

lemma ended_and_then:
  assumes "ended P r" "\<And>e. P e \<Longrightarrow> ended P' (k e)"
  shows "ended P' (and_then r k)"
  using assms by (cases r) auto

lemma ended_if: "ended P a \<Longrightarrow> ended P b \<Longrightarrow> ended P (if c then a else b)"
  by simp

lemma ended_Go: "P e \<Longrightarrow> ended P (Go e)"
  by simp

lemma I_J0: "I s \<Longrightarrow> J f0 s"
  by (rule I_J) (simp_all add: same_flags_def)

lemma ended_fetch:
  assumes "I (e_vm e)" "\<And>x s p. I s \<Longrightarrow> ended P (k x (e\<lparr>e_vm := s, e_eip := p\<rparr>))"
  shows "ended P (insn_fetch ops ctxt n k e)"
  using assms(1) read_std_I [OF assms(1)] I_J0
  by (auto simp: insn_fetch_def Let_def intro!: assms(2) split: prod.splits)

lemma ended_fetch_signed:
  assumes "I (e_vm e)" "\<And>x s p. I s \<Longrightarrow> ended P (k x (e\<lparr>e_vm := s, e_eip := p\<rparr>))"
  shows "ended P (fetch_signed ops ctxt n k e)"
  unfolding fetch_signed_def by (rule ended_fetch) (use assms in auto)

lemmas ended_intros = ended_fetch ended_fetch_signed ended_and_then

section \<open>Decoding\<close>

lemma legacy_prefix_frame:
  assumes "legacy_prefix m b e = Some e'"
  shows "e_vm e' = e_vm e" "e_eflags e' = e_eflags e" "twobyte e' = twobyte e"
  using assms by (auto simp: legacy_prefix_def split: if_splits)

lemma legacy_prefixes_ended:
  "fine e \<and> \<not> twobyte e \<Longrightarrow> ended (\<lambda>e. fine e \<and> \<not> twobyte e) (legacy_prefixes n ops ctxt e)"
proof (induction n arbitrary: e)
  case (Suc n)
  have k: "ended (\<lambda>e. fine e \<and> \<not> twobyte e)
      (case legacy_prefix m b e' of None \<Rightarrow> Go e' | Some e \<Rightarrow> legacy_prefixes n ops ctxt e)"
    if f: "fine e' \<and> \<not> twobyte e'" for m b e'
  proof (cases "legacy_prefix m b e'")
    case (Some e'')
    then show ?thesis using f Suc.IH [of e''] legacy_prefix_frame [OF Some] by (simp add: fine_def)
  qed (use f in simp)
  show ?case
    unfolding legacy_prefixes.simps Let_def
  proof (rule ended_fetch)
    fix x s p assume "I s"
    then have "fine (e\<lparr>e_vm := s, e_eip := p, e_b := ucast x\<rparr>) \<and>
        \<not> twobyte (e\<lparr>e_vm := s, e_eip := p, e_b := ucast x\<rparr>)" using Suc.prems by (simp add: fine_def)
    then show "ended (\<lambda>e. fine e \<and> \<not> twobyte e)
        (case legacy_prefix (ctxt_mode ctxt) (e_b (e\<lparr>e_vm := s, e_eip := p, e_b := ucast x\<rparr>))
                (e\<lparr>e_vm := s, e_eip := p, e_b := ucast x\<rparr>) of
           None \<Rightarrow> Go (e\<lparr>e_vm := s, e_eip := p, e_b := ucast x\<rparr>) | Some e \<Rightarrow> legacy_prefixes n ops ctxt e)"
      by (rule k)
  qed (use Suc.prems in \<open>simp add: fine_def\<close>)
qed simp

lemma decode_rex_ended:
  "fine e \<and> \<not> twobyte e \<Longrightarrow> ended (\<lambda>e. fine e \<and> \<not> twobyte e) (decode_rex ops ctxt e)"
  by (auto simp: decode_rex_def Let_def fine_def intro!: ended_intros)

lemma decode_opcode_ended:
  assumes "fine e \<and> \<not> twobyte e"
  shows "ended decoded (decode_opcode ops ctxt e)"
proof -
  let ?e = "e\<lparr>e_d := opcode_table ! unat (e_b e)\<rparr>"
  have "ended decoded (if e_b ?e = 0x0f then insn_fetch ops ctxt 1 (\<lambda>x e.
         Go (e\<lparr>e_b := ucast x, e_d := twobyte_table ! unat (ucast x :: u8)\<rparr>)) (?e\<lparr>twobyte := True\<rparr>)
       else Go ?e)"
    using assms by (auto simp: fine_def decoded_def intro!: ended_fetch)
  then show ?thesis
    using assms by (auto simp: decode_opcode_def Let_def decoded_def fine_def intro!: ended_and_then)
qed

lemma disp16_ended: "decoded e \<Longrightarrow> ended decoded (disp16 ops ctxt e)"
  by (auto simp: disp16_def decoded_def fine_def intro!: ended_intros)

lemma disp32_ended: "decoded e \<Longrightarrow> ended decoded (disp32 ops ctxt e)"
  by (auto simp: disp32_def decoded_def fine_def intro!: ended_intros)

lemma modrm16_ended: "decoded e \<Longrightarrow> ended decoded (modrm16 ops ctxt e)"
  unfolding modrm16_def by (rule ended_and_then [OF disp16_ended]) (auto simp: Let_def decoded_def fine_def)

lemma sib_base_ended: "decoded e \<Longrightarrow> ended decoded (sib_base ops ctxt e)"
  by (auto simp: sib_base_def decoded_def fine_def intro!: ended_intros)

lemma decode_sib_ended:
  assumes "decoded e" shows "ended decoded (decode_sib ops ctxt e)"
proof -
  have "ended decoded (and_then (sib_base ops ctxt e') (\<lambda>e. Go (if index_reg e = 4 then e
      else e\<lparr>modrm_ea := modrm_ea e + push_bit k (e_regs e (index_reg e))\<rparr>)))" if "decoded e'" for e' k
    by (rule ended_and_then [OF sib_base_ended [OF that]]) (simp add: decoded_def fine_def)
  then show ?thesis
    using assms by (auto simp: decode_sib_def Let_def decoded_def fine_def intro!: ended_fetch)
qed

lemma modrm32_ended: "decoded e \<Longrightarrow> ended decoded (modrm32 ops ctxt e)"
  unfolding modrm32_def
  by (rule ended_and_then [OF _ disp32_ended]) (auto simp: decode_sib_ended, auto simp: decoded_def fine_def)

lemma finish_address_decoded: "decoded e \<Longrightarrow> decoded (finish_address ctxt e)"
  by (simp add: finish_address_def Let_def decoded_def fine_def)

lemma decode_address_ended:
  assumes "decoded e" shows "ended decoded (decode_address ops ctxt e)"
proof -
  have "ended decoded (and_then (if ad_bytes e = 2 then modrm16 ops ctxt e else modrm32 ops ctxt e)
      (\<lambda>e. Go (finish_address ctxt e)))"
    by (rule ended_and_then [of decoded]) (use assms in \<open>auto simp: modrm16_ended modrm32_ended finish_address_decoded\<close>)
  then show ?thesis using assms by (simp add: decode_address_def decoded_def fine_def)
qed

lemma decode_modrm_ended: "decoded e \<Longrightarrow> ended decoded (decode_modrm ops ctxt e)"
  unfolding decode_modrm_def
  by (simp, intro impI ended_fetch decode_address_ended) (auto simp: decoded_def fine_def modrm_fields_def)

lemma decode_insn_ended:
  assumes "fine e" "\<not> twobyte e"
  shows "ended decoded (decode_insn ops ctxt e)"
  unfolding decode_insn_def
  by (rule ended_and_then [OF legacy_prefixes_ended], use assms in simp)
    (rule ended_and_then [OF decode_rex_ended], assumption,
      rule ended_and_then [OF decode_opcode_ended], assumption, rule decode_modrm_ended)

section \<open>Operands\<close>

lemma decode_dst_ended:
  assumes "decoded e" shows "ended ready (decode_dst ops ctxt e)"
proof -
  let ?n = "if e_d e AND ByteOp \<noteq> 0 then 1 else op_bytes e"
  have f: "I (e_vm e)" "same_flags (e_eflags e) f0" using assms by (simp_all add: decoded_def fine_def)
  obtain rc xs s where r: "read_emulated ops (e_cr2 e) ?n (e_vm e) = (rc, xs, s)" by (metis prod_cases3)
  have s: "I s" by (rule read_emulated_I [OF f(1) r])
  show ?thesis
  proof (cases "e_d e AND DstMask = DstReg")
    case True
    then show ?thesis using f by (simp add: decode_dst_def Let_def ready_def fine_def)
  next
    case False
    then have "\<not> (twobyte e \<and> e_b e = 1)"
      using assms twobyte_special_entries(1) by (auto simp: decoded_def)
    then show ?thesis
      using False f r s I_J0 by (cases "e_b e = 1") (simp_all add: decode_dst_def Let_def ready_def fine_def)
  qed
qed

lemma src_mem_ended:
  assumes "ready e" shows "ended ready (src_mem ops n e)"
proof -
  have f: "I (e_vm e)" using assms by (simp add: ready_def fine_def)
  obtain rc xs s where r: "read_emulated ops (e_cr2 e) n (e_vm e) = (rc, xs, s)" by (metis prod_cases3)
  have "I s" by (rule read_emulated_I [OF f r])
  then show ?thesis using assms r I_J0 by (simp add: src_mem_def Let_def ready_def fine_def)
qed

lemma fetch_immediate_ended: "ready e \<Longrightarrow> ended ready (fetch_immediate ops ctxt e)"
  by (auto simp: fetch_immediate_def Let_def ready_def fine_def intro!: ended_intros)

lemma decode_src_ended: "ready e \<Longrightarrow> ended ready (decode_src ops ctxt e)"
  unfolding decode_src_def Let_def
  by (auto simp: src_mem_ended fetch_immediate_ended intro!: ended_fetch_signed; simp add: ready_def fine_def)

lemma decode_operands_ended: "decoded e \<Longrightarrow> ended ready (decode_operands ops ctxt e)"
  unfolding decode_operands_def
  by (rule ended_and_then [OF decode_dst_ended]) (auto intro!: decode_src_ended simp: ready_def fine_def)

section \<open>Execution\<close>

lemma exec_2op_ready: "ready e \<Longrightarrow> ready (exec_2op u op e)"
  using emulate_2op_flags
  by (fastforce simp: exec_2op_def ready_def fine_def same_flags_def split: prod.splits)

lemma exec_1op_ready: "ready e \<Longrightarrow> ready (exec_1op op e)"
  using emulate_1op_flags
  by (fastforce simp: exec_1op_def ready_def fine_def same_flags_def split: prod.splits)

lemma exec_simple_ready:
  assumes "ready e"
  shows "ready (exec_grp1 u e)" "ready (exec_grp2 u e)" "ready (exec_xchg e)" "ready (set_dst v e)"
    "ready (e\<lparr>e_src := x\<rparr>)" "ready (e\<lparr>e_eip := p\<rparr>)" "ready (e\<lparr>e_regs := r\<rparr>)"
    "ready (register_address_increment a reg v e)" "ready (exec_bit u op e)" "ready (exec_movx sg e)"
    "ready (exec_cmov e)" 
proof -
  show s: "ready (e\<lparr>e_src := x\<rparr>)" for x using assms by (simp add: ready_def fine_def)
  show "ready (exec_grp1 u e)" "ready (exec_grp2 u e)"
    using assms by (simp_all add: exec_grp1_def exec_grp2_def exec_2op_ready)
  show "ready (exec_bit u op e)" unfolding exec_bit_def by (rule exec_2op_ready [OF s])
qed (use assms in \<open>simp_all add: exec_xchg_def set_dst_def ready_def fine_def Let_def
       register_address_increment_def exec_movx_def exec_cmov_def\<close>)

lemma ready_executed: "ready e \<Longrightarrow> executed e" "fine e \<Longrightarrow> executed e"
  by (simp_all add: ready_def executed_def)

lemma exec_pop_ended: "ready e \<Longrightarrow> ended ready (exec_pop ops ctxt e)"
  using read_std_I I_J0
  by (fastforce simp: exec_pop_def Let_def fine_def ready_def set_dst_def register_address_increment_def
      split: prod.splits)

lemma exec_push_ended:
  assumes "ready e" shows "ended ready (exec_push ops ctxt e)"
  unfolding exec_push_def
proof (rule ended_and_then [of ready])
  show "ended ready (if ctxt_mode ctxt = X86EMUL_MODE_PROT64 then
          let e = e\<lparr>e_dst := (e_dst e)\<lparr>op_size := 8\<rparr>\<rparr>;
              (rc, xs, s) = read_std ops (case op_ptr (e_dst e) of MemPtr a \<Rightarrow> a | RegPtr k h \<Rightarrow> 0) 8 (e_vm e);
              e = e\<lparr>e_vm := s\<rparr>
          in if rc \<noteq> X86EMUL_CONTINUE then Done rc e
             else Go (set_dst (stored (op_val (e_dst e)) xs) e)
        else Go e)"
    using assms read_std_I I_J0
    by (fastforce simp: Let_def fine_def ready_def set_dst_def split: prod.splits)
qed (use write_std_I I_J0 in \<open>fastforce simp: Let_def fine_def ready_def set_dst_def
    register_address_increment_def split: prod.splits\<close>)

lemma exec_grp3_ended: "ready e \<Longrightarrow> ended ready (exec_grp3 u ops ctxt e)"
  unfolding exec_grp3_def
  by (auto intro!: ended_and_then [OF fetch_immediate_ended] simp: exec_2op_ready exec_1op_ready exec_simple_ready)
    (simp add: ready_def fine_def)

lemma exec_grp45_ended: "ready e \<Longrightarrow> ended ready (exec_grp45 ops ctxt e)"
  by (simp add: exec_grp45_def exec_push_ended exec_1op_ready) (simp add: ready_def fine_def)

lemma exec_onebyte_ended:
  assumes r: "ready e" shows "ended ready (exec_onebyte u ops ctxt e)"
proof -
  have "ready (e\<lparr>e_dst := x\<rparr>)" "ready (e\<lparr>e_dst := x, e_eip := p\<rparr>)" if "op_type x = op_type (e_dst e)" for x p
    using r that by (simp_all add: ready_def fine_def)
  moreover have "I (e_vm e)" using r by (simp add: ready_def fine_def)
  ultimately show ?thesis
    unfolding exec_onebyte_def Let_def
    by (intro ended_if ended_Go exec_2op_ready exec_simple_ready exec_pop_ended exec_grp3_ended
        exec_grp45_ended r) simp_all
qed

lemma read_descriptor_ended:
  assumes "I (e_vm e)" "\<And>sz a s. I s \<Longrightarrow> ended P (k sz a (e\<lparr>e_vm := s\<rparr>))"
  shows "ended P (read_descriptor ops p n k e)"
proof -
  let ?n = "if n = 2 then 3 else n"
  obtain rc xs s where r1: "read_std ops p 2 (e_vm e) = (rc, xs, s)" by (metis prod_cases3)
  obtain rc' ys t where r2: "read_std ops (p + 2) ?n s = (rc', ys, t)" by (metis prod_cases3)
  have "I s" "I t" using read_std_I [OF assms(1) r1] read_std_I [OF _ r2] by blast+
  then show ?thesis using r1 r2 I_J0 assms(2) by (simp add: read_descriptor_def Let_def)
qed

lemma exec_grp7_ended:
  assumes "ready e" "op_type (e_dst e) = OP_REG"
  shows "ended executed (exec_grp7 ops e)"
proof -
  have d: "executed (e\<lparr>e_vm := t, e_eflags := f\<rparr>)" if "J f t" for t f
    using assms that by (simp add: executed_def no_mem_def)
  have e: "executed (e\<lparr>e_vm := t\<rparr>)" if "J (e_eflags e) t" for t
    using assms that by (simp add: executed_def no_mem_def)
  have i: "I (e_vm e)" "same_flags (e_eflags e) f0" using assms(1) by (auto simp: ready_def fine_def)
  show ?thesis
    using i lgdt_J lidt_J lmsw_J [OF i]
    by (auto simp: exec_grp7_def Let_def intro!: read_descriptor_ended d e split: prod.splits)
qed

lemma exec_cmpxchg_executed: "ready e \<Longrightarrow> executed (exec_cmpxchg u e)"
  using exec_2op_ready [of "e\<lparr>e_src := (e_src e)\<lparr>op_orig := op_val (e_src e), op_val := e_regs e VCPU_REGS_RAX\<rparr>\<rparr>" u Cmp]
  by (auto simp: exec_cmpxchg_def Let_def set_dst_def executed_def ready_def fine_def)

lemma exec_twobyte_ended:
  assumes r: "ready e" "twobyte e" shows "ended executed (exec_twobyte u ops e)"
proof -
  have "ended executed (exec_grp7 ops e)" if "e_b e = 1"
    using r that by (intro exec_grp7_ended) (simp_all add: ready_def)
  moreover have "e_b e = 1" if "unat (e_b e) = 1"
    using that by (simp add: word_unat_eq_iff)
  ultimately show ?thesis
    using r by (simp add: exec_twobyte_def Let_def ready_executed exec_simple_ready exec_cmpxchg_executed)
qed

section \<open>String and system instructions\<close>

lemma exec_movs_ended: "fine e \<Longrightarrow> ended fine (exec_movs ops ctxt e)"
  using read_emulated_I I_J0
  by (fastforce simp: exec_movs_def Let_def string_dst_def fine_def set_dst_def register_address_increment_def
      split: prod.splits option.splits)

lemma exec_lods_ended: "fine e \<Longrightarrow> ended fine (exec_lods ops e)"
  using read_emulated_I I_J0
  by (fastforce simp: exec_lods_def Let_def string_dst_def fine_def set_dst_def register_address_increment_def
      split: prod.splits)

lemma exec_stos_fine: "fine e \<Longrightarrow> fine (exec_stos e)"
  by (simp add: exec_stos_def Let_def string_dst_def fine_def register_address_increment_def)

lemma rip_J:
  assumes "J f s" shows "J f (s\<lparr>vcpu := (vcpu s)\<lparr>rip := p\<rparr>\<rparr>)"
  using regs_J [OF assms, where r = "regs (vcpu s)" and p = p] by simp

lemma exec_special_ended:
  assumes "fine e" shows "ended fine (exec_special ops ctxt e)"
proof -
  have f: "fine (e\<lparr>e_regs := r, e_eip := p\<rparr>)" for r p using assms by (simp add: fine_def)
  have "J f0 ((e_vm e)\<lparr>vcpu := (vcpu (e_vm e))\<lparr>rip := e_eip e\<rparr>\<rparr>)"
    using assms by (intro rip_J I_J0) (simp add: fine_def)
  moreover have "I (e_vm e)" using assms by (simp add: fine_def)
  ultimately show ?thesis
    using assms f by (auto simp: exec_special_def Let_def exec_movs_ended exec_lods_ended exec_stos_fine)
qed

lemma mov_cr_ended:
  assumes "fine e" "no_mem e" shows "ended executed (mov_cr to_cr b e)"
proof -
  have i: "I (e_vm e)" "same_flags (e_eflags e) f0" using assms(1) by (simp_all add: fine_def)
  obtain g t where s: "realmode_set_cr (unat (b AND 7)) (e_regs e (unat (drop_bit 3 b AND 7)) AND mask 32)
      (e_eflags e) (e_vm e) = (g, t)" by fastforce
  have "J g t" by (rule set_cr_J [OF i s])
  then have "executed (e\<lparr>e_b := b, e_vm := t, e_eflags := g\<rparr>)"
    using assms(2) by (simp add: executed_def no_mem_def)
  then show ?thesis using assms(1) i s by (simp add: mov_cr_def executed_def fine_def Let_def)
qed

lemma exec_mov_cr_ended:
  "fine e \<Longrightarrow> no_mem e \<Longrightarrow> ended executed (exec_mov_cr to_cr ops ctxt e)"
  unfolding exec_mov_cr_def
  by (intro ended_fetch mov_cr_ended) (auto simp: fine_def no_mem_def)

lemma exec_cmpxchg8b_ended:
  assumes "fine e" shows "ended executed (exec_cmpxchg8b ops e)"
proof -
  have z: "same_flags (f AND NOT EFLG_ZF) f0" "same_flags (f OR EFLG_ZF) f0" if "same_flags f f0" for f
  proof -
    have k: "bit EFLG_ZF i \<Longrightarrow> bit EFLAGS_MASK i" for i by (simp add: EFLAGS_MASK_def bit_or_iff)
    show "same_flags (f AND NOT EFLG_ZF) f0" "same_flags (f OR EFLG_ZF) f0"
      using that unfolding same_flags_def that [unfolded same_flags_def, symmetric]
      by (auto intro!: bit_word_eqI simp: bit_simps k)
  qed
  obtain rc xs t where r: "read_emulated ops (e_cr2 e) 8 (e_vm e) = (rc, xs, t)" by (metis prod_cases3)
  have i: "I (e_vm e)" "same_flags (e_eflags e) f0" using assms by (simp_all add: fine_def)
  have t: "I t" by (rule read_emulated_I [OF i(1) r])
  show ?thesis
    using i t r z [OF i(2)] I_J0 cmpxchg_emulated_I [OF t]
    by (auto simp: exec_cmpxchg8b_def Let_def executed_def fine_def split: prod.split)
qed

lemma exec_twobyte_special_ended:
  assumes "decoded e" "twobyte e" shows "ended executed (exec_twobyte_special ops ctxt e)"
proof -
  let ?e = "e\<lparr>e_dst := (e_dst e)\<lparr>op_orig := op_val (e_dst e)\<rparr>\<rparr>"
  have f: "fine ?e" using assms by (simp add: decoded_def fine_def)
  have n: "no_mem ?e" if "unat (e_b e) = 0x20 \<or> unat (e_b e) = 0x22"
    using assms that twobyte_special_entries by (auto simp: no_mem_def decoded_def)
  show ?thesis
    using exec_mov_cr_ended [OF f] n exec_cmpxchg8b_ended [OF f] f
    by (simp add: exec_twobyte_special_def Let_def ready_executed)
qed

section \<open>The whole instruction\<close>

lemma ended_mono: "ended P r \<Longrightarrow> (\<And>e. P e \<Longrightarrow> Q e) \<Longrightarrow> ended Q r"
  by (cases r) auto

lemma exec_insn_ended:
  assumes "decoded e" shows "ended executed (exec_insn u ops ctxt e)"
proof -
  have f: "fine e" using assms by (simp add: decoded_def)
  have "ended executed (if twobyte e' then exec_twobyte u ops e' else exec_onebyte u ops ctxt e')"
    if "ready e'" for e'
    using that exec_twobyte_ended ended_mono [OF exec_onebyte_ended ready_executed(1)] by simp
  then show ?thesis
    using exec_twobyte_special_ended [OF assms] ended_mono [OF exec_special_ended [OF f] ready_executed(2)]
      ended_and_then [OF decode_operands_ended [OF assms]]
    by (simp add: exec_insn_def)
qed

definition finished :: "emu \<Rightarrow> bool" where
  "finished e \<longleftrightarrow> J (e_eflags e) (e_vm e)"

lemma write_ended:
  assumes "I (e_vm e)" "same_flags (e_eflags e) f0" "I s"
  shows "ended finished (if rc \<noteq> X86EMUL_CONTINUE then Done rc (e\<lparr>e_vm := s\<rparr>) else Go (e\<lparr>e_vm := s\<rparr>))"
  using assms I_J I_J0 by (simp add: finished_def)

lemma writeback_ended:
  assumes "executed e" shows "ended finished (writeback ops e)"
proof (cases "fine e")
  case True
  then have i: "I (e_vm e)" "same_flags (e_eflags e) f0" by (simp_all add: fine_def)
  define m where "m = (let dst = e_dst e; a = (case op_ptr dst of MemPtr a \<Rightarrow> a | RegPtr k h \<Rightarrow> 0)
    in if lock_prefix e then cmpxchg_emulated ops a (op_orig dst) (op_val dst) (op_size dst) (e_vm e)
       else write_emulated ops a (op_val dst) (op_size dst) (e_vm e))"
  obtain rc s where rs: "m = (rc, s)" by fastforce
  have "I s"
    using rs cmpxchg_emulated_I [OF i(1)] write_emulated_I [OF i(1)] by (auto simp: m_def Let_def split: if_splits)
  then have "ended finished (case m of (rc, s) \<Rightarrow>
      if rc \<noteq> X86EMUL_CONTINUE then Done rc (e\<lparr>e_vm := s\<rparr>) else Go (e\<lparr>e_vm := s\<rparr>))"
    using write_ended [OF i] by (simp add: rs)
  moreover have "finished e" "finished (e\<lparr>e_regs := r\<rparr>)" for r using i I_J by (simp_all add: finished_def)
  ultimately show ?thesis
    unfolding writeback_def Let_def m_def by (cases "op_type (e_dst e)") simp_all
next
  case False
  then have "J (e_eflags e) (e_vm e)" "no_mem e" using assms by (auto simp: executed_def)
  then show ?thesis by (auto simp: writeback_def Let_def no_mem_def finished_def)
qed

lemma emulate_insn_ended:
  assumes "fine e" "\<not> twobyte e" shows "ended finished (emulate_insn u ops ctxt e)"
  unfolding emulate_insn_def
  by (rule ended_and_then [OF decode_insn_ended [OF assms]], rule ended_and_then [OF exec_insn_ended writeback_ended])

lemma commit_J: "finished e \<Longrightarrow> J (e_eflags e) (commit e)"
  by (simp add: finished_def commit_def regs_J)

text \<open>The contract of \<open>x86_emulate_memop\<close>.\<close>

lemma memop_frame:
  assumes "I s" "eflags ctxt = f0" "x86_emulate_memop u ops ctxt s = (r, ctxt', t)"
  shows "(r \<longrightarrow> I t \<and> ctxt' = ctxt) \<and> (\<not> r \<longrightarrow> J (eflags ctxt') t)"
proof -
  let ?e = "init_emu u ctxt s"
  have "fine ?e" "\<not> twobyte ?e"
    using assms(1,2) by (auto simp: init_emu_def fine_def same_flags_def Let_def split: prod.split)
  then have "ended finished (emulate_insn u ops ctxt ?e)" by (rule emulate_insn_ended)
  then show ?thesis
    using assms(2,3) commit_J by (auto simp: x86_emulate_memop_def split: outcome.splits)
qed

end

end
