(* ===== verification/Kvm_Emulator.thy ===== *)
theory Kvm_Emulator
  imports Emulator_Frame Exit_Dispatch
begin

text \<open>
  The instruction emulator on the memory operations of the module: \<open>emulate_ops\<close> of
  \<open>kvm_main.c\<close>. Two interpretations of \<open>emulator_frame\<close> give what every emulated instruction
  keeps: the contract the exit handlers rely on, and that a failure changes nothing but the
  request for an MMIO access.
\<close>

section \<open>The memory operations\<close>

definition emulate_ops :: x86_emulate_ops where
  "emulate_ops =
     \<lparr>read_std = (\<lambda>addr bytes s. let (rc, val) = emulator_read_std s addr bytes in (rc, val, s)),
      write_std = emulator_write_std,
      read_emulated = emulator_read_emulated,
      write_emulated = emulator_write_emulated,
      cmpxchg_emulated = emulator_cmpxchg_emulated\<rparr>"

text \<open>All they change is the MMIO request.\<close>

definition forget_mmio :: "vm \<Rightarrow> vm" where
  "forget_mmio s =
     s\<lparr>vcpu := (vcpu s)\<lparr>mmio_needed := False, mmio_phys_addr := 0, mmio_size := 0, mmio_is_write := False,
                        mmio_data := [], mmio_read_completed := False\<rparr>\<rparr>"

lemma emulate_ops_mmio:
  "read_std emulate_ops a n s = (rc, xs, t) \<Longrightarrow> t = s"
  "write_std emulate_ops a v n s = (rc, t) \<Longrightarrow> t = s"
  "read_emulated emulate_ops a n s = (rc, xs, t) \<Longrightarrow> forget_mmio t = forget_mmio s"
  "write_emulated emulate_ops a v n s = (rc, t) \<Longrightarrow> forget_mmio t = forget_mmio s"
  "cmpxchg_emulated emulate_ops a old v n s = (rc, t) \<Longrightarrow> forget_mmio t = forget_mmio s"
  by (auto simp: emulate_ops_def emulator_write_std_def emulator_read_emulated_def
      emulator_write_emulated_def emulator_cmpxchg_emulated_def set_mmio_def forget_mmio_def Let_def
      split: prod.splits if_splits)

section \<open>A failure changes nothing\<close>

interpretation failing: emulator_frame emulate_ops "\<lambda>s. forget_mmio s = v" "\<lambda>_ _. True" f0 for v f0
  by unfold_locales (auto dest: emulate_ops_mmio)

text \<open>
  C37: an instruction whose emulation fails has no effect: the registers, the flags, the control
  registers, the VMCS and the memory are as before, and all that is left of the attempt is the
  request for an MMIO access.
\<close>

theorem emulation_failure_no_effect:
  assumes "x86_emulate_memop u emulate_ops ctxt s = (True, ctxt', t)"
  shows "forget_mmio t = forget_mmio s \<and> ctxt' = ctxt"
  using failing.memop_frame [OF refl refl assms] by simp

definition example_emulation :: x86_emulate_ctxt where
  "example_emulation = \<lparr>eflags = 2, ctxt_cr2 = 0, ctxt_mode = X86EMUL_MODE_PROT32, cs_base = 0, ds_base = 0,
     es_base = 0, ss_base = 0, gs_base = 0, fs_base = 0\<rparr>"

text \<open>A virtual machine without memory cannot even fetch.\<close>

lemma example_emulation_fails:
  "x86_emulate_memop u emulate_ops example_emulation zero_vm = (True, example_emulation, zero_vm)"
proof -
  have r: "emulator_read_std zero_vm a 1 = (X86EMUL_UNHANDLEABLE, [])" if "a \<noteq> UNMAPPED_GVA" for a
    using that by (subst emulator_read_std.simps)
      (simp add: mmu_gva_to_gpa_def nonpaging_gva_to_gpa_def gfn_to_memslot_def zero_defs Let_def)
  let ?e = "init_emu u example_emulation zero_vm"
  have e: "e_vm ?e = zero_vm" "e_eip ?e + cs_base example_emulation = 0"
    by (simp_all add: init_emu_def mode_sizes_def example_emulation_def Let_def zero_vcpu_def zero_vm_def)
  have "insn_fetch emulate_ops example_emulation 1 k ?e = Done X86EMUL_UNHANDLEABLE ?e" for k
    using r [of 0] e by (simp add: insn_fetch_def emulate_ops_def UNMAPPED_GVA_def)
  then have "legacy_prefixes (Suc 7) emulate_ops example_emulation ?e = Done X86EMUL_UNHANDLEABLE ?e"
    unfolding legacy_prefixes.simps by simp
  then show ?thesis using e(1) by (simp add: x86_emulate_memop_def emulate_insn_def decode_insn_def)
qed

theorem emulation_failure_no_effect_witness:
  "\<exists>ctxt t. x86_emulate_memop \<lparr>undef_flags = 0, undef_val = 0\<rparr> emulate_ops example_emulation zero_vm = (True, ctxt, t) \<and>
     forget_mmio t = forget_mmio zero_vm"
  using emulation_failure_no_effect [OF example_emulation_fails] example_emulation_fails by blast

section \<open>The contract of the exit handlers\<close>

text \<open>The mode invariant, the flags of virtual 8086 mode and the pending interrupts.\<close>

definition kept :: "bool \<Rightarrow> u64 \<times> (nat \<Rightarrow> u64) \<Rightarrow> u64 \<Rightarrow> vm \<Rightarrow> bool" where
  "kept c q f s \<longleftrightarrow> irqs_of s = q \<and>
     (c \<longrightarrow> mode_ok s \<and> (rmode_active (rmode (vcpu s)) \<longrightarrow> f AND X86_EFLAGS_VM \<noteq> 0))"

lemma forget_mmioD:
  assumes "forget_mmio t = forget_mmio s"
  shows "irq_summary (vcpu t) = irq_summary (vcpu s)" "irq_pending (vcpu t) = irq_pending (vcpu s)"
    "rmode (vcpu t) = rmode (vcpu s)" "shadow_efer (vcpu t) = shadow_efer (vcpu s)" "vmcs t = vmcs s"
    "hmem t = hmem s" "memslots t = memslots s" "nmemslots t = nmemslots s"
    "regs (vcpu t) = regs (vcpu s)" "rip (vcpu t) = rip (vcpu s)"
  using arg_cong [OF assms, of "\<lambda>s. irq_summary (vcpu s)"] arg_cong [OF assms, of "\<lambda>s. irq_pending (vcpu s)"]
    arg_cong [OF assms, of "\<lambda>s. rmode (vcpu s)"] arg_cong [OF assms, of "\<lambda>s. shadow_efer (vcpu s)"]
    arg_cong [OF assms, of vmcs] arg_cong [OF assms, of hmem] arg_cong [OF assms, of memslots]
    arg_cong [OF assms, of nmemslots] arg_cong [OF assms, of "\<lambda>s. regs (vcpu s)"]
    arg_cong [OF assms, of "\<lambda>s. rip (vcpu s)"]
  by (simp_all add: forget_mmio_def)

lemma kept_fields:
  assumes "forget_mmio t = forget_mmio s"
  shows "kept c q f t = kept c q f s"
proof -
  note v = forget_mmioD [OF assms]
  have "mode_ok t = mode_ok s" by (intro mode_ok_reads) (simp_all add: v vmcs_readl_def)
  then show ?thesis using v by (simp add: kept_def irqs_of_def)
qed

lemma same_flags_vm:
  assumes "same_flags f g" shows "f AND X86_EFLAGS_VM = g AND X86_EFLAGS_VM"
proof -
  have "\<not> bit EFLAGS_MASK 17" by code_simp
  then have "bit f 17 = bit g 17"
    using arg_cong [OF assms [unfolded same_flags_def], of "\<lambda>w. bit w 17"] by (simp add: bit_and_iff bit_not_iff)
  then show ?thesis by (auto intro!: bit_word_eqI simp: bit_and_iff mask_bits)
qed

lemma rmode_inject_gp [simp]: "rmode (vcpu (inject_gp s)) = rmode (vcpu s)"
  by (simp add: inject_gp_def vmcs_simps)

lemma rmode_set_cr [simp]:
  "rmode (vcpu (set_cr3 v s)) = rmode (vcpu s)" "rmode (vcpu (set_cr4 v s)) = rmode (vcpu s)"
proof -
  have p: "rmode (vcpu t) = rmode (vcpu s)" if "pdptrs_have_reserved_bits_set root s = (b, t)" for root b t
    using cpu_viewD(5) [OF cpu_view_pdptrs [of root s]] that by simp
  have n: "rmode (vcpu (mmu_new_cr3 s)) = rmode (vcpu s)" "rmode (vcpu (kvm_mmu_reset_context s)) = rmode (vcpu s)"
    for s by (rule cpu_viewD, simp)+
  show "rmode (vcpu (set_cr3 v s)) = rmode (vcpu s)"
    by (auto simp: set_cr3_def n dest: p split: prod.split)
  have i: "rmode (vcpu (internal_set_cr4 v s)) = rmode (vcpu s)" for s
    by (simp add: internal_set_cr4_def vmcs_simps Let_def)
  show "rmode (vcpu (set_cr4 v s)) = rmode (vcpu s)"
    by (auto simp: set_cr4_def n i Let_def dest: p split: prod.split)
qed

lemma realmode_set_cr_kept:
  assumes "kept c q f s" "realmode_set_cr cr v f s = (g, t)"
  shows "kept c q g t"
proof -
  have m: "mode_ok (s\<lparr>vcpu := (vcpu s)\<lparr>cr2 := v\<rparr>\<rparr>) = mode_ok s"
    by (rule mode_ok_reads) (simp_all add: vmcs_simps)
  have i: "irqs_of (s\<lparr>vcpu := (vcpu s)\<lparr>cr2 := v\<rparr>\<rparr>) = irqs_of s" by (simp add: irqs_of_def)
  have r: "mode_ok u \<Longrightarrow> rmode_active (rmode (vcpu u)) \<Longrightarrow> vmcs_readl u GUEST_RFLAGS AND X86_EFLAGS_VM \<noteq> 0" for u
    by (simp add: mode_ok_def)
  show ?thesis
    using assms set_cr0_mode [of s] set_cr3_mode [of s] set_cr4_mode [of s] r
    by (auto simp: realmode_set_cr_def kept_def m i Let_def split: if_splits)
qed

lemma realmode_lmsw_kept:
  assumes "kept c q f s" "realmode_lmsw m s = (g, t)"
  shows "kept c q g t"
  using assms lmsw_mode [of s m] by (auto simp: realmode_lmsw_def kept_def Let_def mode_ok_def)

interpretation keeping: emulator_frame emulate_ops "kept c q f0" "kept c q" f0 for c q f0
proof unfold_locales
  fix s f l b m g t cr v
  assume s: "kept c q f0 s"
  show "same_flags f f0 \<Longrightarrow> kept c q f s" using s same_flags_vm [of f f0] by (simp add: kept_def)
  have d: "mode_ok (realmode_lgdt l b s) = mode_ok s" "mode_ok (realmode_lidt l b s) = mode_ok s"
    by (rule mode_ok_reads; auto simp: realmode_lgdt_def realmode_lidt_def vmcs_simps)+
  show "same_flags f f0 \<Longrightarrow> kept c q f (realmode_lgdt l b s)"
    "same_flags f f0 \<Longrightarrow> kept c q f (realmode_lidt l b s)"
    using s d same_flags_vm [of f f0] by (simp_all add: kept_def realmode_lgdt_def realmode_lidt_def vmcs_simps)
  show "same_flags f f0 \<Longrightarrow> realmode_lmsw m s = (g, t) \<Longrightarrow> kept c q g t"
    by (rule realmode_lmsw_kept [OF s])
  show "same_flags f f0 \<Longrightarrow> realmode_set_cr cr v f s = (g, t) \<Longrightarrow> kept c q g t"
  proof -
    assume "same_flags f f0" and e: "realmode_set_cr cr v f s = (g, t)"
    then have "kept c q f s" using s same_flags_vm [of f f0] by (simp add: kept_def)
    then show "kept c q g t" using e by (rule realmode_set_cr_kept)
  qed
next
  fix f s r p assume s: "kept c q f s"
  have "mode_ok (s\<lparr>vcpu := (vcpu s)\<lparr>regs := r, rip := p\<rparr>\<rparr>) = mode_ok s"
    by (rule mode_ok_reads) (simp_all add: vmcs_simps)
  then show "kept c q f (s\<lparr>vcpu := (vcpu s)\<lparr>regs := r, rip := p\<rparr>\<rparr>)"
    using s by (simp add: kept_def irqs_of_def)
qed (auto dest: emulate_ops_mmio kept_fields)

text \<open>
  C4: the emulator meets the contract that the exit handlers assume of it: whatever instruction
  it is given, in whatever mode, the mode invariant of the control registers holds afterwards,
  the flags show virtual 8086 mode while real mode is emulated, and no interrupt is lost.
\<close>

theorem emulator_memop_ok: "memop_ok (x86_emulate_memop u emulate_ops)"
  unfolding memop_ok_def
proof (intro allI impI)
  fix ctxt s r ctxt' t
  assume e: "x86_emulate_memop u emulate_ops ctxt s = (r, ctxt', t)"
  let ?c = "mode_ok s \<and> vm_flag ctxt s"
  have "kept ?c (irqs_of s) (eflags ctxt) s" by (auto simp: kept_def vm_flag_def)
  from keeping.memop_frame [OF this refl e] have "kept ?c (irqs_of s) (eflags ctxt') t" by (cases r) auto
  then show "irqs_of t = irqs_of s \<and> (mode_ok s \<and> vm_flag ctxt s \<longrightarrow> mode_ok t \<and> vm_flag ctxt' t)"
    by (auto simp: kept_def vm_flag_def)
qed

end
