(* ===== verification/Emulator_Mmio.thy ===== *)
theory Emulator_Mmio
  imports Kvm_Emulator Run
begin

text \<open>
  A load from and a store to a device, from the fault to the second emulation: the emulator asks
  for the access and gives up, user space answers through \<open>kvm_run\<close>, and the same instruction
  is emulated again with the answer. The instructions are the 32 bit moves between a register
  and the address in a register, \<open>8B /r\<close> and \<open>89 /r\<close>.
\<close>

section \<open>Translations do not depend on the MMIO request\<close>

definition walk_view ::
  "vm \<Rightarrow> memory \<times> (nat \<Rightarrow> kvm_memory_slot) \<times> nat \<times> (nat \<rightharpoonup> u64 list) \<times> kvm_mmu \<times> u64 \<times> u64 \<times> (nat \<Rightarrow> u64)" where
  "walk_view s = (hmem s, memslots s, nmemslots s, vheap s, mmu (vcpu s), cr3 (vcpu s), bad_page_address s, vmcs s)"

lemma walk_viewD:
  assumes "walk_view t = walk_view s"
  shows "hmem t = hmem s" "memslots t = memslots s" "nmemslots t = nmemslots s" "vheap t = vheap s"
    "mmu (vcpu t) = mmu (vcpu s)" "cr3 (vcpu t) = cr3 (vcpu s)" "bad_page_address t = bad_page_address s"
    "vmcs t = vmcs s"
  using assms by (simp_all add: walk_view_def)

lemma walk_view_slots:
  assumes v: "walk_view t = walk_view s"
  shows "gfn_to_memslot t = gfn_to_memslot s" "gfn_to_page t = gfn_to_page s"
    "safe_gpa_to_hpa t = safe_gpa_to_hpa s" "guest_read pt t = guest_read pt s"
    "is_pse t = is_pse s" "is_long_mode t = is_long_mode s"
proof -
  note d = walk_viewD [OF v]
  show g: "gfn_to_memslot t = gfn_to_memslot s" by (simp add: gfn_to_memslot_def d fun_eq_iff)
  show p: "gfn_to_page t = gfn_to_page s" by (simp add: gfn_to_page_def varray_def d fun_eq_iff)
  show "safe_gpa_to_hpa t = safe_gpa_to_hpa s"
    by (simp add: safe_gpa_to_hpa_def gpa_to_hpa_def g p d fun_eq_iff Let_def cong: option.case_cong)
  show "guest_read pt t = guest_read pt s" by (simp add: guest_read_def d fun_eq_iff split: pttype.split)
  show "is_pse t = is_pse s" "is_long_mode t = is_long_mode s"
    by (simp_all add: is_pse_def is_long_mode_def guest_cr4_def vmcs_readl_def vmcs_read32_def d)
qed

lemma walk_view_fetch:
  assumes v: "walk_view t = walk_view s"
  shows "fetch_guest_from n pt t l a w = fetch_guest_from n pt s l a w"
  by (induction n arbitrary: w) (simp_all only: fetch_guest_from.simps Let_def is_large_pde_def walk_view_slots [OF v])

lemma walk_view_gva:
  assumes v: "walk_view t = walk_view s"
  shows "mmu_gva_to_gpa t = mmu_gva_to_gpa s"
proof -
  have "init_walker t = init_walker s" by (simp add: init_walker_def walk_viewD [OF v] walk_view_slots [OF v])
  then have "paging_gva_to_gpa pt t = paging_gva_to_gpa pt s" for pt
    by (simp add: paging_gva_to_gpa_def fetch_guest_def walk_view_fetch [OF v] walk_view_slots [OF v] fun_eq_iff)
  then show ?thesis
    by (simp add: mmu_gva_to_gpa_def nonpaging_gva_to_gpa_def walk_viewD [OF v] fun_eq_iff
        split: option.split mmu_context.split)
qed

lemma walk_view_read_std:
  assumes v: "walk_view t = walk_view s"
  shows "emulator_read_std t a n = emulator_read_std s a n"
  using v
proof (induction t a n rule: emulator_read_std.induct)
  case (1 t a n)
  then show ?case
    by (subst (1 2) emulator_read_std.simps)
      (simp add: walk_view_gva [OF 1(2)] walk_view_slots [OF 1(2)] walk_viewD [OF 1(2)] Let_def
        split: option.split prod.split)
qed

section \<open>Decoding a move\<close>

lemma fetch_insn:
  assumes "emulator_read_std (e_vm e) (e_eip e + cs_base ctxt) n = (X86EMUL_CONTINUE, xs)"
  shows "insn_fetch emulate_ops ctxt n k e =
    k (take_bit (8 * n) (bytes_val xs)) (e\<lparr>e_eip := e_eip e + of_nat n\<rparr>)"
  using assms by (simp add: insn_fetch_def emulate_ops_def)

lemma bytes_val_one: "take_bit 8 (ucast b) = (ucast (b :: u8) :: u64)" "ucast (ucast b :: u64) = b"
  using bit_imp_le_length [of b] by (auto intro!: bit_eqI simp: bit_simps)

text \<open>An instruction of one opcode byte with a ModRM byte, outside 64 bit mode.\<close>

lemma decode_insn_plain:
  assumes r: "emulator_read_std (e_vm e) (e_eip e + cs_base ctxt) 1 = (X86EMUL_CONTINUE, [b])"
    and b: "legacy_prefix (ctxt_mode ctxt) b (e\<lparr>e_eip := e_eip e + 1, e_b := b\<rparr>) = None"
    and m: "ctxt_mode ctxt \<noteq> X86EMUL_MODE_PROT64" and d: "opcode_table ! unat b = d" "d \<noteq> 0"
  shows "decode_insn emulate_ops ctxt e =
    decode_modrm emulate_ops ctxt (e\<lparr>e_eip := e_eip e + 1, e_b := b, e_d := d\<rparr>)"
proof -
  have "legacy_prefixes (Suc 7) emulate_ops ctxt e = Go (e\<lparr>e_eip := e_eip e + 1, e_b := b\<rparr>)"
    unfolding legacy_prefixes.simps using fetch_insn [OF r] b by (simp add: bytes_val_one Let_def)
  then show ?thesis using m d by (simp add: decode_insn_def decode_rex_def decode_opcode_def Let_def)
qed

text \<open>The operand is at the address in a register, in 32 bit mode.\<close>

lemma decode_modrm_indirect:
  assumes r: "emulator_read_std (e_vm e) (e_eip e + cs_base ctxt) 1 = (X86EMUL_CONTINUE, [modrm])"
    and m: "ctxt_mode ctxt = X86EMUL_MODE_PROT32" "ad_bytes e = 4" "e_d e AND ModRM \<noteq> 0"
    and z: "modrm_mod e = 0" "modrm_reg e = 0" "modrm_rm e = 0" "override_base e = None" "\<not> rip_relative e"
    and x: "modrm AND 0xc0 = 0" "modrm AND 7 \<noteq> 4" "modrm AND 7 \<noteq> 5"
    and a: "a = take_bit 32 (e_regs e (unat (modrm AND 7)) + ds_base ctxt)"
  shows "decode_modrm emulate_ops ctxt e =
    Go (e\<lparr>e_eip := e_eip e + 1, modrm_reg := unat (drop_bit 3 (modrm AND 0x38)),
          modrm_rm := unat (modrm AND 7), modrm_ea := a, override_base := Some DsBase, e_cr2 := a\<rparr>)"
proof -
  let ?rm = "unat (modrm AND 7)"
  let ?e = "e\<lparr>e_eip := e_eip e + 1, modrm_reg := unat (drop_bit 3 (modrm AND 0x38)), modrm_rm := ?rm, modrm_ea := 0\<rparr>"
  have "modrm AND 7 = take_bit 3 modrm" by (simp add: take_bit_eq_mask mask_numeral)
  then have "?rm < 2 ^ 3" using take_bit_nat_less_exp [of 3 "unat modrm"] by (simp only: unsigned_take_bit_eq)
  then have n: "?rm \<noteq> 4" "?rm \<noteq> 5" "?rm \<noteq> 12" using x(2,3) by (simp_all add: word_unat_eq_iff)
  have f: "modrm_fields modrm (e\<lparr>e_eip := e_eip e + 1\<rparr>) = ?e"
    using z x by (simp add: modrm_fields_def)
  have "modrm32 emulate_ops ctxt ?e = Go (?e\<lparr>modrm_ea := e_regs e ?rm\<rparr>)"
    using n z by (simp add: modrm32_def disp32_def)
  then have "decode_address emulate_ops ctxt ?e = Go (finish_address ctxt (?e\<lparr>modrm_ea := e_regs e ?rm\<rparr>))"
    using m z by (simp add: decode_address_def)
  also have "finish_address ctxt (?e\<lparr>modrm_ea := e_regs e ?rm\<rparr>) =
      ?e\<lparr>modrm_ea := a, override_base := Some DsBase, e_cr2 := a\<rparr>"
    using m z a by (simp add: finish_address_def pick_segment_def linear_address_def base_of_def Let_def)
  finally show ?thesis
    using m(3) fetch_insn [OF r] f by (simp add: decode_modrm_def bytes_val_one)
qed

section \<open>The load\<close>

definition load_insn :: "u8 \<Rightarrow> x86_emulate_ctxt \<Rightarrow> vm \<Rightarrow> bool" where
  "load_insn modrm ctxt s \<longleftrightarrow> ctxt_mode ctxt = X86EMUL_MODE_PROT32 \<and>
     emulator_read_std s (rip (vcpu s) + cs_base ctxt) 1 = (X86EMUL_CONTINUE, [0x8b]) \<and>
     emulator_read_std s (rip (vcpu s) + 1 + cs_base ctxt) 1 = (X86EMUL_CONTINUE, [modrm]) \<and>
     modrm AND 0xc0 = 0 \<and> modrm AND 7 \<noteq> 4 \<and> modrm AND 7 \<noteq> 5"

definition load_address :: "u8 \<Rightarrow> x86_emulate_ctxt \<Rightarrow> vm \<Rightarrow> u64" where
  "load_address modrm ctxt s = take_bit 32 (regs (vcpu s) (unat (modrm AND 7)) + ds_base ctxt)"

lemma opcode_8b: "opcode_table ! 0x8b = 0xd4" "opcode_table ! 0x89 = 0xce"
  by code_simp+

lemma decode_load:
  assumes "load_insn modrm ctxt s"
  defines "a \<equiv> load_address modrm ctxt s"
  shows "decode_insn emulate_ops ctxt (init_emu u ctxt s) =
    Go ((init_emu u ctxt s)\<lparr>e_eip := rip (vcpu s) + 2, e_b := 0x8b, e_d := 0xd4,
          modrm_reg := unat (drop_bit 3 (modrm AND 0x38)), modrm_rm := unat (modrm AND 7),
          modrm_ea := a, override_base := Some DsBase, e_cr2 := a\<rparr>)"
proof -
  let ?e = "init_emu u ctxt s"
  note l = assms(1) [unfolded load_insn_def]
  have i: "e_vm ?e = s" "e_eip ?e = rip (vcpu s)" "ad_bytes ?e = 4" "e_regs ?e = regs (vcpu s)"
    "modrm_mod ?e = 0" "modrm_reg ?e = 0" "modrm_rm ?e = 0" "override_base ?e = None" "\<not> rip_relative ?e"
    using l by (simp_all add: init_emu_def mode_sizes_def Let_def)
  have d: "decode_insn emulate_ops ctxt ?e =
      decode_modrm emulate_ops ctxt (?e\<lparr>e_eip := e_eip ?e + 1, e_b := 0x8b, e_d := 0xd4\<rparr>)"
    by (rule decode_insn_plain) (use l i opcode_8b in \<open>simp_all add: legacy_prefix_def\<close>)
  have "decode_modrm emulate_ops ctxt (?e\<lparr>e_eip := e_eip ?e + 1, e_b := 0x8b, e_d := 0xd4\<rparr>) =
      Go (?e\<lparr>e_eip := rip (vcpu s) + 2, e_b := 0x8b, e_d := 0xd4,
          modrm_reg := unat (drop_bit 3 (modrm AND 0x38)), modrm_rm := unat (modrm AND 7),
          modrm_ea := a, override_base := Some DsBase, e_cr2 := a\<rparr>)"
    by (subst decode_modrm_indirect [of _ _ modrm a])
      (use l i in \<open>simp_all add: a_def load_address_def ModRM_def\<close>)
  then show ?thesis using d by simp
qed

lemma bytes_val_bits:
  "take_bit (8 * length xs) (bytes_val xs) = bytes_val xs"
proof (induction xs)
  case (Cons x xs)
  have "bit (bytes_val xs) m \<Longrightarrow> m < 8 * length xs" for m by (metis Cons bit_take_bit_iff)
  from this [of "n - 8" for n] have "bit (ucast x OR push_bit 8 (bytes_val xs)) n \<Longrightarrow> n < 8 + 8 * length xs" for n
    using bit_imp_le_length [of x n] by (fastforce simp: bit_simps)
  moreover have "8 * length (x # xs) = 8 + 8 * length xs" by simp
  ultimately show ?case by (intro bit_eqI) (simp only: bytes_val.simps bit_take_bit_iff, blast)
qed simp

lemma stored_low:
  "take_bit (8 * length xs) (stored old xs) = bytes_val xs"
proof -
  have "take_bit n (merge_value n old v) = take_bit n v" for n v
    by (rule bit_eqI) (auto simp: merge_value_def bit_simps)
  then show ?thesis by (simp add: stored_def bytes_val_bits)
qed

text \<open>What is left of the instruction after decoding: the read of the operand, and the register.\<close>

lemma exec_load:
  assumes e: "e_b e = 0x8b" "e_d e = 0xd4" "\<not> twobyte e" "op_bytes e = 4"
    and r: "read_emulated emulate_ops (e_cr2 e) 4 (e_vm e) = (rc, xs, t)"
  shows "rc \<noteq> X86EMUL_CONTINUE \<Longrightarrow>
      \<exists>e'. and_then (exec_insn u emulate_ops ctxt e) (writeback emulate_ops) = Done rc e' \<and> e_vm e' = t"
    "rc = X86EMUL_CONTINUE \<Longrightarrow> length xs = 4 \<Longrightarrow>
      \<exists>e'. and_then (exec_insn u emulate_ops ctxt e) (writeback emulate_ops) = Go e' \<and> e_vm e' = t \<and>
        e_eip e' = e_eip e \<and> e_eflags e' = e_eflags e \<and> e_regs e' = (e_regs e)(modrm_reg e := bytes_val xs)"
proof -
  have m: "merge_value 64 a b = b" for a b by (rule bit_eqI) (auto simp: merge_value_def bit_simps)
  have w: "write_operand 4 v (RegPtr k False) f = f(k := take_bit 32 v)" for v k f
    by (simp add: write_operand_def store_ptr_def m)
  have d: "DstReg = 4" "DstMask = 6" "ByteOp = 1" "ImplicitOps = 2" "SrcMask = 0x38" "SrcMem = 0x10" "SrcReg = 8"
    "SrcMem16 = 0x18" "SrcMem32 = 0x20" "Mov = 0x80"
    by (simp_all add: DstReg_def DstMask_def ByteOp_def ImplicitOps_def SrcMask_def SrcMem_def SrcReg_def
        SrcMem16_def SrcMem32_def Mov_def)
  note defs = exec_insn_def decode_operands_def decode_dst_def decode_src_def src_mem_def exec_onebyte_def
    decode_register_def set_dst_def writeback_def
  show "\<exists>e'. and_then (exec_insn u emulate_ops ctxt e) (writeback emulate_ops) = Done rc e' \<and> e_vm e' = t"
    if "rc \<noteq> X86EMUL_CONTINUE"
    using that r by (simp add: defs e d Let_def)
  show "\<exists>e'. and_then (exec_insn u emulate_ops ctxt e) (writeback emulate_ops) = Go e' \<and> e_vm e' = t \<and>
        e_eip e' = e_eip e \<and> e_eflags e' = e_eflags e \<and> e_regs e' = (e_regs e)(modrm_reg e := bytes_val xs)"
    if "rc = X86EMUL_CONTINUE" "length xs = 4"
    using that r stored_low [of xs] by (simp add: defs e d w Let_def)
qed

lemma read_device:
  assumes "mmu_gva_to_gpa s a = gpa" "gpa \<noteq> UNMAPPED_GVA" "gfn_to_memslot s (drop_bit PAGE_SHIFT gpa) = None"
    "\<not> mmio_read_completed (vcpu s)" "0 < n"
  shows "read_emulated emulate_ops a n s = (X86EMUL_UNHANDLEABLE, [], set_mmio gpa n False s)"
proof -
  have "emulator_read_std s a n = (X86EMUL_UNHANDLEABLE, [])"
    using assms by (subst emulator_read_std.simps) (simp add: Let_def)
  then show ?thesis using assms by (simp add: emulate_ops_def emulator_read_emulated_def)
qed

lemma read_answer:
  assumes "mmio_read_completed (vcpu s)"
  shows "read_emulated emulate_ops a n s =
    (X86EMUL_CONTINUE, take n (mmio_data (vcpu s)), s\<lparr>vcpu := (vcpu s)\<lparr>mmio_read_completed := False\<rparr>\<rparr>)"
  using assms by (simp add: emulate_ops_def emulator_read_emulated_def)


definition example_mmio :: vm where
  "example_mmio = example_shadow\<lparr>hmem := (\<lambda>a. if a = 0x9000 then 0x8b else if a = 0x9001 then 0x03 else 0),
     vcpu := (vcpu example_shadow)\<lparr>regs := (\<lambda>_. 0)(3 := 0x100000), rip := 0, mmio_read_completed := False\<rparr>\<rparr>"

definition example_ctxt :: x86_emulate_ctxt where
  "example_ctxt = \<lparr>eflags = 2, ctxt_cr2 = 0x100000, ctxt_mode = X86EMUL_MODE_PROT32, cs_base = 0, ds_base = 0,
     es_base = 0, ss_base = 0, gs_base = 0, fs_base = 0\<rparr>"

lemma read_std_byte:
  assumes "mmu_gva_to_gpa s a = gpa" "gpa \<noteq> UNMAPPED_GVA" "gfn_to_memslot s (drop_bit PAGE_SHIFT gpa) = Some i"
    "page_offset a < 4096"
  shows "emulator_read_std s a 1 = (X86EMUL_CONTINUE,
    [hmem s (push_bit PAGE_SHIFT (gfn_to_page s (memslots s i) (drop_bit PAGE_SHIFT gpa)) + of_nat (page_offset a))])"
proof -
  have "emulator_read_std s b 0 = (X86EMUL_CONTINUE, [])" for b by (subst emulator_read_std.simps) simp
  moreover have "min (Suc 0) (4096 - page_offset a) = Suc 0" using assms(4) by linarith
  ultimately show ?thesis
    using assms(1-3) by (subst emulator_read_std.simps) (simp add: Let_def bytes_at_def)
qed

lemma example_mmio_slots:
  "mmu_gva_to_gpa example_mmio a = a" "hmem example_mmio 0x9000 = 0x8b" "hmem example_mmio 0x9001 = 0x03"
  "gfn_to_memslot example_mmio 0 = Some 0" "gfn_to_memslot example_mmio 0x100 = None"
  "gfn_to_page example_mmio (memslots example_mmio 0) 0 = 9"
  by (simp_all add: example_mmio_def example_shadow_def mmu_gva_to_gpa_def nonpaging_gva_to_gpa_def
      gfn_to_memslot_def gfn_in_slot_def gfn_to_page_def varray_def arr_get_def zero_defs)

lemma example_mmio_load:
  "load_insn 3 example_ctxt example_mmio" "load_address 3 example_ctxt example_mmio = 0x100000"
proof -
  have f: "emulator_read_std example_mmio 0 1 = (X86EMUL_CONTINUE, [0x8b])"
    "emulator_read_std example_mmio 1 1 = (X86EMUL_CONTINUE, [3])"
    using read_std_byte [of example_mmio 0 0 0] read_std_byte [of example_mmio 1 1 0]
    by (simp_all add: example_mmio_slots page_offset_def PAGE_MASK_def PAGE_SIZE_def UNMAPPED_GVA_def PAGE_SHIFT_def)
  show "load_insn 3 example_ctxt example_mmio"
    using f by (simp add: load_insn_def example_ctxt_def example_mmio_def)
  show "load_address 3 example_ctxt example_mmio = 0x100000"
    by (simp add: load_address_def example_ctxt_def example_mmio_def)
qed


end
